(* ===== verification/Prelude.thy ===== *)
theory Prelude
  imports Main "HOL-Library.List_Lexorder" "HOL-Library.Sublist"
begin

text \<open>
  Shared vocabulary of the development.

  \<^item> Strings: a JavaScript string is a sequence of UTF-16 code units, so \<open>jstr\<close> is a list of
    natural numbers (a real string has units below 65536, the predicate \<open>js_ok\<close>); \<open>js\<close> turns
    an ASCII literal into one.  \<open>HOL-Library.List_Lexorder\<close> gives \<open>jstr\<close> the code-unit order of
    JavaScript's \<open><\<close> and of \<open>Array.prototype.sort\<close> without a comparator.
  \<^item> Errors: a computation that may throw returns \<open>'e + 'a\<close>; \<open>bindE\<close> sequences two of them
    and \<open>ensure\<close> is the guard \<open>if (!c) throw e\<close>.
  \<^item> The string methods of the standard library that the source uses: \<open>split\<close> on one unit,
    \<open>join\<close>, \<open>startsWith\<close>, \<open>endsWith\<close>, \<open>includes\<close>, \<open>indexOf\<close>, \<open>trim\<close>, decimal printing.
\<close>

section \<open>Rewrite collections\<close>

named_theorems js_eval \<open>equations that evaluate string operations on literals\<close>
named_theorems frame \<open>which parts of a state an operation leaves alone\<close>

section \<open>Strings\<close>

type_synonym jstr = "nat list"

definition js :: "string \<Rightarrow> jstr" where
  "js s = map of_char s"

definition js_ok :: "jstr \<Rightarrow> bool" where
  "js_ok s \<longleftrightarrow> (\<forall>u\<in>set s. u < 65536)"

lemma js_inject [simp]: "js a = js b \<longleftrightarrow> a = b"
  unfolding js_def by (metis inj_map_eq_map inj_of_char)

lemma js_Nil [simp]: "js [] = []"
  by (simp add: js_def)

lemma js_eq_Nil [simp]: "js s = [] \<longleftrightarrow> s = []"
  by (simp add: js_def)

lemma length_js [simp]: "length (js s) = length s"
  by (simp add: js_def)

declare js_def [js_eval]

lemma js_ok_simps [simp]:
  "js_ok []" "js_ok (u # s) \<longleftrightarrow> u < 65536 \<and> js_ok s" "js_ok (s @ t) \<longleftrightarrow> js_ok s \<and> js_ok t"
  by (auto simp: js_ok_def)

subsection \<open>Classes of code units\<close>

definition is_digit :: "nat \<Rightarrow> bool" where
  "is_digit u \<longleftrightarrow> 48 \<le> u \<and> u \<le> 57"

definition is_lower :: "nat \<Rightarrow> bool" where
  "is_lower u \<longleftrightarrow> 97 \<le> u \<and> u \<le> 122"

definition is_upper :: "nat \<Rightarrow> bool" where
  "is_upper u \<longleftrightarrow> 65 \<le> u \<and> u \<le> 90"

definition is_alnum :: "nat \<Rightarrow> bool" where
  "is_alnum u \<longleftrightarrow> is_digit u \<or> is_lower u \<or> is_upper u"

text \<open>\<open>[0-9a-f]\<close>, the hexadecimal alphabet of ids and tokens.\<close>

definition is_lower_hex :: "nat \<Rightarrow> bool" where
  "is_lower_hex u \<longleftrightarrow> is_digit u \<or> (97 \<le> u \<and> u \<le> 102)"

text \<open>\<open>[\x00-\x1f\x7f]\<close>, the control characters the path rules reject.\<close>

definition is_control :: "nat \<Rightarrow> bool" where
  "is_control u \<longleftrightarrow> u < 32 \<or> u = 127"

text \<open>The white space of \<open>String.prototype.trim\<close> and of \<open>\s\<close> in a regular expression.\<close>

definition is_space :: "nat \<Rightarrow> bool" where
  "is_space u \<longleftrightarrow> (9 \<le> u \<and> u \<le> 13) \<or> u = 32 \<or> u = 160 \<or> u = 5760 \<or>
     (8192 \<le> u \<and> u \<le> 8202) \<or> u = 8232 \<or> u = 8233 \<or> u = 8239 \<or> u = 8287 \<or>
     u = 12288 \<or> u = 65279"

text \<open>What \<open>.\<close> does not match in a regular expression without the \<open>s\<close> flag.\<close>

definition is_line_terminator :: "nat \<Rightarrow> bool" where
  "is_line_terminator u \<longleftrightarrow> u = 10 \<or> u = 13 \<or> u = 8232 \<or> u = 8233"

lemmas unit_class_defs = is_digit_def is_lower_def is_upper_def is_alnum_def is_lower_hex_def
  is_control_def is_space_def is_line_terminator_def

declare unit_class_defs [js_eval]

subsection \<open>String methods\<close>

definition starts_with :: "jstr \<Rightarrow> jstr \<Rightarrow> bool" where
  "starts_with p s \<longleftrightarrow> take (length p) s = p"

definition ends_with :: "jstr \<Rightarrow> jstr \<Rightarrow> bool" where
  "ends_with p s \<longleftrightarrow> length p \<le> length s \<and> drop (length s - length p) s = p"

fun has_sub :: "jstr \<Rightarrow> jstr \<Rightarrow> bool" where
  "has_sub p [] \<longleftrightarrow> p = []"
| "has_sub p (u # s) \<longleftrightarrow> starts_with p (u # s) \<or> has_sub p s"

declare has_sub.simps [js_eval] starts_with_def [js_eval] ends_with_def [js_eval]

lemma starts_with_iff: "starts_with p s \<longleftrightarrow> (\<exists>t. s = p @ t)"
  unfolding starts_with_def by (metis append_eq_conv_conj append_take_drop_id)

lemma starts_with_append [simp]: "starts_with p (p @ t)"
  by (auto simp: starts_with_iff)

lemma starts_with_Cons [simp]:
  "starts_with [] s" "starts_with (a # p) (b # s) \<longleftrightarrow> a = b \<and> starts_with p s"
  "\<not> starts_with (a # p) []"
  by (auto simp: starts_with_def)

lemma ends_with_iff: "ends_with p s \<longleftrightarrow> (\<exists>t. s = t @ p)"
proof
  assume "ends_with p s"
  then have "s = take (length s - length p) s @ p"
    by (metis append_take_drop_id ends_with_def)
  then show "\<exists>t. s = t @ p" by blast
qed (auto simp: ends_with_def)

lemma has_sub_iff: "has_sub p s \<longleftrightarrow> (\<exists>a b. s = a @ p @ b)"
proof (induction s)
  case Nil
  then show ?case by auto
next
  case (Cons u s)
  show ?case
  proof
    assume "has_sub p (u # s)"
    then consider (here) t where "u # s = p @ t" | (later) a b where "s = a @ p @ b"
      using Cons.IH by (auto simp only: has_sub.simps starts_with_iff)
    then show "\<exists>a b. u # s = a @ p @ b"
    proof cases
      case here
      then show ?thesis by (intro exI [of _ "[]"] exI [of _ t]) simp
    next
      case later
      then show ?thesis by (intro exI [of _ "u # a"] exI [of _ b]) simp
    qed
  next
    assume "\<exists>a b. u # s = a @ p @ b"
    then obtain a b where ab: "u # s = a @ p @ b" by blast
    show "has_sub p (u # s)"
    proof (cases a)
      case Nil
      with ab have "starts_with p (u # s)" by (simp only: append_Nil starts_with_append)
      then show ?thesis by simp
    next
      case (Cons v a')
      with ab have "s = a' @ p @ b" by simp
      then show ?thesis using Cons.IH by auto
    qed
  qed
qed

lemma has_sub_append: "has_sub p s \<Longrightarrow> has_sub p (a @ s @ b)"
proof -
  assume "has_sub p s"
  then obtain x y where "s = x @ p @ y" by (auto simp: has_sub_iff)
  then have "a @ s @ b = (a @ x) @ p @ (y @ b)" by simp
  then show ?thesis unfolding has_sub_iff by blast
qed

lemma has_sub_set: "has_sub p s \<Longrightarrow> set p \<subseteq> set s"
  by (auto simp: has_sub_iff)

text \<open>\<open>s.split(c)\<close> for a one-unit separator and \<open>xs.join(p)\<close>.\<close>

fun split_on :: "nat \<Rightarrow> jstr \<Rightarrow> jstr list" where
  "split_on c [] = [[]]"
| "split_on c (u # s) =
     (if u = c then [] # split_on c s
      else (case split_on c s of [] \<Rightarrow> [[u]] | x # xs \<Rightarrow> (u # x) # xs))"

fun join :: "jstr \<Rightarrow> jstr list \<Rightarrow> jstr" where
  "join p [] = []"
| "join p [x] = x"
| "join p (x # y # xs) = x @ p @ join p (y # xs)"

declare split_on.simps [js_eval] join.simps [js_eval]

lemma split_on_neq_Nil [simp]: "split_on c s \<noteq> []"
  by (induction s) (auto split: list.splits)

lemma join_Cons: "join p (x # xs) = (if xs = [] then x else x @ p @ join p xs)"
  by (cases xs) auto

lemma join_split_on [simp]: "join [c] (split_on c s) = s"
proof (induction s)
  case Nil
  then show ?case by simp
next
  case (Cons u s)
  obtain x xs where "split_on c s = x # xs" by (cases "split_on c s") auto
  with Cons show ?case by (auto simp: join_Cons split: if_splits)
qed

lemma split_on_no_sep: "c \<notin> set s \<Longrightarrow> split_on c s = [s]"
  by (induction s) auto

lemma split_on_append: "c \<notin> set x \<Longrightarrow> split_on c (x @ c # s) = x # split_on c s"
  by (induction x) auto

lemma split_on_join:
  "xs \<noteq> [] \<Longrightarrow> (\<forall>x\<in>set xs. c \<notin> set x) \<Longrightarrow> split_on c (join [c] xs) = xs"
  by (induction "[c]" xs rule: join.induct) (auto simp: split_on_no_sep split_on_append)

lemma split_on_sep_free: "x \<in> set (split_on c s) \<Longrightarrow> c \<notin> set x"
proof (induction s arbitrary: x)
  case Nil
  then show ?case by simp
next
  case (Cons u s)
  then show ?case by (auto split: if_splits list.splits)
qed

lemma set_split_on: "x \<in> set (split_on c s) \<Longrightarrow> set x \<subseteq> set s"
proof (induction s arbitrary: x)
  case Nil
  then show ?case by simp
next
  case (Cons u s)
  then show ?case by (fastforce split: if_splits list.splits)
qed

lemma length_join:
  "length (join p xs) = sum_list (map length xs) + (length xs - 1) * length p"
  by (induction p xs rule: join.induct) (auto simp: algebra_simps)

lemma set_join: "set (join p xs) \<subseteq> (\<Union>x\<in>set xs. set x) \<union> set p"
  by (induction p xs rule: join.induct) auto

text \<open>\<open>s.trim()\<close>.\<close>

definition trim_start :: "jstr \<Rightarrow> jstr" where
  "trim_start s = dropWhile is_space s"

definition trim :: "jstr \<Rightarrow> jstr" where
  "trim s = rev (trim_start (rev (trim_start s)))"

declare trim_def [js_eval] trim_start_def [js_eval]

text \<open>\<open>s.slice(from, to)\<close> for \<open>0 \<le> from\<close>, \<open>0 \<le> to\<close>.\<close>

definition slice :: "nat \<Rightarrow> nat \<Rightarrow> jstr \<Rightarrow> jstr" where
  "slice a b s = drop a (take b s)"

subsection \<open>Decimal numerals\<close>

fun show_nat :: "nat \<Rightarrow> jstr" where
  "show_nat n = (if n < 10 then [48 + n] else show_nat (n div 10) @ [48 + n mod 10])"

declare show_nat.simps [simp del]

definition read_nat :: "jstr \<Rightarrow> nat" where
  "read_nat s = foldl (\<lambda>a u. 10 * a + (u - 48)) 0 s"

lemma read_nat_snoc: "read_nat (s @ [u]) = 10 * read_nat s + (u - 48)"
  by (simp add: read_nat_def)

lemma read_show_nat [simp]: "read_nat (show_nat n) = n"
proof (induction n rule: show_nat.induct)
  case (1 n)
  show ?case
  proof (cases "n < 10")
    case True
    then show ?thesis by (simp add: show_nat.simps [of n] read_nat_def)
  next
    case False
    with 1 show ?thesis
      by (simp add: show_nat.simps [of n] read_nat_snoc)
  qed
qed

lemma show_nat_digits: "list_all is_digit (show_nat n)"
proof (induction n rule: show_nat.induct)
  case (1 n)
  then show ?case
    by (cases "n < 10") (auto simp: show_nat.simps [of n] is_digit_def)
qed

lemma show_nat_neq_Nil [simp]: "show_nat n \<noteq> []"
  by (subst show_nat.simps) simp

lemma length_show_nat: "n < 10 ^ k \<Longrightarrow> 0 < k \<Longrightarrow> length (show_nat n) \<le> k"
proof (induction k arbitrary: n)
  case 0
  then show ?case by simp
next
  case (Suc k)
  show ?case
  proof (cases "n < 10")
    case True
    then show ?thesis by (simp add: show_nat.simps [of n])
  next
    case False
    with Suc.prems have "0 < k" by (cases k) auto
    moreover from Suc.prems have "n div 10 < 10 ^ k" by (simp add: less_mult_imp_div_less mult.commute)
    ultimately have "length (show_nat (n div 10)) \<le> k" using Suc.IH by blast
    with False show ?thesis by (simp add: show_nat.simps [of n])
  qed
qed

definition show_int :: "int \<Rightarrow> jstr" where
  "show_int i = (if i < 0 then 45 # show_nat (nat (- i)) else show_nat (nat i))"

text \<open>\<open>[...new Set(xs)]\<close>: the first occurrences, in order.\<close>

fun dedup :: "'a list \<Rightarrow> 'a list" where
  "dedup [] = []"
| "dedup (x # xs) = x # filter (\<lambda>y. y \<noteq> x) (dedup xs)"

lemma set_dedup [simp]: "set (dedup xs) = set xs"
  by (induction xs) auto

lemma distinct_dedup [simp]: "distinct (dedup xs)"
  by (induction xs) auto

lemma dedup_distinct [simp]: "distinct xs \<Longrightarrow> dedup xs = xs"
proof (induction xs)
  case (Cons x xs)
  then show ?case by (simp add: filter_id_conv) (metis)
qed simp

lemma trim_Nil_iff: "trim s = [] \<longleftrightarrow> list_all is_space s"
proof -
  have "dropWhile is_space (rev t) = [] \<longleftrightarrow> list_all is_space t" for t
    by (auto simp: dropWhile_eq_Nil_conv list_all_iff)
  moreover have "list_all is_space (dropWhile is_space s) \<longleftrightarrow> list_all is_space s"
    by (induction s) auto
  ultimately show ?thesis by (simp add: trim_def trim_start_def)
qed

section \<open>Errors\<close>

fun bindE :: "'e + 'a \<Rightarrow> ('a \<Rightarrow> 'e + 'b) \<Rightarrow> 'e + 'b" where
  "bindE (Inl e) f = Inl e"
| "bindE (Inr x) f = f x"

definition ensure :: "bool \<Rightarrow> 'e \<Rightarrow> 'e + unit" where
  "ensure c e = (if c then Inr () else Inl e)"

lemma bindE_Inr_iff: "bindE m f = Inr y \<longleftrightarrow> (\<exists>x. m = Inr x \<and> f x = Inr y)"
  by (cases m) auto

lemma bindE_Inl_iff: "bindE m f = Inl e \<longleftrightarrow> m = Inl e \<or> (\<exists>x. m = Inr x \<and> f x = Inl e)"
  by (cases m) auto

lemma ensure_Inr_iff [simp]: "ensure c e = Inr u \<longleftrightarrow> c"
  by (simp add: ensure_def)

lemma ensure_Inl_iff [simp]: "ensure c e = Inl e' \<longleftrightarrow> \<not> c \<and> e' = e"
  by (auto simp: ensure_def)

lemma ensure_True [simp]: "ensure True e = Inr ()"
  by (simp add: ensure_def)

lemmas err_simps = bindE_Inr_iff bindE_Inl_iff

text \<open>\<open>for (const x of xs) s = f(x, s)\<close> where the body may throw.\<close>

fun foldE :: "('a \<Rightarrow> 's \<Rightarrow> 'e + 's) \<Rightarrow> 'a list \<Rightarrow> 's \<Rightarrow> 'e + 's" where
  "foldE f [] s = Inr s"
| "foldE f (x # xs) s = bindE (f x s) (foldE f xs)"

lemma foldE_invariant:
  assumes "\<And>x s s'. x \<in> set xs \<Longrightarrow> I s \<Longrightarrow> f x s = Inr s' \<Longrightarrow> I s'"
    and "foldE f xs s = Inr s'" and "I s"
  shows "I s'"
  using assms
proof (induction xs arbitrary: s)
  case Nil
  then show ?case by simp
next
  case (Cons x xs)
  from Cons.prems(2) obtain t where "f x s = Inr t" "foldE f xs t = Inr s'"
    by (auto simp: bindE_Inr_iff)
  with Cons show ?case by (metis list.set_intros)
qed

end
