(* ===== verification/Json.thy ===== *)
theory Json
  imports Prelude Complex_Main "HOL-Library.Multiset"
begin

text \<open>
  The JSON values the program exchanges (\<open>JSON.parse\<close>, \<open>JSON.stringify\<close> of the standard
  library and \<open>canonicalJson\<close> of \<open>packages/contract/src/round-trip.ts\<close>).

  Strings are modelled exactly, including the escaping of lone surrogates.  Doubles are opaque
  to the model: what the runtime prints and reads for a number is the parameter \<open>num_codec\<close>,
  and \<open>num_ok\<close> states the documented round trip of \<open>Number.prototype.toString\<close> where a
  theorem needs it.  The parser takes fuel, one unit per nested call; the length of the text
  is always enough, as the round-trip theorem shows.
\<close>

section \<open>Values\<close>

datatype number = Fin rat | PInf | NInf | NaN

datatype json =
    JNull
  | JBool bool
  | JNum number
  | JStr jstr
  | JArr "json list"
  | JObj "(jstr \<times> json) list"

text \<open>How the runtime prints a finite number and what it reads for a numeric literal.\<close>

record num_codec =
  show_num :: "number \<Rightarrow> jstr"
  read_num :: "jstr \<Rightarrow> number"

definition is_finite :: "number \<Rightarrow> bool" where
  "is_finite n = (case n of Fin _ \<Rightarrow> True | _ \<Rightarrow> False)"

text \<open>\<open>Number.isSafeInteger\<close>: an integer of absolute value at most \<open>2^53 - 1\<close>.\<close>

definition safe_int :: "number \<Rightarrow> int option" where
  "safe_int n = (case n of
      Fin q \<Rightarrow> (if q = of_int \<lfloor>q\<rfloor> \<and> \<bar>\<lfloor>q\<rfloor>\<bar> \<le> 9007199254740991 then Some \<lfloor>q\<rfloor> else None)
    | _ \<Rightarrow> None)"

text \<open>An own property of an object; \<open>None\<close> is \<open>undefined\<close>.\<close>

fun obj_get :: "jstr \<Rightarrow> (jstr \<times> json) list \<Rightarrow> json option" where
  "obj_get k [] = None"
| "obj_get k ((k', v) # kvs) = (if k' = k then Some v else obj_get k kvs)"

text \<open>A repeated key of the text overwrites the value and keeps the position of the first.\<close>

fun obj_put :: "jstr \<Rightarrow> json \<Rightarrow> (jstr \<times> json) list \<Rightarrow> (jstr \<times> json) list" where
  "obj_put k v [] = [(k, v)]"
| "obj_put k v ((k', w) # kvs) = (if k' = k then (k, v) # kvs else (k', w) # obj_put k v kvs)"

definition str_of :: "json \<Rightarrow> jstr option" where
  "str_of j = (case j of JStr s \<Rightarrow> Some s | _ \<Rightarrow> None)"

fun strs_of :: "json list \<Rightarrow> jstr list option" where
  "strs_of [] = Some []"
| "strs_of (JStr s # vs) = map_option (Cons s) (strs_of vs)"
| "strs_of (_ # vs) = None"

text \<open>\<open>Array.isArray(v) && v.every(x => typeof x === 'string')\<close>.\<close>

definition str_array_of :: "json \<Rightarrow> jstr list option" where
  "str_array_of j = (case j of JArr vs \<Rightarrow> strs_of vs | _ \<Rightarrow> None)"

lemma strs_of_map [simp]: "strs_of (map JStr xs) = Some xs"
  by (induction xs) auto

lemma str_array_of_map [simp]: "str_array_of (JArr (map JStr xs)) = Some xs"
  by (simp add: str_array_of_def)

lemma str_of_simps [simp]: "str_of (JStr s) = Some s" "str_of JNull = None"
  by (simp_all add: str_of_def)

section \<open>Strings in JSON text\<close>

definition is_high :: "nat \<Rightarrow> bool" where
  "is_high u \<longleftrightarrow> 55296 \<le> u \<and> u \<le> 56319"

definition is_low :: "nat \<Rightarrow> bool" where
  "is_low u \<longleftrightarrow> 56320 \<le> u \<and> u \<le> 57343"

definition hex_digit :: "nat \<Rightarrow> nat" where
  "hex_digit d = (if d < 10 then 48 + d else 87 + d)"

definition hex_val :: "nat \<Rightarrow> nat option" where
  "hex_val u = (if 48 \<le> u \<and> u \<le> 57 then Some (u - 48)
     else if 97 \<le> u \<and> u \<le> 102 then Some (u - 87)
     else if 65 \<le> u \<and> u \<le> 70 then Some (u - 55) else None)"

definition unicode_escape :: "nat \<Rightarrow> jstr" where
  "unicode_escape u = [92, 117, hex_digit (u div 4096 mod 16), hex_digit (u div 256 mod 16),
     hex_digit (u div 16 mod 16), hex_digit (u mod 16)]"

text \<open>\<open>QuoteJSONString\<close>: the short escapes, \<open>\uXXXX\<close> for the other controls and for lone
  surrogates, everything else verbatim (U+2028 and U+2029 included).\<close>

definition quote_unit :: "nat \<Rightarrow> jstr" where
  "quote_unit u =
    (if u = 34 then [92, 34] else if u = 92 then [92, 92]
     else if u = 8 then [92, 98] else if u = 12 then [92, 102] else if u = 10 then [92, 110]
     else if u = 13 then [92, 114] else if u = 9 then [92, 116]
     else if u < 32 \<or> is_high u \<or> is_low u then unicode_escape u else [u])"

fun quote_body :: "jstr \<Rightarrow> jstr" where
  "quote_body [] = []"
| "quote_body [u] = quote_unit u"
| "quote_body (u # v # s) =
     (if is_high u \<and> is_low v then u # v # quote_body s else quote_unit u @ quote_body (v # s))"

definition quote :: "jstr \<Rightarrow> jstr" where
  "quote s = 34 # quote_body s @ [34]"

definition unescape :: "nat \<Rightarrow> nat option" where
  "unescape e = (if e = 34 \<or> e = 92 \<or> e = 47 then Some e else if e = 98 then Some 8
     else if e = 102 then Some 12 else if e = 110 then Some 10 else if e = 114 then Some 13
     else if e = 116 then Some 9 else None)"

definition hex4 :: "nat \<Rightarrow> nat \<Rightarrow> nat \<Rightarrow> nat \<Rightarrow> nat option" where
  "hex4 a b c d = (case (hex_val a, hex_val b, hex_val c, hex_val d) of
      (Some w, Some x, Some y, Some z) \<Rightarrow> Some (((w * 16 + x) * 16 + y) * 16 + z)
    | _ \<Rightarrow> None)"

definition cons_fst :: "nat \<Rightarrow> (jstr \<times> jstr) option \<Rightarrow> (jstr \<times> jstr) option" where
  "cons_fst u r = map_option (\<lambda>(s, t). (u # s, t)) r"

text \<open>The text after an opening quote: the string and what follows its closing quote.\<close>

function (sequential) unquote_body :: "jstr \<Rightarrow> (jstr \<times> jstr) option" where
  "unquote_body [] = None"
| "unquote_body (u # s) =
    (if u = 34 then Some ([], s)
     else if u = 92 then
       (case s of
          [] \<Rightarrow> None
        | e # t \<Rightarrow>
          (if e = 117 then
             (case t of
                a # b # c # d # t' \<Rightarrow>
                  (case hex4 a b c d of None \<Rightarrow> None | Some v \<Rightarrow> cons_fst v (unquote_body t'))
              | _ \<Rightarrow> None)
           else (case unescape e of None \<Rightarrow> None | Some v \<Rightarrow> cons_fst v (unquote_body t))))
     else if u < 32 then None
     else cons_fst u (unquote_body s))"
  by pat_completeness auto
termination
  by (relation "measure length") auto

lemma hex_val_digit [simp]: "d < 16 \<Longrightarrow> hex_val (hex_digit d) = Some d"
  by (auto simp: hex_val_def hex_digit_def)

lemma hex4_digits:
  assumes "u < 65536"
  shows "hex4 (hex_digit (u div 4096)) (hex_digit (u div 256 mod 16))
    (hex_digit (u div 16 mod 16)) (hex_digit (u mod 16)) = Some u"
proof -
  have "u div 4096 = u div 256 div 16" and "u div 256 = u div 16 div 16"
    by (simp_all add: div_mult2_eq [symmetric])
  then have "u div 4096 * 16 + u div 256 mod 16 = u div 256"
    and "u div 256 * 16 + u div 16 mod 16 = u div 16" and "u div 16 * 16 + u mod 16 = u"
    by (simp_all only: div_mult_mod_eq)
  then show ?thesis using assms by (simp add: hex4_def)
qed

lemma unquote_escape:
  "u < 65536 \<Longrightarrow> unquote_body (unicode_escape u @ t) = cons_fst u (unquote_body t)"
  by (simp add: unicode_escape_def hex4_digits)

lemma unquote_unit:
  "u < 65536 \<Longrightarrow> unquote_body (quote_unit u @ t) = cons_fst u (unquote_body t)"
  unfolding quote_unit_def by (simp add: unquote_escape unescape_def)

lemma unquote_quote_body:
  "js_ok s \<Longrightarrow> unquote_body (quote_body s @ 34 # t) = Some (s, t)"
proof (induction s rule: quote_body.induct)
  case 1
  then show ?case by simp
next
  case (2 u)
  then show ?case by (simp add: unquote_unit cons_fst_def)
next
  case (3 u v s)
  show ?case
  proof (cases "is_high u \<and> is_low v")
    case True
    then have "quote_body (u # v # s) = u # v # quote_body s" by auto
    with 3 True show ?thesis by (auto simp: is_high_def is_low_def cons_fst_def)
  next
    case False
    then have "quote_body (u # v # s) = quote_unit u @ quote_body (v # s)" by auto
    with 3 False show ?thesis
      by (simp add: unquote_unit cons_fst_def del: quote_body.simps unquote_body.simps)
  qed
qed

lemma hex_digit_bounds: "48 \<le> hex_digit (d mod 16)" "hex_digit (d mod 16) \<le> 102"
proof -
  have "d mod 16 < 16" by simp
  then show "48 \<le> hex_digit (d mod 16)" "hex_digit (d mod 16) \<le> 102"
    unfolding hex_digit_def by (simp_all only: split: if_split) linarith+
qed

lemma unicode_escape_range: "v \<in> set (unicode_escape u) \<Longrightarrow> 34 \<le> v \<and> v \<le> 117"
  using hex_digit_bounds [of "u div 4096"] hex_digit_bounds [of "u div 256"]
    hex_digit_bounds [of "u div 16"] hex_digit_bounds [of u]
  unfolding unicode_escape_def by (simp only: set_simps insert_iff empty_iff) (elim disjE; simp)

lemma quote_unit_range:
  assumes "v \<in> set (quote_unit u)"
  shows "v = u \<and> 32 \<le> u \<or> 34 \<le> v \<and> v \<le> 117"
proof (cases "set (quote_unit u) = set (unicode_escape u)")
  case True
  with assms show ?thesis using unicode_escape_range by blast
next
  case False
  with assms show ?thesis unfolding quote_unit_def by (auto split: if_splits)
qed

lemma quote_body_units: "v \<in> set (quote_body s) \<Longrightarrow> v \<in> set s \<and> 32 \<le> v \<or> 34 \<le> v \<and> v \<le> 117"
proof (induction s rule: quote_body.induct)
  case (3 u v' s)
  then show ?case using quote_unit_range [of v u]
    by (auto simp: is_high_def is_low_def split: if_splits)
qed (auto dest: quote_unit_range)

lemma quote_body_no_newline: "10 \<notin> set (quote_body s)"
  using quote_body_units [of 10 s] by auto

lemma quote_no_newline: "10 \<notin> set (quote s)"
  by (simp add: quote_def quote_body_no_newline)

section \<open>Numeric literals\<close>

definition span_digits :: "jstr \<Rightarrow> jstr \<times> jstr" where
  "span_digits s = (takeWhile is_digit s, dropWhile is_digit s)"

definition scan_int :: "jstr \<Rightarrow> (jstr \<times> jstr) option" where
  "scan_int s = (case s of [] \<Rightarrow> None
     | u # t \<Rightarrow> if u = 48 then Some ([48], t)
         else if is_digit u then Some (span_digits s) else None)"

definition scan_frac :: "jstr \<Rightarrow> (jstr \<times> jstr) option" where
  "scan_frac s = (case s of [] \<Rightarrow> Some ([], [])
     | u # t \<Rightarrow> if u = 46
         then (case span_digits t of (d, r) \<Rightarrow> if d = [] then None else Some (46 # d, r))
         else Some ([], s))"

definition scan_exp :: "jstr \<Rightarrow> (jstr \<times> jstr) option" where
  "scan_exp s = (case s of [] \<Rightarrow> Some ([], [])
     | u # t \<Rightarrow> if u = 101 \<or> u = 69
         then (let sg = (case t of v # _ \<Rightarrow> if v = 43 \<or> v = 45 then [v] else [] | [] \<Rightarrow> []) in
               case span_digits (drop (length sg) t) of
                 (d, r) \<Rightarrow> if d = [] then None else Some (u # sg @ d, r))
         else Some ([], s))"

text \<open>The longest numeric literal at the start of the text, and what follows it.\<close>

definition scan_number :: "jstr \<Rightarrow> (jstr \<times> jstr) option" where
  "scan_number s = (let sg = (case s of u # _ \<Rightarrow> if u = 45 then [45] else [] | [] \<Rightarrow> []) in
     case scan_int (drop (length sg) s) of None \<Rightarrow> None
     | Some (i, r1) \<Rightarrow> (case scan_frac r1 of None \<Rightarrow> None
       | Some (f, r2) \<Rightarrow> (case scan_exp r2 of None \<Rightarrow> None
         | Some (e, r3) \<Rightarrow> Some (sg @ i @ f @ e, r3))))"

section \<open>Parsing and printing\<close>

text \<open>The object a list of parsed members makes.\<close>

definition mk_obj :: "(jstr \<times> json) list \<Rightarrow> (jstr \<times> json) list" where
  "mk_obj kvs = foldl (\<lambda>acc (k, v). obj_put k v acc) [] kvs"

definition is_json_ws :: "nat \<Rightarrow> bool" where
  "is_json_ws u \<longleftrightarrow> u = 32 \<or> u = 9 \<or> u = 10 \<or> u = 13"

definition skip_ws :: "jstr \<Rightarrow> jstr" where
  "skip_ws s = dropWhile is_json_ws s"

fun parse_value :: "num_codec \<Rightarrow> nat \<Rightarrow> jstr \<Rightarrow> (json \<times> jstr) option"
  and parse_elems :: "num_codec \<Rightarrow> nat \<Rightarrow> jstr \<Rightarrow> (json list \<times> jstr) option"
  and parse_members :: "num_codec \<Rightarrow> nat \<Rightarrow> jstr \<Rightarrow> ((jstr \<times> json) list \<times> jstr) option" where
  "parse_value h 0 s = None"
| "parse_value h (Suc n) s = (let s' = skip_ws s in
     case s' of [] \<Rightarrow> None
     | u # t \<Rightarrow>
       if u = 34 then map_option (\<lambda>(x, r). (JStr x, r)) (unquote_body t)
       else if u = 91 then
         (case skip_ws t of v # r \<Rightarrow>
            if v = 93 then Some (JArr [], r)
            else map_option (\<lambda>(xs, r). (JArr xs, r)) (parse_elems h n t)
          | [] \<Rightarrow> None)
       else if u = 123 then
         (case skip_ws t of v # r \<Rightarrow>
            if v = 125 then Some (JObj [], r)
            else map_option (\<lambda>(kvs, r). (JObj (mk_obj kvs), r))
                   (parse_members h n t)
          | [] \<Rightarrow> None)
       else if starts_with [110, 117, 108, 108] s' then Some (JNull, drop 4 s')
       else if starts_with [116, 114, 117, 101] s' then Some (JBool True, drop 4 s')
       else if starts_with [102, 97, 108, 115, 101] s' then Some (JBool False, drop 5 s')
       else map_option (\<lambda>(x, r). (JNum (read_num h x), r)) (scan_number s'))"
| "parse_elems h 0 s = None"
| "parse_elems h (Suc n) s = (case parse_value h n s of None \<Rightarrow> None
     | Some (v, r) \<Rightarrow> (case skip_ws r of [] \<Rightarrow> None
       | c # r' \<Rightarrow> if c = 93 then Some ([v], r')
           else if c = 44 then map_option (\<lambda>(vs, t). (v # vs, t)) (parse_elems h n r')
           else None))"
| "parse_members h 0 s = None"
| "parse_members h (Suc n) s = (case skip_ws s of [] \<Rightarrow> None
     | q # t \<Rightarrow> if q \<noteq> 34 then None else
       (case unquote_body t of None \<Rightarrow> None
        | Some (k, r) \<Rightarrow> (case skip_ws r of [] \<Rightarrow> None
          | c # r1 \<Rightarrow> if c \<noteq> 58 then None else
            (case parse_value h n r1 of None \<Rightarrow> None
             | Some (v, r2) \<Rightarrow> (case skip_ws r2 of [] \<Rightarrow> None
               | d # r3 \<Rightarrow> if d = 125 then Some ([(k, v)], r3)
                   else if d = 44 then map_option (\<lambda>(kvs, t). ((k, v) # kvs, t)) (parse_members h n r3)
                   else None)))))"

text \<open>\<open>JSON.parse(s)\<close>; \<open>None\<close> is the \<open>SyntaxError\<close>.\<close>

definition json_parse :: "num_codec \<Rightarrow> jstr \<Rightarrow> json option" where
  "json_parse h s = (case parse_value h (Suc (length s)) s of
      Some (v, r) \<Rightarrow> if skip_ws r = [] then Some v else None
    | None \<Rightarrow> None)"

definition show_number :: "num_codec \<Rightarrow> number \<Rightarrow> jstr" where
  "show_number h n = (if is_finite n then show_num h n else [110, 117, 108, 108])"

text \<open>\<open>JSON.stringify(v)\<close> without indentation.\<close>

fun stringify :: "num_codec \<Rightarrow> json \<Rightarrow> jstr" where
  "stringify h JNull = [110, 117, 108, 108]"
| "stringify h (JBool b) = (if b then [116, 114, 117, 101] else [102, 97, 108, 115, 101])"
| "stringify h (JNum n) = show_number h n"
| "stringify h (JStr s) = quote s"
| "stringify h (JArr vs) = 91 # join [44] (map (stringify h) vs) @ [93]"
| "stringify h (JObj kvs) = 123 # join [44] (map (\<lambda>(k, v). quote k @ 58 # stringify h v) kvs) @ [125]"

text \<open>\<open>canonicalJson\<close>: the entries of every object sorted by key.\<close>

fun canonicalJson :: "num_codec \<Rightarrow> json \<Rightarrow> jstr" where
  "canonicalJson h JNull = [110, 117, 108, 108]"
| "canonicalJson h (JBool b) = (if b then [116, 114, 117, 101] else [102, 97, 108, 115, 101])"
| "canonicalJson h (JNum n) = show_number h n"
| "canonicalJson h (JStr s) = quote s"
| "canonicalJson h (JArr vs) = 91 # join [44] (map (canonicalJson h) vs) @ [93]"
| "canonicalJson h (JObj kvs) = 123 # join [44] (map (\<lambda>(k, t). quote k @ 58 # t)
     (sort_key fst (map (\<lambda>(k, v). (k, canonicalJson h v)) kvs))) @ [125]"

declare parse_value.simps(2) [simp del]

section \<open>Round trip\<close>

text \<open>What may follow a value inside a larger text.\<close>

definition json_delim :: "jstr \<Rightarrow> bool" where
  "json_delim r \<longleftrightarrow> (case r of [] \<Rightarrow> True | u # _ \<Rightarrow> u = 44 \<or> u = 93 \<or> u = 125)"

text \<open>The documented round trip of numbers: what is printed is one literal and reads back.\<close>

definition num_ok :: "num_codec \<Rightarrow> number \<Rightarrow> bool" where
  "num_ok h n \<longleftrightarrow> is_finite n \<and> read_num h (show_num h n) = n \<and>
     (\<forall>r. json_delim r \<longrightarrow> scan_number (show_num h n @ r) = Some (show_num h n, r))"

fun json_ok :: "num_codec \<Rightarrow> json \<Rightarrow> bool" where
  "json_ok h (JNum n) \<longleftrightarrow> num_ok h n"
| "json_ok h (JStr s) \<longleftrightarrow> js_ok s"
| "json_ok h (JArr vs) \<longleftrightarrow> list_all (json_ok h) vs"
| "json_ok h (JObj kvs) \<longleftrightarrow> distinct (map fst kvs) \<and> list_all (\<lambda>(k, v). js_ok k \<and> json_ok h v) kvs"
| "json_ok h _ \<longleftrightarrow> True"

lemma scan_number_first:
  "scan_number s = Some (t, r) \<Longrightarrow> \<exists>u s'. s = u # s' \<and> (u = 45 \<or> is_digit u)"
  by (cases s) (auto simp: scan_number_def scan_int_def is_digit_def Let_def
      split: option.splits if_splits)

lemma show_number_first:
  assumes "num_ok h n"
  obtains u s where "show_number h n = u # s" "u = 45 \<or> is_digit u"
proof -
  from assms have "scan_number (show_num h n @ []) = Some (show_num h n, [])"
    unfolding num_ok_def by (elim conjE allE [of _ "[]"]) (simp add: json_delim_def)
  from scan_number_first [OF this] assms show ?thesis
    by (auto simp: show_number_def num_ok_def intro: that)
qed

text \<open>A printed value starts with a unit that is neither white space nor a closing bracket.\<close>

definition value_start :: "nat \<Rightarrow> bool" where
  "value_start u \<longleftrightarrow> u = 34 \<or> u = 45 \<or> is_digit u \<or> u = 91 \<or> u = 102 \<or> u = 110 \<or> u = 116 \<or> u = 123"

lemma stringify_first:
  assumes "json_ok h v"
  obtains u s where "stringify h v = u # s" "value_start u"
proof (cases v)
  case (JNum n)
  with assms show ?thesis
    by (auto simp: value_start_def elim!: show_number_first intro: that)
next
  case (JBool b)
  then show ?thesis by (cases b) (auto simp: value_start_def intro: that)
qed (auto simp: quote_def value_start_def intro: that)

lemma skip_ws_value_start: "value_start u \<Longrightarrow> skip_ws (u # s) = u # s"
  by (auto simp: skip_ws_def is_json_ws_def value_start_def is_digit_def)

lemma skip_ws_punct [simp]: "u \<in> {34, 44, 58, 93, 125} \<Longrightarrow> skip_ws (u # s) = u # s"
  by (auto simp: skip_ws_def is_json_ws_def)

lemma parse_number_step:
  assumes "num_ok h n" "json_delim r"
  shows "parse_value h (Suc m) (show_number h n @ r) = Some (JNum n, r)"
proof -
  from assms obtain u s where us: "show_number h n = u # s" and u: "u = 45 \<or> is_digit u"
    by (auto elim: show_number_first)
  then have "skip_ws (u # s @ r) = u # s @ r"
    by (intro skip_ws_value_start) (auto simp: value_start_def)
  moreover from us have "scan_number (u # s @ r) = Some (u # s, r)" and "read_num h (u # s) = n"
    using assms by (auto simp: num_ok_def show_number_def)
  ultimately show ?thesis using us u by (auto simp: Let_def is_digit_def parse_value.simps(2))
qed

lemma parse_elems_join:
  assumes "\<And>v m r. v \<in> set vs \<Longrightarrow> length (stringify h v) \<le> m \<Longrightarrow> json_delim r \<Longrightarrow>
      parse_value h (Suc m) (stringify h v @ r) = Some (v, r)"
    and "vs \<noteq> []" and "length (join [44] (map (stringify h) vs)) + 2 \<le> n"
  shows "parse_elems h n (join [44] (map (stringify h) vs) @ 93 # r) = Some (vs, r)"
  using assms
proof (induction vs arbitrary: n)
  case Nil
  then show ?case by simp
next
  case (Cons v vs)
  obtain m where n: "n = Suc (Suc m)" using Cons.prems(3) by (cases n; cases "n - 1") auto
  show ?case
  proof (cases "vs = []")
    case True
    have "parse_value h (Suc m) (stringify h v @ 93 # r) = Some (v, 93 # r)"
      using Cons.prems n True by (intro Cons.prems(1)) (auto simp: json_delim_def)
    then show ?thesis using True n by (simp)
  next
    case False
    let ?rest = "join [44] (map (stringify h) vs) @ 93 # r"
    have "parse_value h (Suc m) (stringify h v @ 44 # ?rest) = Some (v, 44 # ?rest)"
      using Cons.prems n False by (intro Cons.prems(1)) (auto simp: json_delim_def join_Cons)
    moreover have "parse_elems h (Suc m) ?rest = Some (vs, r)"
      using Cons.prems n False by (intro Cons.IH) (auto simp: join_Cons)
    ultimately show ?thesis using False n by (simp add: join_Cons)
  qed
qed

definition member_text :: "num_codec \<Rightarrow> jstr \<times> json \<Rightarrow> jstr" where
  "member_text h = (\<lambda>(k, v). quote k @ 58 # stringify h v)"

lemma parse_members_join:
  assumes "\<And>k v m r. (k, v) \<in> set kvs \<Longrightarrow> length (stringify h v) \<le> m \<Longrightarrow> json_delim r \<Longrightarrow>
      parse_value h (Suc m) (stringify h v @ r) = Some (v, r)"
    and "\<And>k v. (k, v) \<in> set kvs \<Longrightarrow> js_ok k"
    and "kvs \<noteq> []" and "length (join [44] (map (member_text h) kvs)) + 2 \<le> n"
  shows "parse_members h n (join [44] (map (member_text h) kvs) @ 125 # r) = Some (kvs, r)"
  using assms
proof (induction kvs arbitrary: n)
  case Nil
  then show ?case by simp
next
  case (Cons kv kvs)
  obtain k v where kv: "kv = (k, v)" by (cases kv)
  obtain m where n: "n = Suc (Suc m)" using Cons.prems(4) by (cases n; cases "n - 1") auto
  have key: "unquote_body (quote_body k @ 34 # t) = Some (k, t)" for t
    using Cons.prems(2) kv by (intro unquote_quote_body) auto
  show ?case
  proof (cases "kvs = []")
    case True
    have "parse_value h (Suc m) (stringify h v @ 125 # r) = Some (v, 125 # r)"
      using Cons.prems(1) [of k v m "125 # r"] Cons.prems(4) n True kv
      by (auto simp: json_delim_def member_text_def)
    then show ?thesis using True n kv key
      by (simp add: member_text_def quote_def)
  next
    case False
    let ?rest = "join [44] (map (member_text h) kvs) @ 125 # r"
    have "parse_value h (Suc m) (stringify h v @ 44 # ?rest) = Some (v, 44 # ?rest)"
      using Cons.prems(1) [of k v m "44 # ?rest"] Cons.prems(4) n False kv
      by (auto simp: json_delim_def member_text_def join_Cons)
    moreover have "parse_members h (Suc m) ?rest = Some (kvs, r)"
    proof (rule Cons.IH)
      show "js_ok k" if "(k, v) \<in> set kvs" for k v
        using Cons.prems(2) that by auto
    qed (use Cons.prems n False in \<open>auto simp: join_Cons\<close>)
    ultimately show ?thesis using False n kv key
      by (simp add: join_Cons member_text_def quote_def)
  qed
qed

lemma stringify_JObj: "stringify h (JObj kvs) = 123 # join [44] (map (member_text h) kvs) @ [125]"
  by (simp add: member_text_def)

lemma obj_put_fresh: "k \<notin> fst ` set kvs \<Longrightarrow> obj_put k v kvs = kvs @ [(k, v)]"
  by (induction kvs) auto

lemma mk_obj_distinct: "distinct (map fst kvs) \<Longrightarrow> mk_obj kvs = kvs"
proof (induction kvs rule: rev_induct)
  case Nil
  then show ?case by (simp add: mk_obj_def)
next
  case (snoc kv kvs)
  obtain k v where "kv = (k, v)" by (cases kv)
  with snoc show ?case by (simp add: mk_obj_def obj_put_fresh)
qed

lemma skip_ws_stringify: "json_ok h v \<Longrightarrow> skip_ws (stringify h v @ r) = stringify h v @ r"
  by (erule stringify_first) (auto simp: skip_ws_value_start)

lemma parse_stringify:
  "json_ok h v \<Longrightarrow> json_delim r \<Longrightarrow> length (stringify h v) \<le> n \<Longrightarrow>
    parse_value h (Suc n) (stringify h v @ r) = Some (v, r)"
proof (induction v arbitrary: n r)
  case JNull
  then show ?case by (simp add: parse_value.simps(2) skip_ws_def is_json_ws_def)
next
  case (JBool b)
  then show ?case by (cases b) (simp_all add: parse_value.simps(2) skip_ws_def is_json_ws_def)
next
  case (JNum x)
  then show ?case by (simp add: parse_number_step)
next
  case (JStr s)
  then show ?case by (simp add: parse_value.simps(2) quote_def unquote_quote_body)
next
  case (JArr vs)
  show ?case
  proof (cases vs)
    case Nil
    then show ?thesis by (simp add: parse_value.simps(2) skip_ws_def is_json_ws_def)
  next
    case (Cons v vs')
    let ?t = "join [44] (map (stringify h) vs) @ 93 # r"
    have IH: "parse_value h (Suc m) (stringify h w @ t) = Some (w, t)"
      if "w \<in> set vs" "length (stringify h w) \<le> m" "json_delim t" for w m t
      using JArr.IH [OF that(1)] JArr.prems(1) that by (auto simp: list_all_iff)
    have "parse_elems h n ?t = Some (vs, r)"
      using JArr.prems(3) Cons by (intro parse_elems_join IH) auto
    moreover obtain u s where us: "stringify h v = u # s" "value_start u"
      using JArr.prems(1) Cons by (auto elim: stringify_first)
    then have "\<exists>s'. skip_ws ?t = u # s' \<and> u \<noteq> 93"
      using Cons by (auto simp: join_Cons skip_ws_value_start value_start_def is_digit_def)
    ultimately show ?thesis
      by (auto simp: parse_value.simps(2) skip_ws_value_start value_start_def)
  qed
next
  case (JObj kvs)
  show ?case
  proof (cases kvs)
    case Nil
    then show ?thesis by (simp add: parse_value.simps(2) skip_ws_def is_json_ws_def mk_obj_def)
  next
    case (Cons kv kvs')
    let ?t = "join [44] (map (member_text h) kvs) @ 125 # r"
    have IH: "parse_value h (Suc m) (stringify h w @ t) = Some (w, t)"
      if "(k, w) \<in> set kvs" "length (stringify h w) \<le> m" "json_delim t" for k w m t
      using JObj.IH [OF that(1)] JObj.prems(1) that by (auto simp: list_all_iff)
    have "parse_members h n ?t = Some (kvs, r)"
      using JObj.prems Cons
      by (intro parse_members_join IH) (auto simp: list_all_iff stringify_JObj simp del: stringify.simps)
    moreover have "\<exists>s'. skip_ws ?t = 34 # s'"
      using Cons by (cases kv) (auto simp: join_Cons member_text_def quote_def)
    moreover have "mk_obj kvs = kvs" using JObj.prems(1) by (simp add: mk_obj_distinct)
    ultimately show ?thesis
      by (auto simp: parse_value.simps(2) stringify_JObj skip_ws_value_start value_start_def
          simp del: stringify.simps)
  qed
qed

lemma json_parse_stringify: "json_ok h v \<Longrightarrow> json_parse h (stringify h v) = Some v"
  using parse_stringify [of h v "[]" "length (stringify h v)"]
  by (simp add: json_parse_def json_delim_def skip_ws_def)

lemma json_parse_quote [simp]: "js_ok s \<Longrightarrow> json_parse h (quote s) = Some (JStr s)"
  using json_parse_stringify [of h "JStr s"] by simp

section \<open>Canonical text\<close>

text \<open>The value whose plain text is the canonical text: every object sorted by key.\<close>

fun sort_keys :: "json \<Rightarrow> json" where
  "sort_keys (JArr vs) = JArr (map sort_keys vs)"
| "sort_keys (JObj kvs) = JObj (sort_key fst (map (\<lambda>(k, v). (k, sort_keys v)) kvs))"
| "sort_keys v = v"

lemma insort_key_map_snd:
  "map (\<lambda>(k, v). (k, f v)) (insort_key fst x xs) = insort_key fst (case x of (k, v) \<Rightarrow> (k, f v)) (map (\<lambda>(k, v). (k, f v)) xs)"
  by (induction xs) (auto split: prod.splits)

lemma sort_key_map_snd:
  "map (\<lambda>(k, v). (k, f v)) (sort_key fst xs) = sort_key fst (map (\<lambda>(k, v). (k, f v)) xs)"
  by (induction xs) (auto simp: insort_key_map_snd split: prod.splits)

lemma canonicalJson_sort_keys: "canonicalJson h v = stringify h (sort_keys v)"
proof (induction v)
  case (JArr vs)
  then have "map (canonicalJson h) vs = map (stringify h) (map sort_keys vs)" by simp
  then show ?case by (simp only: canonicalJson.simps stringify.simps sort_keys.simps)
next
  case (JObj kvs)
  then have "map (\<lambda>(k, v). (k, canonicalJson h v)) kvs
      = map (\<lambda>(k, v). (k, stringify h v)) (map (\<lambda>(k, v). (k, sort_keys v)) kvs)"
    by auto
  then have "sort_key fst (map (\<lambda>(k, v). (k, canonicalJson h v)) kvs)
      = map (\<lambda>(k, v). (k, stringify h v)) (sort_key fst (map (\<lambda>(k, v). (k, sort_keys v)) kvs))"
    by (simp only: sort_key_map_snd)
  then show ?case by (simp add: case_prod_unfold comp_def)
qed simp_all

lemma json_ok_sort_keys: "json_ok h v \<Longrightarrow> json_ok h (sort_keys v)"
proof (induction v)
  case (JObj kvs)
  have keys: "map fst (map (\<lambda>(k, v). (k, sort_keys v)) kvs) = map fst kvs" by auto
  have "mset (map fst (sort_key fst (map (\<lambda>(k, v). (k, sort_keys v)) kvs)))
      = mset (map fst (map (\<lambda>(k, v). (k, sort_keys v)) kvs))"
    by (simp only: mset_map mset_sort)
  also have "\<dots> = mset (map fst kvs)" by (simp only: keys)
  finally have "distinct (map fst (sort_key fst (map (\<lambda>(k, v). (k, sort_keys v)) kvs)))"
    using JObj.prems mset_eq_imp_distinct_iff by (metis json_ok.simps(4))
  with JObj show ?case by (fastforce simp: list_all_iff)
qed (auto simp: list_all_iff)

lemma canonicalJson_parse: "json_ok h v \<Longrightarrow> json_parse h (canonicalJson h v) = Some (sort_keys v)"
  by (simp add: canonicalJson_sort_keys json_parse_stringify json_ok_sort_keys)

lemma canonicalJson_members_perm:
  assumes "mset kvs = mset kvs'" "distinct (map fst kvs)"
  shows "canonicalJson h (JObj kvs) = canonicalJson h (JObj kvs')"
proof -
  let ?f = "\<lambda>(k, v). (k, canonicalJson h v)"
  have "distinct (map fst (map ?f kvs))"
    using assms(2) by (simp add: case_prod_unfold comp_def)
  then have "inj_on fst (set (map ?f kvs))" by (rule distinct_map [THEN iffD1, THEN conjunct2])
  moreover have "mset (map ?f kvs) = mset (sort_key fst (map ?f kvs'))"
    by (simp only: assms(1) mset_map mset_sort)
  ultimately have "sort_key fst (map ?f kvs) = sort_key fst (map ?f kvs')"
    by (intro sort_key_inj_key_eq) auto
  then show ?thesis by simp
qed

lemma stringify_no_newline:
  assumes "\<And>n. 10 \<notin> set (show_num h n)"
  shows "10 \<notin> set (stringify h v)"
proof (induction v)
  case (JArr vs)
  then show ?case using set_join [of "[44]" "map (stringify h) vs"] by auto
next
  case (JObj kvs)
  have "10 \<notin> set (member_text h kv)" if "kv \<in> set kvs" for kv
    using JObj that by (cases kv) (auto simp: member_text_def quote_no_newline)
  then show ?case
    using set_join [of "[44]" "map (member_text h) kvs"]
    by (auto simp: stringify_JObj simp del: stringify.simps)
qed (use assms in \<open>auto simp: quote_no_newline show_number_def\<close>)

end
