(* ===== verification/Vocabulary.thy ===== *)
theory Vocabulary
  imports Json
begin

text \<open>
  The closed vocabularies of \<open>packages/contract/src/vocabulary.ts\<close> and
  \<open>packages/contract/src/sync-envelope.ts\<close>, as datatypes with the strings they are spelled
  with on the wire and in the store.  A string that comes from outside is turned into a value
  by a lookup that answers \<open>None\<close> for an unknown word; the class instance of \<open>memory_source\<close>
  is the contract's source-authority order.
\<close>

section \<open>Memory kinds and sources\<close>

datatype memory_kind =
    Pitfall | Decision | Correction | Fact | Task_State | User_Profile | Reference | Pattern
  | Goal | Rule

definition MEMORY_KINDS :: "memory_kind list" where
  "MEMORY_KINDS = [Pitfall, Decision, Correction, Fact, Task_State, User_Profile, Reference,
     Pattern, Goal, Rule]"

definition LEARNABLE_KINDS :: "memory_kind list" where
  "LEARNABLE_KINDS = [Pitfall, Decision, Correction, Fact, User_Profile, Reference, Pattern, Goal]"

definition SHAREABLE_KINDS :: "memory_kind list" where
  "SHAREABLE_KINDS = [Pitfall, Decision, Fact, Pattern]"

fun kind_str :: "memory_kind \<Rightarrow> jstr" where
  "kind_str Pitfall = js ''pitfall''"
| "kind_str Decision = js ''decision''"
| "kind_str Correction = js ''correction''"
| "kind_str Fact = js ''fact''"
| "kind_str Task_State = js ''task_state''"
| "kind_str User_Profile = js ''user_profile''"
| "kind_str Reference = js ''reference''"
| "kind_str Pattern = js ''pattern''"
| "kind_str Goal = js ''goal''"
| "kind_str Rule = js ''rule''"

text \<open>\<open>list.includes(s)\<close> over a vocabulary, answering the value it names.\<close>

definition vocab_find :: "('a \<Rightarrow> jstr) \<Rightarrow> 'a list \<Rightarrow> jstr \<Rightarrow> 'a option" where
  "vocab_find name xs s = find (\<lambda>x. name x = s) xs"

definition learnable_of_str :: "jstr \<Rightarrow> memory_kind option" where
  "learnable_of_str s = vocab_find kind_str LEARNABLE_KINDS s"

definition shareable :: "memory_kind \<Rightarrow> bool" where
  "shareable k \<longleftrightarrow> k \<in> set SHAREABLE_KINDS"

lemma kind_str_inj [simp]: "kind_str a = kind_str b \<longleftrightarrow> a = b"
  by (cases a; cases b) simp_all

lemma vocab_find_Some: "vocab_find name xs s = Some x \<Longrightarrow> x \<in> set xs \<and> name x = s"
  by (auto simp: vocab_find_def find_Some_iff)

lemma learnable_of_kind_str [simp]:
  "learnable_of_str (kind_str k) = (if k \<in> set LEARNABLE_KINDS then Some k else None)"
  by (cases k) (simp_all add: learnable_of_str_def vocab_find_def LEARNABLE_KINDS_def)

lemma shareable_code [simp]:
  "shareable Pitfall" "shareable Decision" "shareable Fact" "shareable Pattern"
  "\<not> shareable Correction" "\<not> shareable Task_State" "\<not> shareable User_Profile"
  "\<not> shareable Reference" "\<not> shareable Goal" "\<not> shareable Rule"
  by (simp_all add: shareable_def SHAREABLE_KINDS_def)

lemma shareable_learnable: "shareable k \<Longrightarrow> k \<in> set LEARNABLE_KINDS"
  by (cases k) (simp_all add: LEARNABLE_KINDS_def)

datatype memory_source = User | Learned | Corrected | Confirmed

fun source_str :: "memory_source \<Rightarrow> jstr" where
  "source_str User = js ''user''"
| "source_str Learned = js ''learned''"
| "source_str Corrected = js ''corrected''"
| "source_str Confirmed = js ''confirmed''"

definition source_of_str :: "jstr \<Rightarrow> memory_source option" where
  "source_of_str s = vocab_find source_str [User, Learned, Corrected, Confirmed] s"

lemma source_of_source_str [simp]: "source_of_str (source_str x) = Some x"
  by (cases x) (simp_all add: source_of_str_def vocab_find_def)

text \<open>\<open>SOURCE_AUTHORITY_ORDER\<close>: user beats confirmed beats corrected beats learned.\<close>

definition SOURCE_AUTHORITY_ORDER :: "memory_source list" where
  "SOURCE_AUTHORITY_ORDER = [User, Confirmed, Corrected, Learned]"

fun source_rank :: "memory_source \<Rightarrow> nat" where
  "source_rank User = 3"
| "source_rank Confirmed = 2"
| "source_rank Corrected = 1"
| "source_rank Learned = 0"

lemma source_rank_inj: "source_rank a = source_rank b \<longleftrightarrow> a = b"
  by (cases a; cases b) simp_all

instantiation memory_source :: linorder
begin

definition less_eq_memory_source :: "memory_source \<Rightarrow> memory_source \<Rightarrow> bool" where
  "less_eq_memory_source a b \<longleftrightarrow> source_rank a \<le> source_rank b"

definition less_memory_source :: "memory_source \<Rightarrow> memory_source \<Rightarrow> bool" where
  "less_memory_source a b \<longleftrightarrow> source_rank a < source_rank b"

instance
  by standard (auto simp: less_eq_memory_source_def less_memory_source_def source_rank_inj)

end

lemma authority_order_sorted: "sorted_wrt (>) SOURCE_AUTHORITY_ORDER"
  by (simp add: SOURCE_AUTHORITY_ORDER_def less_memory_source_def)

section \<open>Sync vocabulary\<close>

datatype share_state = Local | Team

fun share_str :: "share_state \<Rightarrow> jstr" where
  "share_str Local = js ''local''"
| "share_str Team = js ''team''"

definition isShareState :: "jstr \<Rightarrow> bool" where
  "isShareState s \<longleftrightarrow> s \<in> set (map share_str [Local, Team])"

datatype conflict_reason = Near_Duplicate | Divergence

fun reason_str :: "conflict_reason \<Rightarrow> jstr" where
  "reason_str Near_Duplicate = js ''near-duplicate''"
| "reason_str Divergence = js ''divergence''"

definition isConflictReason :: "jstr \<Rightarrow> conflict_reason option" where
  "isConflictReason s = vocab_find reason_str [Near_Duplicate, Divergence] s"

definition SYNC_EVENTS :: "jstr list" where
  "SYNC_EVENTS = [js ''upsert'', js ''tombstone'', js ''alias'', js ''conflict-open'',
     js ''resolve-commit'']"

definition isSyncEventType :: "jstr \<Rightarrow> bool" where
  "isSyncEventType s \<longleftrightarrow> s \<in> set SYNC_EVENTS"

definition CANONICALIZATION_VERSION :: int where "CANONICALIZATION_VERSION = 1"
definition CONTENT_HASH_VERSION :: int where "CONTENT_HASH_VERSION = 1"

end
