(* ===== verification/Utf8_Base64.thy ===== *)
theory Utf8_Base64
  imports Json
begin

text \<open>
  The byte codecs of the standard library behind \<open>encodeProjectSegment\<close> and
  \<open>decodeProjectSegment\<close> of \<open>packages/contract/src/memory-paths.ts\<close>, and behind every
  \<open>Buffer.byteLength(s, 'utf8')\<close>: UTF-8 with the replacement character for lone surrogates and
  for ill-formed bytes, and unpadded base64url.
\<close>

section \<open>UTF-8\<close>

definition surrogate :: "nat \<Rightarrow> bool" where
  "surrogate u \<longleftrightarrow> is_high u \<or> is_low u"

definition utf8_unit :: "nat \<Rightarrow> nat list" where
  "utf8_unit u = (if u < 128 then [u]
     else if u < 2048 then [192 + u div 64, 128 + u mod 64]
     else [224 + u div 4096, 128 + u div 64 mod 64, 128 + u mod 64])"

text \<open>A surrogate pair \<open>u, v\<close> stands for the code point \<open>65536 + c\<close>.\<close>

definition pair_offset :: "nat \<Rightarrow> nat \<Rightarrow> nat" where
  "pair_offset u v = (u - 55296) * 1024 + (v - 56320)"

definition utf8_pair :: "nat \<Rightarrow> nat \<Rightarrow> nat list" where
  "utf8_pair u v = (let c = 65536 + pair_offset u v in
     [240 + c div 262144, 128 + c div 4096 mod 64, 128 + c div 64 mod 64, 128 + c mod 64])"

text \<open>\<open>Buffer.from(s, 'utf8')\<close>.\<close>

fun utf8_encode :: "jstr \<Rightarrow> nat list" where
  "utf8_encode [] = []"
| "utf8_encode [u] = (if surrogate u then [239, 191, 189] else utf8_unit u)"
| "utf8_encode (u # v # s) =
     (if is_high u \<and> is_low v then utf8_pair u v @ utf8_encode s
      else (if surrogate u then [239, 191, 189] else utf8_unit u) @ utf8_encode (v # s))"

definition byte_length :: "jstr \<Rightarrow> nat" where
  "byte_length s = length (utf8_encode s)"

text \<open>The second byte a lead byte allows, and how many bytes follow the second one.\<close>

definition second_ok :: "nat \<Rightarrow> nat \<Rightarrow> bool" where
  "second_ok b c \<longleftrightarrow>
     (if b = 224 then 160 \<le> c \<and> c < 192 else if b = 237 then 128 \<le> c \<and> c < 160
      else if b = 240 then 144 \<le> c \<and> c < 192 else if b = 244 then 128 \<le> c \<and> c < 144
      else 128 \<le> c \<and> c < 192)"

definition cont :: "nat \<Rightarrow> bool" where
  "cont c \<longleftrightarrow> 128 \<le> c \<and> c < 192"

definition units_of :: "nat \<Rightarrow> jstr" where
  "units_of c = (if c < 65536 then [c] else [55296 + (c - 65536) div 1024, 56320 + (c - 65536) mod 1024])"

text \<open>\<open>buf.toString('utf8')\<close>: every maximal ill-formed part becomes U+FFFD.\<close>

function (sequential) utf8_decode :: "nat list \<Rightarrow> jstr" where
  "utf8_decode [] = []"
| "utf8_decode (b # s) =
    (if b < 128 then b # utf8_decode s
     else if 194 \<le> b \<and> b < 224 then
       (case s of c # t \<Rightarrow>
          if cont c then ((b - 192) * 64 + (c - 128)) # utf8_decode t else 65533 # utf8_decode s
        | [] \<Rightarrow> [65533])
     else if 224 \<le> b \<and> b < 240 then
       (case s of c # t \<Rightarrow>
          if \<not> second_ok b c then 65533 # utf8_decode s
          else (case t of d # t' \<Rightarrow>
              if cont d then ((b - 224) * 4096 + (c - 128) * 64 + (d - 128)) # utf8_decode t'
              else 65533 # utf8_decode t
            | [] \<Rightarrow> [65533])
        | [] \<Rightarrow> [65533])
     else if 240 \<le> b \<and> b < 245 then
       (case s of c # t \<Rightarrow>
          if \<not> second_ok b c then 65533 # utf8_decode s
          else (case t of d # t' \<Rightarrow>
              if \<not> cont d then 65533 # utf8_decode t
              else (case t' of e # t'' \<Rightarrow>
                  if cont e
                  then units_of ((b - 240) * 262144 + (c - 128) * 4096 + (d - 128) * 64 + (e - 128))
                         @ utf8_decode t''
                  else 65533 # utf8_decode t'
                | [] \<Rightarrow> [65533])
            | [] \<Rightarrow> [65533])
        | [] \<Rightarrow> [65533])
     else 65533 # utf8_decode s)"
  by pat_completeness auto
termination
  by (relation "measure length") auto

declare utf8_decode.simps(2) [simp del]

text \<open>Well-formed UTF-16: units below 65536 and every surrogate in a pair.\<close>

fun wf_utf16 :: "jstr \<Rightarrow> bool" where
  "wf_utf16 [] \<longleftrightarrow> True"
| "wf_utf16 [u] \<longleftrightarrow> u < 65536 \<and> \<not> surrogate u"
| "wf_utf16 (u # v # s) \<longleftrightarrow>
     (if is_high u \<and> is_low v then wf_utf16 s else u < 65536 \<and> \<not> surrogate u \<and> wf_utf16 (v # s))"

text \<open>Base-64 digits: the arithmetic below is linear in them.\<close>

lemma digits64:
  obtains a b c where "u div 4096 = a" "u div 64 mod 64 = b" "u mod 64 = c"
    "u = a * 4096 + b * 64 + c" "b < 64" "c < (64::nat)"
proof -
  have "u div 4096 = u div 64 div 64" by (simp add: div_mult2_eq [symmetric])
  then have 1: "u div 64 = u div 4096 * 64 + u div 64 mod 64" by (simp only: div_mult_mod_eq)
  have 2: "u = u div 64 * 64 + u mod 64" by (simp only: div_mult_mod_eq)
  have "u = u div 4096 * 4096 + u div 64 mod 64 * 64 + u mod 64" using 1 2 by linarith
  moreover have "u div 64 mod 64 < 64" "u mod 64 < 64" by simp_all
  ultimately show ?thesis by (intro that) (assumption | rule refl)+
qed

lemma decode_unit:
  assumes "u < 65536" "\<not> surrogate u"
  shows "utf8_decode (utf8_unit u @ t) = u # utf8_decode t"
proof -
  obtain a b c where d: "u div 4096 = a" "u div 64 mod 64 = b" "u mod 64 = c"
    and u: "u = a * 4096 + b * 64 + c" "b < 64" "c < 64"
    by (rule digits64)
  have s: "\<not> (55296 \<le> u \<and> u < 57344)"
    using assms(2) by (auto simp: surrogate_def is_high_def is_low_def)
  consider "u < 128" | "128 \<le> u" "u < 2048" | "2048 \<le> u" by linarith
  then show ?thesis
  proof cases
    case 1
    then show ?thesis by (simp add: utf8_unit_def utf8_decode.simps(2))
  next
    case 2
    then have "2 \<le> u div 64" "u div 64 < 32" by (auto simp: less_mult_imp_div_less)
    with 2 show ?thesis
      by (simp add: utf8_unit_def utf8_decode.simps(2) cont_def)
  next
    case 3
    have "a < 16" using u assms(1) by linarith
    moreover have "32 \<le> b" if "a = 0" using that u 3 by linarith
    moreover have "b < 32" if "a = 13" using that u s by linarith
    ultimately have "second_ok (224 + a) (128 + b)" "a < 16"
      using u by (auto simp: second_ok_def)
    moreover have "utf8_unit u @ t = (224 + a) # (128 + b) # (128 + c) # t"
      using 3 by (simp add: utf8_unit_def d)
    ultimately show ?thesis using u by (simp add: utf8_decode.simps(2) cont_def)
  qed
qed

lemma decode_pair:
  assumes "is_high u" "is_low v"
  shows "utf8_decode (utf8_pair u v @ t) = u # v # utf8_decode t"
proof -
  define x where "x = 65536 + pair_offset u v"
  have uv: "55296 \<le> u" "u \<le> 56319" "56320 \<le> v" "v \<le> 57343"
    using assms by (auto simp: is_high_def is_low_def)
  then obtain p q where pq: "u = 55296 + p" "v = 56320 + q" "p < 1024" "q < 1024"
    using that [of "u - 55296" "v - 56320"] by simp
  then have po: "pair_offset u v < 1048576" "pair_offset u v div 1024 = u - 55296"
    "pair_offset u v mod 1024 = v - 56320"
    by (auto simp: pair_offset_def)
  obtain a b c where d: "x div 4096 = a" "x div 64 mod 64 = b" "x mod 64 = c"
    and x: "x = a * 4096 + b * 64 + c" "b < 64" "c < 64"
    by (rule digits64)
  have "x div 262144 = a div 64" using d(1) by (simp add: div_mult2_eq [symmetric])
  moreover define l m where "l = a div 64" and "m = a mod 64"
  ultimately have lm: "x div 262144 = l" "x div 4096 mod 64 = m" "a = l * 64 + m" "m < 64"
    using d by simp_all
  have xb: "65536 \<le> x" "x < 1114112" using po by (auto simp: x_def)
  have "l \<le> 4" "l = 0 \<Longrightarrow> 16 \<le> m" "l = 4 \<Longrightarrow> m < 16"
    using x lm xb by linarith+
  then have "second_ok (240 + l) (128 + m)" "l \<le> 4" using lm by (auto simp: second_ok_def)
  moreover have "utf8_pair u v = [240 + l, 128 + m, 128 + b, 128 + c]"
    unfolding utf8_pair_def Let_def x_def [symmetric] by (simp add: d lm)
  moreover have "units_of (l * 262144 + m * 4096 + b * 64 + c) = [u, v]"
  proof -
    have "l * 262144 + m * 4096 + b * 64 + c = x" using x lm by linarith
    moreover have "units_of x = [u, v]"
      using uv po by (simp add: units_of_def x_def)
    ultimately show ?thesis by simp
  qed
  ultimately show ?thesis using x lm by (simp add: utf8_decode.simps(2) cont_def)
qed

lemma utf8_decode_encode: "wf_utf16 s \<Longrightarrow> utf8_decode (utf8_encode s) = s"
proof (induction s rule: wf_utf16.induct)
  case (2 u)
  then show ?case using decode_unit [of u "[]"] by simp
next
  case (3 u v s)
  then show ?case by (simp add: decode_unit decode_pair)
qed simp

section \<open>Unpadded base64url\<close>

definition b64_char :: "nat \<Rightarrow> nat" where
  "b64_char d = (if d < 26 then 65 + d else if d < 52 then 71 + d else if d < 62 then d - 4
     else if d = 62 then 45 else 95)"

definition b64_val :: "nat \<Rightarrow> nat" where
  "b64_val u = (if is_upper u then u - 65 else if is_lower u then u - 71
     else if is_digit u then u + 4 else if u = 45 then 62 else 63)"

text \<open>\<open>[A-Za-z0-9_-]\<close>.\<close>

definition is_b64 :: "nat \<Rightarrow> bool" where
  "is_b64 u \<longleftrightarrow> is_alnum u \<or> u = 95 \<or> u = 45"

fun b64_digits :: "nat list \<Rightarrow> nat list" where
  "b64_digits [] = []"
| "b64_digits [a] = [a div 4, a mod 4 * 16]"
| "b64_digits [a, b] = [a div 4, a mod 4 * 16 + b div 16, b mod 16 * 4]"
| "b64_digits (a # b # c # s) =
     [a div 4, a mod 4 * 16 + b div 16, b mod 16 * 4 + c div 64, c mod 64] @ b64_digits s"

text \<open>The bytes of a digit sequence; left-over bits are dropped, as the runtime does.\<close>

fun b64_bytes :: "nat list \<Rightarrow> nat list" where
  "b64_bytes [] = []"
| "b64_bytes [w] = []"
| "b64_bytes [w, x] = [w * 4 + x div 16]"
| "b64_bytes [w, x, y] = [w * 4 + x div 16, x mod 16 * 16 + y div 4]"
| "b64_bytes (w # x # y # z # s) =
     [w * 4 + x div 16, x mod 16 * 16 + y div 4, y mod 4 * 64 + z] @ b64_bytes s"

definition b64_encode :: "nat list \<Rightarrow> jstr" where
  "b64_encode bs = map b64_char (b64_digits bs)"

definition b64_decode :: "jstr \<Rightarrow> nat list" where
  "b64_decode s = b64_bytes (map b64_val s)"

lemma b64_val_char [simp]: "d < 64 \<Longrightarrow> b64_val (b64_char d) = d"
  by (auto simp: b64_val_def b64_char_def is_upper_def is_lower_def is_digit_def)

lemma is_b64_char [simp]: "d < 64 \<Longrightarrow> is_b64 (b64_char d)"
  by (auto simp: b64_char_def is_b64_def is_alnum_def is_upper_def is_lower_def is_digit_def)

lemma b64_digits_bound: "list_all (\<lambda>b. b < 256) bs \<Longrightarrow> list_all (\<lambda>d. d < 64) (b64_digits bs)"
proof (induction bs rule: b64_digits.induct)
  case (2 a)
  then show ?case by (simp add: less_mult_imp_div_less; linarith?)
next
  case (3 a b)
  then have "a mod 4 < 4" "b div 16 < 16" by (auto simp: less_mult_imp_div_less)
  with 3 show ?case by (simp add: less_mult_imp_div_less; linarith?)
next
  case (4 a b c s)
  then have "a mod 4 < 4" "b div 16 < 16" "b mod 16 < 16" "c div 64 < 4"
    by (auto simp: less_mult_imp_div_less)
  with 4 show ?case by (simp add: less_mult_imp_div_less; linarith?)
qed simp

lemma b64_bytes_digits: "list_all (\<lambda>b. b < 256) bs \<Longrightarrow> b64_bytes (b64_digits bs) = bs"
proof (induction bs rule: b64_digits.induct)
  case (2 a)
  then show ?case by (simp add: mult.commute)
next
  case (3 a b)
  then have "b div 16 < 16" by (auto simp: less_mult_imp_div_less)
  with 3 show ?case by (simp add: mult.commute)
next
  case (4 a b c s)
  then have "b div 16 < 16" "c div 64 < 4" by (auto simp: less_mult_imp_div_less)
  with 4 show ?case by (simp add: mult.commute)
qed simp

lemma b64_decode_encode: "list_all (\<lambda>b. b < 256) bs \<Longrightarrow> b64_decode (b64_encode bs) = bs"
proof -
  assume b: "list_all (\<lambda>b. b < 256) bs"
  have "map b64_val (map b64_char (b64_digits bs)) = b64_digits bs"
    using b64_digits_bound [OF b] by (auto simp: list_all_iff intro: map_idI)
  then show ?thesis using b64_bytes_digits [OF b] by (simp add: b64_decode_def b64_encode_def)
qed

lemma b64_encode_alphabet: "list_all (\<lambda>b. b < 256) bs \<Longrightarrow> list_all is_b64 (b64_encode bs)"
  using b64_digits_bound by (auto simp: b64_encode_def list_all_iff)

lemma b64_encode_Nil [simp]: "b64_encode bs = [] \<longleftrightarrow> bs = []"
  by (cases bs rule: b64_digits.cases) (auto simp: b64_encode_def)

lemma utf8_bytes_bound: "js_ok s \<Longrightarrow> list_all (\<lambda>b. b < 256) (utf8_encode s)"
proof (induction s rule: utf8_encode.induct)
  case (2 u)
  then show ?case by (auto simp: utf8_unit_def less_mult_imp_div_less) 
next
  case (3 u v s)
  have "list_all (\<lambda>b. b < 256) (utf8_unit u)"
  proof -
    have "u div 4096 < 16" "u mod 64 < 64" "u div 64 mod 64 < 64"
      using 3 by (auto simp: less_mult_imp_div_less)
    moreover have "u < 2048 \<Longrightarrow> u div 64 < 32" by (simp add: less_mult_imp_div_less)
    ultimately show ?thesis by (auto simp: utf8_unit_def)
  qed
  moreover have "list_all (\<lambda>b. b < 256) (utf8_pair u v)" if "is_high u" "is_low v"
  proof -
    have "pair_offset u v < 1048576" using that by (auto simp: pair_offset_def is_high_def is_low_def)
    then have "(65536 + pair_offset u v) div 262144 < 5" by (simp add: less_mult_imp_div_less)
    then show ?thesis by (simp add: utf8_pair_def Let_def) linarith
  qed
  ultimately show ?case using 3 by auto
qed simp

lemma wf_utf16_js_ok: "wf_utf16 s \<Longrightarrow> js_ok s"
  by (induction s rule: wf_utf16.induct) (auto simp: is_high_def is_low_def split: if_splits)

lemma utf8_encode_Nil [simp]: "utf8_encode s = [] \<longleftrightarrow> s = []"
  by (cases s rule: utf8_encode.cases) (auto simp: utf8_unit_def utf8_pair_def Let_def)

end
