(* ===== verification/Memory_Rows.thy ===== *)
theory Memory_Rows
  imports Vocabulary Utf8_Base64
begin

text \<open>
  The \<open>memories\<close> table and the objects read from it: \<open>src/db/schema.ts\<close>,
  \<open>src/db/memory-repository/types.ts\<close> and \<open>reads.ts\<close>, and the raw active-row query of
  \<open>src/memory-tool/active-rows.ts\<close>.

  A row is a record with one field per column; the columns the CHECK constraints close
  (\<open>kind\<close>, \<open>source\<close>, \<open>share_state\<close>) have datatypes, the columns that hold JSON text keep the text.
  A \<open>memory\<close> extends a row with what \<open>rowToMemory\<close> parses out of those columns; the parsed values
  are unchecked JSON, as they are in the code.

  \<open>host\<close> collects what the code calls outside the repository: number printing and rounding,
  \<open>sha256\<close>, \<open>julianday\<close>, clocks and the UUID supply.  Every theorem holds for any host, or names
  what it assumes of it.
\<close>

section \<open>The host\<close>

record host =
  nums :: num_codec                  \<comment> \<open>number literals of JSON\<close>
  fl :: "rat \<Rightarrow> rat"                 \<comment> \<open>rounding to a double\<close>
  sha256 :: "nat list \<Rightarrow> jstr"       \<comment> \<open>\<open>createHash('sha256').update(bytes).digest('hex')\<close>\<close>
  julianday :: "jstr \<Rightarrow> rat option"  \<comment> \<open>SQLite \<open>julianday(text)\<close>\<close>
  sql_now :: jstr                    \<comment> \<open>SQLite \<open>datetime('now')\<close>\<close>
  iso_now :: jstr                    \<comment> \<open>\<open>now()\<close> of \<open>src/utils/time.ts\<close>\<close>
  uuid :: "nat \<Rightarrow> jstr"              \<comment> \<open>the n-th result of \<open>randomUUID()\<close>\<close>
  scrub :: "jstr \<Rightarrow> jstr"            \<comment> \<open>\<open>scrubSecrets(text).text\<close>\<close>
  fixed2 :: "number \<Rightarrow> jstr"         \<comment> \<open>\<open>Number.prototype.toFixed(2)\<close>\<close>

text \<open>A host that evaluates: integers and one half as number literals, a small polynomial hash, numbered
  identifiers.  Only witnesses use it.\<close>

definition sample_show :: "number \<Rightarrow> jstr" where
  "sample_show n = (case n of Fin q \<Rightarrow> if q = of_int \<lfloor>q\<rfloor> \<and> 0 \<le> q then show_nat (nat \<lfloor>q\<rfloor>) else js ''0.5''
     | _ \<Rightarrow> js ''0'')"

definition sample_read :: "jstr \<Rightarrow> number" where
  "sample_read s = Fin (if s = js ''0.5'' then 1 / 2 else of_nat (read_nat s))"

definition sample_host :: host where
  "sample_host = \<lparr> nums = \<lparr> show_num = sample_show, read_num = sample_read \<rparr>, fl = (\<lambda>q. q),
     sha256 = (\<lambda>bs. show_nat (foldl (\<lambda>a b. (a * 31 + b) mod 1000003) 7 bs)),
     julianday = (\<lambda>s. Some (of_nat (read_nat s))),
     sql_now = js ''2026-01-01 00:00:00'', iso_now = js ''2026-01-01T00:00:00.000Z'',
     uuid = (\<lambda>n. js ''00000000-0000-4000-8000-'' @ replicate (12 - length (show_nat n)) 48 @ show_nat n),
     scrub = (\<lambda>s. s), fixed2 = (\<lambda>n. js ''0.50'') \<rparr>"

section \<open>Rows\<close>

record memory_row =
  r_id :: jstr
  r_content :: jstr
  r_kind :: memory_kind
  r_project :: "jstr option"
  r_tags :: "jstr option"
  r_confidence :: number
  r_source :: memory_source
  r_created_at :: jstr
  r_last_recalled :: "jstr option"
  r_recall_count :: int
  r_invalidated :: int
  r_expires_at :: "jstr option"
  r_surface_count :: int
  r_impact_count :: int
  r_fingerprint :: "jstr option"
  r_context :: "jstr option"
  r_embedding :: "nat list option"
  r_embedding_model :: "jstr option"
  r_anchor :: "jstr option"
  r_superseded_by :: "jstr option"
  r_superseded_at :: "jstr option"
  r_revision :: int
  r_origin_client :: jstr
  r_author :: "jstr option"
  r_updated_at :: "jstr option"
  r_share_state :: "share_state option"
  r_last_decayed :: "jstr option"

record memory = memory_row +
  m_tags :: json
  m_fingerprint :: json
  m_context :: json

text \<open>\<open>text ? JSON.parse(text) : dflt\<close>; \<open>None\<close> is the thrown \<open>SyntaxError\<close>.\<close>

definition parse_column :: "host \<Rightarrow> json \<Rightarrow> jstr option \<Rightarrow> json option" where
  "parse_column h dflt col = (case col of
      None \<Rightarrow> Some dflt
    | Some t \<Rightarrow> if t = [] then Some dflt else json_parse (nums h) t)"

definition rowToMemory :: "host \<Rightarrow> memory_row \<Rightarrow> memory option" where
  "rowToMemory h row =
    (case (parse_column h (JArr []) (r_tags row), parse_column h JNull (r_fingerprint row),
           parse_column h JNull (r_context row)) of
       (Some tags, Some fp, Some ctx) \<Rightarrow> Some (memory_row.extend row (memory.fields tags fp ctx))
     | _ \<Rightarrow> None)"

lemma rowToMemory_fields:
  "rowToMemory h row = Some m \<Longrightarrow>
    memory_row.truncate m = row \<and> parse_column h (JArr []) (r_tags row) = Some (m_tags m) \<and>
    parse_column h JNull (r_context row) = Some (m_context m) \<and> r_id m = r_id row"
  by (auto simp: rowToMemory_def memory_row.defs memory.defs split: option.splits)

section \<open>Queries\<close>

text \<open>\<open>invalidated = 0 AND superseded_by IS NULL\<close>.\<close>

definition active :: "'a memory_row_scheme \<Rightarrow> bool" where
  "active r \<longleftrightarrow> r_invalidated r = 0 \<and> r_superseded_by r = None"

definition find_row :: "jstr \<Rightarrow> memory_row list \<Rightarrow> memory_row option" where
  "find_row i rows = find (\<lambda>r. r_id r = i) rows"

definition findById :: "host \<Rightarrow> jstr \<Rightarrow> memory_row list \<Rightarrow> memory option option" where
  "findById h i rows = (case find (\<lambda>r. r_id r = i \<and> r_kind r \<noteq> Rule) rows of
      None \<Rightarrow> Some None
    | Some row \<Rightarrow> map_option Some (rowToMemory h row))"

text \<open>\<open>kind IN (...) AND project = ? | IS NULL AND\<close> active, in rowid order.\<close>

definition in_scope :: "jstr option \<Rightarrow> memory_kind list \<Rightarrow> 'a memory_row_scheme \<Rightarrow> bool" where
  "in_scope project kinds r \<longleftrightarrow> r_kind r \<in> set kinds \<and> r_project r = project \<and> active r"

text \<open>\<open>activeRows\<close> of \<open>active-rows.ts\<close>: \<open>ORDER BY id\<close>, ids and kinds only.\<close>

definition activeRows :: "jstr option \<Rightarrow> memory_kind list \<Rightarrow> memory_row list \<Rightarrow> (jstr \<times> memory_kind) list"
where
  "activeRows project kinds rows =
     map (\<lambda>r. (r_id r, r_kind r)) (sort_key r_id (filter (in_scope project kinds) rows))"

lemma activeRows_Nil: "activeRows project kinds rows = [] \<longleftrightarrow> (\<forall>r\<in>set rows. \<not> in_scope project kinds r)"
  by (auto simp: activeRows_def filter_empty_conv dest: arg_cong [of _ _ length])

lemma set_activeRows:
  "set (activeRows project kinds rows) = (\<lambda>r. (r_id r, r_kind r)) ` {r \<in> set rows. in_scope project kinds r}"
  by (auto simp: activeRows_def)

section \<open>Identifiers\<close>

text \<open>\<open>^[0-9a-f]{8}-[0-9a-f]{4}-[0-9a-f]{4}-[0-9a-f]{4}-[0-9a-f]{12}$\<close>\<close>

definition is_uuid :: "jstr \<Rightarrow> bool" where
  "is_uuid s \<longleftrightarrow> map length (split_on 45 s) = [8, 4, 4, 4, 12] \<and>
     list_all (list_all is_lower_hex) (split_on 45 s)"

lemma is_uuid_length: "is_uuid s \<Longrightarrow> length s = 36"
proof -
  assume "is_uuid s"
  then have l: "map length (split_on 45 s) = [8, 4, 4, 4, 12]" by (simp add: is_uuid_def)
  then have "length (map length (split_on 45 s)) = 5" by simp
  then have "length (split_on 45 s) = 5" by (simp only: length_map)
  then show ?thesis using length_join [of "[45]" "split_on 45 s"] l by simp
qed

lemma is_uuid_units: "is_uuid s \<Longrightarrow> u \<in> set s \<Longrightarrow> is_lower_hex u \<or> u = 45"
proof -
  assume s: "is_uuid s" and u: "u \<in> set s"
  from u have "u \<in> set (join [45] (split_on 45 s))" by simp
  then have "u = 45 \<or> (\<exists>x\<in>set (split_on 45 s). u \<in> set x)"
    using set_join [of "[45]" "split_on 45 s"] by auto
  with s show ?thesis by (auto simp: is_uuid_def list_all_iff)
qed

lemma is_uuid_first: "is_uuid s \<Longrightarrow> \<exists>u t. s = u # t \<and> is_lower_hex u"
proof (cases s)
  case (Cons u t)
  assume s: "is_uuid s"
  have "u \<noteq> 45"
  proof
    assume "u = 45"
    with Cons have "split_on 45 s = [] # split_on 45 t" by simp
    with s show False by (simp add: is_uuid_def)
  qed
  then show ?thesis using is_uuid_units [OF s, of u] Cons by auto
qed (use is_uuid_length in force)

section \<open>A row for witnesses\<close>

definition sample_row :: "jstr \<Rightarrow> jstr \<Rightarrow> memory_row" where
  "sample_row i c = \<lparr> r_id = i, r_content = c, r_kind = Pitfall, r_project = Some (js ''web''),
     r_tags = Some (js ''[\"net\"]''), r_confidence = Fin (1 / 2), r_source = Learned,
     r_created_at = js ''2026'', r_last_recalled = None, r_recall_count = 0, r_invalidated = 0,
     r_expires_at = None, r_surface_count = 0, r_impact_count = 0, r_fingerprint = None,
     r_context = Some (js ''{\"why\":\"slow\"}''), r_embedding = None, r_embedding_model = None,
     r_anchor = None, r_superseded_by = None, r_superseded_at = None, r_revision = 1,
     r_origin_client = js ''claude'', r_author = None, r_updated_at = None, r_share_state = None,
     r_last_decayed = None \<rparr>"

definition sample_memory :: "jstr \<Rightarrow> jstr \<Rightarrow> memory" where
  "sample_memory i c = memory_row.extend (sample_row i c)
     (memory.fields (JArr [JStr (js ''net'')]) JNull (JObj [(js ''why'', JStr (js ''slow''))]))"


end
