(* ===== verification/Memory_Paths.thy ===== *)
theory Memory_Paths
  imports Vocabulary Utf8_Base64
begin

text \<open>
  The path router of the memory tool, \<open>packages/contract/src/memory-paths.ts\<close>: the categories and
  the kinds they own, the encoding of a project name as a path segment, the detection of
  percent-encoded traversal, the ordered validation and lexical normalization of a raw path, the
  classification of a valid path and its inverse \<open>canonicalPathFor\<close>.

  Regular expressions are written out as the unit predicates of the prelude.  The thrown
  \<open>invalid path\<close> message is the one value of \<open>path_error\<close>, which carries the raw path.
\<close>

section \<open>Categories\<close>

datatype category =
    Pitfalls | Decisions | Facts | Corrections | References | Patterns | User_Profile_File | Plan

fun category_str :: "category \<Rightarrow> jstr" where
  "category_str Pitfalls = js ''pitfalls''"
| "category_str Decisions = js ''decisions''"
| "category_str Facts = js ''facts''"
| "category_str Corrections = js ''corrections''"
| "category_str References = js ''references''"
| "category_str Patterns = js ''patterns''"
| "category_str User_Profile_File = js ''user-profile''"
| "category_str Plan = js ''plan''"

fun CATEGORY_KINDS :: "category \<Rightarrow> memory_kind list" where
  "CATEGORY_KINDS Pitfalls = [Pitfall]"
| "CATEGORY_KINDS Decisions = [Decision]"
| "CATEGORY_KINDS Facts = [Fact]"
| "CATEGORY_KINDS Corrections = [Correction]"
| "CATEGORY_KINDS References = [Reference]"
| "CATEGORY_KINDS Patterns = [Pattern, Goal]"
| "CATEGORY_KINDS User_Profile_File = [User_Profile]"
| "CATEGORY_KINDS Plan = []"

text \<open>\<open>Object.entries(CATEGORY_KINDS)\<close>: the categories in the order of the object literal.\<close>

definition category_entries :: "category list" where
  "category_entries = [Pitfalls, Decisions, Facts, Corrections, References, Patterns,
     User_Profile_File, Plan]"

definition PROJECT_CATEGORIES :: "category list" where
  "PROJECT_CATEGORIES = [Pitfalls, Decisions, Facts, Corrections, References, Patterns, Plan]"

definition GLOBAL_CATEGORIES :: "category list" where
  "GLOBAL_CATEGORIES = PROJECT_CATEGORIES @ [User_Profile_File]"

definition scope_categories :: "jstr option \<Rightarrow> category list" where
  "scope_categories project = (if project = None then GLOBAL_CATEGORIES else PROJECT_CATEGORIES)"

definition vfsOwnedKinds :: "jstr option \<Rightarrow> memory_kind list" where
  "vfsOwnedKinds project = concat (map CATEGORY_KINDS (scope_categories project))"

datatype routed_path =
    Root
  | Directory "jstr option"
  | Materialized "jstr option" category bool
  | Free_Form jstr

definition MEMORY_ROOT :: jstr where "MEMORY_ROOT = js ''/memories''"
definition GLOBAL_SEGMENT :: jstr where "GLOBAL_SEGMENT = js ''global''"
definition PROJECT_PREFIX :: jstr where "PROJECT_PREFIX = js ''p-''"
definition MAX_PATH_LENGTH :: nat where "MAX_PATH_LENGTH = 1024"

section \<open>Project segments\<close>

definition encodeProjectSegment :: "jstr \<Rightarrow> jstr" where
  "encodeProjectSegment project = PROJECT_PREFIX @ b64_encode (utf8_encode project)"

definition decodeProjectSegment :: "jstr \<Rightarrow> jstr option" where
  "decodeProjectSegment segment =
    (if \<not> starts_with PROJECT_PREFIX segment then None
     else let body = drop (length PROJECT_PREFIX) segment in
       if length body = 0 then Some []
       else if \<not> list_all is_b64 body then None
       else let decoded = utf8_decode (b64_decode body) in
         if encodeProjectSegment decoded = segment then Some decoded else None)"

section \<open>Percent-encoded traversal\<close>

datatype path_error = Invalid_Path jstr

definition DECODE_ROUNDS :: nat where "DECODE_ROUNDS = 3"

text \<open>\<open>s.replace(/%([0-9a-fA-F]{2})/g, ...)\<close>: one pass from left to right, no rescanning.\<close>

fun decodeOnce :: "jstr \<Rightarrow> jstr" where
  "decodeOnce (p # h # l # s) =
    (if p = 37 then (case (hex_val h, hex_val l) of
         (Some x, Some y) \<Rightarrow> (16 * x + y) # decodeOnce s
       | _ \<Rightarrow> p # decodeOnce (h # l # s))
     else p # decodeOnce (h # l # s))"
| "decodeOnce s = s"

definition reveals_traversal :: "jstr \<Rightarrow> bool" where
  "reveals_traversal cur \<longleftrightarrow> 47 \<in> set cur \<or> 92 \<in> set cur \<or> cur = js ''..'' \<or>
     has_sub (js ''../'') cur \<or> has_sub [46, 46, 92] cur \<or> list_ex is_control cur"

text \<open>The bounded loop: the rounds left, then the check after the budget is spent.\<close>

fun decode_rounds :: "nat \<Rightarrow> jstr \<Rightarrow> bool" where
  "decode_rounds 0 cur \<longleftrightarrow> decodeOnce cur \<noteq> cur"
| "decode_rounds (Suc n) cur \<longleftrightarrow> (let nxt = decodeOnce cur in
     if nxt = cur then False
     else if reveals_traversal nxt then True
     else decode_rounds n nxt)"

definition segmentHidesTraversal :: "jstr \<Rightarrow> bool" where
  "segmentHidesTraversal segment \<longleftrightarrow> decode_rounds DECODE_ROUNDS segment"

section \<open>Validation and normalization\<close>

text \<open>The loop over the segments; \<open>segments\<close> is kept in reverse, so \<open>push\<close> and \<open>pop\<close> are at the
  head.\<close>

fun resolve_segments :: "jstr \<Rightarrow> jstr list \<Rightarrow> jstr list \<Rightarrow> path_error + jstr list" where
  "resolve_segments raw acc [] = Inr (rev acc)"
| "resolve_segments raw acc (seg # segs) =
    (if seg = [] \<or> seg = js ''.'' then resolve_segments raw acc segs
     else if seg = js ''..'' then
       (if acc = [] then Inl (Invalid_Path raw) else resolve_segments raw (tl acc) segs)
     else resolve_segments raw (seg # acc) segs)"

definition under_root :: "jstr \<Rightarrow> bool" where
  "under_root p \<longleftrightarrow> p = MEMORY_ROOT \<or> starts_with (MEMORY_ROOT @ [47]) p"

definition normalizeMemoryPath :: "jstr \<Rightarrow> path_error + jstr" where
  "normalizeMemoryPath raw = (let bad = Inl (Invalid_Path raw) in
     if length raw = 0 \<or> length raw > MAX_PATH_LENGTH then bad
     else if list_ex is_control raw then bad
     else if has_sub (js ''../'') raw \<or> has_sub [46, 46, 92] raw \<or> raw = js ''..''
       \<or> ends_with (js ''/..'') raw then bad
     else if 92 \<in> set raw then bad
     else if list_ex segmentHidesTraversal (split_on 47 raw) then bad
     else if \<not> under_root raw then bad
     else bindE (resolve_segments raw [] (split_on 47 raw)) (\<lambda>segments.
       let normalized = 47 # join [47] segments in
       if \<not> under_root normalized then bad else Inr normalized))"

section \<open>Routing\<close>

definition categoryOf :: "jstr \<Rightarrow> category list \<Rightarrow> category option" where
  "categoryOf fileName allowed =
    (if \<not> ends_with (js ''.md'') fileName then None
     else vocab_find category_str allowed (take (length fileName - 3) fileName))"

definition route_one :: "jstr \<Rightarrow> jstr \<Rightarrow> routed_path" where
  "route_one path seg =
    (if seg = GLOBAL_SEGMENT then Directory None
     else case decodeProjectSegment seg of
       Some project \<Rightarrow> Directory (Some project)
     | None \<Rightarrow> Free_Form path)"

definition route_two :: "jstr \<Rightarrow> jstr \<Rightarrow> jstr \<Rightarrow> routed_path" where
  "route_two path dir file =
    (if dir = GLOBAL_SEGMENT then
       (case categoryOf file GLOBAL_CATEGORIES of
          Some category \<Rightarrow> Materialized None category (category = Plan)
        | None \<Rightarrow> Free_Form path)
     else case decodeProjectSegment dir of
       Some project \<Rightarrow>
         (case categoryOf file PROJECT_CATEGORIES of
            Some category \<Rightarrow> Materialized (Some project) category (category = Plan)
          | None \<Rightarrow> Free_Form path)
     | None \<Rightarrow> Free_Form path)"

definition route_normalized :: "jstr \<Rightarrow> routed_path" where
  "route_normalized path =
    (if path = MEMORY_ROOT then Root
     else case split_on 47 (drop (length MEMORY_ROOT + 1) path) of
       [seg] \<Rightarrow> route_one path seg
     | [dir, file] \<Rightarrow> route_two path dir file
     | _ \<Rightarrow> Free_Form path)"

definition routeMemoryPath :: "jstr \<Rightarrow> path_error + routed_path" where
  "routeMemoryPath raw = bindE (normalizeMemoryPath raw) (\<lambda>path. Inr (route_normalized path))"

definition category_of_kind :: "memory_kind \<Rightarrow> category option" where
  "category_of_kind kind = find (\<lambda>c. kind \<in> set (CATEGORY_KINDS c)) category_entries"

definition scope_dir :: "jstr option \<Rightarrow> jstr" where
  "scope_dir project =
    (case project of None \<Rightarrow> GLOBAL_SEGMENT | Some p \<Rightarrow> encodeProjectSegment p)"

definition canonicalPathFor :: "memory_kind \<Rightarrow> jstr option \<Rightarrow> jstr option" where
  "canonicalPathFor kind project = (case category_of_kind kind of
      None \<Rightarrow> None
    | Some category \<Rightarrow>
        if category = User_Profile_File \<or> kind = User_Profile
        then Some (MEMORY_ROOT @ [47] @ GLOBAL_SEGMENT @ js ''/user-profile.md'')
        else Some (MEMORY_ROOT @ [47] @ scope_dir project @ [47] @ category_str category @ js ''.md''))"

section \<open>Segments of a path\<close>

lemma split_on_append_sep: "split_on c (a @ c # b) = split_on c a @ split_on c b"
  by (induction a) (auto split: list.splits)

lemma split_on_append_last:
  "c \<notin> set x \<Longrightarrow> split_on c (a @ x) = butlast (split_on c a) @ [last (split_on c a) @ x]"
  by (induction a) (auto simp: split_on_no_sep split: list.splits)

lemma has_sub_split:
  assumes "c \<notin> set x"
  shows "has_sub (x @ [c]) s \<longleftrightarrow> (\<exists>y\<in>set (butlast (split_on c s)). ends_with x y)"
proof
  assume "has_sub (x @ [c]) s"
  then obtain a b where "s = (a @ x) @ c # b" by (auto simp: has_sub_iff)
  then have "split_on c s = butlast (split_on c a) @ [last (split_on c a) @ x] @ split_on c b"
    using split_on_append_sep [of c "a @ x" b] split_on_append_last [OF assms, of a] by simp
  then have "last (split_on c a) @ x \<in> set (butlast (split_on c s))"
    by (simp add: butlast_append)
  then show "\<exists>y\<in>set (butlast (split_on c s)). ends_with x y"
    by (auto simp: ends_with_iff)
next
  assume "\<exists>y\<in>set (butlast (split_on c s)). ends_with x y"
  then obtain y t where y: "y \<in> set (butlast (split_on c s))" "y = t @ x"
    by (auto simp: ends_with_iff)
  then obtain us vs where uv: "butlast (split_on c s) = us @ y # vs" by (auto simp: in_set_conv_decomp)
  have "split_on c s = butlast (split_on c s) @ [last (split_on c s)]" by simp
  then obtain z zs where "split_on c s = us @ y # z # zs"
    using uv by (cases vs) auto
  then have "s = join [c] (us @ y # z # zs)" by (metis join_split_on)
  moreover have "has_sub (x @ [c]) (join [c] (us @ y # z # zs))"
  proof (induction us)
    case Nil
    then show ?case unfolding y(2) has_sub_iff
      by (intro exI [of _ t] exI [of _ "join [c] (z # zs)"]) simp
  next
    case (Cons u us)
    then have "has_sub (x @ [c]) ((u @ [c]) @ join [c] (us @ y # z # zs) @ [])"
      by (rule has_sub_append)
    then show ?case by (simp add: join_Cons)
  qed
  ultimately show "has_sub (x @ [c]) s" by simp
qed

lemma butlast_filter: "set (butlast (filter P xs)) \<subseteq> set (butlast xs)"
  by (induction xs) (auto split: if_splits)

lemma dotdot_segment:
  assumes "js ''..'' \<in> set (split_on 47 raw)"
  shows "has_sub (js ''../'') raw \<or> raw = js ''..'' \<or> ends_with (js ''/..'') raw"
proof -
  from assms obtain us vs where uv: "split_on 47 raw = us @ js ''..'' # vs"
    by (auto simp: in_set_conv_decomp)
  have dots: "js ''../'' = js ''..'' @ [47]" "js ''/..'' = 47 # js ''..''" by (simp_all add: js_def)
  show ?thesis
  proof (cases vs)
    case (Cons v vs')
    then have "js ''..'' \<in> set (butlast (split_on 47 raw))" using uv by (simp add: butlast_append)
    moreover have "ends_with (js ''..'') (js ''..'')" by (auto simp: ends_with_iff)
    ultimately show ?thesis unfolding dots by (subst has_sub_split) (auto simp: js_def)
  next
    case Nil
    have raw: "raw = join [47] (us @ [js ''..''])" using uv Nil by (metis join_split_on)
    show ?thesis
    proof (cases us rule: rev_cases)
      case Nil
      with raw show ?thesis by simp
    next
      case (snoc ws w)
      have "\<exists>t. join [47] (ws @ [w, js ''..'']) = t @ 47 # js ''..''"
      proof (induction ws)
        case Nil
        then show ?case by auto
      next
        case (Cons x xs)
        then show ?case by (auto simp: join_Cons)
      qed
      with raw snoc show ?thesis by (simp add: ends_with_iff dots)
    qed
  qed
qed

lemma resolve_segments_filter:
  "js ''..'' \<notin> set segs \<Longrightarrow>
    resolve_segments raw acc segs = Inr (rev acc @ filter (\<lambda>s. s \<noteq> [] \<and> s \<noteq> js ''.'') segs)"
  by (induction segs arbitrary: acc) auto

section \<open>What a validated path cannot hide\<close>

lemma iterates_fixed: "decodeOnce cur = cur \<Longrightarrow> (decodeOnce ^^ k) cur = cur"
  by (induction k) auto

lemma decode_rounds_clean:
  "\<not> decode_rounds n cur \<Longrightarrow>
    (decodeOnce ^^ k) cur = cur \<or> \<not> reveals_traversal ((decodeOnce ^^ k) cur)"
proof (induction n arbitrary: cur k)
  case 0
  then show ?case by (simp add: iterates_fixed)
next
  case (Suc n)
  show ?case
  proof (cases "decodeOnce cur = cur")
    case True
    then show ?thesis by (simp add: iterates_fixed)
  next
    case False
    with Suc.prems have nxt: "\<not> reveals_traversal (decodeOnce cur)"
      and rest: "\<not> decode_rounds n (decodeOnce cur)" by (simp_all add: Let_def split: if_splits)
    show ?thesis
    proof (cases k)
      case (Suc m)
      then show ?thesis using Suc.IH [OF rest, of m] nxt by (auto simp: funpow_Suc_right simp del: funpow.simps)
    qed simp
  qed
qed

text \<open>The guards that a path which normalizes has passed, and what it normalizes to.\<close>

definition path_guards :: "jstr \<Rightarrow> bool" where
  "path_guards raw \<longleftrightarrow> raw \<noteq> [] \<and> length raw \<le> MAX_PATH_LENGTH \<and> \<not> list_ex is_control raw \<and>
     \<not> has_sub (js ''../'') raw \<and> \<not> has_sub [46, 46, 92] raw \<and> raw \<noteq> js ''..'' \<and>
     \<not> ends_with (js ''/..'') raw \<and> 92 \<notin> set raw \<and>
     \<not> list_ex segmentHidesTraversal (split_on 47 raw) \<and> under_root raw"

definition kept_segments :: "jstr \<Rightarrow> jstr list" where
  "kept_segments raw = filter (\<lambda>s. s \<noteq> [] \<and> s \<noteq> js ''.'') (split_on 47 raw)"

lemma path_guards_dotdot: "path_guards raw \<Longrightarrow> js ''..'' \<notin> set (split_on 47 raw)"
  using dotdot_segment by (auto simp: path_guards_def)

lemma normalizeMemoryPath_iff:
  "normalizeMemoryPath raw = Inr p \<longleftrightarrow>
    path_guards raw \<and> p = 47 # join [47] (kept_segments raw) \<and> under_root p"
proof (cases "path_guards raw")
  case True
  then show ?thesis using resolve_segments_filter [OF path_guards_dotdot [OF True], of raw "[]"]
    unfolding normalizeMemoryPath_def path_guards_def kept_segments_def Let_def by auto
next
  case False
  then show ?thesis unfolding normalizeMemoryPath_def path_guards_def Let_def
    by (auto simp only: split: if_splits)
qed

lemma guarded_segment_clean:
  assumes "path_guards raw" and seg: "seg \<in> set (split_on 47 raw)"
  shows "\<not> reveals_traversal ((decodeOnce ^^ k) seg)"
proof -
  have slash: "47 \<notin> set seg" using split_on_sep_free seg by blast
  have sub: "set seg \<subseteq> set raw" using set_split_on seg by blast
  have "\<not> reveals_traversal seg"
    using assms slash sub path_guards_dotdot [OF assms(1)]
    by (auto simp: reveals_traversal_def path_guards_def has_sub_iff list_ex_iff js_def)
  moreover from assms have "\<not> decode_rounds DECODE_ROUNDS seg"
    by (auto simp: path_guards_def list_ex_iff segmentHidesTraversal_def)
  ultimately show ?thesis using decode_rounds_clean by metis
qed

lemma split_kept:
  assumes "kept_segments raw \<noteq> []"
  shows "split_on 47 (47 # join [47] (kept_segments raw)) = [] # kept_segments raw"
proof -
  have "split_on 47 (join [47] (kept_segments raw)) = kept_segments raw"
    using assms split_on_sep_free by (intro split_on_join) (auto simp: kept_segments_def)
  then show ?thesis by simp
qed

lemma under_root_kept:
  assumes "under_root (47 # join [47] (kept_segments raw))"
  shows "kept_segments raw \<noteq> []"
  using assms by (auto simp: under_root_def MEMORY_ROOT_def js_def)

lemma length_filter_join:
  "length (join [c] (filter P xs)) \<le> length (join [c] xs)"
proof -
  have "sum_list (map length (filter P xs)) \<le> sum_list (map length xs)" by (induction xs) auto
  moreover have "length (filter P xs) - 1 \<le> length xs - 1" by (simp add: diff_le_mono)
  ultimately show ?thesis by (simp add: length_join)
qed

lemma under_root_first: "under_root raw \<Longrightarrow> \<exists>rest. split_on 47 raw = [] # rest \<and> rest \<noteq> []"
  by (auto simp: under_root_def MEMORY_ROOT_def starts_with_iff js_def split: list.splits)

lemma normalized_length:
  assumes "under_root raw"
  shows "length (47 # join [47] (kept_segments raw)) \<le> length raw"
proof -
  obtain rest where rest: "split_on 47 raw = [] # rest" "rest \<noteq> []" using under_root_first assms by blast
  then have "raw = 47 # join [47] rest" using join_split_on [of 47 raw] by (simp add: join_Cons)
  moreover have "kept_segments raw = filter (\<lambda>s. s \<noteq> [] \<and> s \<noteq> js ''.'') rest"
    by (simp add: kept_segments_def rest(1))
  ultimately show ?thesis using length_filter_join [of 47 _ rest] by simp
qed

lemma normalized_guards:
  assumes g: "path_guards raw" and u: "under_root (47 # join [47] (kept_segments raw))"
  shows "path_guards (47 # join [47] (kept_segments raw))"
proof -
  let ?p = "47 # join [47] (kept_segments raw)"
  note sp = split_kept [OF under_root_kept [OF u]]
  have segs: "set (kept_segments raw) \<subseteq> set (split_on 47 raw)" by (auto simp: kept_segments_def)
  have units: "set ?p \<subseteq> insert 47 (set raw)"
    using set_join [of "[47]" "kept_segments raw"] segs set_split_on by fastforce
  have raw47: "raw \<noteq> []" using g by (simp add: path_guards_def)
  have sub: "\<not> has_sub (js ''..'' @ [47]) ?p"
  proof
    assume h: "has_sub (js ''..'' @ [47]) ?p"
    have nd: "47 \<notin> set (js ''..'')" by (simp add: js_def)
    have "\<exists>y\<in>set (butlast (split_on 47 ?p)). ends_with (js ''..'') y"
      using has_sub_split [OF nd, THEN iffD1, OF h] .
    then obtain y where y: "y \<in> set (butlast ([] # kept_segments raw))" "ends_with (js ''..'') y"
      unfolding sp by (elim bexE)
    have "y \<noteq> []" using y(2) by (auto simp: ends_with_def)
    with y(1) have "y \<in> set (butlast (kept_segments raw))" by (simp split: if_splits)
    then have "y \<in> set (butlast (split_on 47 raw))"
      unfolding kept_segments_def by (rule subsetD [OF butlast_filter])
    with y(2) have "has_sub (js ''..'' @ [47]) raw"
      using has_sub_split [OF nd, THEN iffD2, of raw] by blast
    with g show False by (simp add: path_guards_def js_def)
  qed
  have last: "\<not> ends_with (js ''/..'') ?p"
  proof
    assume "ends_with (js ''/..'') ?p"
    then obtain t where "?p = t @ 47 # js ''..''" by (auto simp: ends_with_iff js_def)
    then have "split_on 47 ?p = split_on 47 t @ [js ''..'']"
      by (simp only: split_on_append_sep) (simp add: js_def)
    then have "js ''..'' \<in> set ([] # kept_segments raw)" using sp by (metis in_set_conv_decomp)
    then show False using segs path_guards_dotdot [OF g] by auto
  qed
  show ?thesis
    unfolding path_guards_def
  proof (intro conjI)
    show "length ?p \<le> MAX_PATH_LENGTH"
      using normalized_length g by (meson le_trans path_guards_def)
    show "\<not> list_ex is_control ?p"
      using units g by (auto simp: path_guards_def list_ex_iff is_control_def)
    show "\<not> has_sub (js ''../'') ?p" using sub by (simp add: js_def)
    show "92 \<notin> set ?p" using units g by (auto simp: path_guards_def)
    then show "\<not> has_sub [46, 46, 92] ?p" using has_sub_set [of "[46, 46, 92]" ?p] by auto
    show "?p \<noteq> js ''..''" by (simp add: js_def)
    have "\<not> segmentHidesTraversal []"
      by (simp add: segmentHidesTraversal_def DECODE_ROUNDS_def numeral_3_eq_3 Let_def)
    then show "\<not> list_ex segmentHidesTraversal (split_on 47 ?p)"
      using segs g by (auto simp: sp path_guards_def list_ex_iff simp del: split_on.simps)
  qed (use last u in auto)
qed

lemma kept_kept:
  assumes "kept_segments raw \<noteq> []"
  shows "kept_segments (47 # join [47] (kept_segments raw)) = kept_segments raw"
  unfolding kept_segments_def [of "47 # join [47] (kept_segments raw)"] split_kept [OF assms]
  by (simp add: kept_segments_def)

section \<open>Routing and its inverse\<close>

text \<open>Units that the validation never objects to: no control, percent sign, slash or backslash.\<close>

definition plain :: "jstr \<Rightarrow> bool" where
  "plain s \<longleftrightarrow> list_all (\<lambda>u. 32 \<le> u \<and> u \<noteq> 127 \<and> u \<noteq> 37 \<and> u \<noteq> 47 \<and> u \<noteq> 92) s"

lemma decodeOnce_plain: "37 \<notin> set s \<Longrightarrow> decodeOnce s = s"
  by (induction s rule: decodeOnce.induct) simp_all

lemma decode_rounds_fixed: "decodeOnce s = s \<Longrightarrow> \<not> decode_rounds n s"
  by (cases n) simp_all

lemma plain_unit: "plain s \<Longrightarrow> u \<in> set s \<Longrightarrow> u \<noteq> 37 \<and> u \<noteq> 47 \<and> u \<noteq> 92 \<and> \<not> is_control u"
  unfolding plain_def list_all_iff is_control_def by fastforce

lemma plain_not_hidden: "plain s \<Longrightarrow> \<not> segmentHidesTraversal s"
  unfolding segmentHidesTraversal_def using plain_unit [of s 37]
  by (intro decode_rounds_fixed decodeOnce_plain) blast

lemma plain_append [simp]: "plain (a @ b) \<longleftrightarrow> plain a \<and> plain b"
  by (simp add: plain_def)

lemma plain_category [simp]: "plain (category_str c)"
  by (cases c) (simp_all add: plain_def js_def)

lemma plain_b64: "list_all is_b64 s \<Longrightarrow> plain s"
  by (auto simp: plain_def list_all_iff is_b64_def is_alnum_def is_digit_def is_lower_def is_upper_def)

lemma plain_encode: "js_ok p \<Longrightarrow> plain (encodeProjectSegment p)"
  using plain_b64 [OF b64_encode_alphabet [OF utf8_bytes_bound]]
  by (simp add: encodeProjectSegment_def PROJECT_PREFIX_def plain_def js_def)

lemma plain_global [simp]: "plain GLOBAL_SEGMENT"
  by (simp add: GLOBAL_SEGMENT_def plain_def js_def)

text \<open>A path of two plain segments below the root is valid as it stands.\<close>

lemma normalize_two:
  assumes "plain dir" "plain file" "dir \<noteq> []" "file \<noteq> []" "46 \<notin> set dir" "\<not> ends_with (js ''..'') file"
    "file \<noteq> js ''.''" and len: "length dir + length file \<le> 1013"
  shows "normalizeMemoryPath (MEMORY_ROOT @ [47] @ dir @ [47] @ file) =
    Inr (MEMORY_ROOT @ [47] @ dir @ [47] @ file)"
proof -
  let ?p = "MEMORY_ROOT @ [47] @ dir @ [47] @ file"
  have pm: "plain (js ''memories'')" by (simp add: plain_def js_def)
  have slash: "\<And>s. plain s \<Longrightarrow> 47 \<notin> set s" using plain_unit by blast
  have mr: "?p = 47 # js ''memories'' @ 47 # dir @ 47 # file" by (simp add: MEMORY_ROOT_def js_def)
  have sp: "split_on 47 ?p = [[], js ''memories'', dir, file]"
    unfolding mr using assms(1,2) pm slash by (simp add: split_on_append split_on_no_sep)
  have "path_guards ?p"
    unfolding path_guards_def
  proof (intro conjI)
    have "u \<noteq> 92 \<and> \<not> is_control u" if "u \<in> set ?p" for u
      using that assms(1,2) pm plain_unit [of _ u] unfolding mr
      by (auto simp: is_control_def)
    then show "\<not> list_ex is_control ?p" "92 \<notin> set ?p" by (simp_all only: list_ex_iff) blast+
    then show "\<not> has_sub [46, 46, 92] ?p" using has_sub_set [of "[46, 46, 92]" ?p] by auto
    have nd: "47 \<notin> set (js ''..'')" by (simp add: js_def)
    have "\<not> has_sub (js ''..'' @ [47]) ?p"
      unfolding has_sub_split [OF nd] sp using assms(3,5) by (auto simp: ends_with_iff js_def)
    then show "\<not> has_sub (js ''../'') ?p" by (simp add: js_def)
    have "file \<noteq> js ''..''" using assms(6) by (auto simp: ends_with_def)
    show "\<not> ends_with (js ''/..'') ?p"
    proof
      assume "ends_with (js ''/..'') ?p"
      then obtain t where "?p = t @ 47 # js ''..''" by (auto simp: ends_with_iff js_def)
      then have "split_on 47 ?p = split_on 47 t @ [js ''..'']"
        by (simp only: split_on_append_sep) (simp add: js_def)
      then have "last (split_on 47 ?p) = js ''..''" by simp
      with \<open>file \<noteq> js ''..''\<close> show False by (simp only: sp) simp
    qed
    show "\<not> list_ex segmentHidesTraversal (split_on 47 ?p)"
      unfolding sp using assms(1,2) pm plain_not_hidden
      by (auto simp: segmentHidesTraversal_def DECODE_ROUNDS_def numeral_3_eq_3 Let_def)
  qed (use len in \<open>auto simp: MEMORY_ROOT_def MAX_PATH_LENGTH_def under_root_def js_def\<close>)
  moreover have "kept_segments ?p = [js ''memories'', dir, file]"
    unfolding kept_segments_def sp using assms by (auto simp: js_def)
  ultimately show ?thesis
    by (auto simp: normalizeMemoryPath_iff mr under_root_def MEMORY_ROOT_def js_def)
qed

lemma decode_encode_segment:
  assumes "wf_utf16 p"
  shows "decodeProjectSegment (encodeProjectSegment p) = Some p"
proof -
  have b: "list_all (\<lambda>b. b < 256) (utf8_encode p)" using assms wf_utf16_js_ok utf8_bytes_bound by blast
  then show ?thesis
    by (simp add: decodeProjectSegment_def encodeProjectSegment_def b64_encode_alphabet
        b64_decode_encode utf8_decode_encode [OF assms] Let_def)
qed

lemma decode_segment_canonical: "decodeProjectSegment seg = Some p \<Longrightarrow> encodeProjectSegment p = seg"
  by (auto simp: decodeProjectSegment_def encodeProjectSegment_def starts_with_iff b64_encode_def
      Let_def split: if_splits)

lemma encode_not_global [simp]: "encodeProjectSegment p \<noteq> GLOBAL_SEGMENT"
  by (simp add: encodeProjectSegment_def PROJECT_PREFIX_def GLOBAL_SEGMENT_def js_def)

lemma vocab_find_name:
  "inj_on name (set xs) \<Longrightarrow> x \<in> set xs \<Longrightarrow> vocab_find name xs (name x) = Some x"
  by (induction xs) (auto simp: vocab_find_def)

lemma category_str_inj: "inj category_str"
proof (rule injI)
  show "a = b" if "category_str a = category_str b" for a b
    using that by (cases a; cases b) simp_all
qed

lemma categoryOf_name [simp]:
  "c \<in> set allowed \<Longrightarrow> categoryOf (category_str c @ js ''.md'') allowed = Some c"
  using vocab_find_name [of category_str allowed c] category_str_inj
  by (simp add: categoryOf_def ends_with_iff inj_on_subset)

lemma categoryOf_Some:
  "categoryOf file allowed = Some c \<Longrightarrow> c \<in> set allowed \<and> file = category_str c @ js ''.md''"
  by (auto simp: categoryOf_def ends_with_iff split: if_splits dest!: vocab_find_Some)

lemma category_of_kind_Some:
  "category_of_kind kind = Some c \<longleftrightarrow> kind \<in> set (CATEGORY_KINDS c)"
  by (cases kind; cases c) (simp_all add: category_of_kind_def category_entries_def)

lemma category_of_kind_None: "category_of_kind kind = None \<longleftrightarrow> kind = Task_State \<or> kind = Rule"
  by (cases kind) (simp_all add: category_of_kind_def category_entries_def)

lemma split_two:
  assumes "plain dir" "plain fname"
  shows "split_on 47 (dir @ 47 # fname) = [dir, fname]"
proof -
  have "47 \<notin> set dir" "47 \<notin> set fname" using assms plain_unit by blast+
  then show ?thesis by (simp add: split_on_append split_on_no_sep)
qed

lemma scope_dir_plain: "pred_option wf_utf16 proj \<Longrightarrow> plain (scope_dir proj)"
  by (cases proj) (auto simp: scope_dir_def plain_encode wf_utf16_js_ok)

lemma scope_dir_no_dot: "pred_option wf_utf16 proj \<Longrightarrow> 46 \<notin> set (scope_dir proj)"
proof (cases proj)
  case None
  then show ?thesis by (simp add: scope_dir_def GLOBAL_SEGMENT_def js_def)
next
  case (Some p)
  assume "pred_option wf_utf16 proj"
  with Some have "list_all is_b64 (b64_encode (utf8_encode p))"
    using b64_encode_alphabet utf8_bytes_bound wf_utf16_js_ok by auto
  with Some show ?thesis
    by (auto simp: scope_dir_def encodeProjectSegment_def PROJECT_PREFIX_def js_def list_all_iff
        is_b64_def unit_class_defs)
qed

lemma route_scope_file:
  assumes "pred_option wf_utf16 proj" "length (scope_dir proj) \<le> 997" "c \<in> set (scope_categories proj)"
  shows "routeMemoryPath (MEMORY_ROOT @ [47] @ scope_dir proj @ [47] @ category_str c @ js ''.md'')
    = Inr (Materialized proj c (c = Plan))"
proof -
  let ?file = "category_str c @ js ''.md''" and ?dir = "scope_dir proj"
  have pf: "plain ?file" by (simp, simp add: plain_def js_def)
  have pd: "plain ?dir" using assms(1) by (rule scope_dir_plain)
  have len: "length ?file \<le> 16" by (cases c) simp_all
  have nd: "?dir \<noteq> []"
    by (cases proj) (simp_all add: scope_dir_def GLOBAL_SEGMENT_def encodeProjectSegment_def PROJECT_PREFIX_def)
  have "normalizeMemoryPath (MEMORY_ROOT @ [47] @ ?dir @ [47] @ ?file)
      = Inr (MEMORY_ROOT @ [47] @ ?dir @ [47] @ ?file)"
  proof (rule normalize_two [OF pd pf nd])
    show "\<not> ends_with (js ''..'') ?file" "?file \<noteq> js ''.''" "?file \<noteq> []"
      by (cases c; simp add: js_def ends_with_def)+
    show "length ?dir + length ?file \<le> 1013" using len assms(2) by simp
  qed (rule scope_dir_no_dot [OF assms(1)])
  moreover have "route_two path ?dir ?file = Materialized proj c (c = Plan)" for path
    using assms by (cases proj) (simp_all add: route_two_def scope_dir_def decode_encode_segment
        scope_categories_def)
  ultimately show ?thesis
    unfolding routeMemoryPath_def bindE.simps route_normalized_def using split_two [OF pd pf] by simp
qed

section \<open>Properties\<close>

text \<open>C33. Containment and traversal safety of \<open>normalizeMemoryPath\<close>: an accepted path is the
  root or lies below it; none of its segments is empty or \<open>.\<close>; and no number \<open>k\<close> of further
  percent-decodings of a segment, not only the three the code tries, shows a separator, a
  backslash, a control character or the segment \<open>..\<close>.\<close>

theorem normalized_path_contained:
  assumes "normalizeMemoryPath raw = Inr p"
  shows "under_root p \<and> (\<exists>segs. split_on 47 p = [] # segs \<and> (\<forall>seg\<in>set segs. seg \<noteq> [] \<and> seg \<noteq> js ''.'' \<and>
      (\<forall>k. \<not> reveals_traversal ((decodeOnce ^^ k) seg))))"
proof -
  have g: "path_guards raw" and p: "p = 47 # join [47] (kept_segments raw)" and u: "under_root p"
    using assms by (auto simp: normalizeMemoryPath_iff)
  have sp: "split_on 47 p = [] # kept_segments raw" using split_kept under_root_kept u p by metis
  have "\<forall>seg\<in>set (kept_segments raw). seg \<noteq> [] \<and> seg \<noteq> js ''.'' \<and>
      (\<forall>k. \<not> reveals_traversal ((decodeOnce ^^ k) seg))"
    using guarded_segment_clean [OF g] by (auto simp: kept_segments_def)
  with sp u show ?thesis by blast
qed

text \<open>Normalization is idempotent: a path the router hands on is accepted again and is its
  own normal form, so storing the normalized path and routing it later cannot diverge.\<close>

theorem normalize_idempotent:
  assumes "normalizeMemoryPath raw = Inr p"
  shows "normalizeMemoryPath p = Inr p"
  using assms normalized_guards kept_kept under_root_kept by (auto simp: normalizeMemoryPath_iff)

lemma canonical_path_routes_aux:
  assumes "pred_option wf_utf16 proj" "length (scope_dir proj) \<le> 997"
    and "kind \<notin> {Task_State, Rule}"
  obtains c path where "kind \<in> set (CATEGORY_KINDS c)" "canonicalPathFor kind proj = Some path"
    "routeMemoryPath path = Inr (Materialized (if kind = User_Profile then None else proj) c False)"
    "kind \<in> set (vfsOwnedKinds (if kind = User_Profile then None else proj))"
proof -
  from assms(3) obtain c where cat: "category_of_kind kind = Some c"
    using category_of_kind_None by fastforce
  then have c: "kind \<in> set (CATEGORY_KINDS c)" by (simp add: category_of_kind_Some)
  show ?thesis
  proof (cases "kind = User_Profile")
    case True
    with c have cu: "c = User_Profile_File" by (cases c) simp_all
    have "routeMemoryPath (MEMORY_ROOT @ [47] @ scope_dir None @ [47] @ category_str c @ js ''.md'')
        = Inr (Materialized None c (c = Plan))"
      by (rule route_scope_file) (simp_all add: scope_dir_def GLOBAL_SEGMENT_def scope_categories_def
          GLOBAL_CATEGORIES_def cu)
    moreover have "canonicalPathFor kind proj =
        Some (MEMORY_ROOT @ [47] @ scope_dir None @ [47] @ category_str c @ js ''.md'')"
      using cat by (simp add: canonicalPathFor_def True cu scope_dir_def js_def)
    ultimately show ?thesis using that [OF c] True cu
      by (simp add: vfsOwnedKinds_def scope_categories_def GLOBAL_CATEGORIES_def)
  next
    case False
    with c have cp: "c \<in> set PROJECT_CATEGORIES" "c \<noteq> Plan" "c \<noteq> User_Profile_File"
      by (cases c; simp add: PROJECT_CATEGORIES_def)+
    then have "c \<in> set (scope_categories proj)"
      by (simp add: scope_categories_def GLOBAL_CATEGORIES_def)
    with assms have r: "routeMemoryPath (MEMORY_ROOT @ [47] @ scope_dir proj @ [47] @ category_str c @ js ''.md'')
        = Inr (Materialized proj c (c = Plan))" by (intro route_scope_file)
    have "kind \<in> set (vfsOwnedKinds proj)"
      using \<open>c \<in> set (scope_categories proj)\<close> c by (auto simp: vfsOwnedKinds_def)
    with that [OF c] r cp False show ?thesis by (simp add: canonicalPathFor_def cat)
  qed
qed

text \<open>C34. The router inverts \<open>canonicalPathFor\<close>: every kind but \<open>task_state\<close> and \<open>rule\<close> has a
  canonical file, that path is accepted, it routes to a materialized file of a category that owns
  the kind, in the memory's own scope (user-profile memories in the global one), the file is not
  read-only, and the kind is among those a directory command of that scope may touch.\<close>

theorem canonical_path_routes:
  assumes "pred_option wf_utf16 proj" "length (scope_dir proj) \<le> 997"
    and "kind \<notin> {Task_State, Rule}"
  shows "\<exists>c path. kind \<in> set (CATEGORY_KINDS c) \<and> canonicalPathFor kind proj = Some path \<and>
    routeMemoryPath path = Inr (Materialized (if kind = User_Profile then None else proj) c False) \<and>
    kind \<in> set (vfsOwnedKinds (if kind = User_Profile then None else proj))"
  using canonical_path_routes_aux [OF assms] by metis

lemma canonical_path_routes_witness:
  "\<exists>c path. Goal \<in> set (CATEGORY_KINDS c) \<and> canonicalPathFor Goal (Some (js ''web'')) = Some path \<and>
    routeMemoryPath path = Inr (Materialized (Some (js ''web'')) c False) \<and>
    Goal \<in> set (vfsOwnedKinds (Some (js ''web'')))"
proof -
  have w: "pred_option wf_utf16 (Some (js ''web''))"
    by (simp add: js_def surrogate_def is_high_def is_low_def)
  have l: "length (scope_dir (Some (js ''web''))) \<le> 997"
    by (simp add: scope_dir_def encodeProjectSegment_def PROJECT_PREFIX_def js_def surrogate_def
        is_high_def is_low_def utf8_unit_def b64_encode_def)
  have k: "Goal \<notin> {Task_State, Rule}" by simp
  from canonical_path_routes [OF w l k] show ?thesis by simp
qed

text \<open>The files partition the memories: a path that routes to a materialized file is, in
  normal form, the canonical path of every kind its category owns, so two different files never
  render the same memory, and a project file is never reached under a second spelling of the
  project's name.\<close>

theorem materialized_is_canonical:
  assumes "routeMemoryPath raw = Inr (Materialized proj c ro)" "kind \<in> set (CATEGORY_KINDS c)"
  shows "normalizeMemoryPath raw = Inr (the (canonicalPathFor kind proj)) \<and> ro = (c = Plan) \<and>
    (c = User_Profile_File \<longrightarrow> proj = None)"
proof -
  from assms(1) obtain p where p: "normalizeMemoryPath raw = Inr p"
    and r: "route_normalized p = Materialized proj c ro"
    by (auto simp: routeMemoryPath_def bindE_Inr_iff)
  have u: "p \<noteq> MEMORY_ROOT \<Longrightarrow> starts_with (MEMORY_ROOT @ [47]) p"
    using p by (auto simp: normalizeMemoryPath_iff under_root_def)
  from r have pr: "p \<noteq> MEMORY_ROOT" by (auto simp: route_normalized_def)
  obtain q where q: "p = MEMORY_ROOT @ [47] @ q" using u [OF pr] by (auto simp: starts_with_iff)
  from r pr obtain dir fname where df: "split_on 47 q = [dir, fname]" "route_two p dir fname = Materialized proj c ro"
    by (auto simp: route_normalized_def q route_one_def split: list.splits option.splits if_splits)
  have qd: "q = dir @ 47 # fname" using df(1) join_split_on [of 47 q] by simp
  have "dir = scope_dir proj \<and> fname = category_str c @ js ''.md'' \<and> ro = (c = Plan) \<and>
      (proj = None \<or> c \<in> set PROJECT_CATEGORIES)"
    using df(2) by (cases "decodeProjectSegment dir")
      (auto simp: route_two_def scope_dir_def decode_segment_canonical split: if_splits
        option.splits dest!: categoryOf_Some sym [of "Some _" "decodeProjectSegment dir"])
  moreover have "category_of_kind kind = Some c" using assms(2) by (simp add: category_of_kind_Some)
  moreover have "c = User_Profile_File \<longleftrightarrow> kind = User_Profile" using assms(2) by (cases c) auto
  ultimately show ?thesis using p q qd
    by (auto simp: canonicalPathFor_def scope_dir_def PROJECT_CATEGORIES_def js_def)
qed

lemma materialized_is_canonical_witness:
  "normalizeMemoryPath (js ''/memories//global/./patterns.md'')
    = Inr (the (canonicalPathFor Goal None))"
proof -
  have r: "routeMemoryPath (js ''/memories//global/./patterns.md'') = Inr (Materialized None Patterns False)"
    by code_simp
  have "Goal \<in> set (CATEGORY_KINDS Patterns)" by simp
  from materialized_is_canonical [OF r this] show ?thesis by blast
qed

lemma normalized_path_contained_witness:
  "under_root (js ''/memories/a%2eb/discount%25.md'') \<and>
    (\<exists>segs. split_on 47 (js ''/memories/a%2eb/discount%25.md'') = [] # segs \<and>
      (\<forall>seg\<in>set segs. seg \<noteq> [] \<and> seg \<noteq> js ''.'' \<and>
        (\<forall>k. \<not> reveals_traversal ((decodeOnce ^^ k) seg))))"
proof -
  have r: "normalizeMemoryPath (js ''/memories//a%2eb/./discount%25.md'')
      = Inr (js ''/memories/a%2eb/discount%25.md'')" by code_simp
  show ?thesis by (rule normalized_path_contained [OF r])
qed

lemma normalize_idempotent_witness:
  "normalizeMemoryPath (js ''/memories/x.md'') = Inr (js ''/memories/x.md'')"
proof -
  have r: "normalizeMemoryPath (js ''/memories//x.md'') = Inr (js ''/memories/x.md'')" by code_simp
  show ?thesis by (rule normalize_idempotent [OF r])
qed

end
