(* ===== verification/Round_Trip.thy ===== *)
theory Round_Trip
  imports Memory_Rows Memory_Paths
begin

text \<open>
  The portable round-trip format, \<open>packages/contract/src/round-trip.ts\<close>: the shape gates every
  imported or replicated record passes, the two section writers and the document parser.

  Untrusted input is a \<open>json\<close> value; a gate answers the typed record or the tag of its error.  A
  missing property is \<open>obj_get = None\<close>, which no gate but the one of \<open>id\<close> accepts.
\<close>

type_synonym 'a checked = "string + 'a"

record portable_record =
  p_id :: "jstr option"
  p_kind :: memory_kind
  p_content :: jstr
  p_confidence :: number
  p_source :: memory_source
  p_tags :: "jstr list"
  p_context :: json
  p_fingerprint :: json
  p_project :: "jstr option"
  p_expires_at :: "jstr option"
  p_anchor :: "jstr option"
  p_created_at :: jstr

record portable_file =
  pf_path :: jstr
  pf_content :: jstr
  pf_revision :: int

section \<open>Shape gates\<close>

definition isStringOrNull :: "json option \<Rightarrow> jstr option option" where
  "isStringOrNull v = (case v of Some JNull \<Rightarrow> Some None | Some (JStr s) \<Rightarrow> Some (Some s) | _ \<Rightarrow> None)"

definition string_prop :: "json option \<Rightarrow> jstr option" where
  "string_prop v = (case v of Some (JStr s) \<Rightarrow> Some s | _ \<Rightarrow> None)"

definition optional_string :: "json option \<Rightarrow> bool" where
  "optional_string v \<longleftrightarrow> (case v of None \<Rightarrow> True | Some (JStr _) \<Rightarrow> True | _ \<Rightarrow> False)"

definition validateContextShape :: "json option \<Rightarrow> json checked" where
  "validateContextShape v = (case v of
      Some JNull \<Rightarrow> Inr JNull
    | Some (JObj kvs) \<Rightarrow>
        if \<not> optional_string (obj_get (js ''why'') kvs) then Inl ''context.why''
        else if \<not> optional_string (obj_get (js ''how_to_apply'') kvs) then Inl ''context.how_to_apply''
        else Inr (JObj kvs)
    | _ \<Rightarrow> Inl ''context'')"

definition REQUIRED_FINGERPRINT_FACETS :: "jstr list" where
  "REQUIRED_FINGERPRINT_FACETS = [js ''lang'', js ''framework'', js ''module'']"

definition validateFingerprintShape :: "json option \<Rightarrow> json checked" where
  "validateFingerprintShape v = (case v of
      Some JNull \<Rightarrow> Inr JNull
    | Some (JObj kvs) \<Rightarrow>
        if \<not> list_all (\<lambda>(_, facet). str_array_of facet \<noteq> None) kvs then Inl ''fingerprint.facet''
        else if \<not> list_all (\<lambda>f. obj_get f kvs \<noteq> None) REQUIRED_FINGERPRINT_FACETS then Inl ''fingerprint.required''
        else Inr (JObj kvs)
    | _ \<Rightarrow> Inl ''fingerprint'')"

definition unit_number :: "json option \<Rightarrow> number option" where
  "unit_number v = (case v of Some (JNum (Fin q)) \<Rightarrow> if 0 \<le> q \<and> q \<le> 1 then Some (Fin q) else None | _ \<Rightarrow> None)"

definition need :: "'a option \<Rightarrow> string \<Rightarrow> 'a checked" where
  "need v e = (case v of None \<Rightarrow> Inl e | Some x \<Rightarrow> Inr x)"

definition valid_id :: "json option \<Rightarrow> jstr option checked" where
  "valid_id v = (case v of None \<Rightarrow> Inr None
     | Some (JStr s) \<Rightarrow> if is_uuid s then Inr (Some s) else Inl ''id''
     | _ \<Rightarrow> Inl ''id'')"

definition validateRecordPayload :: "json \<Rightarrow> portable_record checked" where
  "validateRecordPayload raw = (case raw of
      JObj p \<Rightarrow>
        bindE (valid_id (obj_get (js ''id'') p)) (\<lambda>pid.
        bindE (need (Option.bind (string_prop (obj_get (js ''kind'') p)) learnable_of_str) ''kind'') (\<lambda>kind.
        bindE (need (Option.bind (string_prop (obj_get (js ''content'') p))
          (\<lambda>s. if length s = 0 then None else Some s)) ''content'') (\<lambda>content.
        bindE (need (unit_number (obj_get (js ''confidence'') p)) ''confidence'') (\<lambda>confidence.
        bindE (need (Option.bind (string_prop (obj_get (js ''source'') p)) source_of_str) ''source'') (\<lambda>src.
        bindE (need (Option.bind (obj_get (js ''tags'') p) str_array_of) ''tags'') (\<lambda>tags.
        bindE (validateContextShape (obj_get (js ''context'') p)) (\<lambda>context.
        bindE (validateFingerprintShape (obj_get (js ''fingerprint'') p)) (\<lambda>fingerprint.
        bindE (need (isStringOrNull (obj_get (js ''project'') p)) ''project'') (\<lambda>project.
        bindE (need (isStringOrNull (obj_get (js ''expires_at'') p)) ''expires_at'') (\<lambda>expires_at.
        bindE (need (isStringOrNull (obj_get (js ''anchor'') p)) ''anchor'') (\<lambda>anchor.
        bindE (need (Option.bind (string_prop (obj_get (js ''created_at'') p))
          (\<lambda>s. if length s = 0 then None else Some s)) ''created_at'') (\<lambda>created_at.
        Inr \<lparr> p_id = pid, p_kind = kind, p_content = content, p_confidence = confidence, p_source = src,
              p_tags = tags, p_context = context, p_fingerprint = fingerprint, p_project = project,
              p_expires_at = expires_at, p_anchor = anchor, p_created_at = created_at \<rparr>))))))))))))
    | _ \<Rightarrow> Inl ''payload is not an object'')"

definition assertPortableFilePath :: "jstr \<Rightarrow> unit checked" where
  "assertPortableFilePath path = (case routeMemoryPath path of
      Inl _ \<Rightarrow> Inl ''invalid path''
    | Inr (Free_Form p) \<Rightarrow> if p \<noteq> path then Inl ''not canonical'' else Inr ()
    | Inr _ \<Rightarrow> Inl ''reserved'')"

definition positive_int :: "json option \<Rightarrow> int option" where
  "positive_int v = (case v of Some (JNum n) \<Rightarrow> (case safe_int n of Some i \<Rightarrow> if 1 \<le> i then Some i else None | None \<Rightarrow> None)
     | _ \<Rightarrow> None)"

definition validateFilePayload :: "json \<Rightarrow> portable_file checked" where
  "validateFilePayload raw = (case raw of
      JObj p \<Rightarrow>
        bindE (need (string_prop (obj_get (js ''path'') p)) ''path'') (\<lambda>path.
        bindE (assertPortableFilePath path) (\<lambda>_.
        bindE (need (string_prop (obj_get (js ''content'') p)) ''content'') (\<lambda>content.
        bindE (if obj_get (js ''revision'') p = None then Inr 1
               else need (positive_int (obj_get (js ''revision'') p)) ''revision'') (\<lambda>revision.
        Inr \<lparr> pf_path = path, pf_content = content, pf_revision = revision \<rparr>))))
    | _ \<Rightarrow> Inl ''payload is not an object'')"

section \<open>Sections\<close>

definition HEADING_PREVIEW_CHARS :: nat where "HEADING_PREVIEW_CHARS = 60"

definition headingPreview :: "jstr \<Rightarrow> jstr" where
  "headingPreview content =
    (let first = trim (filter (\<lambda>u. u \<noteq> 35 \<and> u \<noteq> 91 \<and> u \<noteq> 93) (hd (split_on 10 content))) in
     if length first > HEADING_PREVIEW_CHARS then take HEADING_PREVIEW_CHARS first @ [8230] else first)"

definition nullable :: "jstr option \<Rightarrow> json" where
  "nullable v = (case v of None \<Rightarrow> JNull | Some s \<Rightarrow> JStr s)"

text \<open>The record as the object literal it is; \<open>canonicalJson\<close> drops an undefined \<open>id\<close>.\<close>

definition record_json :: "portable_record \<Rightarrow> json" where
  "record_json r = JObj ((case p_id r of None \<Rightarrow> [] | Some i \<Rightarrow> [(js ''id'', JStr i)]) @
     [(js ''kind'', JStr (kind_str (p_kind r))), (js ''content'', JStr (p_content r)),
      (js ''confidence'', JNum (p_confidence r)), (js ''source'', JStr (source_str (p_source r))),
      (js ''tags'', JArr (map JStr (p_tags r))), (js ''context'', p_context r),
      (js ''fingerprint'', p_fingerprint r), (js ''project'', nullable (p_project r)),
      (js ''expires_at'', nullable (p_expires_at r)), (js ''anchor'', nullable (p_anchor r)),
      (js ''created_at'', JStr (p_created_at r))])"

definition file_json :: "portable_file \<Rightarrow> json" where
  "file_json f = JObj [(js ''path'', JStr (pf_path f)), (js ''content'', JStr (pf_content f)),
     (js ''revision'', JNum (Fin (of_int (pf_revision f))))]"

definition capitalize :: "jstr \<Rightarrow> jstr" where
  "capitalize s = (case s of [] \<Rightarrow> [] | u # t \<Rightarrow> (if is_lower u then u - 32 else u) # t)"

definition buildRecordSection :: "host \<Rightarrow> portable_record \<Rightarrow> jstr list" where
  "buildRecordSection h r =
    [js ''## '' @ capitalize (kind_str (p_kind r)) @ js '': '' @ headingPreview (p_content r) @
       js '' [confidence: '' @ fixed2 h (p_confidence r) @ js '']'',
     js ''data: '' @ canonicalJson (nums h) (record_json r)]"

definition buildFileSection :: "host \<Rightarrow> portable_file \<Rightarrow> jstr list" where
  "buildFileSection h f =
    [js ''## File: '' @ pf_path f, js ''data: '' @ canonicalJson (nums h) (file_json f)]"

section \<open>Documents\<close>

record export_error =
  ee_section :: nat
  ee_heading :: jstr
  ee_error :: string

record parsed_export =
  pe_records :: "portable_record list"
  pe_files :: "portable_file list"
  pe_v1 :: "jstr list"
  pe_errors :: "export_error list"

record export_state =
  xs_out :: parsed_export
  xs_section :: nat
  xs_heading :: jstr
  xs_lines :: "jstr list"

definition flush_section :: "host \<Rightarrow> export_state \<Rightarrow> export_state" where
  "flush_section h st =
    (let out = xs_out st in
     if xs_section st = 0 then st
     else case find (starts_with (js ''data: '')) (xs_lines st) of
       None \<Rightarrow> st\<lparr> xs_out := out\<lparr> pe_v1 := pe_v1 out @ xs_heading st # xs_lines st \<rparr> \<rparr>
     | Some dataLine \<Rightarrow>
        (let failed = (\<lambda>e. st\<lparr> xs_out := out\<lparr> pe_errors := pe_errors out @
               [\<lparr> ee_section = xs_section st, ee_heading = xs_heading st, ee_error = e \<rparr>] \<rparr> \<rparr>)
         in case json_parse (nums h) (drop 6 dataLine) of
              None \<Rightarrow> failed ''not JSON''
            | Some payload \<Rightarrow>
                if starts_with (js ''## File: '') (xs_heading st) then
                  (case validateFilePayload payload of
                     Inl e \<Rightarrow> failed e
                   | Inr f \<Rightarrow> st\<lparr> xs_out := out\<lparr> pe_files := pe_files out @ [f] \<rparr> \<rparr>)
                else
                  (case validateRecordPayload payload of
                     Inl e \<Rightarrow> failed e
                   | Inr r \<Rightarrow> st\<lparr> xs_out := out\<lparr> pe_records := pe_records out @ [r] \<rparr> \<rparr>)))"

definition export_line :: "host \<Rightarrow> export_state \<Rightarrow> jstr \<Rightarrow> export_state" where
  "export_line h st line =
    (if starts_with (js ''## '') line then
       (flush_section h st)\<lparr> xs_section := Suc (xs_section st), xs_heading := line, xs_lines := [] \<rparr>
     else if xs_section st > 0 then st\<lparr> xs_lines := xs_lines st @ [line] \<rparr>
     else st)"

definition export_init :: export_state where
  "export_init = \<lparr> xs_out = \<lparr> pe_records = [], pe_files = [], pe_v1 = [], pe_errors = [] \<rparr>, xs_section = 0,
     xs_heading = [], xs_lines = [] \<rparr>"

text \<open>\<open>pe_v1\<close> holds the raw lines of the v1 sections; the code joins them, or answers \<open>null\<close> when they
  are all blank.\<close>

definition parseExportDocument :: "host \<Rightarrow> jstr \<Rightarrow> parsed_export \<times> jstr option" where
  "parseExportDocument h text =
    (let out = xs_out (flush_section h (foldl (export_line h) export_init (split_on 10 text))) in
     (out, if list_ex (\<lambda>l. trim l \<noteq> []) (pe_v1 out) then Some (join [10] (pe_v1 out)) else None))"

section \<open>Sorted members\<close>

lemma obj_get_map_of: "obj_get k kvs = map_of kvs k"
  by (induction kvs) auto

lemma obj_get_sort: "distinct (map fst kvs) \<Longrightarrow> obj_get k (sort_key fst kvs) = obj_get k kvs"
proof -
  assume d: "distinct (map fst kvs)"
  have "mset (map fst (sort_key fst kvs)) = mset (map fst kvs)" by (metis mset_map mset_sort)
  then have "distinct (map fst (sort_key fst kvs))" using d by (metis distinct_count_atmost_1 set_mset_mset)
  then have "map_of (sort_key fst kvs) k = Some v \<longleftrightarrow> map_of kvs k = Some v" for v
    using d by (simp add: map_of_eq_Some_iff)
  then show ?thesis unfolding obj_get_map_of by (metis option.exhaust)
qed

definition sorted_members :: "(jstr \<times> json) list \<Rightarrow> (jstr \<times> json) list" where
  "sorted_members kvs = sort_key fst (map (\<lambda>(k, v). (k, sort_keys v)) kvs)"

lemma obj_get_sorted:
  assumes "distinct (map fst kvs)"
  shows "obj_get k (sorted_members kvs) = map_option sort_keys (obj_get k kvs)"
proof -
  have "map fst (map (\<lambda>(k, v). (k, sort_keys v)) kvs) = map fst kvs" by auto
  with assms have "distinct (map fst (map (\<lambda>(k, v). (k, sort_keys v)) kvs))" by metis
  then show ?thesis by (simp add: sorted_members_def obj_get_sort) (simp add: obj_get_map_of map_of_map)
qed

lemma sort_keys_obj: "sort_keys (JObj kvs) = JObj (sorted_members kvs)"
  by (simp add: sorted_members_def)

lemma optional_string_sorted: "optional_string (map_option sort_keys v) = optional_string v"
  by (cases v) (auto simp: optional_string_def split: json.splits)

lemma str_array_sorted [simp]: "str_array_of (sort_keys v) = str_array_of v"
proof -
  have "strs_of (map sort_keys vs) = strs_of vs" for vs
  proof (induction vs)
    case (Cons v vs)
    then show ?case by (cases v) auto
  qed simp
  then show ?thesis by (cases v) (auto simp: str_array_of_def)
qed

lemma context_shape_sorted:
  assumes "validateContextShape (Some v) = Inr w" "json_ok n v"
  shows "validateContextShape (Some (sort_keys v)) = Inr (sort_keys v)"
  using assms
  by (cases v) (auto simp: validateContextShape_def sort_keys_obj obj_get_sorted optional_string_sorted
      simp del: sort_keys.simps(2) split: if_splits)

lemma fingerprint_shape_sorted:
  assumes "validateFingerprintShape (Some v) = Inr w" "json_ok n v"
  shows "validateFingerprintShape (Some (sort_keys v)) = Inr (sort_keys v)"
proof (cases v)
  case (JObj kvs)
  have "set (sorted_members kvs) = (\<lambda>(k, v). (k, sort_keys v)) ` set kvs" by (simp add: sorted_members_def)
  then have "list_all (\<lambda>(_, facet). str_array_of facet \<noteq> None) (sorted_members kvs) \<longleftrightarrow>
      list_all (\<lambda>(_, facet). str_array_of facet \<noteq> None) kvs"
    by (auto simp: list_all_iff split_beta)
  moreover have "list_all (\<lambda>f. obj_get f (sorted_members kvs) \<noteq> None) REQUIRED_FINGERPRINT_FACETS \<longleftrightarrow>
      list_all (\<lambda>f. obj_get f kvs \<noteq> None) REQUIRED_FINGERPRINT_FACETS"
    using assms(2) JObj by (simp add: obj_get_sorted)
  ultimately show ?thesis using assms(1) JObj
    by (simp add: validateFingerprintShape_def sort_keys_obj split: if_splits del: sort_keys.simps(2))
qed (use assms in \<open>auto simp: validateFingerprintShape_def\<close>)

section \<open>Records and files survive the canonical text\<close>

definition portable_ok :: "host \<Rightarrow> portable_record \<Rightarrow> bool" where
  "portable_ok h r \<longleftrightarrow> pred_option is_uuid (p_id r) \<and> p_kind r \<in> set LEARNABLE_KINDS \<and> p_content r \<noteq> [] \<and>
     unit_number (Some (JNum (p_confidence r))) = Some (p_confidence r) \<and> p_created_at r \<noteq> [] \<and>
     validateContextShape (Some (p_context r)) = Inr (p_context r) \<and>
     validateFingerprintShape (Some (p_fingerprint r)) = Inr (p_fingerprint r) \<and>
     json_ok (nums h) (record_json r)"

definition file_ok :: "host \<Rightarrow> portable_file \<Rightarrow> bool" where
  "file_ok h f \<longleftrightarrow> assertPortableFilePath (pf_path f) = Inr () \<and> 1 \<le> pf_revision f \<and>
     pf_revision f \<le> 9007199254740991 \<and> json_ok (nums h) (file_json f)"

text \<open>Key order is not part of a record.\<close>

definition key_normal :: "portable_record \<Rightarrow> portable_record" where
  "key_normal r = r\<lparr> p_context := sort_keys (p_context r), p_fingerprint := sort_keys (p_fingerprint r) \<rparr>"

lemma record_members:
  obtains kvs where "record_json r = JObj kvs" "distinct (map fst kvs)"
    "obj_get (js ''id'') kvs = map_option JStr (p_id r)"
    "obj_get (js ''kind'') kvs = Some (JStr (kind_str (p_kind r)))"
    "obj_get (js ''content'') kvs = Some (JStr (p_content r))"
    "obj_get (js ''confidence'') kvs = Some (JNum (p_confidence r))"
    "obj_get (js ''source'') kvs = Some (JStr (source_str (p_source r)))"
    "obj_get (js ''tags'') kvs = Some (JArr (map JStr (p_tags r)))"
    "obj_get (js ''context'') kvs = Some (p_context r)"
    "obj_get (js ''fingerprint'') kvs = Some (p_fingerprint r)"
    "obj_get (js ''project'') kvs = Some (nullable (p_project r))"
    "obj_get (js ''expires_at'') kvs = Some (nullable (p_expires_at r))"
    "obj_get (js ''anchor'') kvs = Some (nullable (p_anchor r))"
    "obj_get (js ''created_at'') kvs = Some (JStr (p_created_at r))"
  by (rule that [OF record_json_def]) (cases "p_id r"; simp)+

lemma string_or_null_nullable [simp]: "isStringOrNull (Some (sort_keys (nullable v))) = Some v"
  by (cases v) (simp_all add: nullable_def isStringOrNull_def)

lemma validate_record_json:
  assumes "portable_ok h r"
  shows "validateRecordPayload (sort_keys (record_json r)) = Inr (key_normal r)"
proof -
  obtain kvs where kvs: "record_json r = JObj kvs" "distinct (map fst kvs)"
    "obj_get (js ''id'') kvs = map_option JStr (p_id r)"
    "obj_get (js ''kind'') kvs = Some (JStr (kind_str (p_kind r)))"
    "obj_get (js ''content'') kvs = Some (JStr (p_content r))"
    "obj_get (js ''confidence'') kvs = Some (JNum (p_confidence r))"
    "obj_get (js ''source'') kvs = Some (JStr (source_str (p_source r)))"
    "obj_get (js ''tags'') kvs = Some (JArr (map JStr (p_tags r)))"
    "obj_get (js ''context'') kvs = Some (p_context r)"
    "obj_get (js ''fingerprint'') kvs = Some (p_fingerprint r)"
    "obj_get (js ''project'') kvs = Some (nullable (p_project r))"
    "obj_get (js ''expires_at'') kvs = Some (nullable (p_expires_at r))"
    "obj_get (js ''anchor'') kvs = Some (nullable (p_anchor r))"
    "obj_get (js ''created_at'') kvs = Some (JStr (p_created_at r))"
    by (rule record_members)
  have jk: "list_all (\<lambda>(k, v). js_ok k \<and> json_ok (nums h) v) kvs"
    using assms kvs(1) by (simp add: portable_ok_def)
  have "json_ok (nums h) v" if "obj_get k kvs = Some v" for k v
    using jk map_of_SomeD [of kvs k v] that by (auto simp: obj_get_map_of list_all_iff)
  then have jc: "json_ok (nums h) (p_context r)" "json_ok (nums h) (p_fingerprint r)"
    using kvs(9,10) by blast+
  have ctx: "validateContextShape (Some (sort_keys (p_context r))) = Inr (sort_keys (p_context r))"
    using assms jc(1) by (intro context_shape_sorted) (simp_all add: portable_ok_def)
  have fp: "validateFingerprintShape (Some (sort_keys (p_fingerprint r))) = Inr (sort_keys (p_fingerprint r))"
    using assms jc(2) by (intro fingerprint_shape_sorted) (simp_all add: portable_ok_def)
  have vid: "valid_id (map_option JStr (p_id r)) = Inr (p_id r)"
    using assms by (cases "p_id r") (auto simp: portable_ok_def valid_id_def)
  show ?thesis
    using assms ctx fp vid
    by (simp add: validateRecordPayload_def kvs(1) sort_keys_obj obj_get_sorted [OF kvs(2)] kvs(3-) need_def
        portable_ok_def option.map_comp comp_def string_prop_def key_normal_def del: sort_keys.simps(2))
qed

lemma validate_file_json:
  assumes "file_ok h f"
  shows "validateFilePayload (sort_keys (file_json f)) = Inr f"
proof -
  let ?kvs = "[(js ''path'', JStr (pf_path f)), (js ''content'', JStr (pf_content f)),
     (js ''revision'', JNum (Fin (of_int (pf_revision f))))]"
  have d: "distinct (map fst ?kvs)" by simp
  have "positive_int (Some (JNum (Fin (of_int (pf_revision f))))) = Some (pf_revision f)"
    using assms by (simp add: positive_int_def safe_int_def file_ok_def)
  then show ?thesis using assms
    by (simp add: validateFilePayload_def file_json_def sort_keys_obj obj_get_sorted [OF d] need_def
        string_prop_def file_ok_def del: sort_keys.simps(2))
qed

section \<open>Documents survive\<close>

text \<open>The exported items of a document, and what each adds to the parse.\<close>

type_synonym portable_item = "portable_record + portable_file"

fun item_section :: "host \<Rightarrow> portable_item \<Rightarrow> jstr list" where
  "item_section h (Inl r) = buildRecordSection h r"
| "item_section h (Inr f) = buildFileSection h f"

fun item_ok :: "host \<Rightarrow> portable_item \<Rightarrow> bool" where
  "item_ok h (Inl r) \<longleftrightarrow> portable_ok h r"
| "item_ok h (Inr f) \<longleftrightarrow> file_ok h f"

fun add_item :: "portable_item \<Rightarrow> parsed_export \<Rightarrow> parsed_export" where
  "add_item (Inl r) out = out\<lparr> pe_records := pe_records out @ [key_normal r] \<rparr>"
| "add_item (Inr f) out = out\<lparr> pe_files := pe_files out @ [f] \<rparr>"

lemma not_file_heading: "\<not> starts_with (js ''## File: '') (js ''## '' @ capitalize (kind_str k) @ s)"
  by (cases k) (simp_all add: js_def capitalize_def is_lower_def)

lemma data_prefix: "starts_with (js ''data: '') (js ''data: '' @ s)" "drop 6 (js ''data: '' @ s) = s"
  by (simp_all add: js_def)

lemma section_shape:
  obtains heading data where "item_section h x = [heading, js ''data: '' @ data]" "starts_with (js ''## '') heading"
    "starts_with (js ''## File: '') heading = (case x of Inl _ \<Rightarrow> False | Inr _ \<Rightarrow> True)"
    "data = canonicalJson (nums h) (case x of Inl r \<Rightarrow> record_json r | Inr f \<Rightarrow> file_json f)"
proof (cases x)
  case (Inl r)
  show thesis by (rule that [where heading = "hd (item_section h x)"])
    (use Inl not_file_heading in \<open>auto simp: buildRecordSection_def\<close>)
next
  case (Inr f)
  have "starts_with (js ''## '') (js ''## File: '' @ pf_path f)" by (simp add: js_def)
  then show thesis by (intro that [where heading = "js ''## File: '' @ pf_path f"]) (use Inr in \<open>auto simp: buildFileSection_def\<close>)
qed

lemma flush_item:
  assumes "item_ok h x" "xs_section st > 0" "item_section h x = [xs_heading st, l]" "xs_lines st = [l]"
  shows "flush_section h st = st\<lparr> xs_out := add_item x (xs_out st) \<rparr>"
proof -
  obtain heading data where sh: "item_section h x = [heading, js ''data: '' @ data]"
    "starts_with (js ''## File: '') heading = (case x of Inl _ \<Rightarrow> False | Inr _ \<Rightarrow> True)"
    "data = canonicalJson (nums h) (case x of Inl r \<Rightarrow> record_json r | Inr f \<Rightarrow> file_json f)"
    by (rule section_shape)
  have l: "l = js ''data: '' @ data" "xs_heading st = heading" using assms(3) sh(1) by auto
  show ?thesis
  proof (cases x)
    case (Inl r)
    with assms(1) have "json_parse (nums h) data = Some (sort_keys (record_json r))"
      by (simp add: sh(3) portable_ok_def canonicalJson_parse)
    then show ?thesis using assms(1,2,4) Inl sh(2) l validate_record_json [of h r]
      by (simp add: flush_section_def data_prefix Let_def)
  next
    case (Inr f)
    with assms(1) have "json_parse (nums h) data = Some (sort_keys (file_json f))"
      by (simp add: sh(3) file_ok_def canonicalJson_parse)
    then show ?thesis using assms(1,2,4) Inr sh(2) l validate_file_json [of h f]
      by (simp add: flush_section_def data_prefix Let_def)
  qed
qed

lemma export_items:
  assumes "\<forall>x\<in>set xs. item_ok h x"
  shows "xs_out (flush_section h (foldl (export_line h) st (concat (map (item_section h) xs)))) =
    fold add_item xs (xs_out (flush_section h st))"
  using assms
proof (induction xs arbitrary: st)
  case (Cons x xs)
  obtain heading data where sh: "item_section h x = [heading, js ''data: '' @ data]" "starts_with (js ''## '') heading"
    by (rule section_shape)
  have nd: "\<not> starts_with (js ''## '') (js ''data: '' @ data)" by (simp add: js_def)
  let ?st = "(flush_section h st)\<lparr> xs_section := Suc (xs_section st), xs_heading := heading,
      xs_lines := [js ''data: '' @ data] \<rparr>"
  have step: "foldl (export_line h) st (item_section h x) = ?st" using sh(2) nd by (simp add: sh(1) export_line_def)
  have "flush_section h ?st = ?st\<lparr> xs_out := add_item x (xs_out ?st) \<rparr>"
    using Cons.prems sh by (intro flush_item [where l = "js ''data: '' @ data"]) auto
  then have "xs_out (flush_section h ?st) = add_item x (xs_out (flush_section h st))" by simp
  with Cons step show ?case by simp
qed simp

lemma export_preamble:
  "\<forall>l\<in>set pre. \<not> starts_with (js ''## '') l \<Longrightarrow> foldl (export_line h) export_init pre = export_init"
proof (induction pre rule: rev_induct)
  case (snoc l pre)
  then show ?case by (simp add: export_line_def export_init_def)
qed simp

lemma add_items_out:
  "fold add_item xs out = out\<lparr> pe_records := pe_records out @ map key_normal (concat (map (case_sum (\<lambda>r. [r]) (\<lambda>_. [])) xs)),
     pe_files := pe_files out @ concat (map (case_sum (\<lambda>_. []) (\<lambda>f. [f])) xs) \<rparr>"
proof (induction xs arbitrary: out)
  case (Cons x xs)
  then show ?case by (cases x) auto
qed simp

lemma preview_no_newline: "10 \<notin> set (headingPreview s)"
proof -
  have t: "set (trim v) \<subseteq> set v" for v
    by (auto simp: trim_def trim_start_def dest!: set_dropWhileD)
  have "10 \<notin> set (hd (split_on 10 s))" using split_on_sep_free [of "hd (split_on 10 s)" 10 s] by simp
  then have "10 \<notin> set (filter (\<lambda>u. u \<noteq> 35 \<and> u \<noteq> 91 \<and> u \<noteq> 93) (hd (split_on 10 s)))" by simp
  then have "10 \<notin> set (trim (filter (\<lambda>u. u \<noteq> 35 \<and> u \<noteq> 91 \<and> u \<noteq> 93) (hd (split_on 10 s))))" using t by blast
  then show ?thesis by (auto simp: headingPreview_def Let_def dest: in_set_takeD)
qed

lemma section_no_newline:
  assumes "item_ok h x" "\<And>n. 10 \<notin> set (show_num (nums h) n)" "\<And>n. 10 \<notin> set (fixed2 h n)" "l \<in> set (item_section h x)"
  shows "10 \<notin> set l"
proof -
  have c: "10 \<notin> set (canonicalJson (nums h) v)" for v
    using stringify_no_newline [OF assms(2)] by (simp add: canonicalJson_sort_keys)
  show ?thesis
  proof (cases x)
    case (Inl r)
    have "10 \<notin> set (capitalize (kind_str (p_kind r)))" by (cases "p_kind r") (simp_all add: js_def capitalize_def is_lower_def)
    with Inl assms(3,4) c preview_no_newline show ?thesis by (auto simp: buildRecordSection_def) (simp_all add: js_def)
  next
    case (Inr f)
    then have "assertPortableFilePath (pf_path f) = Inr ()" using assms(1) by (simp add: file_ok_def)
    then obtain q where "normalizeMemoryPath (pf_path f) = Inr q"
      by (cases "normalizeMemoryPath (pf_path f)") (auto simp: assertPortableFilePath_def routeMemoryPath_def)
    then have "\<not> list_ex is_control (pf_path f)" by (simp add: normalizeMemoryPath_iff path_guards_def)
    then have "10 \<notin> set (pf_path f)" by (auto simp: list_ex_iff is_control_def)
    with Inr assms(4) c show ?thesis by (auto simp: buildFileSection_def) (simp_all add: js_def)
  qed
qed

section \<open>Properties\<close>

text \<open>C32. Export and import are inverse: a document of record and file sections, after any preamble
  that holds no section heading, parses back to exactly its records (objects with their keys sorted,
  which is not observable through property access) and its files, in order, with no error and no
  legacy remainder; whatever the contents hold, headings, fences and newlines included.\<close>

theorem export_round_trip:
  assumes "\<forall>x\<in>set xs. item_ok h x" "xs \<noteq> []"
    and "\<forall>l\<in>set pre. \<not> starts_with (js ''## '') l \<and> 10 \<notin> set l"
    and "\<forall>n. 10 \<notin> set (show_num (nums h) n)" "\<forall>n. 10 \<notin> set (fixed2 h n)"
  shows "parseExportDocument h (join [10] (pre @ concat (map (item_section h) xs))) =
    (\<lparr> pe_records = map key_normal (concat (map (case_sum (\<lambda>r. [r]) (\<lambda>_. [])) xs)),
       pe_files = concat (map (case_sum (\<lambda>_. []) (\<lambda>f. [f])) xs), pe_v1 = [], pe_errors = [] \<rparr>, None)"
proof -
  let ?ls = "pre @ concat (map (item_section h) xs)"
  obtain x where "x \<in> set xs" using assms(2) by (cases xs) auto
  moreover have "item_section h x \<noteq> []" using section_shape [of h x] by (metis list.distinct(1))
  ultimately have ne: "?ls \<noteq> []" by auto
  have "\<forall>l\<in>set ?ls. 10 \<notin> set l" using assms section_no_newline by fastforce
  with ne have sp: "split_on 10 (join [10] ?ls) = ?ls" by (rule split_on_join)
  have "foldl (export_line h) export_init pre = export_init" using assms(3) export_preamble by blast
  then have "xs_out (flush_section h (foldl (export_line h) export_init ?ls)) =
      fold add_item xs (xs_out (flush_section h export_init))"
    using export_items [OF assms(1), of export_init] by simp
  moreover have "xs_out (flush_section h export_init) = \<lparr> pe_records = [], pe_files = [], pe_v1 = [], pe_errors = [] \<rparr>"
    by (simp add: flush_section_def export_init_def)
  ultimately show ?thesis by (simp add: parseExportDocument_def sp add_items_out Let_def)
qed

text \<open>Canonical JSON is lossless and insensitive to key order: it parses back to the value with
  its object keys sorted at every level, and two objects with the same members in any order have
  the same canonical text, so the content hash of a payload does not depend on how it was built.\<close>

theorem canonical_json_lossless:
  assumes "json_ok n v"
  shows "json_parse n (canonicalJson n v) = Some (sort_keys v) \<and>
    (\<forall>kvs kvs'. v = JObj kvs \<longrightarrow> mset kvs = mset kvs' \<longrightarrow> canonicalJson n (JObj kvs') = canonicalJson n v)"
proof (intro conjI allI impI)
  show "json_parse n (canonicalJson n v) = Some (sort_keys v)" by (rule canonicalJson_parse [OF assms])
  fix kvs kvs' assume v: "v = JObj kvs" and p: "mset kvs = mset kvs'"
  with assms have "distinct (map fst kvs)" by simp
  from canonicalJson_members_perm [OF p this] v show "canonicalJson n (JObj kvs') = canonicalJson n v" by simp
qed

section \<open>Witnesses\<close>

definition sample_record :: portable_record where
  "sample_record = \<lparr> p_id = Some (js ''0a000000-0000-4000-8000-000000000001''), p_kind = Fact,
     p_content = js ''## a'' @ [10] @ js ''b'', p_confidence = Fin 1, p_source = Learned, p_tags = [js ''t''],
     p_context = JNull, p_fingerprint = JNull, p_project = Some (js ''web''), p_expires_at = None,
     p_anchor = None, p_created_at = js ''2026'' \<rparr>"

lemma num_ok_one: "num_ok (nums sample_host) (Fin 1)"
  unfolding num_ok_def
proof (intro conjI allI impI)
  have one: "show_num (nums sample_host) (Fin 1) = [49]"
    by (simp add: sample_host_def sample_show_def show_nat.simps [of "Suc 0"])
  show "read_num (nums sample_host) (show_num (nums sample_host) (Fin 1)) = Fin 1"
    unfolding one by (simp add: sample_host_def sample_read_def read_nat_def js_def)
  show "scan_number (show_num (nums sample_host) (Fin 1) @ r) = Some (show_num (nums sample_host) (Fin 1), r)"
    if "json_delim r" for r
    using that unfolding one
    by (cases r) (auto simp: scan_number_def scan_int_def scan_frac_def scan_exp_def span_digits_def json_delim_def
        is_digit_def Let_def)
qed (simp add: is_finite_def)

lemma sample_record_ok: "portable_ok sample_host sample_record"
proof -
  have "is_uuid (js ''0a000000-0000-4000-8000-000000000001'')" by code_simp
  then show ?thesis using num_ok_one
    by (simp add: portable_ok_def sample_record_def LEARNABLE_KINDS_def unit_number_def validateContextShape_def
        validateFingerprintShape_def record_json_def nullable_def js_def)
qed

lemma no_newline_digits: "10 \<notin> set (show_nat k)"
  using show_nat_digits [of k] by (auto simp: list_all_iff is_digit_def)

lemma export_round_trip_witness:
  "parseExportDocument sample_host (join [10] ([js ''# Export'', []] @ concat (map (item_section sample_host) [Inl sample_record]))) =
    (\<lparr> pe_records = [key_normal sample_record], pe_files = [], pe_v1 = [], pe_errors = [] \<rparr>, None)"
proof -
  have "10 \<notin> set (show_num (nums sample_host) n)" "10 \<notin> set (fixed2 sample_host n)" for n
    using no_newline_digits
    by (auto simp: sample_host_def sample_show_def js_def split: number.splits)
  then show ?thesis
    using export_round_trip [of "[Inl sample_record]" sample_host "[js ''# Export'', []]"] sample_record_ok
    by (simp add: js_def)
qed

lemma canonical_json_lossless_witness:
  "json_parse (nums sample_host) (canonicalJson (nums sample_host) (JObj [(js ''b'', JNull), (js ''a'', JBool True)]))
      = Some (JObj [(js ''a'', JBool True), (js ''b'', JNull)]) \<and>
    canonicalJson (nums sample_host) (JObj [(js ''a'', JBool True), (js ''b'', JNull)]) =
    canonicalJson (nums sample_host) (JObj [(js ''b'', JNull), (js ''a'', JBool True)])"
  using canonical_json_lossless [of "nums sample_host" "JObj [(js ''b'', JNull), (js ''a'', JBool True)]"]
  by (simp add: js_def)

end
