(* ===== verification/Block_Parser.thy ===== *)
theory Block_Parser
  imports Memory_Rows
begin

text \<open>
  The block grammar of the memory tool: \<open>src/memory-tool/block-parser.ts\<close> with the token codes of
  \<open>token-codes.ts\<close>.

  The three regular expressions are the matchers \<open>match_tokened\<close>, \<open>match_tokenless\<close> and
  \<open>match_continuation\<close>; each answers the captured groups.  The parser is the loop over the lines of
  the text; its state holds the finished blocks newest first, so the block under construction
  (\<open>current\<close> in the code, always the last one pushed) is the head.  A thrown \<open>malformed(...)\<close> is
  a value of \<open>block_error\<close>, one constructor per message.
\<close>

section \<open>Token codes\<close>

fun KIND_CODES :: "memory_kind \<Rightarrow> jstr option" where
  "KIND_CODES Pitfall = Some (js ''pit'')"
| "KIND_CODES Decision = Some (js ''dec'')"
| "KIND_CODES Correction = Some (js ''cor'')"
| "KIND_CODES Fact = Some (js ''fac'')"
| "KIND_CODES User_Profile = Some (js ''usr'')"
| "KIND_CODES Reference = Some (js ''ref'')"
| "KIND_CODES Pattern = Some (js ''pat'')"
| "KIND_CODES Goal = Some (js ''gol'')"
| "KIND_CODES Task_State = None"
| "KIND_CODES Rule = None"

definition CODE_KINDS :: "jstr \<Rightarrow> memory_kind option" where
  "CODE_KINDS code = find (\<lambda>k. KIND_CODES k = Some code) MEMORY_KINDS"

definition TOKEN_CODES :: "jstr list" where
  "TOKEN_CODES = [js ''pit'', js ''dec'', js ''cor'', js ''fac'', js ''usr'', js ''ref'', js ''pat'', js ''gol'']"

lemma CODE_KINDS_iff: "CODE_KINDS code = Some k \<longleftrightarrow> KIND_CODES k = Some code"
proof
  assume "CODE_KINDS code = Some k"
  then show "KIND_CODES k = Some code" by (auto simp: CODE_KINDS_def find_Some_iff)
next
  assume "KIND_CODES k = Some code"
  then show "CODE_KINDS code = Some k"
    by (cases k) (auto simp: CODE_KINDS_def MEMORY_KINDS_def)
qed

lemma TOKEN_CODES_iff: "code \<in> set TOKEN_CODES \<longleftrightarrow> (\<exists>k. KIND_CODES k = Some code)"
proof
  assume "code \<in> set TOKEN_CODES"
  then show "\<exists>k. KIND_CODES k = Some code"
    unfolding TOKEN_CODES_def by (auto intro: exI [of _ Pitfall] exI [of _ Decision]
        exI [of _ Correction] exI [of _ Fact] exI [of _ User_Profile] exI [of _ Reference]
        exI [of _ Pattern] exI [of _ Goal])
next
  assume "\<exists>k. KIND_CODES k = Some code"
  then obtain k where "KIND_CODES k = Some code" by blast
  then show "code \<in> set TOKEN_CODES" by (cases k) (auto simp: TOKEN_CODES_def)
qed

section \<open>Blocks\<close>

record block_token =
  t_code :: jstr
  t_prefix :: jstr
  t_revision :: int

text \<open>\<open>b_why = None\<close> is an omitted field, \<open>Some None\<close> an explicit \<open>null\<close>.\<close>

record parsed_block =
  b_token :: "block_token option"
  b_content :: jstr
  b_why :: "jstr option option"
  b_how :: "jstr option option"
  b_tags :: "jstr list option"
  b_raw :: "jstr list"

datatype field = Why | How | Tags

fun field_str :: "field \<Rightarrow> jstr" where
  "field_str Why = js ''why''"
| "field_str How = js ''how''"
| "field_str Tags = js ''tags''"

fun FIELD_ORDER :: "field \<Rightarrow> int" where
  "FIELD_ORDER Why = 0"
| "FIELD_ORDER How = 1"
| "FIELD_ORDER Tags = 2"

datatype block_error =
    Empty_Input
  | Blank_Line
  | Unknown_Code jstr
  | Prefix_Too_Short
  | Bad_Revision
  | Not_One_Line_Json jstr
  | Not_String_Or_Null jstr
  | Not_String_Array
  | Content_Null
  | Continuation_Before_Block
  | Out_Of_Order jstr
  | Confidence_Immutable
  | Unrecognized_Line jstr
  | No_Blocks

section \<open>Matchers\<close>

text \<open>\<open>(.+)$\<close>: at least one unit, none of them a line terminator.\<close>

definition dot_plus :: "jstr \<Rightarrow> jstr option" where
  "dot_plus s = (if s \<noteq> [] \<and> list_all (\<lambda>u. \<not> is_line_terminator u) s then Some s else None)"

definition strip_prefix :: "jstr \<Rightarrow> jstr \<Rightarrow> jstr option" where
  "strip_prefix p s = (if starts_with p s then Some (drop (length p) s) else None)"

definition is_prefix_unit :: "nat \<Rightarrow> bool" where
  "is_prefix_unit u \<longleftrightarrow> is_lower_hex u \<or> u = 45"

text \<open>\<open>([0-9a-f][0-9a-f-]{7,35})@\<close>: the class does not contain \<open>@\<close>, so the longest run is the only
  candidate.\<close>

definition match_id_prefix :: "jstr \<Rightarrow> (jstr \<times> jstr) option" where
  "match_id_prefix s = (let p = takeWhile is_prefix_unit s; r = dropWhile is_prefix_unit s in
     if 8 \<le> length p \<and> length p \<le> 36 \<and> is_lower_hex (hd p)
     then map_option (Pair p) (strip_prefix (js ''@'') r) else None)"

definition match_revision :: "jstr \<Rightarrow> (jstr \<times> jstr) option" where
  "match_revision s = (let p = takeWhile is_digit s; r = dropWhile is_digit s in
     if 1 \<le> length p \<and> length p \<le> 15
     then map_option (Pair p) (strip_prefix (js ''] content: '') r) else None)"

definition TOKENED_START :: "jstr \<Rightarrow> (jstr \<times> jstr \<times> jstr \<times> jstr) option" where
  "TOKENED_START line =
    (case strip_prefix (js ''- ['') line of None \<Rightarrow> None
     | Some s1 \<Rightarrow>
       if length s1 < 3 \<or> \<not> list_all is_lower (take 3 s1) then None
       else (case strip_prefix (js '':'') (drop 3 s1) of None \<Rightarrow> None
       | Some s2 \<Rightarrow> (case match_id_prefix s2 of None \<Rightarrow> None
         | Some (pre, s3) \<Rightarrow> (case match_revision s3 of None \<Rightarrow> None
           | Some (rv, s4) \<Rightarrow> map_option (\<lambda>c. (take 3 s1, pre, rv, c)) (dot_plus s4)))))"

definition TOKENLESS_START :: "jstr \<Rightarrow> jstr option" where
  "TOKENLESS_START line = Option.bind (strip_prefix (js ''- content: '') line) dot_plus"

definition match_field :: "field \<Rightarrow> jstr \<Rightarrow> (field \<times> jstr) option" where
  "match_field f line =
     map_option (Pair f) (Option.bind (strip_prefix (js ''  '' @ field_str f @ js '': '') line) dot_plus)"

definition CONTINUATION :: "jstr \<Rightarrow> (field \<times> jstr) option" where
  "CONTINUATION line = (case match_field Why line of Some r \<Rightarrow> Some r
     | None \<Rightarrow> (case match_field How line of Some r \<Rightarrow> Some r | None \<Rightarrow> match_field Tags line))"

text \<open>\<open>/^  team: \S/\<close>\<close>

definition is_team_line :: "jstr \<Rightarrow> bool" where
  "is_team_line line = (case strip_prefix (js ''  team: '') line of
      Some (u # _) \<Rightarrow> \<not> is_space u | _ \<Rightarrow> False)"

section \<open>Values\<close>

definition parseJsonStringOrNull :: "host \<Rightarrow> jstr \<Rightarrow> jstr \<Rightarrow> block_error + jstr option" where
  "parseJsonStringOrNull h raw fld = (case json_parse (nums h) raw of
      None \<Rightarrow> Inl (Not_One_Line_Json fld)
    | Some JNull \<Rightarrow> Inr None
    | Some (JStr s) \<Rightarrow> Inr (Some s)
    | Some _ \<Rightarrow> Inl (Not_String_Or_Null fld))"

definition parseTags :: "host \<Rightarrow> jstr \<Rightarrow> block_error + jstr list" where
  "parseTags h raw = (case json_parse (nums h) raw of
      None \<Rightarrow> Inl (Not_One_Line_Json (js ''tags''))
    | Some v \<Rightarrow> (case str_array_of v of None \<Rightarrow> Inl Not_String_Array | Some ts \<Rightarrow> Inr ts))"

definition parse_content :: "host \<Rightarrow> jstr \<Rightarrow> block_error + jstr" where
  "parse_content h raw = bindE (parseJsonStringOrNull h raw (js ''content''))
     (\<lambda>c. case c of None \<Rightarrow> Inl Content_Null | Some s \<Rightarrow> Inr s)"

definition TOKEN_ID_PREFIX_MIN_CHARS :: nat where "TOKEN_ID_PREFIX_MIN_CHARS = 8"

section \<open>The parser\<close>

text \<open>State: blocks, newest first, and \<open>lastFieldOrder\<close>.\<close>

type_synonym parser_state = "parsed_block list \<times> int"

definition start_tokened :: "host \<Rightarrow> jstr \<Rightarrow> jstr \<Rightarrow> jstr \<Rightarrow> jstr \<Rightarrow> jstr \<Rightarrow> parsed_block list \<Rightarrow>
    block_error + parser_state" where
  "start_tokened h line code idPrefix revisionRaw contentRaw blocks =
    (if code \<notin> set TOKEN_CODES then Inl (Unknown_Code code)
     else if length idPrefix < TOKEN_ID_PREFIX_MIN_CHARS then Inl Prefix_Too_Short
     else let revision = int (read_nat revisionRaw) in
       if revision > 9007199254740991 \<or> revision < 1 then Inl Bad_Revision
       else bindE (parse_content h contentRaw) (\<lambda>content.
         Inr (\<lparr> b_token = Some \<lparr> t_code = code, t_prefix = idPrefix, t_revision = revision \<rparr>,
                b_content = content, b_why = None, b_how = None, b_tags = None,
                b_raw = [line] \<rparr> # blocks, -1)))"

definition start_tokenless :: "host \<Rightarrow> jstr \<Rightarrow> jstr \<Rightarrow> parsed_block list \<Rightarrow> block_error + parser_state" where
  "start_tokenless h line contentRaw blocks = bindE (parse_content h contentRaw) (\<lambda>content.
     Inr (\<lparr> b_token = None, b_content = content, b_why = None, b_how = None, b_tags = None,
            b_raw = [line] \<rparr> # blocks, -1))"

definition push_raw :: "jstr \<Rightarrow> parsed_block \<Rightarrow> parsed_block" where
  "push_raw line b = b\<lparr> b_raw := b_raw b @ [line] \<rparr>"

definition set_field :: "host \<Rightarrow> field \<Rightarrow> jstr \<Rightarrow> parsed_block \<Rightarrow> block_error + parsed_block" where
  "set_field h f raw b = (case f of
      Tags \<Rightarrow> bindE (parseTags h raw) (\<lambda>ts. Inr (b\<lparr> b_tags := Some ts \<rparr>))
    | Why \<Rightarrow> bindE (parseJsonStringOrNull h raw (js ''why'')) (\<lambda>v. Inr (b\<lparr> b_why := Some v \<rparr>))
    | How \<Rightarrow> bindE (parseJsonStringOrNull h raw (js ''how'')) (\<lambda>v. Inr (b\<lparr> b_how := Some v \<rparr>)))"

definition continue_block :: "host \<Rightarrow> jstr \<Rightarrow> field \<Rightarrow> jstr \<Rightarrow> parser_state \<Rightarrow> block_error + parser_state" where
  "continue_block h line f raw st = (case st of
      ([], _) \<Rightarrow> Inl Continuation_Before_Block
    | (current # blocks, lastFieldOrder) \<Rightarrow>
        if FIELD_ORDER f \<le> lastFieldOrder then Inl (Out_Of_Order (field_str f))
        else bindE (set_field h f raw (push_raw line current)) (\<lambda>b.
          Inr (b # blocks, FIELD_ORDER f)))"

definition parse_line :: "host \<Rightarrow> jstr \<Rightarrow> parser_state \<Rightarrow> block_error + parser_state" where
  "parse_line h line st =
    (if trim line = [] then Inl Blank_Line
     else case TOKENED_START line of
       Some (code, pre, rv, raw) \<Rightarrow> start_tokened h line code pre rv raw (fst st)
     | None \<Rightarrow> (case TOKENLESS_START line of
       Some raw \<Rightarrow> start_tokenless h line raw (fst st)
     | None \<Rightarrow>
       if is_team_line line then
         (case fst st of [] \<Rightarrow> Inl Continuation_Before_Block
          | current # blocks \<Rightarrow> Inr (push_raw line current # blocks, snd st))
       else (case CONTINUATION line of
         Some (f, raw) \<Rightarrow> continue_block h line f raw st
       | None \<Rightarrow>
         if starts_with (js ''  confidence:'') line then Inl Confidence_Immutable
         else Inl (Unrecognized_Line (take 60 line)))))"

definition parseBlocks :: "host \<Rightarrow> jstr \<Rightarrow> block_error + parsed_block list" where
  "parseBlocks h text =
    (if length text = 0 then Inl Empty_Input
     else bindE (foldE (parse_line h) (split_on 10 text) ([], -1)) (\<lambda>(blocks, _).
       if blocks = [] then Inl No_Blocks else Inr (rev blocks)))"

end
