(* ===== verification/Tables.thy ===== *)
theory Tables
  imports Prelude
begin

text \<open>
  Tables and keyed collections.  A SQL table is the list of its rows in rowid order, a JavaScript
  \<open>Map\<close> the list of its entries in insertion order; both are searched and changed by key.

  The locale \<open>keyed_store\<close> is the contract of such a collection: what a lookup answers after an
  insertion or a removal, and an invariant (the key is a key) that both keep.  What the components
  need of it is proved once in the locale: removals in bulk, insertions that do not disturb other
  keys, moving a value to a fresh key.  The locale is interpreted on the operations the models of
  the tables use (rows replaced in place, as \<open>ON CONFLICT DO UPDATE\<close> does) and, in
  \<open>Render_Cache\<close>, on a \<open>Map\<close> whose entries are re-inserted at the end.
\<close>

section \<open>The contract\<close>

locale keyed_store =
  fixes key :: "'v \<Rightarrow> 'k"
    and lookup :: "'k \<Rightarrow> 's \<Rightarrow> 'v option"
    and put :: "'v \<Rightarrow> 's \<Rightarrow> 's"
    and del :: "'k \<Rightarrow> 's \<Rightarrow> 's"
    and inv :: "'s \<Rightarrow> bool"
  assumes lookup_put: "inv s \<Longrightarrow> lookup k (put v s) = (if k = key v then Some v else lookup k s)"
    and lookup_del: "inv s \<Longrightarrow> lookup k (del j s) = (if k = j then None else lookup k s)"
    and lookup_key: "inv s \<Longrightarrow> lookup k s = Some v \<Longrightarrow> key v = k"
    and inv_put: "inv s \<Longrightarrow> inv (put v s)"
    and inv_del: "inv s \<Longrightarrow> inv (del k s)"
begin

lemma lookup_put_same: "inv s \<Longrightarrow> lookup (key v) (put v s) = Some v"
  by (simp add: lookup_put)

lemma lookup_put_other: "inv s \<Longrightarrow> k \<noteq> key v \<Longrightarrow> lookup k (put v s) = lookup k s"
  by (simp add: lookup_put)

lemma lookup_put_put: "inv s \<Longrightarrow> key v = key w \<Longrightarrow> lookup k (put w (put v s)) = lookup k (put w s)"
  by (simp add: lookup_put inv_put)

lemma inv_dels: "inv s \<Longrightarrow> inv (fold del ks s)"
  by (induction ks arbitrary: s) (auto simp: inv_del)

lemma lookup_dels:
  "inv s \<Longrightarrow> lookup k (fold del ks s) = (if k \<in> set ks then None else lookup k s)"
  by (induction ks arbitrary: s) (auto simp: inv_del lookup_del)

lemma inv_puts: "inv s \<Longrightarrow> inv (fold put vs s)"
  by (induction vs arbitrary: s) (auto simp: inv_put)

lemma lookup_puts_other: "inv s \<Longrightarrow> k \<notin> key ` set vs \<Longrightarrow> lookup k (fold put vs s) = lookup k s"
  by (induction vs arbitrary: s) (auto simp: inv_put lookup_put)

lemma lookup_move:
  assumes "inv s" "key w \<noteq> k"
  shows "lookup j (put w (del k s)) = (if j = key w then Some w else if j = k then None else lookup j s)"
  using assms by (simp add: lookup_put lookup_del inv_del)

end

section \<open>Tables\<close>

definition t_get :: "('r \<Rightarrow> 'k) \<Rightarrow> 'k \<Rightarrow> 'r list \<Rightarrow> 'r option" where
  "t_get key k rows = find (\<lambda>r. key r = k) rows"

text \<open>\<open>INSERT ... ON CONFLICT(key) DO UPDATE\<close>: an existing row is replaced where it stands.\<close>

definition t_put :: "('r \<Rightarrow> 'k) \<Rightarrow> 'r \<Rightarrow> 'r list \<Rightarrow> 'r list" where
  "t_put key r rows =
    (if list_ex (\<lambda>x. key x = key r) rows then map (\<lambda>x. if key x = key r then r else x) rows
     else rows @ [r])"

text \<open>\<open>INSERT ... ON CONFLICT(key) DO NOTHING\<close>.\<close>

definition t_add :: "('r \<Rightarrow> 'k) \<Rightarrow> 'r \<Rightarrow> 'r list \<Rightarrow> 'r list" where
  "t_add key r rows = (if list_ex (\<lambda>x. key x = key r) rows then rows else rows @ [r])"

definition t_del :: "('r \<Rightarrow> 'k) \<Rightarrow> 'k \<Rightarrow> 'r list \<Rightarrow> 'r list" where
  "t_del key k rows = filter (\<lambda>r. key r \<noteq> k) rows"

text \<open>\<open>UPDATE ... WHERE P\<close>, and the number of rows it changes.\<close>

definition t_update :: "('r \<Rightarrow> bool) \<Rightarrow> ('r \<Rightarrow> 'r) \<Rightarrow> 'r list \<Rightarrow> 'r list" where
  "t_update P f rows = map (\<lambda>r. if P r then f r else r) rows"

definition t_count :: "('r \<Rightarrow> bool) \<Rightarrow> 'r list \<Rightarrow> nat" where
  "t_count P rows = length (filter P rows)"

definition t_keyed :: "('r \<Rightarrow> 'k) \<Rightarrow> 'r list \<Rightarrow> bool" where
  "t_keyed key rows \<longleftrightarrow> distinct (map key rows)"

lemma t_get_Some: "t_get key k rows = Some r \<Longrightarrow> r \<in> set rows \<and> key r = k"
  by (auto simp: t_get_def find_Some_iff)

lemma t_get_None: "t_get key k rows = None \<longleftrightarrow> k \<notin> key ` set rows"
  by (auto simp: t_get_def find_None_iff)

lemma t_get_keyed: "t_keyed key rows \<Longrightarrow> r \<in> set rows \<Longrightarrow> t_get key (key r) rows = Some r"
  by (induction rows) (auto simp: t_get_def t_keyed_def)

lemma t_get_append: "t_get key k (xs @ ys) = (case t_get key k xs of None \<Rightarrow> t_get key k ys | r \<Rightarrow> r)"
  by (induction xs) (auto simp: t_get_def)

lemma t_get_single: "t_get key k [r] = (if key r = k then Some r else None)"
  by (simp add: t_get_def)

lemma t_get_put: "t_get key k (t_put key r rows) = (if k = key r then Some r else t_get key k rows)"
proof (cases "list_ex (\<lambda>x. key x = key r) rows")
  case True
  have "t_get key k (map (\<lambda>x. if key x = key r then r else x) rows) =
      (if k = key r then Some r else t_get key k rows)" if "list_ex (\<lambda>x. key x = key r) rows \<or> k \<noteq> key r"
    using that by (induction rows) (auto simp: t_get_def)
  then show ?thesis using True by (simp add: t_put_def)
next
  case False
  then have "t_get key (key r) rows = None" by (auto simp: t_get_None list_ex_iff)
  moreover have "t_put key r rows = rows @ [r]" using False by (simp add: t_put_def)
  ultimately show ?thesis by (auto simp: t_get_append t_get_single split: option.splits)
qed

lemma t_get_del: "t_get key k (t_del key j rows) = (if k = j then None else t_get key k rows)"
  by (induction rows) (auto simp: t_get_def t_del_def)

lemma map_key_put:
  "map key (t_put key r rows) = (if list_ex (\<lambda>x. key x = key r) rows then map key rows else map key rows @ [key r])"
  by (auto simp: t_put_def)

lemma t_keyed_put: "t_keyed key rows \<Longrightarrow> t_keyed key (t_put key r rows)"
  by (auto simp: t_keyed_def map_key_put list_ex_iff)

lemma t_keyed_del: "t_keyed key rows \<Longrightarrow> t_keyed key (t_del key k rows)"
  by (auto simp: t_keyed_def t_del_def distinct_map_filter)

lemma t_keyed_add: "t_keyed key rows \<Longrightarrow> t_keyed key (t_add key r rows)"
  by (auto simp: t_keyed_def t_add_def list_ex_iff)

lemma map_key_update:
  "(\<And>r. P r \<Longrightarrow> key (f r) = key r) \<Longrightarrow> map key (t_update P f rows) = map key rows"
  by (auto simp: t_update_def)

lemma t_keyed_update:
  "(\<And>r. P r \<Longrightarrow> key (f r) = key r) \<Longrightarrow> t_keyed key rows \<Longrightarrow> t_keyed key (t_update P f rows)"
  by (simp add: t_keyed_def map_key_update)

lemma t_get_update:
  "(\<And>r. P r \<Longrightarrow> key (f r) = key r) \<Longrightarrow>
    t_get key k (t_update P f rows) = map_option (\<lambda>r. if P r then f r else r) (t_get key k rows)"
  by (induction rows) (auto simp: t_update_def t_get_def)

interpretation tbl: keyed_store key "t_get key" "t_put key" "t_del key" "t_keyed key" for key
  by unfold_locales (auto simp: t_get_put t_get_del t_keyed_put t_keyed_del dest: t_get_Some)

end
