(* ===== verification/Render_Cache.thy ===== *)
theory Render_Cache
  imports Memory_Rows Tables
begin

text \<open>
  \<open>src/memory-tool/render-cache.ts\<close>: the bounded cache of frozen renderings.

  The \<open>Map\<close> is the list of its entries in insertion order, oldest first; \<open>set\<close> and \<open>get\<close> delete and
  re-insert, so the head is the least recently used entry.  The injectable clock is the argument
  \<open>now\<close> in milliseconds.
\<close>

record frozen_rendering =
  f_lines :: "jstr list"
  f_renderingHash :: jstr
  f_bytes :: nat

record cache_entry = frozen_rendering +
  insertedAt :: int
  lastAccess :: int

type_synonym render_cache = "(jstr \<times> cache_entry) list"

definition MAX_ENTRIES :: nat where "MAX_ENTRIES = 8"
definition TTL_MS :: int where "TTL_MS = 5 * 60000"
definition MAX_AGGREGATE_BYTES :: nat where "MAX_AGGREGATE_BYTES = 4 * 1024 * 1024"

text \<open>\<open>delete(path)\<close> then \<open>set(path, entry)\<close>: the entry moves to the end.\<close>

definition map_set :: "jstr \<times> cache_entry \<Rightarrow> render_cache \<Rightarrow> render_cache" where
  "map_set e c = t_del fst (fst e) c @ [e]"

definition expired :: "int \<Rightarrow> cache_entry \<Rightarrow> bool" where
  "expired now entry \<longleftrightarrow> now - insertedAt entry > TTL_MS"

fun evict_count :: "render_cache \<Rightarrow> render_cache" where
  "evict_count [] = []"
| "evict_count (e # c) = (if length (e # c) > MAX_ENTRIES then evict_count c else e # c)"

fun evict_bytes :: "nat \<Rightarrow> render_cache \<Rightarrow> render_cache" where
  "evict_bytes aggregate [] = []"
| "evict_bytes aggregate (e # c) =
     (if aggregate > MAX_AGGREGATE_BYTES then evict_bytes (aggregate - f_bytes (snd e)) c else e # c)"

definition total_bytes :: "render_cache \<Rightarrow> nat" where
  "total_bytes c = sum_list (map (f_bytes \<circ> snd) c)"

definition evict :: "int \<Rightarrow> render_cache \<Rightarrow> render_cache" where
  "evict now c = (let c1 = filter (\<lambda>(_, entry). \<not> expired now entry) c; c2 = evict_count c1 in
     evict_bytes (total_bytes c2) c2)"

definition freeze :: "host \<Rightarrow> int \<Rightarrow> jstr list \<Rightarrow> cache_entry" where
  "freeze h now ls = (let joined = join [10] ls in
     \<lparr> f_lines = ls, f_renderingHash = sha256 h (utf8_encode joined), f_bytes = byte_length joined,
       insertedAt = now, lastAccess = now \<rparr>)"

definition cache_set :: "host \<Rightarrow> int \<Rightarrow> jstr \<Rightarrow> jstr list \<Rightarrow> render_cache \<Rightarrow> frozen_rendering \<times> render_cache"
where
  "cache_set h now path ls c = (let entry = freeze h now ls in
     (frozen_rendering.truncate entry, evict now (map_set (path, entry) c)))"

definition cache_get :: "int \<Rightarrow> jstr \<Rightarrow> render_cache \<Rightarrow> frozen_rendering option \<times> render_cache" where
  "cache_get now path c = (case t_get fst path c of
      None \<Rightarrow> (None, c)
    | Some (_, entry) \<Rightarrow>
        if expired now entry then (None, t_del fst path c)
        else (Some (frozen_rendering.truncate entry), map_set (path, entry\<lparr> lastAccess := now \<rparr>) c))"

definition invalidate :: "jstr \<Rightarrow> render_cache \<Rightarrow> render_cache" where
  "invalidate path c = t_del fst path c"

definition invalidateAll :: "render_cache \<Rightarrow> render_cache" where
  "invalidateAll c = []"

section \<open>Facts\<close>

lemma t_get_map_set: "t_get fst k (map_set e c) = (if k = fst e then Some e else t_get fst k c)"
  by (auto simp: map_set_def t_get_append t_get_del split: option.splits) (auto simp: t_get_def)

lemma keyed_map_set: "t_keyed fst c \<Longrightarrow> t_keyed fst (map_set e c)"
  using t_keyed_del [of fst c "fst e"] by (auto simp: map_set_def t_keyed_def t_del_def)

interpretation lru: keyed_store fst "t_get fst" map_set "t_del fst" "t_keyed fst"
  by unfold_locales (auto simp: t_get_map_set t_get_del keyed_map_set t_keyed_del dest: t_get_Some)

lemma evict_count_suffix: "\<exists>xs. c = xs @ evict_count c"
  by (induction c) (auto intro: exI [of _ "[]"] exI [of _ "_ # _"])

lemma evict_count_bound: "length (evict_count c) \<le> MAX_ENTRIES"
  by (induction c) (auto simp: MAX_ENTRIES_def)

lemma evict_bytes_suffix: "\<exists>xs. c = xs @ evict_bytes a c"
proof (induction c arbitrary: a)
  case (Cons e c)
  obtain xs where "c = xs @ evict_bytes (a - f_bytes (snd e)) c" using Cons.IH by blast
  then show ?case by (auto intro: exI [of _ "[]"]) (metis append_Cons)
qed simp

lemma evict_bytes_bound: "total_bytes (evict_bytes (total_bytes c) c) \<le> MAX_AGGREGATE_BYTES"
  by (induction c) (auto simp: total_bytes_def)

lemma evict_suffix: "\<exists>xs. filter (\<lambda>(_, entry). \<not> expired now entry) c = xs @ evict now c"
proof -
  let ?c1 = "filter (\<lambda>(_, entry). \<not> expired now entry) c"
  obtain xs where xs: "?c1 = xs @ evict_count ?c1" using evict_count_suffix by blast
  obtain ys where "evict_count ?c1 = ys @ evict_bytes (total_bytes (evict_count ?c1)) (evict_count ?c1)"
    using evict_bytes_suffix by blast
  with xs show ?thesis by (metis append_assoc evict_def)
qed

lemma evict_subset: "set (evict now c) \<subseteq> {e \<in> set c. \<not> expired now (snd e)}"
proof -
  obtain xs where "filter (\<lambda>(_, entry). \<not> expired now entry) c = xs @ evict now c"
    using evict_suffix by blast
  then have "set (evict now c) \<subseteq> set (filter (\<lambda>(_, entry). \<not> expired now entry) c)" by simp
  then show ?thesis by auto
qed

lemma evict_keyed: "t_keyed fst c \<Longrightarrow> t_keyed fst (evict now c)"
proof -
  assume "t_keyed fst c"
  then have "distinct (map fst (filter (\<lambda>(_, entry). \<not> expired now entry) c))"
    by (simp add: t_keyed_def distinct_map_filter)
  moreover obtain xs where "filter (\<lambda>(_, entry). \<not> expired now entry) c = xs @ evict now c"
    using evict_suffix by blast
  ultimately show ?thesis by (simp add: t_keyed_def)
qed

section \<open>Histories\<close>

text \<open>The calls the handlers make, each with the clock reading of the call.\<close>

datatype cache_op =
    Cache_Set int jstr "jstr list"
  | Cache_Get int jstr
  | Cache_Invalidate jstr
  | Cache_Invalidate_All

fun cache_step :: "host \<Rightarrow> render_cache \<Rightarrow> cache_op \<Rightarrow> render_cache" where
  "cache_step h c (Cache_Set now p ls) = snd (cache_set h now p ls c)"
| "cache_step h c (Cache_Get now p) = snd (cache_get now p c)"
| "cache_step h c (Cache_Invalidate p) = invalidate p c"
| "cache_step h c Cache_Invalidate_All = invalidateAll c"

definition cache_run :: "host \<Rightarrow> cache_op list \<Rightarrow> render_cache" where
  "cache_run h ops = foldl (cache_step h) [] ops"

text \<open>What a page of \<open>p\<close> may show: the last rendering frozen for \<open>p\<close> that was not invalidated since.\<close>

fun last_freeze :: "jstr \<Rightarrow> (int \<times> jstr list) option \<Rightarrow> cache_op list \<Rightarrow> (int \<times> jstr list) option" where
  "last_freeze p acc [] = acc"
| "last_freeze p acc (Cache_Set now q ls # ops) =
     last_freeze p (if q = p then Some (now, ls) else acc) ops"
| "last_freeze p acc (Cache_Get now q # ops) = last_freeze p acc ops"
| "last_freeze p acc (Cache_Invalidate q # ops) = last_freeze p (if q = p then None else acc) ops"
| "last_freeze p acc (Cache_Invalidate_All # ops) = last_freeze p None ops"

definition cache_inv :: "render_cache \<Rightarrow> bool" where
  "cache_inv c \<longleftrightarrow> t_keyed fst c \<and> length c \<le> MAX_ENTRIES \<and> total_bytes c \<le> MAX_AGGREGATE_BYTES"

lemma total_bytes_del: "total_bytes (t_del fst p c) \<le> total_bytes c"
  by (induction c) (auto simp: total_bytes_def t_del_def)

lemma length_del: "length (t_del fst p c) \<le> length c"
  by (simp add: t_del_def)

lemma del_entry_bounds:
  assumes "t_get fst p c = Some e"
  shows "length (t_del fst p c) < length c \<and> total_bytes (t_del fst p c) + f_bytes (snd e) \<le> total_bytes c"
  using assms
proof (induction c)
  case (Cons x c)
  then show ?case
    using total_bytes_del [of p c] length_del [of p c]
    by (cases "fst x = p") (auto simp: t_get_def t_del_def total_bytes_def le_imp_less_Suc)
qed (simp add: t_get_def)

lemma cache_step_inv: "cache_inv c \<Longrightarrow> cache_inv (cache_step h c op)"
proof (cases op)
  case (Cache_Set now p ls)
  assume c: "cache_inv c"
  let ?m = "map_set (p, freeze h now ls) c"
  have "t_keyed fst (evict now ?m)" using c by (simp add: cache_inv_def evict_keyed keyed_map_set)
  moreover have "total_bytes (evict now ?m) \<le> MAX_AGGREGATE_BYTES"
    by (simp add: evict_def Let_def evict_bytes_bound)
  moreover have "length (evict now ?m) \<le> MAX_ENTRIES"
  proof -
    let ?c2 = "evict_count (filter (\<lambda>(_, entry). \<not> expired now entry) ?m)"
    obtain xs where "?c2 = xs @ evict now ?m"
      unfolding evict_def Let_def using evict_bytes_suffix by blast
    then have "length (evict now ?m) \<le> length ?c2" by (metis length_append le_add2)
    then show ?thesis using evict_count_bound le_trans by blast
  qed
  ultimately show ?thesis using Cache_Set by (simp add: cache_inv_def cache_set_def Let_def)
next
  case (Cache_Get now p)
  assume c: "cache_inv c"
  show ?thesis
  proof (cases "t_get fst p c")
    case None
    then show ?thesis using c Cache_Get by (simp add: cache_get_def)
  next
    case (Some e)
    obtain entry where e: "e = (p, entry)" using t_get_Some [OF Some] by (cases e) auto
    have b: "length (t_del fst p c) < length c" "total_bytes (t_del fst p c) + f_bytes entry \<le> total_bytes c"
      using del_entry_bounds [OF Some] e by auto
    have "cache_inv (t_del fst p c)" "cache_inv (map_set (p, entry\<lparr> lastAccess := now \<rparr>) c)"
      using c b by (auto simp: cache_inv_def t_keyed_del keyed_map_set) (auto simp: map_set_def total_bytes_def)
    then show ?thesis using Cache_Get Some e by (simp add: cache_get_def)
  qed
next
  case (Cache_Invalidate p)
  assume "cache_inv c"
  then show ?thesis using Cache_Invalidate total_bytes_del [of p c] length_del [of p c]
    by (auto simp: cache_inv_def invalidate_def t_keyed_del)
qed (simp add: invalidateAll_def cache_inv_def t_keyed_def total_bytes_def)

lemma cache_run_inv: "cache_inv (cache_run h ops)"
proof -
  have "cache_inv (foldl (cache_step h) c ops)" if "cache_inv c" for c
    using that by (induction ops arbitrary: c) (auto simp: cache_step_inv)
  then show ?thesis unfolding cache_run_def
    by (simp add: cache_inv_def t_keyed_def total_bytes_def)
qed

text \<open>An entry agrees with the last freeze of its path.\<close>

definition agrees :: "host \<Rightarrow> (jstr \<Rightarrow> (int \<times> jstr list) option) \<Rightarrow> render_cache \<Rightarrow> bool" where
  "agrees h lf c \<longleftrightarrow> t_keyed fst c \<and> (\<forall>(p, entry)\<in>set c. \<exists>t ls. lf p = Some (t, ls) \<and>
     insertedAt entry = t \<and> frozen_rendering.truncate entry = frozen_rendering.truncate (freeze h t ls))"

fun note_op :: "cache_op \<Rightarrow> (jstr \<Rightarrow> (int \<times> jstr list) option) \<Rightarrow> (jstr \<Rightarrow> (int \<times> jstr list) option)" where
  "note_op (Cache_Set now q ls) lf = lf(q \<mapsto> (now, ls))"
| "note_op (Cache_Get now q) lf = lf"
| "note_op (Cache_Invalidate q) lf = lf(q := None)"
| "note_op Cache_Invalidate_All lf = (\<lambda>_. None)"

lemma last_freeze_notes: "last_freeze p (lf p) ops = foldl (\<lambda>l op. note_op op l) lf ops p"
proof (induction ops arbitrary: lf)
  case (Cons op ops)
  show ?case
    using Cons.IH [of "note_op op lf"] by (cases op) (auto simp: fun_upd_def)
qed simp

lemma agrees_step: "agrees h lf c \<Longrightarrow> agrees h (note_op op lf) (cache_step h c op)"
proof (cases op)
  case (Cache_Set now p ls)
  assume a: "agrees h lf c"
  have "set (evict now (map_set (p, freeze h now ls) c)) \<subseteq> insert (p, freeze h now ls) (set (t_del fst p c))"
    using evict_subset by (fastforce simp: map_set_def)
  moreover have "t_keyed fst (evict now (map_set (p, freeze h now ls) c))"
    using a by (simp add: agrees_def evict_keyed keyed_map_set)
  ultimately show ?thesis using a Cache_Set
    by (fastforce simp: agrees_def cache_set_def Let_def t_del_def freeze_def frozen_rendering.defs)
next
  case (Cache_Get now p)
  assume a: "agrees h lf c"
  show ?thesis
  proof (cases "t_get fst p c")
    case None
    then show ?thesis using a Cache_Get by (simp add: cache_get_def)
  next
    case (Some e)
    obtain entry where e: "e = (p, entry)" "e \<in> set c" using t_get_Some [OF Some] by (cases e) auto
    have "frozen_rendering.truncate (entry\<lparr> lastAccess := now \<rparr>) = frozen_rendering.truncate entry"
      by (simp add: frozen_rendering.defs)
    then have "agrees h lf (map_set (p, entry\<lparr> lastAccess := now \<rparr>) c)" "agrees h lf (t_del fst p c)"
      using a e by (auto simp: agrees_def keyed_map_set t_keyed_del) (auto simp: map_set_def t_del_def)
    then show ?thesis using Cache_Get Some e by (simp add: cache_get_def)
  qed
next
  case (Cache_Invalidate p)
  assume a: "agrees h lf c"
  then show ?thesis using Cache_Invalidate
    by (auto simp: agrees_def invalidate_def t_keyed_del) (auto simp: t_del_def)
qed (simp add: invalidateAll_def agrees_def t_keyed_def)

lemma agrees_run: "agrees h (\<lambda>p. last_freeze p None ops) (cache_run h ops)"
proof -
  have "agrees h (foldl (\<lambda>l op. note_op op l) lf ops) (foldl (cache_step h) c ops)" if "agrees h lf c" for lf c
    using that by (induction ops arbitrary: lf c) (auto simp: agrees_step)
  from this [of "\<lambda>_. None" "[]"] have "agrees h (foldl (\<lambda>l op. note_op op l) (\<lambda>_. None) ops) (cache_run h ops)"
    by (simp add: agrees_def t_keyed_def cache_run_def)
  moreover have "foldl (\<lambda>l op. note_op op l) (\<lambda>_. None) ops = (\<lambda>p. last_freeze p None ops)"
    using last_freeze_notes [where lf = "\<lambda>_. None"] by auto
  ultimately show ?thesis by simp
qed

section \<open>Properties\<close>

text \<open>C37. The render cache is bounded after every history of calls: at most 8 entries, at most
  4 MiB of frozen text, one entry per path; and right after a \<open>set\<close> no entry in it has outlived
  the time to live.\<close>

theorem cache_bounded:
  "cache_inv (cache_run h ops) \<and>
    (\<forall>now p ls. \<forall>e\<in>set (cache_run h (ops @ [Cache_Set now p ls])). \<not> expired now (snd e))"
proof -
  have "cache_run h (ops @ [Cache_Set now p ls]) = evict now (map_set (p, freeze h now ls) (cache_run h ops))"
    for now p ls by (simp add: cache_run_def cache_set_def Let_def)
  then show ?thesis using cache_run_inv evict_subset by fastforce
qed

lemma cache_bounded_witness:
  "cache_inv (cache_run sample_host [Cache_Set 0 (js ''a'') [js ''x'']]) \<and>
    list_all (\<lambda>e. \<not> expired 400000 (snd e))
      (cache_run sample_host [Cache_Set 0 (js ''a'') [js ''x''], Cache_Set 400000 (js ''b'') [js ''y'']])"
  using cache_bounded [of sample_host "[Cache_Set 0 (js ''a'') [js ''x'']]"] by (simp add: list_all_iff)

text \<open>C36. A frozen page is never stale: whatever calls came before, a \<open>get\<close> that answers a
  rendering answers exactly the lines and the hash of the last \<open>set\<close> of that path, that \<open>set\<close> was
  not followed by an invalidation of the path, and it is at most five minutes old.\<close>

theorem cache_get_fresh:
  assumes "fst (cache_get now p (cache_run h ops)) = Some fr"
  shows "\<exists>t ls. last_freeze p None ops = Some (t, ls) \<and> now - t \<le> TTL_MS \<and> f_lines fr = ls \<and>
    f_renderingHash fr = sha256 h (utf8_encode (join [10] ls))"
proof -
  from assms obtain entry where g: "t_get fst p (cache_run h ops) = Some (p, entry)"
    and e: "\<not> expired now entry" and fr: "fr = frozen_rendering.truncate entry"
    by (auto simp: cache_get_def dest: t_get_Some split: option.splits prod.splits if_splits)
  have "(p, entry) \<in> set (cache_run h ops)" using t_get_Some [OF g] by simp
  with agrees_run [of h ops] obtain t ls where "last_freeze p None ops = Some (t, ls)" "insertedAt entry = t"
    "frozen_rendering.truncate entry = frozen_rendering.truncate (freeze h t ls)"
    by (fastforce simp: agrees_def)
  then show ?thesis using e fr by (auto simp: expired_def freeze_def frozen_rendering.defs Let_def)
qed

lemma cache_get_fresh_witness:
  "\<exists>t ls. last_freeze (js ''a'') None [Cache_Set 0 (js ''a'') [js ''x'']] = Some (t, ls) \<and>
    7 - t \<le> TTL_MS \<and> ls = [js ''x'']"
proof -
  let ?h = sample_host
  let ?ops = "[Cache_Set 0 (js ''a'') [js ''x'']]"
  obtain fr where fr: "fst (cache_get 7 (js ''a'') (cache_run ?h ?ops)) = Some fr" "f_lines fr = [js ''x'']"
    by (simp add: cache_run_def cache_set_def cache_get_def freeze_def Let_def evict_def map_set_def
        t_del_def t_get_def expired_def TTL_MS_def MAX_ENTRIES_def total_bytes_def MAX_AGGREGATE_BYTES_def
        byte_length_def js_def surrogate_def is_high_def is_low_def utf8_unit_def frozen_rendering.defs)
  from cache_get_fresh [OF fr(1)] fr(2) show ?thesis by auto
qed

end
