(* ===== verification/Materializer.thy ===== *)
theory Materializer
  imports Block_Parser Render_Cache Memory_Paths
begin

text \<open>
  \<open>src/memory-tool/materializer.ts\<close>: a materialized file is the ordered rendering of the active
  records of one category in one exact scope, one token-bearing block per record.

  A record is defective when \<open>recordDefect\<close> names a reason; the checks of column types that the
  record types of the model make (\<open>typeof record.id !== 'string'\<close>) have no counterpart.  A thrown
  \<open>TypeError\<close> inside \<open>renderBlock\<close> is the answer \<open>None\<close>.  Log lines are not modelled.
\<close>

section \<open>Records\<close>

record renderable = memory +
  m_jd :: "rat option"

definition RECORD_SANITY_LIMIT :: nat where "RECORD_SANITY_LIMIT = 10000"

text \<open>\<open>loadActiveRecords\<close>: rows whose mapping throws are counted, never fatal.\<close>

fun map_rows :: "host \<Rightarrow> memory_row list \<Rightarrow> renderable list \<times> nat" where
  "map_rows h [] = ([], 0)"
| "map_rows h (row # rows) = (case map_rows h rows of (records, failedRows) \<Rightarrow>
     (case rowToMemory h row of
        None \<Rightarrow> (records, failedRows + 1)
      | Some m \<Rightarrow> (memory.extend m (renderable.fields (julianday h (r_created_at row))) # records,
                   failedRows)))"

definition loadActiveRecords :: "host \<Rightarrow> jstr option \<Rightarrow> category \<Rightarrow> memory_row list \<Rightarrow> renderable list \<times> nat"
where
  "loadActiveRecords h project cat rows = map_rows h (filter (in_scope project (CATEGORY_KINDS cat)) rows)"

section \<open>Validation\<close>

datatype defect =
    Non_Canonical_Id | Unsupported_Kind | Invalid_Revision | Invalid_Tags | Invalid_Confidence
  | Invalid_Surface_Count | Invalid_Impact_Count | Invalid_Context | Invalid_Why | Invalid_How

definition MAX_SAFE :: int where "MAX_SAFE = 9007199254740991"

text \<open>\<open>ctx.f !== undefined && typeof ctx.f !== 'string'\<close>\<close>

definition bad_text_field :: "jstr \<Rightarrow> json \<Rightarrow> bool" where
  "bad_text_field f ctx = (case ctx of
      JObj kvs \<Rightarrow> (case obj_get f kvs of None \<Rightarrow> False | Some (JStr _) \<Rightarrow> False | Some _ \<Rightarrow> True)
    | _ \<Rightarrow> False)"

definition recordDefect :: "'a memory_scheme \<Rightarrow> defect option" where
  "recordDefect r =
    (if \<not> is_uuid (r_id r) then Some Non_Canonical_Id
     else if KIND_CODES (r_kind r) = None then Some Unsupported_Kind
     else if \<bar>r_revision r\<bar> > MAX_SAFE \<or> r_revision r < 1 then Some Invalid_Revision
     else if str_array_of (m_tags r) = None then Some Invalid_Tags
     else if \<not> is_finite (r_confidence r) then Some Invalid_Confidence
     else if \<bar>r_surface_count r\<bar> > MAX_SAFE \<or> r_surface_count r < 0 then Some Invalid_Surface_Count
     else if \<bar>r_impact_count r\<bar> > MAX_SAFE \<or> r_impact_count r < 0 then Some Invalid_Impact_Count
     else if (case m_context r of JNull \<Rightarrow> False | JObj _ \<Rightarrow> False | _ \<Rightarrow> True) then Some Invalid_Context
     else if bad_text_field (js ''why'') (m_context r) then Some Invalid_Why
     else if bad_text_field (js ''how_to_apply'') (m_context r) then Some Invalid_How
     else None)"

definition partitionRenderable :: "'a memory_scheme list \<Rightarrow> 'a memory_scheme list \<times> nat" where
  "partitionRenderable records =
     (filter (\<lambda>r. recordDefect r = None) records,
      length (filter (\<lambda>r. recordDefect r \<noteq> None) records))"

section \<open>Order\<close>

text \<open>\<open>Math.min(1, impact / surface)\<close>, or the scaled confidence of a record never surfaced.\<close>

definition num_val :: "number \<Rightarrow> rat" where
  "num_val n = (case n of Fin q \<Rightarrow> q | _ \<Rightarrow> 0)"

definition precisionRatio :: "host \<Rightarrow> int \<Rightarrow> int \<Rightarrow> number \<Rightarrow> rat" where
  "precisionRatio h surfaceCount impactCount confidence =
     (if surfaceCount > 0 then min 1 (fl h (of_int impactCount / of_int surfaceCount))
      else fl h (num_val confidence * (3 / 10)))"

definition jdOf :: "renderable \<Rightarrow> rat" where
  "jdOf r = (case m_jd r of None \<Rightarrow> 0 | Some q \<Rightarrow> q)"

text \<open>\<open>x || y\<close> on comparator results; only the sign of a result is used.\<close>

definition or_else :: "rat \<Rightarrow> rat \<Rightarrow> rat" where
  "or_else x y = (if x \<noteq> 0 then x else y)"

definition cmp_id :: "jstr \<Rightarrow> jstr \<Rightarrow> rat" where
  "cmp_id a b = (if a < b then -1 else if a > b then 1 else 0)"

definition compareForCategory :: "host \<Rightarrow> category \<Rightarrow> renderable \<Rightarrow> renderable \<Rightarrow> rat" where
  "compareForCategory h cat a b =
    (let rest = or_else (num_val (r_confidence b) - num_val (r_confidence a))
                 (or_else (jdOf b - jdOf a) (cmp_id (r_id a) (r_id b)))
     in if cat = Pitfalls
        then or_else (precisionRatio h (r_surface_count b) (r_impact_count b) (r_confidence b)
               - precisionRatio h (r_surface_count a) (r_impact_count a) (r_confidence a)) rest
        else rest)"

text \<open>\<open>Array.prototype.sort(compare)\<close>: stable.\<close>

fun insert_cmp :: "('a \<Rightarrow> 'a \<Rightarrow> rat) \<Rightarrow> 'a \<Rightarrow> 'a list \<Rightarrow> 'a list" where
  "insert_cmp f x [] = [x]"
| "insert_cmp f x (y # ys) = (if f x y \<le> 0 then x # y # ys else y # insert_cmp f x ys)"

definition sort_cmp :: "('a \<Rightarrow> 'a \<Rightarrow> rat) \<Rightarrow> 'a list \<Rightarrow> 'a list" where
  "sort_cmp f xs = foldr (insert_cmp f) xs []"

section \<open>Token prefixes\<close>

definition prefix_group :: "nat \<Rightarrow> jstr list \<Rightarrow> jstr \<Rightarrow> jstr list" where
  "prefix_group len unresolved p = filter (\<lambda>i. take len i = p) unresolved"

text \<open>One round over the groups: what it resolves and what it leaves for the next length.\<close>

fun resolve_groups :: "nat \<Rightarrow> jstr list \<Rightarrow> jstr list \<Rightarrow> (jstr \<times> jstr option) list \<times> jstr list" where
  "resolve_groups len unresolved [] = ([], [])"
| "resolve_groups len unresolved (p # ps) =
    (let ids = prefix_group len unresolved p; (result, nxt) = resolve_groups len unresolved ps in
     if length ids = 1 then ((hd ids, Some p) # result, nxt)
     else if list_all (\<lambda>i. length i \<le> length p) ids then (map (\<lambda>i. (i, None)) ids @ result, nxt)
     else (result, ids @ nxt))"

definition round_prefixes :: "nat \<Rightarrow> jstr list \<Rightarrow> jstr list" where
  "round_prefixes len unresolved = dedup (map (take len) unresolved)"

text \<open>What is left over was cut: each of its groups has an id longer than \<open>len\<close>.\<close>

lemma resolve_groups_next:
  assumes "snd (resolve_groups len unresolved ps) \<noteq> []"
  shows "\<exists>i\<in>set unresolved. len < length i"
  using assms
proof (induction ps)
  case (Cons p ps)
  show ?case
  proof (cases "snd (resolve_groups len unresolved ps) = []")
    case True
    with Cons.prems have "\<not> list_all (\<lambda>i. length i \<le> length p) (prefix_group len unresolved p)"
      by (auto simp: Let_def split: prod.splits if_splits)
    then obtain i where "i \<in> set (prefix_group len unresolved p)" "length p < length i"
      by (auto simp: list_all_iff not_le)
    then show ?thesis by (auto simp: prefix_group_def min_def split: if_splits)
  qed (use Cons.IH in blast)
qed simp

lemma resolve_groups_next_subset:
  "set (snd (resolve_groups len unresolved ps)) \<subseteq> set unresolved"
  by (induction ps) (auto simp: Let_def prefix_group_def split: prod.splits if_splits)

definition longest :: "jstr list \<Rightarrow> nat" where
  "longest xs = fold max (map length xs) 0"

lemma longest_iff: "n < longest xs \<longleftrightarrow> (\<exists>x\<in>set xs. n < length x)"
proof -
  have "n < fold max ys a \<longleftrightarrow> n < a \<or> (\<exists>y\<in>set ys. n < y)" for ys and a :: nat
    by (induction ys arbitrary: a) (auto simp: max_def)
  then show ?thesis by (simp add: longest_def)
qed

function assign_rounds :: "nat \<Rightarrow> jstr list \<Rightarrow> (jstr \<times> jstr option) list" where
  "assign_rounds len unresolved =
    (if unresolved = [] then []
     else let (result, nxt) = resolve_groups len unresolved (round_prefixes len unresolved) in
       if nxt = [] then result else result @ assign_rounds (len + 4) nxt)"
  by pat_completeness auto
termination
proof (relation "measure (\<lambda>(len, unresolved). longest unresolved - len)")
  fix len unresolved x result nxt
  assume x: "x = resolve_groups len unresolved (round_prefixes len unresolved)" "(result, nxt) = x" "nxt \<noteq> []"
  then have n: "nxt = snd (resolve_groups len unresolved (round_prefixes len unresolved))" by (metis snd_conv)
  with x resolve_groups_next have "len < longest unresolved" by (metis longest_iff)
  moreover have "longest nxt \<le> longest unresolved"
    using resolve_groups_next_subset [of len unresolved] n longest_iff by (metis in_mono linorder_not_le less_irrefl)
  ultimately show "((len + 4, nxt), len, unresolved) \<in> measure (\<lambda>(len, unresolved). longest unresolved - len)"
    by simp
qed simp

declare assign_rounds.simps [simp del]

text \<open>Ids that occur twice are resolved to \<open>null\<close> first.\<close>

definition assignTokenPrefixes :: "'a memory_scheme list \<Rightarrow> (jstr \<times> jstr option) list" where
  "assignTokenPrefixes records =
    (let ids = map r_id records; uniq = dedup ids;
         dup = filter (\<lambda>i. count_list ids i > 1) uniq;
         unresolved = filter (\<lambda>i. \<not> count_list ids i > 1) uniq
     in map (\<lambda>i. (i, None)) dup @ assign_rounds 8 unresolved)"

section \<open>Blocks\<close>

text \<open>\<open>record.context?.f?.trim()\<close>; the outer \<open>None\<close> is a \<open>TypeError\<close> (no \<open>trim\<close> on the value).\<close>

definition ctx_text :: "jstr \<Rightarrow> json \<Rightarrow> jstr option option" where
  "ctx_text f ctx = (case ctx of
      JObj kvs \<Rightarrow> (case obj_get f kvs of
          None \<Rightarrow> Some None | Some JNull \<Rightarrow> Some None | Some (JStr s) \<Rightarrow> Some (Some (trim s)) | Some _ \<Rightarrow> None)
    | _ \<Rightarrow> Some None)"

definition text_line :: "field \<Rightarrow> jstr option \<Rightarrow> jstr list" where
  "text_line f t = (case t of None \<Rightarrow> []
     | Some s \<Rightarrow> if s = [] then [] else [js ''  '' @ field_str f @ js '': '' @ quote s])"

definition team_line :: "jstr option \<Rightarrow> jstr \<Rightarrow> jstr list" where
  "team_line author client = (case author of None \<Rightarrow> []
     | Some a \<Rightarrow> if a = [] then []
         else [js ''  team: '' @ a @ (if client = [] then [] else js '' via '' @ client)])"

definition head_line :: "host \<Rightarrow> 'a memory_scheme \<Rightarrow> jstr \<Rightarrow> jstr" where
  "head_line h r pre =
     js ''- ['' @ (case KIND_CODES (r_kind r) of Some c \<Rightarrow> c | None \<Rightarrow> js ''undefined'') @ js '':'' @ pre @
     js ''@'' @ show_int (r_revision r) @ js ''] content: '' @ quote (r_content r)"

definition renderBlock :: "host \<Rightarrow> 'a memory_scheme \<Rightarrow> jstr \<Rightarrow> jstr list option" where
  "renderBlock h r pre =
    (case (ctx_text (js ''why'') (m_context r), ctx_text (js ''how_to_apply'') (m_context r), m_tags r) of
       (Some why, Some how, JArr vs) \<Rightarrow>
         Some ([head_line h r pre] @ text_line Why why @ text_line How how @
               (if vs = [] then [] else [js ''  tags: '' @ stringify (nums h) (JArr vs)]) @
               team_line (r_author r) (r_origin_client r))
     | _ \<Rightarrow> None)"

section \<open>Files\<close>

fun render_blocks :: "host \<Rightarrow> (jstr \<times> jstr option) list \<Rightarrow> 'a memory_scheme list \<Rightarrow> jstr list \<times> nat" where
  "render_blocks h pfx [] = ([], 0)"
| "render_blocks h pfx (r # rs) = (case render_blocks h pfx rs of (ls, bad) \<Rightarrow>
     (case map_of pfx (r_id r) of
        Some (Some pre) \<Rightarrow> (case renderBlock h r pre of
            Some block \<Rightarrow> (block @ ls, bad)
          | None \<Rightarrow> (ls, bad + 1))
      | _ \<Rightarrow> (ls, bad + 1)))"

definition sanity_notice :: "nat \<Rightarrow> jstr" where
  "sanity_notice n = js ''[waykeep: '' @ show_nat n @ js '' records in this file '' @ [8212] @ js '' consider cleanup]''"

definition unrenderable_notice :: "nat \<Rightarrow> jstr" where
  "unrenderable_notice n = js ''[waykeep: '' @ show_nat n @ js '' records unrenderable '' @ [8212] @ js '' see logs]''"

definition renderRecords :: "host \<Rightarrow> 'a memory_scheme list \<Rightarrow> nat \<Rightarrow> jstr list \<times> nat" where
  "renderRecords h records extraUnrenderable =
    (let (valid, defects) = partitionRenderable records;
         (blocks, bad) = render_blocks h (assignTokenPrefixes valid) valid;
         unrenderable = extraUnrenderable + defects + bad;
         ls1 = (if length records > RECORD_SANITY_LIMIT then sanity_notice (length records) # blocks else blocks);
         ls2 = (if unrenderable > 0 then unrenderable_notice unrenderable # ls1 else ls1)
     in (ls2, unrenderable))"

definition render :: "host \<Rightarrow> memory_row list \<Rightarrow> jstr option \<Rightarrow> category \<Rightarrow> jstr list" where
  "render h rows project cat =
    (let (records, failedRows) = loadActiveRecords h project cat rows;
         (valid, defects) = partitionRenderable records
     in fst (renderRecords h (sort_cmp (compareForCategory h cat) valid) (failedRows + defects)))"

definition FRESH_RENDERING_NOTICE :: jstr where
  "FRESH_RENDERING_NOTICE = js ''[fresh rendering '' @ [8212] @ js '' line numbers may differ from any earlier view]''"

record materialize_result =
  mr_lines :: "jstr list"
  mr_hash :: jstr
  mr_fresh :: bool

text \<open>\<open>None\<close> is the throw on the plan category, which has no memory-backed file.\<close>

definition materializeView :: "host \<Rightarrow> int \<Rightarrow> memory_row list \<Rightarrow> jstr \<Rightarrow> jstr option \<Rightarrow> category \<Rightarrow> bool \<Rightarrow>
    render_cache \<Rightarrow> (materialize_result \<times> render_cache) option" where
  "materializeView h now rows path project cat ranged c =
    (if cat = Plan then None
     else if \<not> ranged then
       (case cache_set h now path (render h rows project cat) c of (fr, c') \<Rightarrow>
          Some (\<lparr> mr_lines = f_lines fr, mr_hash = f_renderingHash fr, mr_fresh = False \<rparr>, c'))
     else (case cache_get now path c of
         (Some fr, c') \<Rightarrow>
           Some (\<lparr> mr_lines = f_lines fr, mr_hash = f_renderingHash fr, mr_fresh = False \<rparr>, c')
       | (None, c') \<Rightarrow>
           (case cache_set h now path (FRESH_RENDERING_NOTICE # render h rows project cat) c' of (fr, c'') \<Rightarrow>
              Some (\<lparr> mr_lines = f_lines fr, mr_hash = f_renderingHash fr, mr_fresh = True \<rparr>, c''))))"

end
