(* ===== verification/Materializer_Facts.thy ===== *)
theory Materializer_Facts
  imports Materializer "HOL-Library.Multiset"
begin

text \<open>
  What the materialized files promise: tokens name exactly one record, the order and the text of a
  file depend only on the set of active rows, no record is dropped without being counted, and a
  rendered file parses back to its records.
\<close>

section \<open>Token prefixes are unambiguous\<close>

lemma prefix_group_single:
  assumes "distinct unresolved" "list_all (\<lambda>i. length i \<le> length p) (prefix_group len unresolved p)"
    "i \<in> set (prefix_group len unresolved p)"
  shows "prefix_group len unresolved p = [i]"
proof -
  have "\<forall>j\<in>set (prefix_group len unresolved p). j = p"
  proof
    fix j assume j: "j \<in> set (prefix_group len unresolved p)"
    then have "take len j = p" by (simp add: prefix_group_def)
    moreover from j have "length j \<le> length p" using assms(2) by (simp add: list_all_iff)
    ultimately show "j = p" by auto
  qed
  moreover have "distinct (prefix_group len unresolved p)" using assms(1) by (simp add: prefix_group_def)
  ultimately show ?thesis using assms(3)
    by (cases "prefix_group len unresolved p"; cases "tl (prefix_group len unresolved p)") auto
qed

lemma resolve_groups_spec:
  assumes "distinct unresolved" "set ps \<subseteq> take len ` set unresolved"
    "resolve_groups len unresolved ps = (result, nxt)"
  shows "(\<forall>(i, v)\<in>set result. i \<in> set unresolved \<and> take len i \<in> set ps \<and> v = Some (take len i) \<and>
      (\<forall>j\<in>set unresolved. take len j = take len i \<longrightarrow> j = i)) \<and>
    set nxt \<subseteq> set unresolved \<and>
    (\<forall>i\<in>set unresolved. take len i \<in> set ps \<longrightarrow> i \<in> fst ` set result \<or> i \<in> set nxt)"
  using assms(2,3)
proof (induction ps arbitrary: result nxt)
  case (Cons p ps)
  let ?ids = "prefix_group len unresolved p"
  obtain res nx where r: "resolve_groups len unresolved ps = (res, nx)" by fastforce
  note IH = Cons.IH [OF _ r]
  have mem: "i \<in> set ?ids \<longleftrightarrow> i \<in> set unresolved \<and> take len i = p" for i
    by (auto simp: prefix_group_def)
  obtain i where i: "i \<in> set ?ids" using Cons.prems(1) mem by auto
  show ?case
  proof (cases "length ?ids = 1")
    case True
    then have ids: "?ids = [i]" using i by (cases ?ids) auto
    then have "result = (i, Some p) # res" "nxt = nx" using Cons.prems(2) r by (auto simp: Let_def)
    with IH Cons.prems(1) mem ids show ?thesis by (auto simp: image_iff) (metis list.set(1,2) insert_iff empty_iff)+
  next
    case False
    have "\<not> list_all (\<lambda>i. length i \<le> length p) ?ids"
      using prefix_group_single [OF assms(1) _ i] False by auto
    then have "result = res" "nxt = ?ids @ nx" using Cons.prems(2) r False by (auto simp: Let_def)
    with IH Cons.prems(1) mem show ?thesis by auto
  qed
qed auto

lemma assign_rounds_spec:
  assumes "distinct unresolved" "(i, v) \<in> set (assign_rounds len unresolved)"
  shows "i \<in> set unresolved \<and> (\<exists>k\<ge>len. v = Some (take k i) \<and> (\<forall>j\<in>set unresolved. take k j = take k i \<longrightarrow> j = i))"
  using assms
proof (induction len unresolved rule: assign_rounds.induct)
  case (1 len unresolved)
  obtain result nxt where r: "resolve_groups len unresolved (round_prefixes len unresolved) = (result, nxt)"
    by fastforce
  have ne: "unresolved \<noteq> []" using "1.prems"(2) by (auto simp: assign_rounds.simps)
  have ps: "set (round_prefixes len unresolved) = take len ` set unresolved" by (simp add: round_prefixes_def)
  note spec = resolve_groups_spec [OF "1.prems"(1) _ r, unfolded ps, OF subset_refl]
  show ?case
  proof (cases "(i, v) \<in> set result")
    case True
    with spec show ?thesis by blast
  next
    case False
    then have nx: "nxt \<noteq> []" and m: "(i, v) \<in> set (assign_rounds (len + 4) nxt)"
      using "1.prems"(2) ne r by (auto simp: assign_rounds.simps [of len unresolved] split: if_splits)
    have d: "distinct nxt"
    proof -
      have "distinct (snd (resolve_groups len unresolved ps)) \<and>
          set (snd (resolve_groups len unresolved ps)) \<subseteq> {i \<in> set unresolved. take len i \<in> set ps}"
        if "distinct ps" for ps
        using that "1.prems"(1)
        by (induction ps) (auto simp: Let_def prefix_group_def split: prod.splits if_splits)
      from this [of "round_prefixes len unresolved"] r show ?thesis by (simp add: round_prefixes_def)
    qed
    from "1.IH" [OF ne r [symmetric] refl nx d m] obtain k where
      k: "i \<in> set nxt" "len + 4 \<le> k" "v = Some (take k i)" "\<forall>j\<in>set nxt. take k j = take k i \<longrightarrow> j = i" by blast
    have "j = i" if j: "j \<in> set unresolved" "take k j = take k i" for j
    proof (cases "j \<in> set nxt")
      case False
      with spec j(1) obtain w where "(j, w) \<in> set result" by auto
      with spec have "\<forall>i\<in>set unresolved. take len i = take len j \<longrightarrow> i = j" by blast
      moreover have "take len i = take len j" using j(2) k(2)
        by (metis add_leE min.absorb_iff1 take_take)
      moreover have "i \<in> set unresolved" using k(1) spec by blast
      ultimately show ?thesis by auto
    qed (use k j in blast)
    moreover have "i \<in> set unresolved" using k(1) spec by blast
    moreover have "len \<le> k" using k(2) by simp
    ultimately show ?thesis using k(3) by blast
  qed
qed

lemma assign_rounds_total:
  "distinct unresolved \<Longrightarrow> i \<in> set unresolved \<Longrightarrow> \<exists>v. (i, v) \<in> set (assign_rounds len unresolved)"
proof (induction len unresolved rule: assign_rounds.induct)
  case (1 len unresolved)
  obtain result nxt where r: "resolve_groups len unresolved (round_prefixes len unresolved) = (result, nxt)"
    by fastforce
  have ne: "unresolved \<noteq> []" using "1.prems"(2) by auto
  have ps: "set (round_prefixes len unresolved) = take len ` set unresolved" by (simp add: round_prefixes_def)
  note spec = resolve_groups_spec [OF "1.prems"(1) _ r, unfolded ps, OF subset_refl]
  have d: "distinct nxt"
  proof -
    have "distinct (snd (resolve_groups len unresolved ps)) \<and>
        set (snd (resolve_groups len unresolved ps)) \<subseteq> {i \<in> set unresolved. take len i \<in> set ps}"
      if "distinct ps" for ps
      using that "1.prems"(1)
      by (induction ps) (auto simp: Let_def prefix_group_def split: prod.splits if_splits)
    from this [of "round_prefixes len unresolved"] r show ?thesis by (simp add: round_prefixes_def)
  qed
  show ?case
  proof (cases "i \<in> fst ` set result")
    case True
    then show ?thesis using ne r by (force simp: assign_rounds.simps [of len unresolved])
  next
    case False
    with spec "1.prems"(2) have n: "i \<in> set nxt" by blast
    then have nx: "nxt \<noteq> []" by auto
    from "1.IH" [OF ne r [symmetric] refl nx d n] show ?thesis
      using ne r nx by (auto simp: assign_rounds.simps [of len unresolved])
  qed
qed

lemma count_list_distinct: "distinct xs \<Longrightarrow> count_list xs i \<le> 1"
  by (induction xs) (auto simp: count_list_0_iff)

lemma assignTokenPrefixes_distinct:
  "distinct (map r_id records) \<Longrightarrow> assignTokenPrefixes records = assign_rounds 8 (map r_id records)"
  using count_list_distinct [of "map r_id records"]
  by (simp add: assignTokenPrefixes_def Let_def filter_empty_conv filter_id_conv not_less)

lemma assign_keys_distinct:
  assumes "distinct (map r_id records)" "r \<in> set records"
  shows "\<exists>k\<ge>8. map_of (assignTokenPrefixes records) (r_id r) = Some (Some (take k (r_id r))) \<and>
    (\<forall>s\<in>set records. take k (r_id s) = take k (r_id r) \<longrightarrow> r_id s = r_id r)"
proof -
  have in_ids: "r_id r \<in> set (map r_id records)" using assms(2) by simp
  from assign_rounds_total [OF assms(1) in_ids, of 8] obtain v where
    "(r_id r, v) \<in> set (assign_rounds 8 (map r_id records))" by blast
  then have "r_id r \<in> dom (map_of (assign_rounds 8 (map r_id records)))"
    by (auto simp: dom_map_of_conv_image_fst intro: rev_image_eqI)
  then obtain w where w: "map_of (assign_rounds 8 (map r_id records)) (r_id r) = Some w" by blast
  from assign_rounds_spec [OF assms(1) map_of_SomeD [OF w]] w show ?thesis
    by (auto simp: assignTokenPrefixes_distinct [OF assms(1)])
qed

section \<open>Valid records render\<close>

lemma strs_of_arr: "strs_of vs = Some ts \<longleftrightarrow> vs = map JStr ts"
proof (induction vs arbitrary: ts)
  case (Cons v vs)
  then show ?case by (cases v; cases ts) auto
qed auto

lemma str_array_of_Some: "str_array_of v = Some ts \<longleftrightarrow> v = JArr (map JStr ts)"
  by (cases v) (auto simp: str_array_of_def strs_of_arr)

lemma ctx_text_total: "\<not> bad_text_field f ctx \<Longrightarrow> ctx_text f ctx \<noteq> None"
  by (auto simp: bad_text_field_def ctx_text_def split: json.splits option.splits)

lemma valid_record:
  assumes "recordDefect r = None"
  shows "is_uuid (r_id r)" "\<exists>c. KIND_CODES (r_kind r) = Some c" "1 \<le> r_revision r" "r_revision r \<le> MAX_SAFE"
    "\<exists>ts. m_tags r = JArr (map JStr ts)" "\<exists>q. r_confidence r = Fin q"
    "ctx_text (js ''why'') (m_context r) \<noteq> None" "ctx_text (js ''how_to_apply'') (m_context r) \<noteq> None"
  using assms ctx_text_total
  by (auto simp: recordDefect_def str_array_of_Some is_finite_def split: if_splits number.splits)

lemma renderBlock_valid: "recordDefect r = None \<Longrightarrow> \<exists>block. renderBlock h r pre = Some block"
  using valid_record(5,7,8) [of r] by (auto simp: renderBlock_def)

lemma render_blocks_valid:
  assumes "\<forall>r\<in>set rs. recordDefect r = None \<and> (\<exists>pre. map_of ps (r_id r) = Some (Some pre))"
  shows "render_blocks h ps rs =
    (concat (map (\<lambda>r. the (renderBlock h r (the (the (map_of ps (r_id r)))))) rs), 0)"
  using assms
proof (induction rs)
  case (Cons r rs)
  then obtain pre where "map_of ps (r_id r) = Some (Some pre)" by auto
  with Cons renderBlock_valid [of r h pre] show ?case by auto
qed simp

text \<open>The block a file shows for a record, under the file's own prefixes.\<close>

definition shown_block :: "host \<Rightarrow> 'a memory_scheme list \<Rightarrow> 'a memory_scheme \<Rightarrow> jstr list" where
  "shown_block h valid r = the (renderBlock h r (the (the (map_of (assignTokenPrefixes valid) (r_id r)))))"

lemma renderRecords_blocks:
  assumes "distinct (map r_id records)"
  shows "renderRecords h records extra =
    (let (valid, defects) = partitionRenderable records; bad = extra + defects;
         blocks = concat (map (shown_block h valid) valid);
         ls = (if length records > RECORD_SANITY_LIMIT then sanity_notice (length records) # blocks else blocks)
     in ((if bad > 0 then unrenderable_notice bad # ls else ls), bad))"
proof -
  let ?valid = "filter (\<lambda>r. recordDefect r = None) records"
  have d: "distinct (map r_id ?valid)" using assms by (simp add: distinct_map_filter)
  have "\<forall>r\<in>set ?valid. recordDefect r = None \<and> (\<exists>pre. map_of (assignTokenPrefixes ?valid) (r_id r) = Some (Some pre))"
    using assign_keys_distinct [OF d] by fastforce
  from render_blocks_valid [OF this] show ?thesis
    by (simp add: renderRecords_def partitionRenderable_def Let_def shown_block_def [abs_def])
qed

section \<open>Order\<close>

text \<open>What the sort needs of a comparator: total, transitive, and only equal ids tie.\<close>

definition lawful :: "('a memory_row_scheme \<Rightarrow> 'a memory_row_scheme \<Rightarrow> rat) \<Rightarrow> bool" where
  "lawful f \<longleftrightarrow> (\<forall>a b. f a b \<le> 0 \<or> f b a \<le> 0) \<and> (\<forall>a b c. f a b \<le> 0 \<longrightarrow> f b c \<le> 0 \<longrightarrow> f a c \<le> 0) \<and>
     (\<forall>a b. f a b \<le> 0 \<longrightarrow> f b a \<le> 0 \<longrightarrow> r_id a = r_id b)"

lemma lawfulD:
  assumes "lawful f"
  shows "f a b \<le> 0 \<or> f b a \<le> 0" "f a b \<le> 0 \<Longrightarrow> f b c \<le> 0 \<Longrightarrow> f a c \<le> 0"
    "f a b \<le> 0 \<Longrightarrow> f b a \<le> 0 \<Longrightarrow> r_id a = r_id b"
  using assms unfolding lawful_def by blast+

lemma or_else_le: "or_else x y \<le> 0 \<longleftrightarrow> x < 0 \<or> x = 0 \<and> y \<le> 0"
  by (auto simp: or_else_def)

lemma lawful_id: "lawful (\<lambda>a b. cmp_id (r_id a) (r_id b))"
  by (auto simp: lawful_def cmp_id_def)

lemma lawful_then:
  assumes g: "lawful g"
  shows "lawful (\<lambda>a b. or_else (k b - k a) (g a b))"
proof -
  have le: "or_else (k b - k a) (g a b) \<le> 0 \<longleftrightarrow> k b < k a \<or> k b = k a \<and> g a b \<le> 0" for a b
    by (auto simp: or_else_le)
  note total = lawfulD(1) [OF g] and trans = lawfulD(2) [OF g] and anti = lawfulD(3) [OF g]
  show ?thesis
    unfolding lawful_def le
  proof (intro conjI allI impI)
    show "(k b < k a \<or> k b = k a \<and> g a b \<le> 0) \<or> k a < k b \<or> k a = k b \<and> g b a \<le> 0" for a b
      using total [of a b] by auto
    show "k c < k a \<or> k c = k a \<and> g a c \<le> 0"
      if "k b < k a \<or> k b = k a \<and> g a b \<le> 0" "k c < k b \<or> k c = k b \<and> g b c \<le> 0" for a b c
      using that trans [of a b c] by auto
    show "r_id a = r_id b"
      if "k b < k a \<or> k b = k a \<and> g a b \<le> 0" "k a < k b \<or> k a = k b \<and> g b a \<le> 0" for a b
      using that anti [of a b] by auto
  qed
qed

lemma lawful_compare: "lawful (compareForCategory h cat)"
proof -
  have "lawful (\<lambda>a b :: renderable. or_else (jdOf b - jdOf a) (cmp_id (r_id a) (r_id b)))"
    by (rule lawful_then [OF lawful_id])
  then have c: "lawful (\<lambda>a b :: renderable. or_else (num_val (r_confidence b) - num_val (r_confidence a))
      (or_else (jdOf b - jdOf a) (cmp_id (r_id a) (r_id b))))" by (rule lawful_then)
  show ?thesis
  proof (cases "cat = Pitfalls")
    case True
    then show ?thesis
      using lawful_then [OF c, of "\<lambda>r. precisionRatio h (r_surface_count r) (r_impact_count r) (r_confidence r)"]
      by (simp add: compareForCategory_def [abs_def] Let_def)
  next
    case False
    with c show ?thesis by (simp add: compareForCategory_def [abs_def] Let_def)
  qed
qed

lemma mset_insert_cmp: "mset (insert_cmp f x xs) = add_mset x (mset xs)"
  by (induction xs) auto

lemma mset_sort_cmp: "mset (sort_cmp f xs) = mset xs"
  by (induction xs) (auto simp: sort_cmp_def mset_insert_cmp)

lemma set_sort_cmp [simp]: "set (sort_cmp f xs) = set xs"
  by (metis mset_sort_cmp set_mset_mset)

lemma length_sort_cmp [simp]: "length (sort_cmp f xs) = length xs"
  by (metis mset_sort_cmp size_mset)

lemma sorted_insert_cmp:
  assumes "lawful f" "sorted_wrt (\<lambda>a b. f a b \<le> 0) xs"
  shows "sorted_wrt (\<lambda>a b. f a b \<le> 0) (insert_cmp f x xs)"
  using assms(2)
proof (induction xs)
  case (Cons y ys)
  have s: "set (insert_cmp f x ys) = insert x (set ys)"
    by (metis mset_insert_cmp set_mset_add_mset_insert set_mset_mset)
  show ?case
  proof (cases "f x y \<le> 0")
    case True
    with Cons.prems lawfulD(2) [OF assms(1) True] show ?thesis by auto
  next
    case False
    with lawfulD(1) [OF assms(1), of x y] have "f y x \<le> 0" by blast
    with False Cons s show ?thesis by auto
  qed
qed simp

lemma sorted_sort_cmp: "lawful f \<Longrightarrow> sorted_wrt (\<lambda>a b. f a b \<le> 0) (sort_cmp f xs)"
  by (induction xs) (auto simp: sort_cmp_def sorted_insert_cmp)

lemma sorted_unique:
  assumes "sorted_wrt R xs" "sorted_wrt R ys" "mset xs = mset ys"
    "\<And>a b. a \<in> set xs \<Longrightarrow> b \<in> set xs \<Longrightarrow> R a b \<Longrightarrow> R b a \<Longrightarrow> a = b"
  shows "xs = ys"
  using assms
proof (induction xs arbitrary: ys)
  case (Cons x xs)
  then obtain y ys' where ys: "ys = y # ys'" by (cases ys) auto
  have sets: "set (x # xs) = set (y # ys')" using Cons.prems(3) ys by (metis set_mset_mset)
  have "x = y"
  proof (rule ccontr)
    assume ne: "x \<noteq> y"
    then have "x \<in> set ys'" "y \<in> set xs" using sets by auto
    then have "R x y" "R y x" using Cons.prems(1,2) ys by auto
    with ne Cons.prems(4) \<open>y \<in> set xs\<close> show False by auto
  qed
  moreover have "xs = ys'"
    using Cons.IH [of ys'] Cons.prems ys \<open>x = y\<close> by auto
  ultimately show ?case using ys by simp
qed simp

lemma sort_cmp_perm:
  assumes "lawful f" "mset xs = mset ys" "inj_on r_id (set xs)"
  shows "sort_cmp f xs = sort_cmp f ys"
proof (rule sorted_unique [OF sorted_sort_cmp sorted_sort_cmp])
  show "mset (sort_cmp f xs) = mset (sort_cmp f ys)" using assms(2) by (simp add: mset_sort_cmp)
  show "a = b" if "a \<in> set (sort_cmp f xs)" "b \<in> set (sort_cmp f xs)" "f a b \<le> 0" "f b a \<le> 0" for a b
  proof -
    have "r_id a = r_id b" by (rule lawfulD(3) [OF assms(1) that(3,4)])
    then show ?thesis using assms(3) that(1,2) by (auto dest: inj_onD)
  qed
qed (rule assms(1))+

section \<open>Rows to records\<close>

lemma map_rows_fst:
  "fst (map_rows h rows) = map (\<lambda>row. memory.extend (the (rowToMemory h row))
      (renderable.fields (julianday h (r_created_at row)))) (filter (\<lambda>row. rowToMemory h row \<noteq> None) rows)"
  by (induction rows) (auto split: prod.splits option.splits)

lemma map_rows_snd: "snd (map_rows h rows) = length (filter (\<lambda>row. rowToMemory h row = None) rows)"
  by (induction rows) (auto split: prod.splits option.splits)

lemma record_id: "rowToMemory h row = Some m \<Longrightarrow> r_id (memory.extend m x) = r_id row"
  by (auto simp: rowToMemory_def memory_row.defs memory.defs split: option.splits)

lemma map_rows_ids:
  "map r_id (fst (map_rows h rows)) = map r_id (filter (\<lambda>row. rowToMemory h row \<noteq> None) rows)"
  unfolding map_rows_fst by (auto intro!: map_cong simp: record_id)

lemma loaded_ids: "t_keyed r_id rows \<Longrightarrow> distinct (map r_id (fst (loadActiveRecords h project cat rows)))"
  by (simp add: loadActiveRecords_def map_rows_ids t_keyed_def distinct_map_filter)

lemma mset_filter_eq: "mset xs = mset ys \<Longrightarrow> mset (filter P xs) = mset (filter P ys)"
  by (simp add: mset_filter)

lemma length_filter_eq: "mset xs = mset ys \<Longrightarrow> length (filter P xs) = length (filter P ys)"
  by (metis mset_filter_eq size_mset)

lemma render_perm:
  assumes "mset rows = mset rows'" "t_keyed r_id rows"
  shows "render h rows project cat = render h rows' project cat"
proof -
  let ?L = "\<lambda>rs. fst (loadActiveRecords h project cat rs)"
  let ?V = "\<lambda>rs. filter (\<lambda>r. recordDefect r = None) (?L rs)"
  have scoped: "mset (filter (in_scope project (CATEGORY_KINDS cat)) rows) =
      mset (filter (in_scope project (CATEGORY_KINDS cat)) rows')" using assms(1) by (rule mset_filter_eq)
  have L: "mset (?L rows) = mset (?L rows')"
    unfolding loadActiveRecords_def map_rows_fst mset_map using mset_filter_eq [OF scoped] by simp
  have failed: "snd (loadActiveRecords h project cat rows) = snd (loadActiveRecords h project cat rows')"
    unfolding loadActiveRecords_def map_rows_snd using length_filter_eq [OF scoped] .
  have "distinct (map r_id (?V rows))"
    using loaded_ids [OF assms(2)] by (simp add: distinct_map_filter)
  then have "inj_on r_id (set (?V rows))" by (simp add: distinct_map)
  from sort_cmp_perm [OF lawful_compare mset_filter_eq [OF L] this]
  have "sort_cmp (compareForCategory h cat) (?V rows) = sort_cmp (compareForCategory h cat) (?V rows')" .
  moreover have "length (filter (\<lambda>r. recordDefect r \<noteq> None) (?L rows)) =
      length (filter (\<lambda>r. recordDefect r \<noteq> None) (?L rows'))" using L by (rule length_filter_eq)
  ultimately show ?thesis using failed
    by (simp add: render_def partitionRenderable_def Let_def split_beta)
qed

section \<open>Rendered blocks parse back\<close>

text \<open>Text that \<open>.\<close> matches after \<open>JSON.stringify\<close>: no U+2028 and no U+2029.\<close>

definition one_line :: "jstr \<Rightarrow> bool" where
  "one_line s \<longleftrightarrow> js_ok s \<and> 8232 \<notin> set s \<and> 8233 \<notin> set s"

text \<open>A provenance label as \<open>validator.ts\<close> admits it: identity tokens.\<close>

definition label_ok :: "jstr option \<Rightarrow> jstr \<Rightarrow> bool" where
  "label_ok author client \<longleftrightarrow> (case author of None \<Rightarrow> True
     | Some a \<Rightarrow> a = [] \<or> \<not> is_space (hd a) \<and> 10 \<notin> set a \<and> 10 \<notin> set client)"

definition field_value :: "jstr \<Rightarrow> json \<Rightarrow> jstr option option" where
  "field_value f ctx = (case ctx_text f ctx of
      Some (Some s) \<Rightarrow> if s = [] then None else Some (Some s) | _ \<Rightarrow> None)"

definition ctx_one_line :: "jstr \<Rightarrow> json \<Rightarrow> bool" where
  "ctx_one_line f ctx \<longleftrightarrow> (case ctx_text f ctx of Some (Some s) \<Rightarrow> one_line s | _ \<Rightarrow> True)"

definition printable :: "'a memory_scheme \<Rightarrow> bool" where
  "printable r \<longleftrightarrow> recordDefect r = None \<and> one_line (r_content r) \<and> r_revision r < 10 ^ 15 \<and>
     ctx_one_line (js ''why'') (m_context r) \<and> ctx_one_line (js ''how_to_apply'') (m_context r) \<and>
     list_all one_line (the (str_array_of (m_tags r))) \<and> label_ok (r_author r) (r_origin_client r)"

text \<open>The block a rendered record parses to.\<close>

definition record_block :: "'a memory_scheme \<Rightarrow> jstr \<Rightarrow> jstr list \<Rightarrow> parsed_block" where
  "record_block r pre raw = (let ts = the (str_array_of (m_tags r)) in
     \<lparr> b_token = Some \<lparr> t_code = the (KIND_CODES (r_kind r)), t_prefix = pre, t_revision = r_revision r \<rparr>,
       b_content = r_content r, b_why = field_value (js ''why'') (m_context r),
       b_how = field_value (js ''how_to_apply'') (m_context r),
       b_tags = (if ts = [] then None else Some ts), b_raw = raw \<rparr>)"

lemma quote_one_line: "one_line s \<Longrightarrow> u \<in> set (quote s) \<Longrightarrow> \<not> is_line_terminator u"
  using quote_body_units [of u s] by (auto simp: one_line_def quote_def is_line_terminator_def)

lemma dot_plus_quote: "one_line s \<Longrightarrow> dot_plus (quote s) = Some (quote s)"
  using quote_one_line by (auto simp: dot_plus_def list_all_iff quote_def)

lemma json_quote: "one_line s \<Longrightarrow> json_parse (nums h) (quote s) = Some (JStr s)"
  by (simp add: one_line_def)

lemma stringify_strs: "stringify n (JArr (map JStr ts)) = 91 # join [44] (map quote ts) @ [93]"
  by (simp add: comp_def)

lemma tags_one_line:
  assumes "list_all one_line ts" "u \<in> set (stringify n (JArr (map JStr ts)))"
  shows "\<not> is_line_terminator u"
proof -
  have "u \<in> {44, 91, 93} \<or> (\<exists>t\<in>set ts. u \<in> set (quote t))"
    using assms(2) set_join [of "[44]" "map quote ts"] unfolding stringify_strs by auto
  then show ?thesis using assms(1) quote_one_line by (auto simp: list_all_iff is_line_terminator_def)
qed

lemma dot_plus_tags:
  "list_all one_line ts \<Longrightarrow> dot_plus (stringify n (JArr (map JStr ts))) = Some (stringify n (JArr (map JStr ts)))"
  using tags_one_line [of ts _ n] unfolding dot_plus_def list_all_iff by (auto simp: stringify_strs)

lemma json_tags:
  assumes "list_all one_line ts"
  shows "json_parse (nums h) (stringify (nums h) (JArr (map JStr ts))) = Some (JArr (map JStr ts))"
  using assms by (intro json_parse_stringify) (auto simp: list_all_iff one_line_def)

lemma takeWhile_stop: "list_all P a \<Longrightarrow> \<not> P x \<Longrightarrow> takeWhile P (a @ x # b) = a \<and> dropWhile P (a @ x # b) = x # b"
  by (induction a) auto

lemma match_revision_show:
  assumes "0 \<le> i" "i < 10 ^ 15"
  shows "match_revision (show_int i @ js ''] content: '' @ rest) = Some (show_int i, rest)"
proof -
  have d: "list_all is_digit (show_int i)" using assms(1) by (simp add: show_int_def show_nat_digits)
  have l: "length (show_int i) \<le> 15" "show_int i \<noteq> []"
    using assms length_show_nat [of "nat i" 15] by (simp_all add: show_int_def nat_less_iff)
  have nd: "\<not> is_digit 93" by (simp add: is_digit_def)
  have c: "js ''] content: '' @ rest = 93 # js '' content: '' @ rest" by (simp add: js_def)
  from takeWhile_stop [OF d nd, of "js '' content: '' @ rest"] l show ?thesis
    by (simp add: match_revision_def Let_def c strip_prefix_def starts_with_iff)
      (simp add: js_def Suc_le_eq)
qed

text \<open>A token prefix as the renderer assigns it.\<close>

definition token_prefix :: "jstr \<Rightarrow> bool" where
  "token_prefix p \<longleftrightarrow> 8 \<le> length p \<and> length p \<le> 36 \<and> list_all is_prefix_unit p \<and> is_lower_hex (hd p)"

lemma match_id_prefix_token:
  assumes "token_prefix p"
  shows "match_id_prefix (p @ js ''@'' @ rest) = Some (p, rest)"
proof -
  have "\<not> is_prefix_unit 64" by (simp add: is_prefix_unit_def is_lower_hex_def is_digit_def)
  with takeWhile_stop [of is_prefix_unit p 64 rest] assms show ?thesis
    by (simp add: match_id_prefix_def Let_def token_prefix_def js_def strip_prefix_def)
qed

lemma take_uuid_prefix: "is_uuid i \<Longrightarrow> 8 \<le> k \<Longrightarrow> token_prefix (take k i)"
proof -
  assume i: "is_uuid i" and k: "8 \<le> k"
  obtain u t where ut: "i = u # t" "is_lower_hex u" using is_uuid_first [OF i] by blast
  have "list_all is_prefix_unit (take k i)"
    using is_uuid_units [OF i] by (auto simp: list_all_iff is_prefix_unit_def dest: in_set_takeD)
  then show ?thesis using is_uuid_length [OF i] k ut by (auto simp: token_prefix_def hd_take)
qed

lemma kind_code_shape: "KIND_CODES k = Some c \<Longrightarrow> length c = 3 \<and> list_all is_lower c"
  by (cases k) (auto simp: js_def is_lower_def)

lemma strip_prefix_append [simp]: "strip_prefix p (p @ s) = Some s"
  by (simp add: strip_prefix_def)

lemma parse_head_line:
  assumes "printable r" "token_prefix pre"
  shows "parse_line h (head_line h r pre) (bs, lf) =
    Inr (\<lparr> b_token = Some \<lparr> t_code = the (KIND_CODES (r_kind r)), t_prefix = pre, t_revision = r_revision r \<rparr>,
      b_content = r_content r, b_why = None, b_how = None, b_tags = None, b_raw = [head_line h r pre] \<rparr> # bs, -1)"
proof -
  from assms(1) have v: "recordDefect r = None" and c1: "one_line (r_content r)" and rv: "r_revision r < 10 ^ 15"
    by (auto simp: printable_def)
  obtain c where c: "KIND_CODES (r_kind r) = Some c" using valid_record(2) [OF v] by blast
  have r1: "1 \<le> r_revision r" by (rule valid_record(3) [OF v])
  let ?line = "head_line h r pre"
  have line: "?line = js ''- ['' @ (c @ js '':'' @ (pre @ js ''@'' @ (show_int (r_revision r) @
      js ''] content: '' @ quote (r_content r))))" by (simp add: head_line_def c)
  have c3: "length c = 3" "list_all is_lower c" using kind_code_shape [OF c] by auto
  have tok: "TOKENED_START ?line = Some (c, pre, show_int (r_revision r), quote (r_content r))"
    unfolding TOKENED_START_def line using c3 match_id_prefix_token [OF assms(2)]
      match_revision_show [of "r_revision r" "quote (r_content r)"] r1 rv dot_plus_quote [OF c1]
    by simp
  have nb: "trim ?line \<noteq> []" by (simp add: trim_Nil_iff line js_def is_space_def)
  have ct: "c \<in> set TOKEN_CODES" using c TOKEN_CODES_iff by blast
  have rn: "int (read_nat (show_int (r_revision r))) = r_revision r" using r1 by (simp add: show_int_def)
  have "length pre \<ge> TOKEN_ID_PREFIX_MIN_CHARS" using assms(2) by (simp add: token_prefix_def TOKEN_ID_PREFIX_MIN_CHARS_def)
  moreover have "parse_content h (quote (r_content r)) = Inr (r_content r)"
    by (simp add: parse_content_def parseJsonStringOrNull_def json_quote [OF c1])
  ultimately show ?thesis using tok nb ct r1 rv rn
    by (simp add: parse_line_def start_tokened_def Let_def c)
qed

lemma not_start_indented:
  "TOKENED_START (32 # 32 # s) = None" "TOKENLESS_START (32 # 32 # s) = None"
  by (simp_all add: TOKENED_START_def TOKENLESS_START_def strip_prefix_def js_def)

lemma field_line_shape: "js ''  '' @ field_str f @ js '': '' @ raw = 32 # 32 # field_str f @ js '': '' @ raw"
  by (simp add: js_def)

lemma continuation_line:
  assumes "dot_plus raw = Some raw"
  shows "CONTINUATION (js ''  '' @ field_str f @ js '': '' @ raw) = Some (f, raw)"
    "\<not> is_team_line (js ''  '' @ field_str f @ js '': '' @ raw)"
    "trim (js ''  '' @ field_str f @ js '': '' @ raw) \<noteq> []"
  using assms
  by (cases f; simp add: CONTINUATION_def match_field_def strip_prefix_def is_team_line_def trim_Nil_iff js_def is_space_def)+

lemma parse_field_line:
  assumes "dot_plus raw = Some raw"
  shows "parse_line h (js ''  '' @ field_str f @ js '': '' @ raw) st =
    continue_block h (js ''  '' @ field_str f @ js '': '' @ raw) f raw st"
  using continuation_line [OF assms, of f] unfolding parse_line_def field_line_shape
  by (simp add: not_start_indented)

lemma parse_team_line:
  assumes "a \<noteq> []" "\<not> is_space (hd a)"
  shows "parse_line h (js ''  team: '' @ a @ t) (b # bs, lf) =
    Inr (push_raw (js ''  team: '' @ a @ t) b # bs, lf)"
proof -
  let ?l = "js ''  team: '' @ a @ t"
  have "?l = 32 # 32 # js ''team: '' @ a @ t" by (simp add: js_def)
  then have "TOKENED_START ?l = None" "TOKENLESS_START ?l = None" using not_start_indented by metis+
  moreover have "is_team_line ?l" using assms by (cases a) (auto simp: is_team_line_def)
  moreover have "trim ?l \<noteq> []" by (simp add: trim_Nil_iff js_def is_space_def)
  ultimately show ?thesis by (simp add: parse_line_def)
qed

lemma foldE_append: "foldE f (xs @ ys) s = bindE (foldE f xs s) (foldE f ys)"
proof (induction xs arbitrary: s)
  case (Cons x xs)
  then show ?case by (cases "f x s") auto
qed simp

definition add_raw :: "jstr list \<Rightarrow> parsed_block \<Rightarrow> parsed_block" where
  "add_raw ls b = b\<lparr> b_raw := b_raw b @ ls \<rparr>"

text \<open>What a rendered text line does to the block under construction.\<close>

definition put_text :: "field \<Rightarrow> jstr option \<Rightarrow> parsed_block \<Rightarrow> parsed_block" where
  "put_text f t b = (case t of None \<Rightarrow> b | Some s \<Rightarrow> if s = [] then b
     else if f = Why then b\<lparr> b_why := Some (Some s) \<rparr> else b\<lparr> b_how := Some (Some s) \<rparr>)"

lemma foldE_text_line:
  assumes "case t of None \<Rightarrow> True | Some s \<Rightarrow> one_line s" "f \<noteq> Tags" "lf < FIELD_ORDER f"
  shows "\<exists>lf'. lf' \<le> FIELD_ORDER f \<and> foldE (parse_line h) (text_line f t) (b # bs, lf) =
    Inr (add_raw (text_line f t) (put_text f t b) # bs, lf')"
proof (cases "text_line f t = []")
  case True
  then show ?thesis using assms(3)
    by (intro exI [of _ lf]) (auto simp: text_line_def add_raw_def put_text_def split: option.splits if_splits)
next
  case False
  then obtain s where s: "t = Some s" "s \<noteq> []" by (auto simp: text_line_def split: option.splits if_splits)
  with assms(1) have o: "one_line s" by simp
  have q: "dot_plus (quote s) = Some (quote s)" by (rule dot_plus_quote [OF o])
  have v: "parseJsonStringOrNull h (quote s) x = Inr (Some s)" for x
    by (simp add: parseJsonStringOrNull_def json_quote [OF o])
  note pw = parse_field_line [OF q, where f = Why, unfolded field_str.simps]
    and ph = parse_field_line [OF q, where f = How, unfolded field_str.simps]
  show ?thesis using s assms(2,3) v
    by (intro exI [of _ "FIELD_ORDER f"])
      (cases f; auto simp: text_line_def pw ph continue_block_def set_field_def push_raw_def
        add_raw_def put_text_def)
qed

lemma field_value_text:
  "ctx_text f ctx = Some t \<Longrightarrow>
    field_value f ctx = (case t of None \<Rightarrow> None | Some s \<Rightarrow> if s = [] then None else Some (Some s))"
  by (auto simp: field_value_def split: option.splits)

lemma foldE_tags_line:
  assumes "list_all one_line ts" "lf < 2"
  shows "\<exists>lf'. foldE (parse_line h) (if ts = [] then [] else [js ''  tags: '' @ stringify (nums h) (JArr (map JStr ts))])
      (b # bs, lf) =
    Inr (add_raw (if ts = [] then [] else [js ''  tags: '' @ stringify (nums h) (JArr (map JStr ts))])
      (if ts = [] then b else b\<lparr> b_tags := Some ts \<rparr>) # bs, lf')"
proof (cases "ts = []")
  case True
  then show ?thesis by (simp add: add_raw_def)
next
  case False
  let ?raw = "stringify (nums h) (JArr (map JStr ts))"
  have l: "js ''  tags: '' @ ?raw = js ''  '' @ field_str Tags @ js '': '' @ ?raw" by (simp add: js_def)
  have "parseTags h ?raw = Inr ts" by (simp only: parseTags_def json_tags [OF assms(1)]) simp
  then show ?thesis using False assms(2)
    unfolding l by (simp add: parse_field_line [OF dot_plus_tags [OF assms(1), of "nums h"], where f = Tags,
          unfolded field_str.simps] continue_block_def set_field_def push_raw_def add_raw_def del: stringify.simps)
qed

lemma foldE_team_line:
  assumes "label_ok author client"
  shows "foldE (parse_line h) (team_line author client) (b # bs, lf) =
    Inr (add_raw (team_line author client) b # bs, lf)"
proof (cases "team_line author client = []")
  case True
  then show ?thesis by (simp add: add_raw_def)
next
  case False
  then obtain a where a: "author = Some a" "a \<noteq> []" by (auto simp: team_line_def split: option.splits if_splits)
  then show ?thesis using assms
    by (simp add: team_line_def label_ok_def parse_team_line add_raw_def push_raw_def)
qed

lemma add_raw_add_raw: "add_raw ys (add_raw xs b) = add_raw (xs @ ys) b"
  by (simp add: add_raw_def)

text \<open>The lines of one rendered block, whatever block the parser was in, add exactly its record.\<close>

lemma parse_block:
  assumes pr: "printable r" and tp: "token_prefix pre" and blk: "renderBlock h r pre = Some block"
  shows "\<exists>lf'. foldE (parse_line h) block (bs, lf) = Inr (record_block r pre block # bs, lf')"
proof -
  from blk obtain why how vs where w: "ctx_text (js ''why'') (m_context r) = Some why"
    and hw: "ctx_text (js ''how_to_apply'') (m_context r) = Some how" and vs: "m_tags r = JArr vs"
    and b: "block = [head_line h r pre] @ text_line Why why @ text_line How how @
        (if vs = [] then [] else [js ''  tags: '' @ stringify (nums h) (JArr vs)]) @
        team_line (r_author r) (r_origin_client r)"
    by (auto simp: renderBlock_def split: option.splits json.splits)
  from pr have v: "recordDefect r = None" by (simp add: printable_def)
  obtain ts where ts: "vs = map JStr ts" "str_array_of (m_tags r) = Some ts"
    using valid_record(5) [OF v] vs by (auto simp: str_array_of_Some)
  have tol: "list_all one_line ts" using pr ts by (simp add: printable_def)
  have wol: "case why of None \<Rightarrow> True | Some s \<Rightarrow> one_line s" "case how of None \<Rightarrow> True | Some s \<Rightarrow> one_line s"
    using pr w hw by (auto simp: printable_def ctx_one_line_def split: option.splits)
  let ?b0 = "\<lparr> b_token = Some \<lparr> t_code = the (KIND_CODES (r_kind r)), t_prefix = pre, t_revision = r_revision r \<rparr>,
      b_content = r_content r, b_why = None, b_how = None, b_tags = None, b_raw = [head_line h r pre] \<rparr>"
  let ?b1 = "add_raw (text_line Why why) (put_text Why why ?b0)"
  let ?b2 = "add_raw (text_line How how) (put_text How how ?b1)"
  let ?tl = "if ts = [] then [] else [js ''  tags: '' @ stringify (nums h) (JArr (map JStr ts))]"
  let ?b3 = "add_raw ?tl (if ts = [] then ?b2 else ?b2\<lparr> b_tags := Some ts \<rparr>)"
  obtain l1 where s1: "foldE (parse_line h) (text_line Why why) (?b0 # bs, -1) = Inr (?b1 # bs, l1)" "l1 \<le> 0"
    using foldE_text_line [OF wol(1), of Why "-1" h ?b0 bs] by auto
  obtain l2 where s2: "foldE (parse_line h) (text_line How how) (?b1 # bs, l1) = Inr (?b2 # bs, l2)" "l2 \<le> 1"
    using foldE_text_line [OF wol(2), of How l1 h ?b1 bs] s1(2) by auto
  obtain l3 where s3: "foldE (parse_line h) ?tl (?b2 # bs, l2) = Inr (?b3 # bs, l3)"
    using foldE_tags_line [OF tol, of l2 h ?b2 bs] s2(2) by auto
  have s4: "foldE (parse_line h) (team_line (r_author r) (r_origin_client r)) (?b3 # bs, l3) =
      Inr (add_raw (team_line (r_author r) (r_origin_client r)) ?b3 # bs, l3)"
    using pr by (intro foldE_team_line) (simp add: printable_def)
  have "foldE (parse_line h) block (bs, lf) =
      Inr (add_raw (team_line (r_author r) (r_origin_client r)) ?b3 # bs, l3)"
    unfolding b ts(1) using s1(1) s2(1) s3 s4
    by (simp only: append.simps foldE.simps parse_head_line [OF pr tp] bindE.simps foldE_append map_is_Nil_conv)
  moreover have "add_raw (team_line (r_author r) (r_origin_client r)) ?b3 = record_block r pre block"
    unfolding b ts(1) record_block_def
    by (auto simp: add_raw_def put_text_def field_value_text [OF w] field_value_text [OF hw] ts(2) Let_def split: option.splits)
  ultimately show ?thesis by auto
qed

lemma block_no_newline:
  assumes pr: "printable r" and tp: "token_prefix pre" and blk: "renderBlock h r pre = Some block"
    and l: "l \<in> set block"
  shows "10 \<notin> set l"
proof -
  from blk obtain why how vs where w: "ctx_text (js ''why'') (m_context r) = Some why"
    and hw: "ctx_text (js ''how_to_apply'') (m_context r) = Some how" and vs: "m_tags r = JArr vs"
    and b: "block = [head_line h r pre] @ text_line Why why @ text_line How how @
        (if vs = [] then [] else [js ''  tags: '' @ stringify (nums h) (JArr vs)]) @
        team_line (r_author r) (r_origin_client r)"
    by (auto simp: renderBlock_def split: option.splits json.splits)
  from pr have v: "recordDefect r = None" by (simp add: printable_def)
  obtain ts where ts: "vs = map JStr ts" "str_array_of (m_tags r) = Some ts"
    using valid_record(5) [OF v] vs by (auto simp: str_array_of_Some)
  have tags: "10 \<notin> set (stringify (nums h) (JArr vs))"
    using pr ts tags_one_line [of ts 10 "nums h"] by (auto simp: printable_def is_line_terminator_def)
  obtain c where c: "KIND_CODES (r_kind r) = Some c" using valid_record(2) [OF v] by blast
  have c10: "10 \<notin> set c" using kind_code_shape [OF c] by (auto simp: list_all_iff is_lower_def)
  have pre10: "10 \<notin> set pre" using tp
    by (auto simp: token_prefix_def list_all_iff is_prefix_unit_def is_lower_hex_def is_digit_def)
  have rev10: "10 \<notin> set (show_int (r_revision r))"
    using show_nat_digits [of "nat (r_revision r)"] valid_record(3) [OF v]
    by (auto simp: show_int_def list_all_iff is_digit_def)
  have "10 \<notin> set (head_line h r pre)"
    by (simp add: head_line_def c c10 pre10 rev10 quote_no_newline js_def)
  moreover have "10 \<notin> set l" if "l \<in> set (text_line f t)" for f t
    using that quote_no_newline by (cases f) (auto simp: text_line_def js_def split: option.splits if_splits)
  moreover have "10 \<notin> set l" if "l \<in> set (team_line (r_author r) (r_origin_client r))"
    using that pr by (auto simp: team_line_def printable_def label_ok_def js_def split: option.splits if_splits)
  ultimately show ?thesis using l tags unfolding b by (auto simp: js_def split: if_splits)
qed

lemma parse_blocks_lines:
  assumes "\<forall>(r, pre, block)\<in>set xs. printable r \<and> token_prefix pre \<and> renderBlock h r pre = Some block"
  shows "\<exists>lf'. foldE (parse_line h) (concat (map (\<lambda>(r, pre, block). block) xs)) (bs, lf) =
    Inr (rev (map (\<lambda>(r, pre, block). record_block r pre block) xs) @ bs, lf')"
  using assms
proof (induction xs arbitrary: bs lf)
  case (Cons x xs)
  obtain r pre block where x: "x = (r, pre, block)" by (cases x) auto
  obtain l1 where "foldE (parse_line h) block (bs, lf) = Inr (record_block r pre block # bs, l1)"
    using parse_block [of r pre h block bs lf] Cons.prems x by auto
  moreover obtain l2 where "foldE (parse_line h) (concat (map (\<lambda>(r, pre, block). block) xs))
      (record_block r pre block # bs, l1) =
      Inr (rev (map (\<lambda>(r, pre, block). record_block r pre block) xs) @ record_block r pre block # bs, l2)"
    using Cons.IH [of "record_block r pre block # bs" l1] Cons.prems by auto
  ultimately show ?case by (simp add: x foldE_append)
qed simp

lemma renderBlock_not_Nil: "renderBlock h r pre = Some block \<Longrightarrow> block \<noteq> [] \<and> hd block \<noteq> []"
  by (auto simp: renderBlock_def head_line_def split: option.splits json.splits)

lemma parseBlocks_rendered:
  assumes "\<forall>(r, pre, block)\<in>set xs. printable r \<and> token_prefix pre \<and> renderBlock h r pre = Some block"
    and "xs \<noteq> []"
  shows "parseBlocks h (join [10] (concat (map (\<lambda>(r, pre, block). block) xs))) =
    Inr (map (\<lambda>(r, pre, block). record_block r pre block) xs)"
proof -
  let ?ls = "concat (map (\<lambda>(r, pre, block). block) xs)"
  obtain x xs' where "xs = x # xs'" using assms(2) by (cases xs) auto
  with assms(1) renderBlock_not_Nil have ne: "?ls \<noteq> []" and hd: "hd ?ls \<noteq> []"
    by (cases x; fastforce)+
  have "\<forall>l\<in>set ?ls. 10 \<notin> set l" using assms(1) block_no_newline by fastforce
  with ne have sp: "split_on 10 (join [10] ?ls) = ?ls" by (rule split_on_join)
  have len: "length (join [10] ?ls) \<noteq> 0"
  proof (cases ?ls)
    case (Cons l ls)
    with hd show ?thesis by (simp only: Cons join_Cons) (simp split: if_splits)
  qed (use ne in simp)
  obtain lf' where "foldE (parse_line h) ?ls ([], -1) =
      Inr (rev (map (\<lambda>(r, pre, block). record_block r pre block) xs) @ [], lf')"
    using parse_blocks_lines [OF assms(1), of "[]" "-1"] by blast
  then show ?thesis using len assms(2) by (simp add: parseBlocks_def sp rev_map [symmetric])
qed

lemma prefix_of_file:
  assumes "distinct (map r_id records)" "list_all (\<lambda>r. recordDefect r = None) records" "r \<in> set records"
  shows "\<exists>p. map_of (assignTokenPrefixes records) (r_id r) = Some (Some p) \<and> token_prefix p \<and>
    starts_with p (r_id r) \<and> (\<forall>s\<in>set records. starts_with p (r_id s) \<longrightarrow> r_id s = r_id r)"
proof -
  obtain k where k: "8 \<le> k" "map_of (assignTokenPrefixes records) (r_id r) = Some (Some (take k (r_id r)))"
    "\<forall>s\<in>set records. take k (r_id s) = take k (r_id r) \<longrightarrow> r_id s = r_id r"
    using assign_keys_distinct [OF assms(1,3)] by blast
  have uuid: "\<And>s. s \<in> set records \<Longrightarrow> is_uuid (r_id s)"
    using assms(2) valid_record(1) by (auto simp: list_all_iff)
  have "starts_with (take k (r_id r)) (r_id s) \<longleftrightarrow> take k (r_id s) = take k (r_id r)" if "s \<in> set records" for s
    using is_uuid_length [OF uuid [OF that]] is_uuid_length [OF uuid [OF assms(3)]]
    by (cases "k \<le> 36") (auto simp: starts_with_def)
  with k assms(3) take_uuid_prefix [OF uuid [OF assms(3)] k(1)] show ?thesis by blast
qed

section \<open>Line separators\<close>

lemma quote_body_keeps: "u = 8232 \<or> u = 8233 \<Longrightarrow> u \<in> set s \<Longrightarrow> u \<in> set (quote_body s)"
  by (induction s rule: quote_body.induct) (auto simp: quote_unit_def is_high_def is_low_def)

lemma dot_plus_separator: "u = 8232 \<or> u = 8233 \<Longrightarrow> u \<in> set s \<Longrightarrow> dot_plus (quote s) = None"
  using quote_body_keeps [of u s] by (auto simp: dot_plus_def quote_def list_all_iff is_line_terminator_def)

lemma separator_line_refused:
  assumes "u = 8232 \<or> u = 8233" "u \<in> set s"
  shows "\<exists>e. parse_line h (js ''  '' @ field_str Why @ js '': '' @ quote s) st = Inl e"
proof -
  let ?l = "js ''  '' @ field_str Why @ js '': '' @ quote s"
  have "TOKENED_START ?l = None" "TOKENLESS_START ?l = None"
    unfolding field_line_shape by (rule not_start_indented)+
  moreover have "CONTINUATION ?l = None"
    using dot_plus_separator [OF assms] by (simp add: CONTINUATION_def match_field_def strip_prefix_def js_def)
  moreover have "\<not> is_team_line ?l" by (simp add: is_team_line_def strip_prefix_def js_def)
  ultimately show ?thesis by (simp add: parse_line_def)
qed

lemma foldE_stops:
  assumes "l \<in> set ls" "\<And>st. \<exists>e. f l st = Inl e"
  shows "\<exists>e. foldE f ls st = Inl e"
  using assms(1)
proof (induction ls arbitrary: st)
  case (Cons x ls)
  show ?case
  proof (cases "f x st")
    case (Inr st')
    with assms(2) [of st] have "x \<noteq> l" by auto
    with Cons Inr show ?thesis by auto
  qed auto
qed simp

lemma join_line: "c \<notin> set l \<Longrightarrow> l \<in> set ls \<Longrightarrow> l \<in> set (split_on c (join [c] ls))"
proof (induction ls)
  case (Cons x ls)
  then show ?case
    by (auto simp: join_Cons split_on_append_sep split_on_no_sep split: if_splits)
qed simp

section \<open>Properties\<close>

text \<open>C30. Token prefixes are unambiguous: in a file of records with distinct canonical ids every
  record gets a token prefix of its own id, at least 8 and at most 36 units long, that the token
  grammar accepts, and no other record of the file has an id starting with it; the collision
  extension always terminates with such a prefix.\<close>

theorem token_prefixes_unambiguous:
  assumes "distinct (map r_id records)" "list_all (\<lambda>r. recordDefect r = None) records" "r \<in> set records"
  shows "\<exists>p. map_of (assignTokenPrefixes records) (r_id r) = Some (Some p) \<and> token_prefix p \<and>
    starts_with p (r_id r) \<and> (\<forall>s\<in>set records. starts_with p (r_id s) \<longrightarrow> r_id s = r_id r)"
  by (rule prefix_of_file [OF assms])

text \<open>C31. A rendered file parses back: when every record of a file is printable (valid, and with no
  U+2028 or U+2029 in its texts), the joined lines of the rendering are accepted by the block
  parser and give, in order, for every record its own token with the prefix and the revision shown,
  its content, its trimmed why and how when not empty, its tags when not empty, and as raw text the
  very lines that \<open>str_replace\<close> compares against.\<close>

theorem rendered_file_parses:
  assumes "distinct (map r_id records)" "\<forall>r\<in>set records. printable r" "records \<noteq> []"
    "length records \<le> RECORD_SANITY_LIMIT"
  shows "snd (renderRecords h records 0) = 0 \<and>
    parseBlocks h (join [10] (fst (renderRecords h records 0))) =
      Inr (map (\<lambda>r. record_block r (the (the (map_of (assignTokenPrefixes records) (r_id r))))
        (shown_block h records r)) records)"
proof -
  have valid: "list_all (\<lambda>r. recordDefect r = None) records" using assms(2) by (simp add: list_all_iff printable_def)
  then have part: "partitionRenderable records = (records, 0)"
    by (auto simp: partitionRenderable_def filter_id_conv filter_empty_conv list_all_iff)
  let ?pre = "\<lambda>r. the (the (map_of (assignTokenPrefixes records) (r_id r)))"
  let ?xs = "map (\<lambda>r. (r, ?pre r, shown_block h records r)) records"
  have "printable r \<and> token_prefix (?pre r) \<and> renderBlock h r (?pre r) = Some (shown_block h records r)"
    if r: "r \<in> set records" for r
  proof -
    have "token_prefix (?pre r)" using prefix_of_file [OF assms(1) valid r] by auto
    moreover have "recordDefect r = None" using valid r by (simp add: list_all_iff)
    from renderBlock_valid [OF this, of h "?pre r"] obtain block where
      "renderBlock h r (?pre r) = Some block" by blast
    ultimately show ?thesis using assms(2) r by (simp add: shown_block_def)
  qed
  then have "parseBlocks h (join [10] (concat (map (\<lambda>(r, pre, block). block) ?xs))) =
      Inr (map (\<lambda>(r, pre, block). record_block r pre block) ?xs)"
    using assms(3) by (intro parseBlocks_rendered) auto
  moreover have "renderRecords h records 0 = (concat (map (shown_block h records) records), 0)"
    using renderRecords_blocks [OF assms(1)] part assms(4) by simp
  ultimately show ?thesis by (simp add: comp_def)
qed


text \<open>A file is a function of the set of its rows: whatever order SQLite returns the rows in, the
  rendering has the same lines, because the order of every category ends in the unique id and the
  defective records never reach the comparator.\<close>

theorem render_row_order_irrelevant:
  assumes "mset rows = mset rows'" "t_keyed r_id rows"
  shows "render h rows project cat = render h rows' project cat \<and>
    sorted_wrt (\<lambda>a b. compareForCategory h cat a b \<le> 0)
      (sort_cmp (compareForCategory h cat) (fst (partitionRenderable (fst (loadActiveRecords h project cat rows)))))"
  using render_perm [OF assms] sorted_sort_cmp [OF lawful_compare] by blast


section \<open>Witnesses\<close>

definition sample_records :: "memory list" where
  "sample_records =
     [sample_memory (js ''0a000000-0000-4000-8000-000000000001'') (js ''use tabs''),
      sample_memory (js ''0a000000-0000-4000-8000-000000000002'') (js ''no spaces'')]"

lemma sample_records_valid: "list_all (\<lambda>r. recordDefect r = None) sample_records" by code_simp

lemma sample_printable:
  "recordDefect (sample_memory i c) = None \<Longrightarrow> one_line c \<Longrightarrow> printable (sample_memory i c)"
  by (simp add: printable_def sample_memory_def sample_row_def memory_row.defs memory.defs ctx_one_line_def
      ctx_text_def one_line_def js_def label_ok_def str_array_of_def trim_def trim_start_def is_space_def)

lemma sample_records_printable: "\<forall>r\<in>set sample_records. printable r"
proof -
  have "one_line (js ''use tabs'')" "one_line (js ''no spaces'')" by (simp_all add: one_line_def js_def)
  then show ?thesis using sample_records_valid sample_printable by (simp add: sample_records_def)
qed

lemma sample_records_ids: "distinct (map r_id sample_records)" by code_simp

lemma token_prefixes_unambiguous_witness:
  "\<exists>p. map_of (assignTokenPrefixes sample_records) (r_id (hd sample_records)) = Some (Some p) \<and> token_prefix p \<and>
    starts_with p (r_id (hd sample_records)) \<and>
    (\<forall>s\<in>set sample_records. starts_with p (r_id s) \<longrightarrow> r_id s = r_id (hd sample_records))"
  by (rule token_prefixes_unambiguous [OF sample_records_ids sample_records_valid])
    (simp add: sample_records_def)

lemma rendered_file_parses_witness:
  "snd (renderRecords sample_host sample_records 0) = 0 \<and>
    parseBlocks sample_host (join [10] (fst (renderRecords sample_host sample_records 0))) =
      Inr (map (\<lambda>r. record_block r (the (the (map_of (assignTokenPrefixes sample_records) (r_id r))))
        (shown_block sample_host sample_records r)) sample_records)"
  by (rule rendered_file_parses [OF sample_records_ids sample_records_printable])
    (simp_all add: sample_records_def RECORD_SANITY_LIMIT_def)


definition sample_rows :: "memory_row list" where
  "sample_rows = [sample_row (js ''0a000000-0000-4000-8000-000000000001'') (js ''use tabs''),
     sample_row (js ''0a000000-0000-4000-8000-000000000002'') (js ''no spaces'')]"

lemma render_row_order_irrelevant_witness:
  "render sample_host sample_rows (Some (js ''web'')) Pitfalls = render sample_host (rev sample_rows) (Some (js ''web'')) Pitfalls \<and>
    sorted_wrt (\<lambda>a b. compareForCategory sample_host Pitfalls a b \<le> 0)
      (sort_cmp (compareForCategory sample_host Pitfalls)
        (fst (partitionRenderable (fst (loadActiveRecords sample_host (Some (js ''web'')) Pitfalls sample_rows)))))"
proof -
  have k: "t_keyed r_id sample_rows" by code_simp
  show ?thesis by (rule render_row_order_irrelevant [OF _ k]) simp
qed


end
