(* ===== verification/Store.thy ===== *)
theory Store
  imports Memory_Rows Tables
begin

text \<open>
  The database: \<open>src/db/schema.ts\<close>.  A state is a record with the rows of every table the
  modelled code touches, in rowid order, the next journal entry id, the number of UUIDs drawn and
  the connection's count of changed rows.  The statements of the code are functions on it.

  \<^item> \<open>exec_update\<close> is an UPDATE whose SET list mentions a column of the revision trigger: it bumps
    \<open>revision\<close> and stamps \<open>updated_at\<close>; \<open>exec_update_plain\<close> is one whose SET list does not.
  \<^item> \<open>changes\<close> stands for \<open>total_changes()\<close>; the code only asks whether it has grown.
  \<^item> Numbers in \<open>sync_state\<close> are kept as integers: \<open>String\<close> and \<open>Number\<close> are inverse on the safe
    integers the code writes.
\<close>

section \<open>Rows of the replica tables\<close>

datatype map_state = Bound | Shadow_Assoc

record entity_entry =
  e_entity_id :: jstr
  e_local_id :: jstr
  e_project :: jstr
  e_state :: map_state
  e_version :: int
  e_canonical_hash :: jstr
  e_projection_hash :: jstr
  e_inert :: "jstr option"
  e_contributors :: "jstr option"
  e_updated_at :: jstr

record alias_entry =
  al_from :: jstr
  al_to :: jstr
  al_version :: int
  al_seq :: int
  al_applied_at :: jstr

datatype set_status = Open_Set | Resolved_Set

record conflict_set =
  cs_id :: jstr
  cs_project :: jstr
  cs_members :: jstr
  cs_reason :: conflict_reason
  cs_opened_by :: jstr
  cs_opened_seq :: int
  cs_status :: set_status
  cs_resolved_seq :: "int option"

record contributor =
  co_entity :: jstr
  co_account :: jstr
  co_first_seq :: int

datatype state_value = SInt int | SText jstr

record state_row =
  st_ns :: jstr
  st_key :: jstr
  st_value :: state_value

datatype journal_op = J_Upsert | J_Tombstone

datatype classification = Enqueued | Permanently_Ineligible | Deferred

record journal_entry =
  j_id :: int
  j_project :: jstr
  j_memory :: jstr
  j_op :: journal_op
  j_revision :: int
  j_cause :: "jstr option"
  j_at :: jstr
  j_class :: "classification option"
  j_class_at :: "jstr option"

datatype retract_action = Delete | Invalidate

record tombstone_row =
  mt_memory :: jstr
  mt_action :: retract_action
  mt_project :: "jstr option"
  mt_kind :: memory_kind
  mt_content :: jstr
  mt_at :: jstr

record version_row =
  v_memory :: jstr
  v_old :: jstr
  v_new :: jstr
  v_at :: jstr

record edge_row =
  ed_source :: jstr
  ed_target :: jstr
  ed_relation :: jstr
  ed_weight :: number
  ed_at :: jstr

record file_row =
  mf_path :: jstr
  mf_content :: jstr
  mf_revision :: int
  mf_created :: jstr
  mf_updated :: jstr

record db =
  memories :: "memory_row list"
  entity_map :: "entity_entry list"
  alias_log :: "alias_entry list"
  conflict_sets :: "conflict_set list"
  contributors :: "contributor list"
  sync_state :: "state_row list"
  journal :: "journal_entry list"
  next_entry :: int
  tombstones :: "tombstone_row list"
  versions :: "version_row list"
  edges :: "edge_row list"
  files :: "file_row list"
  uuids :: nat
  changes :: nat

text \<open>\<open>randomUUID()\<close>.\<close>

definition generateId :: "host \<Rightarrow> db \<Rightarrow> jstr \<times> db" where
  "generateId h d = (uuid h (uuids d), d\<lparr> uuids := Suc (uuids d) \<rparr>)"

section \<open>Statements on \<open>memories\<close>\<close>

text \<open>\<open>memories_revision_au\<close>.\<close>

definition revision_trigger :: "host \<Rightarrow> memory_row \<Rightarrow> memory_row" where
  "revision_trigger h r = r\<lparr> r_revision := r_revision r + 1, r_updated_at := Some (sql_now h) \<rparr>"

definition exec_update :: "host \<Rightarrow> (memory_row \<Rightarrow> bool) \<Rightarrow> (memory_row \<Rightarrow> memory_row) \<Rightarrow> db \<Rightarrow> db" where
  "exec_update h P f d = d\<lparr> memories := t_update P (\<lambda>r. revision_trigger h (f r)) (memories d),
     changes := changes d + t_count P (memories d) \<rparr>"

definition exec_update_plain :: "(memory_row \<Rightarrow> bool) \<Rightarrow> (memory_row \<Rightarrow> memory_row) \<Rightarrow> db \<Rightarrow> db" where
  "exec_update_plain P f d = d\<lparr> memories := t_update P f (memories d),
     changes := changes d + t_count P (memories d) \<rparr>"

text \<open>INSERT; \<open>None\<close> when the primary key exists (\<open>SQLITE_CONSTRAINT\<close>).\<close>

definition exec_insert :: "memory_row \<Rightarrow> db \<Rightarrow> db option" where
  "exec_insert r d = (if t_get r_id (r_id r) (memories d) \<noteq> None then None
     else Some (d\<lparr> memories := memories d @ [r], changes := Suc (changes d) \<rparr>))"

text \<open>DELETE, with the cascades of the foreign keys (edges and versions).\<close>

definition exec_delete :: "(memory_row \<Rightarrow> bool) \<Rightarrow> db \<Rightarrow> db" where
  "exec_delete P d = (let gone = map r_id (filter P (memories d)) in
     d\<lparr> memories := filter (\<lambda>r. \<not> P r) (memories d),
        edges := filter (\<lambda>e. ed_source e \<notin> set gone \<and> ed_target e \<notin> set gone) (edges d),
        versions := filter (\<lambda>v. v_memory v \<notin> set gone) (versions d),
        changes := changes d + t_count P (memories d) \<rparr>)"

abbreviation row_of :: "db \<Rightarrow> jstr \<Rightarrow> memory_row option" where
  "row_of d i \<equiv> t_get r_id i (memories d)"

abbreviation has_id :: "jstr \<Rightarrow> memory_row \<Rightarrow> bool" where
  "has_id i r \<equiv> r_id r = i"

text \<open>\<open>INSERT INTO memory_tombstones ... SELECT ... FROM memories WHERE P\<close>.\<close>

definition log_tombstones :: "host \<Rightarrow> retract_action \<Rightarrow> (memory_row \<Rightarrow> bool) \<Rightarrow> db \<Rightarrow> db" where
  "log_tombstones h a P d = (let hit = filter P (memories d) in
     d\<lparr> tombstones := tombstones d @ map (\<lambda>r. \<lparr> mt_memory = r_id r, mt_action = a, mt_project = r_project r,
          mt_kind = r_kind r, mt_content = r_content r, mt_at = sql_now h \<rparr>) hit,
        changes := changes d + length hit \<rparr>)"

section \<open>\<open>sync_state\<close>\<close>

definition state_key :: "state_row \<Rightarrow> jstr \<times> jstr" where
  "state_key r = (st_ns r, st_key r)"

definition state_get :: "jstr \<Rightarrow> jstr \<Rightarrow> db \<Rightarrow> state_value option" where
  "state_get ns k d = map_option st_value (t_get state_key (ns, k) (sync_state d))"

definition state_put :: "jstr \<Rightarrow> jstr \<Rightarrow> state_value \<Rightarrow> db \<Rightarrow> db" where
  "state_put ns k v d = d\<lparr> sync_state := t_put state_key \<lparr> st_ns = ns, st_key = k, st_value = v \<rparr> (sync_state d),
     changes := Suc (changes d) \<rparr>"

text \<open>\<open>ON CONFLICT(ns, k) DO NOTHING\<close>.\<close>

definition state_add :: "jstr \<Rightarrow> jstr \<Rightarrow> state_value \<Rightarrow> db \<Rightarrow> db" where
  "state_add ns k v d = (if state_get ns k d = None
     then d\<lparr> sync_state := sync_state d @ [\<lparr> st_ns = ns, st_key = k, st_value = v \<rparr>], changes := Suc (changes d) \<rparr>
     else d)"

text \<open>\<open>row ? Number(row.v) : 0\<close>\<close>

definition state_int :: "jstr \<Rightarrow> jstr \<Rightarrow> db \<Rightarrow> int" where
  "state_int ns k d = (case state_get ns k d of Some (SInt i) \<Rightarrow> i | _ \<Rightarrow> 0)"

lemma state_get_put: "state_get ns k (state_put ns' k' v d) = (if ns = ns' \<and> k = k' then Some v else state_get ns k d)"
  by (auto simp: state_get_def state_put_def t_get_put state_key_def)

lemma state_get_add:
  "state_get ns k (state_add ns' k' v d) =
    (if ns = ns' \<and> k = k' \<and> state_get ns k d = None then Some v else state_get ns k d)"
  by (auto simp: state_get_def state_add_def t_get_append t_get_single state_key_def split: option.splits)

lemma state_int_put [simp]:
  "state_int ns k (state_put ns' k' (SInt i) d) = (if ns = ns' \<and> k = k' then i else state_int ns k d)"
  by (simp add: state_int_def state_get_put)

section \<open>Frames\<close>

text \<open>Which tables a statement leaves alone, in a form the simplifier applies.\<close>

lemma generateId_frame [simp]:
  "memories (snd (generateId h d)) = memories d" "entity_map (snd (generateId h d)) = entity_map d"
  "journal (snd (generateId h d)) = journal d" "sync_state (snd (generateId h d)) = sync_state d"
  "changes (snd (generateId h d)) = changes d" "conflict_sets (snd (generateId h d)) = conflict_sets d"
  "contributors (snd (generateId h d)) = contributors d" "alias_log (snd (generateId h d)) = alias_log d"
  "files (snd (generateId h d)) = files d" "tombstones (snd (generateId h d)) = tombstones d"
  by (simp_all add: generateId_def)

lemma exec_update_frame [simp]:
  "memories (exec_update h P f d) = t_update P (\<lambda>r. revision_trigger h (f r)) (memories d)"
  "entity_map (exec_update h P f d) = entity_map d" "journal (exec_update h P f d) = journal d"
  "next_entry (exec_update h P f d) = next_entry d"
  "sync_state (exec_update h P f d) = sync_state d" "conflict_sets (exec_update h P f d) = conflict_sets d"
  "contributors (exec_update h P f d) = contributors d" "alias_log (exec_update h P f d) = alias_log d"
  "files (exec_update h P f d) = files d" "tombstones (exec_update h P f d) = tombstones d"
  "versions (exec_update h P f d) = versions d" "edges (exec_update h P f d) = edges d"
  "uuids (exec_update h P f d) = uuids d"
  by (simp_all add: exec_update_def)

lemma exec_update_plain_frame [simp]:
  "memories (exec_update_plain P f d) = t_update P f (memories d)"
  "entity_map (exec_update_plain P f d) = entity_map d" "journal (exec_update_plain P f d) = journal d"
  "next_entry (exec_update_plain P f d) = next_entry d"
  "sync_state (exec_update_plain P f d) = sync_state d" "conflict_sets (exec_update_plain P f d) = conflict_sets d"
  "contributors (exec_update_plain P f d) = contributors d" "alias_log (exec_update_plain P f d) = alias_log d"
  "files (exec_update_plain P f d) = files d" "tombstones (exec_update_plain P f d) = tombstones d"
  "versions (exec_update_plain P f d) = versions d" "edges (exec_update_plain P f d) = edges d"
  "uuids (exec_update_plain P f d) = uuids d"
  by (simp_all add: exec_update_plain_def)

lemma exec_insert_Some:
  "exec_insert r d = Some d' \<longleftrightarrow>
    row_of d (r_id r) = None \<and> d' = d\<lparr> memories := memories d @ [r], changes := Suc (changes d) \<rparr>"
  by (auto simp: exec_insert_def)

lemma exec_delete_frame [simp]:
  "memories (exec_delete P d) = filter (\<lambda>r. \<not> P r) (memories d)"
  "entity_map (exec_delete P d) = entity_map d" "journal (exec_delete P d) = journal d"
  "next_entry (exec_delete P d) = next_entry d"
  "sync_state (exec_delete P d) = sync_state d" "conflict_sets (exec_delete P d) = conflict_sets d"
  "contributors (exec_delete P d) = contributors d" "alias_log (exec_delete P d) = alias_log d"
  "files (exec_delete P d) = files d" "tombstones (exec_delete P d) = tombstones d"
  "uuids (exec_delete P d) = uuids d"
  by (simp_all add: exec_delete_def Let_def)

lemma log_tombstones_frame [simp]:
  "memories (log_tombstones h a P d) = memories d" "entity_map (log_tombstones h a P d) = entity_map d"
  "journal (log_tombstones h a P d) = journal d" "next_entry (log_tombstones h a P d) = next_entry d"
  "sync_state (log_tombstones h a P d) = sync_state d"
  "conflict_sets (log_tombstones h a P d) = conflict_sets d"
  "contributors (log_tombstones h a P d) = contributors d" "alias_log (log_tombstones h a P d) = alias_log d"
  "files (log_tombstones h a P d) = files d" "uuids (log_tombstones h a P d) = uuids d"
  by (simp_all add: log_tombstones_def Let_def)

lemma state_put_frame [simp]:
  "memories (state_put ns k v d) = memories d" "entity_map (state_put ns k v d) = entity_map d"
  "journal (state_put ns k v d) = journal d" "next_entry (state_put ns k v d) = next_entry d"
  "conflict_sets (state_put ns k v d) = conflict_sets d" "contributors (state_put ns k v d) = contributors d"
  "alias_log (state_put ns k v d) = alias_log d" "files (state_put ns k v d) = files d"
  "tombstones (state_put ns k v d) = tombstones d" "uuids (state_put ns k v d) = uuids d"
  by (simp_all add: state_put_def)

lemma state_add_frame [simp]:
  "memories (state_add ns k v d) = memories d" "entity_map (state_add ns k v d) = entity_map d"
  "journal (state_add ns k v d) = journal d" "next_entry (state_add ns k v d) = next_entry d"
  "conflict_sets (state_add ns k v d) = conflict_sets d" "contributors (state_add ns k v d) = contributors d"
  "alias_log (state_add ns k v d) = alias_log d" "files (state_add ns k v d) = files d"
  "tombstones (state_add ns k v d) = tombstones d" "uuids (state_add ns k v d) = uuids d"
  by (simp_all add: state_add_def)

lemma row_of_update:
  "(\<And>r. r_id (f r) = r_id r) \<Longrightarrow>
    t_get r_id i (t_update P f rows) = map_option (\<lambda>r. if P r then f r else r) (t_get r_id i rows)"
  by (rule t_get_update) simp

lemma revision_trigger_id [simp]: "r_id (revision_trigger h r) = r_id r"
  by (simp add: revision_trigger_def)

text \<open>The empty database, for histories and witnesses.\<close>

definition empty_db :: db where
  "empty_db = \<lparr> memories = [], entity_map = [], alias_log = [], conflict_sets = [], contributors = [],
     sync_state = [], journal = [], next_entry = 1, tombstones = [], versions = [], edges = [],
     files = [], uuids = 0, changes = 0 \<rparr>"

text \<open>Primary keys and unique columns that the schema enforces.\<close>

definition db_keyed :: "db \<Rightarrow> bool" where
  "db_keyed d \<longleftrightarrow> t_keyed r_id (memories d) \<and> t_keyed e_entity_id (entity_map d) \<and>
     t_keyed e_local_id (entity_map d) \<and> t_keyed al_from (alias_log d) \<and> t_keyed cs_id (conflict_sets d) \<and>
     t_keyed (\<lambda>c. (co_entity c, co_account c)) (contributors d) \<and> t_keyed state_key (sync_state d) \<and>
     t_keyed j_id (journal d) \<and> (\<forall>j\<in>set (journal d). j_id j < next_entry d) \<and> t_keyed mf_path (files d)"

lemma empty_db_keyed: "db_keyed empty_db"
  by (simp add: db_keyed_def empty_db_def t_keyed_def)

end
