(* ===== verification/Journal.thy ===== *)
theory Journal
  imports Store
begin

text \<open>
  The semantic-change journal, \<open>src/db/memory-repository/journal.ts\<close>: what is admitted, the single
  and the bulk writers, and the shared retirement of rows by invalidation.  \<open>suppressed\<close> is the
  option of the same name (a replicated mutation never journals).  Entry ids are drawn from
  \<open>next_entry\<close>, the AUTOINCREMENT counter of the table.
\<close>

record journal_input =
  ji_memory :: jstr
  ji_project :: "jstr option"
  ji_kind :: memory_kind
  ji_op :: journal_op
  ji_revision :: int
  ji_cause :: "jstr option"

definition JOURNAL_CAUSE_SUPERSEDED_PREFIX :: jstr where
  "JOURNAL_CAUSE_SUPERSEDED_PREFIX = js ''superseded-by:''"

definition isJournalAdmissible :: "memory_kind \<Rightarrow> jstr option \<Rightarrow> bool" where
  "isJournalAdmissible kind project \<longleftrightarrow> project \<noteq> None \<and> kind \<in> set SHAREABLE_KINDS"

text \<open>\<open>INSERT INTO sync_journal\<close>.\<close>

definition journal_row :: "host \<Rightarrow> jstr \<Rightarrow> jstr \<Rightarrow> journal_op \<Rightarrow> int \<Rightarrow> jstr option \<Rightarrow> db \<Rightarrow> db" where
  "journal_row h project memoryId op revision cause d =
     d\<lparr> journal := journal d @ [\<lparr> j_id = next_entry d, j_project = project, j_memory = memoryId, j_op = op,
          j_revision = revision, j_cause = cause, j_at = sql_now h, j_class = None, j_class_at = None \<rparr>],
        next_entry := next_entry d + 1, changes := Suc (changes d) \<rparr>"

definition journalMutation :: "host \<Rightarrow> bool \<Rightarrow> journal_input \<Rightarrow> db \<Rightarrow> db" where
  "journalMutation h suppressed i d =
    (if suppressed then d
     else if \<not> isJournalAdmissible (ji_kind i) (ji_project i) then d
     else journal_row h (the (ji_project i)) (ji_memory i) (ji_op i) (ji_revision i) (ji_cause i) d)"

definition currentRevision :: "jstr \<Rightarrow> db \<Rightarrow> int" where
  "currentRevision i d = (case row_of d i of None \<Rightarrow> 1 | Some r \<Rightarrow> r_revision r)"

definition isRowSyncBound :: "jstr \<Rightarrow> db \<Rightarrow> bool" where
  "isRowSyncBound i d \<longleftrightarrow> list_ex (\<lambda>e. e_local_id e = i \<and> e_state e = Bound) (entity_map d)"

definition syncBoundIds :: "jstr list \<Rightarrow> db \<Rightarrow> jstr list" where
  "syncBoundIds ids d =
     map e_local_id (filter (\<lambda>e. e_state e = Bound \<and> e_local_id e \<in> set ids) (entity_map d))"

text \<open>The rows that the bulk helpers select.\<close>

definition admissible_row :: "jstr list \<Rightarrow> memory_row \<Rightarrow> bool" where
  "admissible_row ids r \<longleftrightarrow> r_id r \<in> set ids \<and> r_project r \<noteq> None \<and> r_kind r \<in> set SHAREABLE_KINDS"

definition journal_rows :: "host \<Rightarrow> journal_op \<Rightarrow> memory_row list \<Rightarrow> db \<Rightarrow> db" where
  "journal_rows h op rs d = fold (\<lambda>r. journal_row h (the (r_project r)) (r_id r) op (r_revision r) None) rs d"

definition journalTombstonesForIds :: "host \<Rightarrow> bool \<Rightarrow> jstr list \<Rightarrow> db \<Rightarrow> db" where
  "journalTombstonesForIds h suppressed ids d =
    (if suppressed \<or> ids = [] then d
     else journal_rows h J_Tombstone (filter (admissible_row ids) (memories d)) d)"

definition journalUpsertsForIds :: "host \<Rightarrow> bool \<Rightarrow> jstr list \<Rightarrow> db \<Rightarrow> db" where
  "journalUpsertsForIds h suppressed ids d =
    (if suppressed \<or> ids = [] then d
     else journal_rows h J_Upsert (filter (admissible_row ids) (memories d)) d)"

definition journalUpsertForId :: "host \<Rightarrow> jstr \<Rightarrow> db \<Rightarrow> db" where
  "journalUpsertForId h i d = journalUpsertsForIds h False [i] d"

definition retired_row :: "jstr list \<Rightarrow> memory_row \<Rightarrow> bool" where
  "retired_row ids r \<longleftrightarrow> r_id r \<in> set ids \<and> r_kind r \<noteq> Rule"

definition retireIdsByInvalidation :: "host \<Rightarrow> bool \<Rightarrow> jstr list \<Rightarrow> db \<Rightarrow> nat \<times> db" where
  "retireIdsByInvalidation h suppressed ids d =
    (if ids = [] then (0, d)
     else let d1 = log_tombstones h Invalidate (retired_row ids) d;
              d2 = journalTombstonesForIds h suppressed ids d1
          in (t_count (retired_row ids) (memories d2),
              exec_update h (retired_row ids) (\<lambda>r. r\<lparr> r_invalidated := 1 \<rparr>) d2))"

section \<open>Facts\<close>

lemma journal_row_frame [simp]:
  "memories (journal_row h p m op rv c d) = memories d" "entity_map (journal_row h p m op rv c d) = entity_map d"
  "sync_state (journal_row h p m op rv c d) = sync_state d"
  "conflict_sets (journal_row h p m op rv c d) = conflict_sets d"
  "contributors (journal_row h p m op rv c d) = contributors d" "alias_log (journal_row h p m op rv c d) = alias_log d"
  "files (journal_row h p m op rv c d) = files d" "tombstones (journal_row h p m op rv c d) = tombstones d"
  "versions (journal_row h p m op rv c d) = versions d" "edges (journal_row h p m op rv c d) = edges d"
  "uuids (journal_row h p m op rv c d) = uuids d"
  by (simp_all add: journal_row_def)

lemma journal_rows_frame [simp]:
  "memories (journal_rows h op rs d) = memories d" "entity_map (journal_rows h op rs d) = entity_map d"
  "sync_state (journal_rows h op rs d) = sync_state d" "conflict_sets (journal_rows h op rs d) = conflict_sets d"
  "contributors (journal_rows h op rs d) = contributors d" "alias_log (journal_rows h op rs d) = alias_log d"
  "files (journal_rows h op rs d) = files d" "tombstones (journal_rows h op rs d) = tombstones d"
  "versions (journal_rows h op rs d) = versions d" "edges (journal_rows h op rs d) = edges d"
  "uuids (journal_rows h op rs d) = uuids d"
  by (induction rs arbitrary: d) (simp_all add: journal_rows_def)

lemma journalMutation_frame [simp]:
  "memories (journalMutation h s i d) = memories d" "entity_map (journalMutation h s i d) = entity_map d"
  "sync_state (journalMutation h s i d) = sync_state d" "conflict_sets (journalMutation h s i d) = conflict_sets d"
  "contributors (journalMutation h s i d) = contributors d" "alias_log (journalMutation h s i d) = alias_log d"
  "files (journalMutation h s i d) = files d" "tombstones (journalMutation h s i d) = tombstones d"
  "versions (journalMutation h s i d) = versions d" "edges (journalMutation h s i d) = edges d"
  "uuids (journalMutation h s i d) = uuids d"
  by (simp_all add: journalMutation_def)

lemma journal_helpers_frame [simp]:
  "memories (journalTombstonesForIds h s ids d) = memories d" "files (journalTombstonesForIds h s ids d) = files d"
  "tombstones (journalTombstonesForIds h s ids d) = tombstones d"
  "entity_map (journalTombstonesForIds h s ids d) = entity_map d"
  "sync_state (journalTombstonesForIds h s ids d) = sync_state d"
  "memories (journalUpsertsForIds h s ids d) = memories d" "files (journalUpsertsForIds h s ids d) = files d"
  "tombstones (journalUpsertsForIds h s ids d) = tombstones d"
  "entity_map (journalUpsertsForIds h s ids d) = entity_map d"
  "sync_state (journalUpsertsForIds h s ids d) = sync_state d"
  by (simp_all add: journalTombstonesForIds_def journalUpsertsForIds_def)

text \<open>What an entry says, without its id, its time and its classification.\<close>

definition entry_content :: "journal_entry \<Rightarrow> jstr \<times> jstr \<times> journal_op \<times> int \<times> jstr option" where
  "entry_content j = (j_project j, j_memory j, j_op j, j_revision j, j_cause j)"

definition row_entry :: "journal_op \<Rightarrow> memory_row \<Rightarrow> jstr \<times> jstr \<times> journal_op \<times> int \<times> jstr option" where
  "row_entry op r = (the (r_project r), r_id r, op, r_revision r, None)"

lemma journal_rows_content:
  "\<exists>new. journal (journal_rows h op rs d) = journal d @ new \<and> map entry_content new = map (row_entry op) rs \<and>
    list_all (\<lambda>j. j_class j = None) new"
proof (induction rs arbitrary: d)
  case Nil
  then show ?case by (simp add: journal_rows_def)
next
  case (Cons r rs)
  let ?d = "journal_row h (the (r_project r)) (r_id r) op (r_revision r) None d"
  obtain new where n: "journal (journal_rows h op rs ?d) = journal ?d @ new"
    "map entry_content new = map (row_entry op) rs" "list_all (\<lambda>j. j_class j = None) new" using Cons by blast
  obtain e where "journal ?d = journal d @ [e]" "entry_content e = row_entry op r" "j_class e = None"
    by (auto simp: journal_row_def entry_content_def row_entry_def)
  with n have "journal (journal_rows h op (r # rs) d) = journal d @ (e # new)"
    "map entry_content (e # new) = map (row_entry op) (r # rs)" "list_all (\<lambda>j. j_class j = None) (e # new)"
    by (simp_all add: journal_rows_def)
  then show ?case by blast
qed

lemma journal_rows_keyed:
  "t_keyed j_id (journal d) \<and> (\<forall>j\<in>set (journal d). j_id j < next_entry d) \<Longrightarrow>
    t_keyed j_id (journal (journal_rows h op rs d)) \<and>
    (\<forall>j\<in>set (journal (journal_rows h op rs d)). j_id j < next_entry (journal_rows h op rs d))"
proof (induction rs arbitrary: d)
  case Nil
  then show ?case by (simp add: journal_rows_def)
next
  case (Cons r rs)
  let ?d = "journal_row h (the (r_project r)) (r_id r) op (r_revision r) None d"
  have "t_keyed j_id (journal ?d) \<and> (\<forall>j\<in>set (journal ?d). j_id j < next_entry ?d)"
    using Cons.prems by (fastforce simp: journal_row_def t_keyed_def)
  from Cons.IH [OF this] show ?case by (simp add: journal_rows_def)
qed

section \<open>Properties\<close>

text \<open>C35. Retirement by invalidation (the memory tool's deletions): every row of the list that is
  not a rule is invalidated with its revision bumped, no other row changes, each retired row gets
  one line of the tombstone log with its content, the journal gains exactly one tombstone per
  shareable project row, at the revision BEFORE the mutation and still unclassified, nothing is
  journaled when suppressed, and the count returned is the number of rows retired.\<close>

theorem retire_spec:
  assumes "retireIdsByInvalidation h suppressed ids d = (n, d')"
  shows "memories d' = map (\<lambda>r. if retired_row ids r
        then revision_trigger h (r\<lparr> r_invalidated := 1 \<rparr>) else r) (memories d) \<and>
    n = t_count (retired_row ids) (memories d) \<and>
    map (\<lambda>t. (mt_memory t, mt_content t)) (tombstones d') =
      map (\<lambda>t. (mt_memory t, mt_content t)) (tombstones d) @
      map (\<lambda>r. (r_id r, r_content r)) (filter (retired_row ids) (memories d)) \<and>
    (\<exists>new. journal d' = journal d @ new \<and> list_all (\<lambda>j. j_class j = None) new \<and>
      map entry_content new = (if suppressed then []
        else map (row_entry J_Tombstone) (filter (admissible_row ids) (memories d))))"
proof (cases "ids = []")
  case True
  have "filter (retired_row []) rs = []" "filter (admissible_row []) rs = []"
    "map (\<lambda>r. if retired_row [] r then f r else r) rs = rs" for rs and f :: "memory_row \<Rightarrow> memory_row"
    by (simp_all add: retired_row_def admissible_row_def)
  with True assms show ?thesis
    by (simp add: retireIdsByInvalidation_def t_count_def)
next
  case False
  let ?d1 = "log_tombstones h Invalidate (retired_row ids) d"
  let ?d2 = "journalTombstonesForIds h suppressed ids ?d1"
  have n: "n = t_count (retired_row ids) (memories d)"
    and d': "d' = exec_update h (retired_row ids) (\<lambda>r. r\<lparr> r_invalidated := 1 \<rparr>) ?d2"
    using assms False by (auto simp: retireIdsByInvalidation_def Let_def)
  have j: "\<exists>new. journal ?d2 = journal d @ new \<and> list_all (\<lambda>j. j_class j = None) new \<and>
      map entry_content new = (if suppressed then []
        else map (row_entry J_Tombstone) (filter (admissible_row ids) (memories d)))"
  proof (cases suppressed)
    case True
    then show ?thesis by (simp add: journalTombstonesForIds_def)
  next
    case ns: False
    from journal_rows_content [of h J_Tombstone "filter (admissible_row ids) (memories d)" ?d1]
    obtain new where "journal ?d2 = journal d @ new" "list_all (\<lambda>j. j_class j = None) new"
      "map entry_content new = map (row_entry J_Tombstone) (filter (admissible_row ids) (memories d))"
      using False ns by (auto simp: journalTombstonesForIds_def)
    then show ?thesis using ns by auto
  qed
  have t: "map (\<lambda>t. (mt_memory t, mt_content t)) (tombstones d') =
      map (\<lambda>t. (mt_memory t, mt_content t)) (tombstones d) @
      map (\<lambda>r. (r_id r, r_content r)) (filter (retired_row ids) (memories d))"
    by (simp add: d' log_tombstones_def Let_def comp_def)
  have m: "memories d' = map (\<lambda>r. if retired_row ids r
        then revision_trigger h (r\<lparr> r_invalidated := 1 \<rparr>) else r) (memories d)"
    by (simp add: d' t_update_def)
  from n t m j d' show ?thesis by simp
qed

lemma retire_spec_witness:
  "let d = empty_db\<lparr> memories := [sample_row (js ''a'') (js ''x''), sample_row (js ''b'') (js ''y'')] \<rparr>;
       d' = snd (retireIdsByInvalidation sample_host False [js ''a''] d)
   in map (\<lambda>r. (r_id r, r_invalidated r, r_revision r)) (memories d') = [(js ''a'', 1, 2), (js ''b'', 0, 1)] \<and>
     map entry_content (journal d') = [(js ''web'', js ''a'', J_Tombstone, 1, None)]"
proof -
  let ?d = "empty_db\<lparr> memories := [sample_row (js ''a'') (js ''x''), sample_row (js ''b'') (js ''y'')] \<rparr>"
  obtain n d' where r: "retireIdsByInvalidation sample_host False [js ''a''] ?d = (n, d')" by fastforce
  then have "snd (retireIdsByInvalidation sample_host False [js ''a''] ?d) = d'" by simp
  then show ?thesis using retire_spec [OF r]
    by (auto simp: Let_def retired_row_def admissible_row_def row_entry_def sample_row_def revision_trigger_def
        SHAREABLE_KINDS_def empty_db_def)
qed

end
