(* ===== verification/Entity_Map.thy ===== *)
theory Entity_Map
  imports Journal
begin

text \<open>
  Typed access to the replica tables, \<open>src/db/sync-apply/entity-map.ts\<close>, and the errors of
  \<open>src/db/sync-apply/errors.ts\<close>: bindings of entities to rows, shadow associations, the alias log,
  the contributor projection, conflict sets and the durable memory generation.

  A thrown error is a value of \<open>apply_error\<close>; an \<open>ApplyValidationError\<close> carries a tag in place of its
  message.  \<open>Js_Error\<close> is any other exception (\<open>SyntaxError\<close>, \<open>TypeError\<close>, a SQLite constraint).
\<close>

datatype apply_error =
    ApplyValidationError string
  | ProtocolInvariantError jstr jstr
  | Js_Error string

section \<open>Bindings\<close>

definition getByEntityId :: "jstr \<Rightarrow> db \<Rightarrow> entity_entry option" where
  "getByEntityId e d = t_get e_entity_id e (entity_map d)"

definition getByLocalMemoryId :: "jstr \<Rightarrow> db \<Rightarrow> entity_entry option" where
  "getByLocalMemoryId i d = t_get e_local_id i (entity_map d)"

record bind_input =
  bi_entity :: jstr
  bi_local :: jstr
  bi_project :: jstr
  bi_version :: int
  bi_canonical :: jstr
  bi_projection :: jstr

definition assertNoForeignAssociation :: "jstr \<Rightarrow> jstr \<Rightarrow> db \<Rightarrow> apply_error + unit" where
  "assertNoForeignAssociation localId entityId d =
     ensure (\<not> list_ex (\<lambda>e. e_local_id e = localId \<and> e_entity_id e \<noteq> entityId) (entity_map d))
       (ApplyValidationError ''displacement'')"

definition put_entry :: "entity_entry \<Rightarrow> db \<Rightarrow> db" where
  "put_entry e d = d\<lparr> entity_map := t_put e_entity_id e (entity_map d), changes := Suc (changes d) \<rparr>"

definition bound_entry :: "host \<Rightarrow> bind_input \<Rightarrow> entity_entry" where
  "bound_entry h i = \<lparr> e_entity_id = bi_entity i, e_local_id = bi_local i, e_project = bi_project i,
     e_state = Bound, e_version = bi_version i, e_canonical_hash = bi_canonical i,
     e_projection_hash = bi_projection i, e_inert = None, e_contributors = None, e_updated_at = sql_now h \<rparr>"

definition bindEntity :: "host \<Rightarrow> bind_input \<Rightarrow> db \<Rightarrow> apply_error + db" where
  "bindEntity h i d = bindE (assertNoForeignAssociation (bi_local i) (bi_entity i) d)
     (\<lambda>_. Inr (put_entry (bound_entry h i) d))"

definition strings_text :: "host \<Rightarrow> jstr list \<Rightarrow> jstr" where
  "strings_text h xs = stringify (nums h) (JArr (map JStr xs))"

definition shadow_entry :: "host \<Rightarrow> bind_input \<Rightarrow> jstr \<Rightarrow> jstr list \<Rightarrow> entity_entry" where
  "shadow_entry h i inert contribs = \<lparr> e_entity_id = bi_entity i, e_local_id = bi_local i, e_project = bi_project i,
     e_state = Shadow_Assoc, e_version = bi_version i, e_canonical_hash = bi_canonical i,
     e_projection_hash = bi_projection i, e_inert = Some inert,
     e_contributors = Some (strings_text h contribs), e_updated_at = sql_now h \<rparr>"

definition writeShadowAssoc :: "host \<Rightarrow> bind_input \<Rightarrow> jstr \<Rightarrow> jstr list \<Rightarrow> db \<Rightarrow> apply_error + db" where
  "writeShadowAssoc h i inert contribs d = bindE (assertNoForeignAssociation (bi_local i) (bi_entity i) d)
     (\<lambda>_. Inr (put_entry (shadow_entry h i inert contribs) d))"

definition closeEntry :: "jstr \<Rightarrow> db \<Rightarrow> db" where
  "closeEntry entityId d = d\<lparr> entity_map := t_del e_entity_id entityId (entity_map d),
     changes := changes d + t_count (\<lambda>e. e_entity_id e = entityId) (entity_map d) \<rparr>"

section \<open>Aliases and contributors\<close>

definition recordAlias :: "host \<Rightarrow> jstr \<Rightarrow> jstr \<Rightarrow> int \<Rightarrow> int \<Rightarrow> db \<Rightarrow> db" where
  "recordAlias h fromId toId asOf seq d =
    (if t_get al_from fromId (alias_log d) \<noteq> None then d
     else d\<lparr> alias_log := alias_log d @ [\<lparr> al_from = fromId, al_to = toId, al_version = asOf, al_seq = seq,
            al_applied_at = sql_now h \<rparr>], changes := Suc (changes d) \<rparr>)"

definition contributor_key :: "contributor \<Rightarrow> jstr \<times> jstr" where
  "contributor_key c = (co_entity c, co_account c)"

definition add_contributor :: "jstr \<Rightarrow> int \<Rightarrow> jstr \<Rightarrow> db \<Rightarrow> db" where
  "add_contributor entityId seq accountId d =
    (if t_get contributor_key (entityId, accountId) (contributors d) \<noteq> None then d
     else d\<lparr> contributors := contributors d @ [\<lparr> co_entity = entityId, co_account = accountId, co_first_seq = seq \<rparr>],
            changes := Suc (changes d) \<rparr>)"

definition mergeContributors :: "jstr \<Rightarrow> jstr list \<Rightarrow> int \<Rightarrow> db \<Rightarrow> db" where
  "mergeContributors entityId accountIds seq d = fold (add_contributor entityId seq) accountIds d"

text \<open>\<open>ORDER BY first_seq, account_id\<close>.\<close>

definition contributorsOf :: "jstr \<Rightarrow> db \<Rightarrow> jstr list" where
  "contributorsOf entityId d = map co_account
     (sort_key co_first_seq (sort_key co_account (filter (\<lambda>c. co_entity c = entityId) (contributors d))))"

section \<open>Conflict sets\<close>

definition deterministicConflictSetId :: "host \<Rightarrow> jstr list \<Rightarrow> conflict_reason \<Rightarrow> jstr" where
  "deterministicConflictSetId h members reason =
     js ''cs-'' @ take 32 (sha256 h (utf8_encode (reason_str reason @ js '':'' @ join (js '','') (sort members))))"

definition members_text :: "host \<Rightarrow> jstr list \<Rightarrow> jstr" where
  "members_text h members = strings_text h (sort members)"

definition openConflictSet :: "host \<Rightarrow> jstr \<Rightarrow> jstr \<Rightarrow> jstr list \<Rightarrow> conflict_reason \<Rightarrow> jstr \<Rightarrow> int \<Rightarrow> db \<Rightarrow> db" where
  "openConflictSet h setId project members reason openedBy openedSeq d =
    (if t_get cs_id setId (conflict_sets d) \<noteq> None then d
     else d\<lparr> conflict_sets := conflict_sets d @ [\<lparr> cs_id = setId, cs_project = project,
            cs_members = members_text h members, cs_reason = reason, cs_opened_by = openedBy,
            cs_opened_seq = openedSeq, cs_status = Open_Set, cs_resolved_seq = None \<rparr>],
            changes := Suc (changes d) \<rparr>)"

definition resolveConflictSet :: "jstr \<Rightarrow> int \<Rightarrow> db \<Rightarrow> db" where
  "resolveConflictSet setId seq d = d\<lparr> conflict_sets := t_update (\<lambda>c. cs_id c = setId)
       (\<lambda>c. c\<lparr> cs_status := Resolved_Set, cs_resolved_seq := Some seq \<rparr>) (conflict_sets d),
     changes := changes d + t_count (\<lambda>c. cs_id c = setId) (conflict_sets d) \<rparr>"

section \<open>The memory generation\<close>

definition readGeneration :: "db \<Rightarrow> int" where
  "readGeneration d = state_int (js ''memory'') (js ''generation'') d"

definition bumpGeneration :: "db \<Rightarrow> int \<times> db" where
  "bumpGeneration d = (let nxt = readGeneration d + 1 in
     (nxt, state_put (js ''memory'') (js ''generation'') (SInt nxt) d))"

section \<open>Frames\<close>

lemma put_entry_frame [simp]:
  "memories (put_entry e d) = memories d" "entity_map (put_entry e d) = t_put e_entity_id e (entity_map d)"
  "journal (put_entry e d) = journal d" "next_entry (put_entry e d) = next_entry d"
  "sync_state (put_entry e d) = sync_state d" "conflict_sets (put_entry e d) = conflict_sets d"
  "contributors (put_entry e d) = contributors d" "alias_log (put_entry e d) = alias_log d"
  "files (put_entry e d) = files d" "tombstones (put_entry e d) = tombstones d" "uuids (put_entry e d) = uuids d"
  by (simp_all add: put_entry_def)

lemma closeEntry_frame [simp]:
  "memories (closeEntry i d) = memories d" "entity_map (closeEntry i d) = t_del e_entity_id i (entity_map d)"
  "journal (closeEntry i d) = journal d" "next_entry (closeEntry i d) = next_entry d"
  "sync_state (closeEntry i d) = sync_state d" "conflict_sets (closeEntry i d) = conflict_sets d"
  "contributors (closeEntry i d) = contributors d" "alias_log (closeEntry i d) = alias_log d"
  "files (closeEntry i d) = files d" "tombstones (closeEntry i d) = tombstones d" "uuids (closeEntry i d) = uuids d"
  by (simp_all add: closeEntry_def)

lemma recordAlias_frame [simp]:
  "memories (recordAlias h f t v s d) = memories d" "entity_map (recordAlias h f t v s d) = entity_map d"
  "journal (recordAlias h f t v s d) = journal d" "next_entry (recordAlias h f t v s d) = next_entry d"
  "sync_state (recordAlias h f t v s d) = sync_state d"
  "conflict_sets (recordAlias h f t v s d) = conflict_sets d"
  "contributors (recordAlias h f t v s d) = contributors d"
  "files (recordAlias h f t v s d) = files d" "tombstones (recordAlias h f t v s d) = tombstones d"
  "uuids (recordAlias h f t v s d) = uuids d"
  by (simp_all add: recordAlias_def)

lemma add_contributor_frame [simp]:
  "memories (add_contributor e s a d) = memories d" "entity_map (add_contributor e s a d) = entity_map d"
  "journal (add_contributor e s a d) = journal d" "next_entry (add_contributor e s a d) = next_entry d"
  "sync_state (add_contributor e s a d) = sync_state d" "conflict_sets (add_contributor e s a d) = conflict_sets d"
  "alias_log (add_contributor e s a d) = alias_log d" "files (add_contributor e s a d) = files d"
  "tombstones (add_contributor e s a d) = tombstones d" "uuids (add_contributor e s a d) = uuids d"
  by (simp_all add: add_contributor_def)

lemma mergeContributors_frame [simp]:
  "memories (mergeContributors e as s d) = memories d" "entity_map (mergeContributors e as s d) = entity_map d"
  "journal (mergeContributors e as s d) = journal d" "next_entry (mergeContributors e as s d) = next_entry d"
  "sync_state (mergeContributors e as s d) = sync_state d"
  "conflict_sets (mergeContributors e as s d) = conflict_sets d"
  "alias_log (mergeContributors e as s d) = alias_log d" "files (mergeContributors e as s d) = files d"
  "tombstones (mergeContributors e as s d) = tombstones d" "uuids (mergeContributors e as s d) = uuids d"
  by (induction as arbitrary: d) (simp_all add: mergeContributors_def)

lemma conflict_set_frame [simp]:
  "memories (openConflictSet h i p ms r b s d) = memories d"
  "entity_map (openConflictSet h i p ms r b s d) = entity_map d"
  "journal (openConflictSet h i p ms r b s d) = journal d"
  "next_entry (openConflictSet h i p ms r b s d) = next_entry d"
  "sync_state (openConflictSet h i p ms r b s d) = sync_state d"
  "contributors (openConflictSet h i p ms r b s d) = contributors d"
  "alias_log (openConflictSet h i p ms r b s d) = alias_log d"
  "files (openConflictSet h i p ms r b s d) = files d"
  "tombstones (openConflictSet h i p ms r b s d) = tombstones d"
  "memories (resolveConflictSet i s d) = memories d" "entity_map (resolveConflictSet i s d) = entity_map d"
  "journal (resolveConflictSet i s d) = journal d" "next_entry (resolveConflictSet i s d) = next_entry d"
  "sync_state (resolveConflictSet i s d) = sync_state d"
  "contributors (resolveConflictSet i s d) = contributors d"
  "alias_log (resolveConflictSet i s d) = alias_log d" "files (resolveConflictSet i s d) = files d"
  "tombstones (resolveConflictSet i s d) = tombstones d"
  by (simp_all add: openConflictSet_def resolveConflictSet_def)

section \<open>Cardinality\<close>

text \<open>One entity maps to at most one row and one row to at most one entity.\<close>

definition map_ok :: "db \<Rightarrow> bool" where
  "map_ok d \<longleftrightarrow> t_keyed e_entity_id (entity_map d) \<and> t_keyed e_local_id (entity_map d)"

lemma put_entry_map_ok:
  assumes "map_ok d" "\<not> list_ex (\<lambda>e. e_local_id e = e_local_id x \<and> e_entity_id e \<noteq> e_entity_id x) (entity_map d)"
  shows "map_ok (put_entry x d)"
proof -
  let ?m = "entity_map d"
  have k: "t_keyed e_entity_id ?m" and l: "distinct (map e_local_id ?m)"
    using assms(1) by (auto simp: map_ok_def t_keyed_def)
  have other: "e_local_id e = e_local_id x \<Longrightarrow> e \<in> set ?m \<Longrightarrow> e_entity_id e = e_entity_id x" for e
    using assms(2) by (auto simp: list_ex_iff)
  have sub: "set (t_put e_entity_id x ?m) \<subseteq> insert x {e \<in> set ?m. e_entity_id e \<noteq> e_entity_id x}"
    by (auto simp: t_put_def list_ex_iff)
  have "inj_on e_local_id (set ?m)" using l by (simp add: distinct_map)
  then have "inj_on e_local_id (insert x {e \<in> set ?m. e_entity_id e \<noteq> e_entity_id x})"
    unfolding inj_on_def using other by (metis (mono_tags, lifting) insert_iff mem_Collect_eq)
  then have "inj_on e_local_id (set (t_put e_entity_id x ?m))" using sub by (rule inj_on_subset)
  moreover have "distinct (t_put e_entity_id x ?m)"
    using t_keyed_put [OF k, of x] by (simp add: t_keyed_def distinct_map)
  ultimately have "distinct (map e_local_id (t_put e_entity_id x ?m))" by (simp add: distinct_map)
  then show ?thesis using k by (simp add: map_ok_def t_keyed_put) (simp add: t_keyed_def)
qed

lemma closeEntry_map_ok: "map_ok d \<Longrightarrow> map_ok (closeEntry i d)"
  by (auto simp: map_ok_def t_keyed_del) (auto simp: t_keyed_def t_del_def distinct_map_filter)

lemma bindEntity_map_ok: "bindEntity h i d = Inr d' \<Longrightarrow> map_ok d \<Longrightarrow> map_ok d'"
  by (auto simp: bindEntity_def bindE_Inr_iff assertNoForeignAssociation_def bound_entry_def intro!: put_entry_map_ok)

lemma writeShadowAssoc_map_ok: "writeShadowAssoc h i inert cs d = Inr d' \<Longrightarrow> map_ok d \<Longrightarrow> map_ok d'"
  by (auto simp: writeShadowAssoc_def bindE_Inr_iff assertNoForeignAssociation_def shadow_entry_def
      intro!: put_entry_map_ok)

end
