(* ===== verification/Text_Cleaning.thy ===== *)
theory Text_Cleaning
  imports Memory_Rows
begin

text \<open>
  \<open>sanitize\<close> and \<open>neutralizeMemoryText\<close> of \<open>src/utils/validation.ts\<close>: control characters and
  zero-width characters are dropped, white space is collapsed, and a forged leading brand marker
  such as \<open>[WAYKEEP ...]\<close> is stripped as often as it occurs.

  The marker expression is deterministic: the brands are no prefixes of each other, and the body
  of a marker ends at its first bracket or newline, so matching needs no backtracking.
\<close>

section \<open>Character classes\<close>

text \<open>\<open>[\x00-\x08\x0B\x0C\x0E-\x1F\x7F]\<close>: controls except tab, newline and carriage return.\<close>

definition is_stripped_control :: "nat \<Rightarrow> bool" where
  "is_stripped_control u \<longleftrightarrow> u \<le> 8 \<or> u = 11 \<or> u = 12 \<or> (14 \<le> u \<and> u \<le> 31) \<or> u = 127"

text \<open>\<open>[\u200B-\u200D\uFEFF]\<close>\<close>

definition is_zero_width :: "nat \<Rightarrow> bool" where
  "is_zero_width u \<longleftrightarrow> (8203 \<le> u \<and> u \<le> 8205) \<or> u = 65279"

text \<open>The word characters of \<open>\b\<close>.\<close>

definition is_word_unit :: "nat \<Rightarrow> bool" where
  "is_word_unit u \<longleftrightarrow> is_alnum u \<or> u = 95"

definition lower_unit :: "nat \<Rightarrow> nat" where
  "lower_unit u = (if is_upper u then u + 32 else u)"

section \<open>Sanitizing\<close>

definition strip_controls :: "jstr \<Rightarrow> jstr" where
  "strip_controls s = filter (\<lambda>u. \<not> is_stripped_control u) s"

text \<open>\<open>s.replace(/\s+/g, ' ')\<close>; the flag says that the unit before was white space.\<close>

fun collapse_ws :: "bool \<Rightarrow> jstr \<Rightarrow> jstr" where
  "collapse_ws b [] = []"
| "collapse_ws b (u # s) =
    (if is_space u then (if b then collapse_ws True s else 32 # collapse_ws True s)
     else u # collapse_ws False s)"

definition sanitize :: "jstr \<Rightarrow> jstr" where
  "sanitize input = trim (collapse_ws False (strip_controls input))"

section \<open>Brand markers\<close>

definition BRANDS :: "jstr list" where
  "BRANDS = [js ''waykeep'', js ''cairn'']"

definition match_ci :: "jstr \<Rightarrow> jstr \<Rightarrow> jstr option" where
  "match_ci p s = (if map lower_unit (take (length p) s) = p then Some (drop (length p) s) else None)"

definition word_boundary :: "jstr \<Rightarrow> bool" where
  "word_boundary rest \<longleftrightarrow> (case rest of [] \<Rightarrow> True | u # _ \<Rightarrow> \<not> is_word_unit u)"

definition match_brand :: "jstr \<Rightarrow> jstr option" where
  "match_brand s = (case find (\<lambda>b. case match_ci b s of Some rest \<Rightarrow> word_boundary rest | None \<Rightarrow> False) BRANDS of
      Some b \<Rightarrow> match_ci b s
    | None \<Rightarrow> None)"

text \<open>One round of \<open>\s*\[\s*(?:brand)\b[^\]\n]*\]\s*\<close> at the start, answering what follows it.\<close>

definition marker_once :: "jstr \<Rightarrow> jstr option" where
  "marker_once s = (case dropWhile is_space s of
      [] \<Rightarrow> None
    | u # r \<Rightarrow> if u \<noteq> 91 then None
        else (case match_brand (dropWhile is_space r) of
            None \<Rightarrow> None
          | Some body \<Rightarrow> (case dropWhile (\<lambda>v. v \<noteq> 93 \<and> v \<noteq> 10) body of
                [] \<Rightarrow> None
              | v # rest \<Rightarrow> if v = 93 then Some (dropWhile is_space rest) else None)))"

lemma length_dropWhile_le' [simp]: "length (dropWhile P xs) \<le> length xs"
  by (induction xs) auto

lemma match_brand_shorter: "match_brand s = Some body \<Longrightarrow> length body \<le> length s"
  by (auto simp: match_brand_def match_ci_def split: option.splits if_splits)

lemma dropWhile_Cons_shorter: "dropWhile P xs = y # ys \<Longrightarrow> length ys < length xs"
  using length_dropWhile_le' [of P xs] by simp

lemma marker_once_shorter:
  assumes "marker_once s = Some r"
  shows "length r < length s"
proof -
  from assms obtain t body rest where d: "dropWhile is_space s = 91 # t"
    and b: "match_brand (dropWhile is_space t) = Some body"
    and c: "dropWhile (\<lambda>v. v \<noteq> 93 \<and> v \<noteq> 10) body = 93 # rest" and r: "r = dropWhile is_space rest"
    by (auto simp: marker_once_def split: list.splits option.splits if_splits)
  have "length r \<le> length rest" by (simp add: r)
  also have "\<dots> < length body" using dropWhile_Cons_shorter [OF c] .
  also have "\<dots> \<le> length t" using match_brand_shorter [OF b] length_dropWhile_le' [of is_space t] by linarith
  also have "\<dots> < length s" using dropWhile_Cons_shorter [OF d] .
  finally show ?thesis .
qed

function strip_markers :: "jstr \<Rightarrow> jstr" where
  "strip_markers s = (case marker_once s of None \<Rightarrow> s | Some r \<Rightarrow> strip_markers r)"
  by pat_completeness auto
termination
  by (relation "measure length") (auto dest: marker_once_shorter)

declare strip_markers.simps [simp del]

definition neutralizeMemoryText :: "jstr \<Rightarrow> jstr" where
  "neutralizeMemoryText input = trim (strip_markers (filter (\<lambda>u. \<not> is_zero_width u) (strip_controls input)))"

section \<open>Facts\<close>

lemma strip_markers_suffix: "\<exists>p. s = p @ strip_markers s"
proof (induction s rule: strip_markers.induct)
  case (1 s)
  show ?case
  proof (cases "marker_once s")
    case None
    then show ?thesis by (simp add: strip_markers.simps)
  next
    case (Some r)
    have dw: "\<exists>p. xs = p @ dropWhile P xs" for P :: "nat \<Rightarrow> bool" and xs by (metis takeWhile_dropWhile_id)
    from Some obtain t body rest where d: "dropWhile is_space s = 91 # t"
      and b: "match_brand (dropWhile is_space t) = Some body"
      and c: "dropWhile (\<lambda>v. v \<noteq> 93 \<and> v \<noteq> 10) body = 93 # rest" and r: "r = dropWhile is_space rest"
      by (auto simp: marker_once_def split: list.splits option.splits if_splits)
    obtain n where body: "body = drop n (dropWhile is_space t)"
      using b by (auto simp: match_brand_def match_ci_def split: option.splits if_splits)
    obtain p1 where p1: "s = p1 @ 91 # t" using dw [of s is_space] d by metis
    obtain p2 where p2: "t = p2 @ dropWhile is_space t" using dw by blast
    have p3: "dropWhile is_space t = take n (dropWhile is_space t) @ body" by (simp add: body)
    obtain p4 where p4: "body = p4 @ 93 # rest" using dw [of body "\<lambda>v. v \<noteq> 93 \<and> v \<noteq> 10"] c by metis
    obtain p5 where p5: "rest = p5 @ r" using dw r by blast
    have "s = p1 @ 91 # p2 @ take n (dropWhile is_space t) @ p4 @ 93 # p5 @ r"
      using p1 p2 p3 p4 p5 by (metis append.assoc append_Cons)
    moreover obtain q where "r = q @ strip_markers r" using 1 Some by blast
    ultimately have "s = (p1 @ 91 # p2 @ take n (dropWhile is_space t) @ p4 @ 93 # p5 @ q) @ strip_markers r"
      by (metis append.assoc append_Cons)
    then show ?thesis using Some by (metis strip_markers.simps option.simps(5))
  qed
qed

lemma trim_units: "set (trim s) \<subseteq> set s"
proof -
  have "set (dropWhile P t) \<subseteq> set t" for P :: "nat \<Rightarrow> bool" and t by (metis set_dropWhileD subsetI)
  then show ?thesis unfolding trim_def trim_start_def by (metis order_trans set_rev)
qed

lemma neutralize_units:
  "u \<in> set (neutralizeMemoryText s) \<Longrightarrow> u \<in> set s \<and> \<not> is_stripped_control u \<and> \<not> is_zero_width u"
proof -
  assume u: "u \<in> set (neutralizeMemoryText s)"
  let ?t = "filter (\<lambda>u. \<not> is_zero_width u) (strip_controls s)"
  from u trim_units have "u \<in> set (strip_markers ?t)" by (auto simp: neutralizeMemoryText_def)
  moreover have "set (strip_markers ?t) \<subseteq> set ?t"
    using strip_markers_suffix [of ?t] by (metis Un_upper2 set_append)
  ultimately have "u \<in> set ?t" by blast
  then show ?thesis by (auto simp: strip_controls_def)
qed

lemma collapse_units: "u \<in> set (collapse_ws b s) \<Longrightarrow> u \<in> set s \<and> \<not> is_space u \<or> u = 32"
  by (induction b s rule: collapse_ws.induct) (auto split: if_splits)

lemma sanitize_units:
  "u \<in> set (sanitize s) \<Longrightarrow> u = 32 \<or> u \<in> set s \<and> \<not> is_space u \<and> \<not> is_stripped_control u"
  using trim_units collapse_units by (fastforce simp: sanitize_def strip_controls_def)

lemma neutralize_js_ok: "js_ok s \<Longrightarrow> js_ok (neutralizeMemoryText s)"
  using neutralize_units by (fastforce simp: js_ok_def)

lemma sanitize_js_ok: "js_ok s \<Longrightarrow> js_ok (sanitize s)"
  using sanitize_units by (fastforce simp: js_ok_def)

lemma strip_markers_none: "marker_once (strip_markers s) = None"
  by (induction s rule: strip_markers.induct)
    (metis option.case_eq_if option.exhaust_sel option.simps(5) strip_markers.simps)

lemma dropWhile_idem': "dropWhile P (dropWhile P xs) = dropWhile P xs"
  by (induction xs) auto

lemma marker_trim_start: "marker_once (trim_start s) = marker_once s"
  by (simp add: marker_once_def trim_start_def dropWhile_idem')

lemma match_ci_append: "match_ci p s = Some r \<Longrightarrow> match_ci p (s @ w) = Some (r @ w)"
proof -
  assume m: "match_ci p s = Some r"
  then have t: "map lower_unit (take (length p) s) = p" "r = drop (length p) s"
    by (auto simp: match_ci_def split: if_splits)
  from arg_cong [OF t(1), of length] have "length p \<le> length s" by simp
  then have k: "take (length p) (s @ w) = take (length p) s" "drop (length p) (s @ w) = drop (length p) s @ w"
    by simp_all
  show ?thesis unfolding match_ci_def k t(1) t(2) by simp
qed

lemma match_ci_hd:
  assumes "match_ci p s = Some r" "p \<noteq> []"
  shows "hd p = lower_unit (hd s)"
proof -
  have e: "map lower_unit (take (length p) s) = p" using assms(1) by (auto simp: match_ci_def split: if_splits)
  have "s \<noteq> []"
  proof
    assume "s = []"
    then have "map lower_unit (take (length p) s) = []" by simp
    with e assms(2) show False by metis
  qed
  then have "take (length p) s \<noteq> []" using assms(2) by simp
  then have "hd (map lower_unit (take (length p) s)) = lower_unit (hd s)"
    using \<open>s \<noteq> []\<close> assms(2) by (simp add: hd_map)
  then show ?thesis unfolding e .
qed

lemma find_unique: "b \<in> set xs \<Longrightarrow> P b \<Longrightarrow> (\<And>x. x \<in> set xs \<Longrightarrow> P x \<Longrightarrow> x = b) \<Longrightarrow> find P xs = Some b"
proof (induction xs)
  case (Cons x xs)
  show ?case
  proof (cases "P x")
    case True
    then have "x = b" by (rule Cons.prems(3) [of x, rotated]) simp
    with True show ?thesis by simp
  next
    case False
    then have "b \<in> set xs" using Cons.prems(1,2) by auto
    then have "find P xs = Some b" by (rule Cons.IH [OF _ Cons.prems(2)]) (rule Cons.prems(3), auto)
    with False show ?thesis by simp
  qed
qed simp

text \<open>A marker stays a marker when text is appended, so cutting text off at the end makes no new one.\<close>

lemma match_brand_append:
  assumes "match_brand s = Some r" "r \<noteq> []"
  shows "match_brand (s @ w) = Some (r @ w)"
proof -
  from assms(1) obtain b where b: "b \<in> set BRANDS" "match_ci b s = Some r" "word_boundary r"
    by (auto simp: match_brand_def find_Some_iff split: option.splits) (metis nth_mem)
  have wb: "word_boundary (r @ w)" using b(3) assms(2) by (cases r) (auto simp: word_boundary_def)
  have m: "match_ci b (s @ w) = Some (r @ w)" using b(2) by (rule match_ci_append)
  have "x = b" if x: "x \<in> set BRANDS" "match_ci x (s @ w) = Some y" for x y
  proof -
    have "x \<noteq> []" "b \<noteq> []" using x(1) b(1) by (auto simp: BRANDS_def js_def)
    then have "hd x = hd b" using match_ci_hd [OF x(2)] match_ci_hd [OF m] by simp
    moreover have "x = js ''waykeep'' \<or> x = js ''cairn''" "b = js ''waykeep'' \<or> b = js ''cairn''"
      using x(1) b(1) by (simp_all add: BRANDS_def)
    ultimately show ?thesis by (elim disjE) (simp_all add: js_def)
  qed
  then have "find (\<lambda>x. case match_ci x (s @ w) of Some rest \<Rightarrow> word_boundary rest | None \<Rightarrow> False) BRANDS = Some b"
    using find_unique [OF b(1)] m wb by (fastforce split: option.splits)
  then show ?thesis by (simp add: match_brand_def m)
qed

lemma marker_once_append:
  assumes "marker_once s = Some x"
  shows "marker_once (s @ w) \<noteq> None"
proof -
  from assms obtain t body rest where d: "dropWhile is_space s = 91 # t"
    and b: "match_brand (dropWhile is_space t) = Some body"
    and c: "dropWhile (\<lambda>v. v \<noteq> 93 \<and> v \<noteq> 10) body = 93 # rest"
    by (auto simp: marker_once_def split: list.splits option.splits if_splits)
  have app: "dropWhile P (xs @ w) = dropWhile P xs @ w" if "dropWhile P xs \<noteq> []" for P :: "nat \<Rightarrow> bool" and xs
    using that by (induction xs) auto
  have body: "body \<noteq> []" using c by auto
  have t: "dropWhile is_space t \<noteq> []"
  proof
    assume "dropWhile is_space t = []"
    with b body match_brand_shorter [of "[]" body] show False by simp
  qed
  have "dropWhile is_space (s @ w) = 91 # (t @ w)" using app [of is_space s] d by simp
  moreover have "match_brand (dropWhile is_space (t @ w)) = Some (body @ w)"
    using app [of is_space t] t match_brand_append [OF b body] by simp
  moreover have "dropWhile (\<lambda>v. v \<noteq> 93 \<and> v \<noteq> 10) (body @ w) = 93 # (rest @ w)"
    using app [of "\<lambda>v. v \<noteq> 93 \<and> v \<noteq> 10" body] c by simp
  ultimately show ?thesis by (simp add: marker_once_def)
qed

lemma trim_prefix: "\<exists>w. trim_start s = trim s @ w"
proof -
  let ?t = "trim_start s"
  have "rev ?t = takeWhile is_space (rev ?t) @ dropWhile is_space (rev ?t)" by simp
  then have "?t = rev (dropWhile is_space (rev ?t)) @ rev (takeWhile is_space (rev ?t))"
    by (metis rev_append rev_rev_ident)
  then show ?thesis by (auto simp: trim_def trim_start_def)
qed

section \<open>Properties\<close>

text \<open>C28. Neutralized text cannot impersonate the system voice: whatever the input, the text that is
  stored and rendered does not begin with a brand marker (in any case, with any white space), keeps
  no control character other than tab, newline and carriage return, no zero-width character that
  could split a marker, and invents no character.\<close>

theorem neutralized_no_marker:
  "marker_once (neutralizeMemoryText input) = None \<and>
    (\<forall>u\<in>set (neutralizeMemoryText input). u \<in> set input \<and> \<not> is_stripped_control u \<and> \<not> is_zero_width u)"
proof
  let ?t = "strip_markers (filter (\<lambda>u. \<not> is_zero_width u) (strip_controls input))"
  obtain w where w: "trim_start ?t = trim ?t @ w" using trim_prefix by blast
  have n: "marker_once (trim_start ?t) = None" by (simp add: marker_trim_start strip_markers_none)
  show "marker_once (neutralizeMemoryText input) = None"
  proof (cases "marker_once (trim ?t)")
    case (Some x)
    from marker_once_append [OF this, of w] n w show ?thesis by simp
  qed (simp add: neutralizeMemoryText_def)
  show "\<forall>u\<in>set (neutralizeMemoryText input). u \<in> set input \<and> \<not> is_stripped_control u \<and> \<not> is_zero_width u"
    using neutralize_units by blast
qed

lemma neutralized_no_marker_witness:
  "neutralizeMemoryText (js '' [Way'' @ [8203] @ js ''Keep x] [ cairn]ok '') = js ''ok'' \<and>
    marker_once (neutralizeMemoryText (js '' [Way'' @ [8203] @ js ''Keep x] [ cairn]ok '')) = None"
proof
  show "neutralizeMemoryText (js '' [Way'' @ [8203] @ js ''Keep x] [ cairn]ok '') = js ''ok''"
    by (simp add: neutralizeMemoryText_def js_def strip_controls_def is_stripped_control_def is_zero_width_def
        strip_markers.simps marker_once_def is_space_def match_brand_def match_ci_def BRANDS_def lower_unit_def
        is_upper_def word_boundary_def is_word_unit_def is_alnum_def is_digit_def is_lower_def trim_def trim_start_def)
  show "marker_once (neutralizeMemoryText (js '' [Way'' @ [8203] @ js ''Keep x] [ cairn]ok '')) = None"
    using neutralized_no_marker by blast
qed

end
