(* ===== verification/Projection.thy ===== *)
theory Projection
  imports Text_Cleaning Round_Trip Entity_Map
begin

text \<open>
  The projection domain of \<open>src/db/sync-apply/projection.ts\<close>: what of a replicated record is stored
  (\<open>projectPayload\<close>) and hashed, and the hash of a row as it is stored (\<open>projectionHashOfRow\<close>).

  \<open>scrubSecrets\<close> is the field \<open>scrub\<close> of the host.  Tags of a row are whatever its JSON column parses
  to; spreading and sorting them follows the runtime (elements sort by their string form, a string
  spreads into its code points, other values are not iterable).
\<close>

section \<open>Cleaning\<close>

definition clean :: "host \<Rightarrow> jstr \<Rightarrow> jstr" where
  "clean h text = scrub h (neutralizeMemoryText (sanitize text))"

fun cleanDeep :: "host \<Rightarrow> json \<Rightarrow> json" where
  "cleanDeep h (JStr s) = JStr (clean h s)"
| "cleanDeep h (JArr vs) = JArr (map (cleanDeep h) vs)"
| "cleanDeep h (JObj kvs) = JObj (map (\<lambda>(k, v). (k, cleanDeep h v)) kvs)"
| "cleanDeep h v = v"

section \<open>The projection fields\<close>

record projection_fields =
  pj_kind :: memory_kind
  pj_project :: "jstr option"
  pj_content :: jstr
  pj_tags :: "json list"
  pj_context :: json
  pj_anchor :: "jstr option"

text \<open>The own string members \<open>why\<close> and \<open>how_to_apply\<close> of a context, in this order, each passed through
  \<open>f\<close>; an object without either is \<open>null\<close>.\<close>

definition string_member :: "(jstr \<Rightarrow> jstr) \<Rightarrow> jstr \<Rightarrow> (jstr \<times> json) list \<Rightarrow> (jstr \<times> json) list" where
  "string_member f k kvs = (case obj_get k kvs of Some (JStr s) \<Rightarrow> [(k, JStr (f s))] | _ \<Rightarrow> [])"

definition context_fields :: "(jstr \<Rightarrow> jstr) \<Rightarrow> json \<Rightarrow> json" where
  "context_fields f ctx = (case ctx of
      JObj kvs \<Rightarrow> (let ms = string_member f (js ''why'') kvs @ string_member f (js ''how_to_apply'') kvs
        in if ms = [] then JNull else JObj ms)
    | _ \<Rightarrow> JNull)"

definition projectPayload :: "host \<Rightarrow> portable_record \<Rightarrow> projection_fields" where
  "projectPayload h r = \<lparr> pj_kind = p_kind r, pj_project = p_project r, pj_content = clean h (p_content r),
     pj_tags = map JStr (sort (map (clean h) (p_tags r))), pj_context = context_fields (clean h) (p_context r),
     pj_anchor = map_option (clean h) (p_anchor r) \<rparr>"

text \<open>\<open>String(v)\<close>, by which \<open>sort\<close> without a comparator orders.\<close>

fun js_string :: "num_codec \<Rightarrow> json \<Rightarrow> jstr" and js_elem :: "num_codec \<Rightarrow> json \<Rightarrow> jstr" where
  "js_string n JNull = js ''null''"
| "js_string n (JBool b) = (if b then js ''true'' else js ''false'')"
| "js_string n (JNum x) = show_num n x"
| "js_string n (JStr s) = s"
| "js_string n (JArr vs) = join [44] (map (js_elem n) vs)"
| "js_string n (JObj kvs) = js ''[object Object]''"
| "js_elem n v = (if v = JNull then [] else js_string n v)"

definition canonicalRowBytes :: "host \<Rightarrow> projection_fields \<Rightarrow> jstr" where
  "canonicalRowBytes h f = canonicalJson (nums h) (JObj
     [(js ''anchor'', nullable (pj_anchor f)), (js ''content'', JStr (pj_content f)), (js ''context'', pj_context f),
      (js ''kind'', JStr (kind_str (pj_kind f))), (js ''project'', nullable (pj_project f)),
      (js ''tags'', JArr (sort_key (js_string (nums h)) (pj_tags f)))])"

definition hashCanonical :: "host \<Rightarrow> jstr \<Rightarrow> jstr" where
  "hashCanonical h bytes = sha256 h (utf8_encode bytes)"

definition projectionHashOfPayload :: "host \<Rightarrow> portable_record \<Rightarrow> jstr" where
  "projectionHashOfPayload h r = hashCanonical h (canonicalRowBytes h (projectPayload h r))"

section \<open>The local side\<close>

definition isRowOptedOut :: "jstr \<Rightarrow> db \<Rightarrow> bool" where
  "isRowOptedOut i d \<longleftrightarrow> (case row_of d i of None \<Rightarrow> False | Some r \<Rightarrow> r_share_state r = Some Local)"

definition isLocallyRetracted :: "jstr \<Rightarrow> db \<Rightarrow> bool" where
  "isLocallyRetracted i d \<longleftrightarrow> (case row_of d i of None \<Rightarrow> False
     | Some r \<Rightarrow> r_invalidated r = 1 \<or> r_superseded_by r \<noteq> None)"

text \<open>The code points a string spreads into.\<close>

fun code_points :: "jstr \<Rightarrow> jstr list" where
  "code_points (u # v # s) = (if is_high u \<and> is_low v then [u, v] # code_points s else [u] # code_points (v # s))"
| "code_points [u] = [[u]]"
| "code_points [] = []"

text \<open>\<open>[...(row.tags ? JSON.parse(row.tags) : [])]\<close>\<close>

definition row_tags :: "host \<Rightarrow> jstr option \<Rightarrow> apply_error + json list" where
  "row_tags h col = (case parse_column h (JArr []) col of
      None \<Rightarrow> Inl (Js_Error ''SyntaxError'')
    | Some (JArr vs) \<Rightarrow> Inr vs
    | Some (JStr s) \<Rightarrow> Inr (map JStr (code_points s))
    | Some _ \<Rightarrow> Inl (Js_Error ''TypeError''))"

text \<open>A malformed context participates as null.\<close>

definition row_context :: "host \<Rightarrow> jstr option \<Rightarrow> json" where
  "row_context h col = (case parse_column h JNull col of None \<Rightarrow> JNull | Some v \<Rightarrow> context_fields (\<lambda>s. s) v)"

definition row_fields :: "host \<Rightarrow> memory_row \<Rightarrow> apply_error + projection_fields" where
  "row_fields h r = bindE (row_tags h (r_tags r)) (\<lambda>tags.
     Inr \<lparr> pj_kind = r_kind r, pj_project = r_project r, pj_content = r_content r, pj_tags = tags,
           pj_context = row_context h (r_context r), pj_anchor = r_anchor r \<rparr>)"

definition row_hash :: "host \<Rightarrow> memory_row \<Rightarrow> apply_error + jstr" where
  "row_hash h r = bindE (row_fields h r) (\<lambda>f. Inr (hashCanonical h (canonicalRowBytes h f)))"

definition projectionHashOfRow :: "host \<Rightarrow> jstr \<Rightarrow> db \<Rightarrow> apply_error + jstr option" where
  "projectionHashOfRow h i d = (case row_of d i of
      None \<Rightarrow> Inr None
    | Some r \<Rightarrow> bindE (row_hash h r) (\<lambda>x. Inr (Some x)))"

section \<open>Facts\<close>

text \<open>What is assumed of the secret scrubber: it maps strings to strings.\<close>

definition host_text_ok :: "host \<Rightarrow> bool" where
  "host_text_ok h \<longleftrightarrow> (\<forall>s. js_ok s \<longrightarrow> js_ok (scrub h s))"

lemma clean_js_ok: "host_text_ok h \<Longrightarrow> js_ok s \<Longrightarrow> js_ok (clean h s)"
  by (simp add: clean_def host_text_ok_def neutralize_js_ok sanitize_js_ok)

lemma context_fields_idem: "context_fields (\<lambda>s. s) (context_fields f ctx) = context_fields f ctx"
  by (auto simp: context_fields_def string_member_def Let_def js_def split: json.splits option.splits)

lemma context_fields_ok:
  assumes "json_ok n ctx" "\<And>s. js_ok s \<Longrightarrow> js_ok (f s)"
  shows "json_ok n (context_fields f ctx)"
proof -
  have str: "obj_get k kvs = Some (JStr s) \<Longrightarrow> json_ok n (JObj kvs) \<Longrightarrow> js_ok s" for k kvs s
    by (induction kvs) (auto split: if_splits)
  show ?thesis
    using assms str by (fastforce simp: context_fields_def string_member_def Let_def js_def split: json.splits option.splits)
qed

lemma context_fields_shape: "context_fields f ctx = JNull \<or> (\<exists>kvs. context_fields f ctx = JObj kvs)"
  by (auto simp: context_fields_def Let_def split: json.splits)

lemma sort_tags [simp]: "sort_key (js_string n) (map JStr xs) = map JStr (sort xs)"
proof -
  have i: "insort_key (js_string n) (JStr x) (map JStr ys) = map JStr (insort x ys)" for x ys
    by (induction ys) auto
  show ?thesis by (induction xs) (auto simp: i)
qed

lemma projectionHashOfRow_row: "row_of d i = Some r \<Longrightarrow> projectionHashOfRow h i d = bindE (row_hash h r) (\<lambda>x. Inr (Some x))"
  by (simp add: projectionHashOfRow_def)

lemma projectionHashOfRow_cong: "row_of d i = row_of d' i \<Longrightarrow> projectionHashOfRow h i d = projectionHashOfRow h i d'"
  by (simp add: projectionHashOfRow_def)

text \<open>The hash sees only the projection fields.\<close>

lemma row_hash_cong:
  "r_kind r = r_kind s \<Longrightarrow> r_project r = r_project s \<Longrightarrow> r_content r = r_content s \<Longrightarrow> r_tags r = r_tags s \<Longrightarrow>
    r_context r = r_context s \<Longrightarrow> r_anchor r = r_anchor s \<Longrightarrow> row_hash h r = row_hash h s"
  by (simp add: row_hash_def row_fields_def)

end
