(* ===== verification/Sync_Validator.thy ===== *)
theory Sync_Validator
  imports Projection
begin

text \<open>
  The fail-closed validation of an inbound event batch, \<open>src/db/sync-apply/validator.ts\<close>, with the wire
  shapes of \<open>packages/contract/src/sync-envelope.ts\<close>.

  An event arrives as a \<open>json\<close> value.  The code checks it and then uses it under its declared type;
  here the check answers the typed event, so \<open>validateEventShape\<close> is validation and cast in one.  The
  sequence of checks is that of the code, each with its own error tag.
\<close>

section \<open>Events\<close>

record envelope =
  env_entity :: jstr
  env_version :: int
  env_payload :: jstr
  env_hash :: jstr
  env_author :: jstr
  env_contributors :: "jstr list"
  env_origin :: jstr
  env_created :: jstr
  env_updated :: jstr

record tombstone_event =
  te_entity :: jstr
  te_version :: int
  te_by :: jstr
  te_at :: jstr

record alias_event =
  ae_from :: jstr
  ae_to :: jstr
  ae_version :: int

record open_event =
  oe_set :: jstr
  oe_members :: "jstr list"
  oe_reason :: conflict_reason
  oe_by :: jstr

record resolve_event =
  re_set :: jstr
  re_canonical :: envelope
  re_tombstoned :: "jstr list"
  re_contributors :: "jstr list"

datatype sync_event =
    Ev_Upsert (ev_seq: int) envelope
  | Ev_Tombstone (ev_seq: int) tombstone_event
  | Ev_Alias (ev_seq: int) alias_event
  | Ev_Conflict_Open (ev_seq: int) open_event
  | Ev_Resolve (ev_seq: int) resolve_event

section \<open>Bounds\<close>

definition MAX_EVENTS_PER_BATCH :: nat where "MAX_EVENTS_PER_BATCH = 500"
definition MAX_PAYLOAD_BYTES :: nat where "MAX_PAYLOAD_BYTES = 65536"
definition MAX_CONTRIBUTORS :: nat where "MAX_CONTRIBUTORS = 64"
definition MAX_MEMBER_IDS :: nat where "MAX_MEMBER_IDS = 32"
definition MAX_ID_LENGTH :: nat where "MAX_ID_LENGTH = 128"
definition MAX_ANCHOR_CHARS :: nat where "MAX_ANCHOR_CHARS = 4096"
definition MAX_TAGS :: nat where "MAX_TAGS = 5"
definition MAX_CONTENT_CHARS :: nat where "MAX_CONTENT_CHARS = 2000"

lemmas sync_bounds = MAX_EVENTS_PER_BATCH_def MAX_PAYLOAD_BYTES_def MAX_CONTRIBUTORS_def MAX_MEMBER_IDS_def
  MAX_ID_LENGTH_def MAX_ANCHOR_CHARS_def MAX_TAGS_def MAX_CONTENT_CHARS_def

section \<open>Field checks\<close>

text \<open>\<open>^[A-Za-z0-9._@-]{1,128}$\<close>\<close>

definition IDENTITY_TOKEN :: "jstr \<Rightarrow> bool" where
  "IDENTITY_TOKEN s \<longleftrightarrow> 1 \<le> length s \<and> length s \<le> MAX_ID_LENGTH \<and>
     list_all (\<lambda>u. is_alnum u \<or> u = 46 \<or> u = 95 \<or> u = 64 \<or> u = 45) s"

definition bounded_id :: "jstr \<Rightarrow> bool" where
  "bounded_id s \<longleftrightarrow> length s \<noteq> 0 \<and> length s \<le> MAX_ID_LENGTH"

definition check_string :: "(jstr \<Rightarrow> bool) \<Rightarrow> json option \<Rightarrow> string \<Rightarrow> apply_error + jstr" where
  "check_string P v label = (case v of
      Some (JStr s) \<Rightarrow> if P s then Inr s else Inl (ApplyValidationError label)
    | _ \<Rightarrow> Inl (ApplyValidationError label))"

definition assertIdentityToken :: "json option \<Rightarrow> string \<Rightarrow> apply_error + jstr" where
  "assertIdentityToken v label = check_string IDENTITY_TOKEN v label"

definition assertBoundedId :: "json option \<Rightarrow> string \<Rightarrow> apply_error + jstr" where
  "assertBoundedId v label = check_string bounded_id v label"

definition isSafePositiveInt :: "json option \<Rightarrow> int option" where
  "isSafePositiveInt v = (case v of
      Some (JNum n) \<Rightarrow> (case safe_int n of Some i \<Rightarrow> if 0 < i then Some i else None | None \<Rightarrow> None)
    | _ \<Rightarrow> None)"

definition check_int :: "json option \<Rightarrow> string \<Rightarrow> apply_error + int" where
  "check_int v label = (case isSafePositiveInt v of
      Some i \<Rightarrow> Inr i | None \<Rightarrow> Inl (ApplyValidationError label))"

text \<open>An array of strings with a length bound, each of which satisfies \<open>P\<close>.\<close>

definition check_strings :: "(jstr \<Rightarrow> bool) \<Rightarrow> nat \<Rightarrow> nat \<Rightarrow> json option \<Rightarrow> string \<Rightarrow> apply_error + jstr list" where
  "check_strings P lo hi v label = (case Option.bind v str_array_of of
      Some xs \<Rightarrow> if lo \<le> length xs \<and> length xs \<le> hi \<and> list_all P xs then Inr xs
        else Inl (ApplyValidationError label)
    | None \<Rightarrow> Inl (ApplyValidationError label))"

section \<open>Shapes\<close>

definition version_is :: "json option \<Rightarrow> int \<Rightarrow> bool" where
  "version_is v k \<longleftrightarrow> v = Some (JNum (Fin (of_int k)))"

definition validateEnvelopeShape :: "json option \<Rightarrow> apply_error + envelope" where
  "validateEnvelopeShape env = (case env of
      Some (JObj e) \<Rightarrow>
        bindE (assertBoundedId (obj_get (js ''entity_id'') e) ''entity_id'') (\<lambda>entity.
        bindE (check_int (obj_get (js ''entity_version'') e) ''entity_version'') (\<lambda>version.
        bindE (check_string (\<lambda>s. byte_length s \<le> MAX_PAYLOAD_BYTES) (obj_get (js ''payload'') e) ''payload'') (\<lambda>payload.
        bindE (assertBoundedId (obj_get (js ''canonical_content_hash'') e) ''canonical_content_hash'') (\<lambda>hash.
        bindE (ensure (version_is (obj_get (js ''canonicalization_version'') e) CANONICALIZATION_VERSION \<and>
            version_is (obj_get (js ''hash_version'') e) CONTENT_HASH_VERSION)
          (ApplyValidationError ''unsupported version'')) (\<lambda>_.
        bindE (assertIdentityToken (obj_get (js ''author'') e) ''author'') (\<lambda>author.
        bindE (check_strings IDENTITY_TOKEN 0 MAX_CONTRIBUTORS (obj_get (js ''contributors'') e) ''contributors'') (\<lambda>contributors.
        bindE (assertIdentityToken (obj_get (js ''origin_client'') e) ''origin_client'') (\<lambda>origin.
        bindE (check_string (\<lambda>_. True) (obj_get (js ''created_at'') e) ''created_at/updated_at'') (\<lambda>created.
        bindE (check_string (\<lambda>_. True) (obj_get (js ''updated_at'') e) ''created_at/updated_at'') (\<lambda>updated.
        Inr \<lparr> env_entity = entity, env_version = version, env_payload = payload, env_hash = hash,
              env_author = author, env_contributors = contributors, env_origin = origin,
              env_created = created, env_updated = updated \<rparr>))))))))))
    | _ \<Rightarrow> Inl (ApplyValidationError ''envelope is not an object''))"

definition validate_tombstone :: "(jstr \<times> json) list \<Rightarrow> apply_error + tombstone_event" where
  "validate_tombstone raw =
     bindE (assertBoundedId (obj_get (js ''entity_id'') raw) ''tombstone entity_id'') (\<lambda>entity.
     bindE (check_int (obj_get (js ''entity_version'') raw) ''tombstone entity_version'') (\<lambda>version.
     bindE (assertBoundedId (obj_get (js ''deleted_by'') raw) ''tombstone deleted_by'') (\<lambda>deleted_by.
     bindE (check_string bounded_id (obj_get (js ''deleted_at'') raw) ''tombstone deleted_at'') (\<lambda>deleted_at.
     Inr \<lparr> te_entity = entity, te_version = version, te_by = deleted_by, te_at = deleted_at \<rparr>))))"

definition validate_alias :: "(jstr \<times> json) list \<Rightarrow> apply_error + alias_event" where
  "validate_alias raw =
     bindE (assertBoundedId (obj_get (js ''from_entity_id'') raw) ''alias from_entity_id'') (\<lambda>from_id.
     bindE (assertBoundedId (obj_get (js ''to_entity_id'') raw) ''alias to_entity_id'') (\<lambda>to_id.
     bindE (ensure (from_id \<noteq> to_id) (ApplyValidationError ''alias cannot target itself'')) (\<lambda>_.
     bindE (check_int (obj_get (js ''as_of_version'') raw) ''alias as_of_version'') (\<lambda>version.
     Inr \<lparr> ae_from = from_id, ae_to = to_id, ae_version = version \<rparr>))))"

definition check_reason :: "json option \<Rightarrow> apply_error + conflict_reason" where
  "check_reason v = (case Option.bind (string_prop v) isConflictReason of
      Some r \<Rightarrow> Inr r | None \<Rightarrow> Inl (ApplyValidationError ''unknown conflict reason''))"

definition validate_open :: "(jstr \<times> json) list \<Rightarrow> apply_error + open_event" where
  "validate_open raw =
     bindE (assertBoundedId (obj_get (js ''conflict_set_id'') raw) ''conflict_set_id'') (\<lambda>set_id.
     bindE (check_strings bounded_id 2 MAX_MEMBER_IDS (obj_get (js ''member_entity_ids'') raw) ''member_entity_ids'') (\<lambda>members.
     bindE (check_reason (obj_get (js ''reason'') raw)) (\<lambda>reason.
     bindE (assertBoundedId (obj_get (js ''opened_by'') raw) ''opened_by'') (\<lambda>opened_by.
     Inr \<lparr> oe_set = set_id, oe_members = members, oe_reason = reason, oe_by = opened_by \<rparr>))))"

definition validate_resolve :: "(jstr \<times> json) list \<Rightarrow> apply_error + resolve_event" where
  "validate_resolve raw =
     bindE (assertBoundedId (obj_get (js ''conflict_set_id'') raw) ''conflict_set_id'') (\<lambda>set_id.
     bindE (validateEnvelopeShape (obj_get (js ''canonical'') raw)) (\<lambda>canonical.
     bindE (check_strings bounded_id 0 MAX_MEMBER_IDS (obj_get (js ''tombstoned_entity_ids'') raw) ''tombstoned_entity_ids'') (\<lambda>tombstoned.
     bindE (check_strings bounded_id 0 MAX_CONTRIBUTORS (obj_get (js ''contributors'') raw) ''resolve contributors'') (\<lambda>contributors.
     Inr \<lparr> re_set = set_id, re_canonical = canonical, re_tombstoned = tombstoned, re_contributors = contributors \<rparr>))))"

definition validateEventShape :: "jstr \<Rightarrow> (jstr \<times> json) list \<Rightarrow> apply_error + sync_event" where
  "validateEventShape type raw =
     bindE (check_int (obj_get (js ''seq'') raw) ''event seq'') (\<lambda>seq.
       if type = js ''upsert'' then
         bindE (validateEnvelopeShape (obj_get (js ''entity'') raw)) (\<lambda>e. Inr (Ev_Upsert seq e))
       else if type = js ''tombstone'' then bindE (validate_tombstone raw) (\<lambda>e. Inr (Ev_Tombstone seq e))
       else if type = js ''alias'' then bindE (validate_alias raw) (\<lambda>e. Inr (Ev_Alias seq e))
       else if type = js ''conflict-open'' then bindE (validate_open raw) (\<lambda>e. Inr (Ev_Conflict_Open seq e))
       else bindE (validate_resolve raw) (\<lambda>e. Inr (Ev_Resolve seq e)))"

section \<open>Batches\<close>

definition validate_one :: "json \<Rightarrow> apply_error + sync_event" where
  "validate_one ev = (case ev of
      JObj raw \<Rightarrow> (case Option.bind (string_prop (obj_get (js ''type'') raw))
            (\<lambda>t. if isSyncEventType t then Some t else None) of
          None \<Rightarrow> Inl (ApplyValidationError ''unknown event type'')
        | Some t \<Rightarrow> validateEventShape t raw)
    | _ \<Rightarrow> Inl (ApplyValidationError ''event must be an object''))"

text \<open>The loop, with the sequences seen so far.\<close>

fun validate_events :: "int list \<Rightarrow> json list \<Rightarrow> apply_error + sync_event list" where
  "validate_events seqs [] = Inr []"
| "validate_events seqs (ev # evs) =
     bindE (validate_one ev) (\<lambda>e.
     bindE (ensure (ev_seq e \<notin> set seqs) (ApplyValidationError ''duplicate seq'')) (\<lambda>_.
     bindE (validate_events (ev_seq e # seqs) evs) (\<lambda>es. Inr (e # es))))"

definition validateBatch :: "json list \<Rightarrow> apply_error + sync_event list" where
  "validateBatch events =
     bindE (ensure (length events \<le> MAX_EVENTS_PER_BATCH) (ApplyValidationError ''batch too large'')) (\<lambda>_.
       validate_events [] events)"

section \<open>Payloads\<close>

definition validatePayload :: "host \<Rightarrow> envelope \<Rightarrow> jstr \<Rightarrow> apply_error + portable_record" where
  "validatePayload h env project = (case json_parse (nums h) (env_payload env) of
      None \<Rightarrow> Inl (ApplyValidationError ''payload is not valid JSON'')
    | Some parsed \<Rightarrow>
        bindE (ensure (hashCanonical h (canonicalJson (nums h) parsed) = env_hash env)
          (ApplyValidationError ''canonical_content_hash'')) (\<lambda>_.
        bindE (case validateRecordPayload parsed of Inl e \<Rightarrow> Inl (Js_Error e) | Inr r \<Rightarrow> Inr r) (\<lambda>record.
        bindE (ensure (p_id record \<noteq> None) (ApplyValidationError ''payload record carries no id'')) (\<lambda>_.
        bindE (ensure (p_kind record \<in> set SHAREABLE_KINDS) (ApplyValidationError ''kind is not team-shareable'')) (\<lambda>_.
        bindE (ensure (length (p_content record) \<le> MAX_CONTENT_CHARS) (ApplyValidationError ''content'')) (\<lambda>_.
        bindE (ensure (length (p_tags record) \<le> MAX_TAGS \<and> list_all (\<lambda>t. length t \<le> MAX_ID_LENGTH) (p_tags record))
          (ApplyValidationError ''tags'')) (\<lambda>_.
        bindE (ensure (case p_anchor record of None \<Rightarrow> True | Some a \<Rightarrow> length a \<le> MAX_ANCHOR_CHARS)
          (ApplyValidationError ''anchor'')) (\<lambda>_.
        bindE (ensure (p_project record = Some project) (ApplyValidationError ''project'')) (\<lambda>_.
        Inr record)))))))))"

section \<open>Well-formed events\<close>

definition safe_pos :: "int \<Rightarrow> bool" where
  "safe_pos i \<longleftrightarrow> 0 < i \<and> i \<le> 9007199254740991"

definition tokens_ok :: "(jstr \<Rightarrow> bool) \<Rightarrow> nat \<Rightarrow> nat \<Rightarrow> jstr list \<Rightarrow> bool" where
  "tokens_ok P lo hi xs \<longleftrightarrow> lo \<le> length xs \<and> length xs \<le> hi \<and> list_all P xs"

definition envelope_ok :: "envelope \<Rightarrow> bool" where
  "envelope_ok e \<longleftrightarrow> bounded_id (env_entity e) \<and> safe_pos (env_version e) \<and>
     byte_length (env_payload e) \<le> MAX_PAYLOAD_BYTES \<and> bounded_id (env_hash e) \<and> IDENTITY_TOKEN (env_author e) \<and>
     tokens_ok IDENTITY_TOKEN 0 MAX_CONTRIBUTORS (env_contributors e) \<and> IDENTITY_TOKEN (env_origin e)"

fun event_ok :: "sync_event \<Rightarrow> bool" where
  "event_ok (Ev_Upsert q e) \<longleftrightarrow> safe_pos q \<and> envelope_ok e"
| "event_ok (Ev_Tombstone q e) \<longleftrightarrow> safe_pos q \<and> bounded_id (te_entity e) \<and> safe_pos (te_version e) \<and>
     bounded_id (te_by e) \<and> bounded_id (te_at e)"
| "event_ok (Ev_Alias q e) \<longleftrightarrow> safe_pos q \<and> bounded_id (ae_from e) \<and> bounded_id (ae_to e) \<and>
     ae_from e \<noteq> ae_to e \<and> safe_pos (ae_version e)"
| "event_ok (Ev_Conflict_Open q e) \<longleftrightarrow> safe_pos q \<and> bounded_id (oe_set e) \<and>
     tokens_ok bounded_id 2 MAX_MEMBER_IDS (oe_members e) \<and> bounded_id (oe_by e)"
| "event_ok (Ev_Resolve q e) \<longleftrightarrow> safe_pos q \<and> bounded_id (re_set e) \<and> envelope_ok (re_canonical e) \<and>
     tokens_ok bounded_id 0 MAX_MEMBER_IDS (re_tombstoned e) \<and> tokens_ok bounded_id 0 MAX_CONTRIBUTORS (re_contributors e)"

section \<open>The wire form of an event\<close>

definition wire_int :: "int \<Rightarrow> json" where
  "wire_int i = JNum (Fin (of_int i))"

definition wire_strings :: "jstr list \<Rightarrow> json" where
  "wire_strings xs = JArr (map JStr xs)"

definition wire_envelope :: "envelope \<Rightarrow> json" where
  "wire_envelope e = JObj [(js ''entity_id'', JStr (env_entity e)), (js ''entity_version'', wire_int (env_version e)),
     (js ''payload'', JStr (env_payload e)), (js ''canonical_content_hash'', JStr (env_hash e)),
     (js ''canonicalization_version'', wire_int CANONICALIZATION_VERSION), (js ''hash_version'', wire_int CONTENT_HASH_VERSION),
     (js ''author'', JStr (env_author e)), (js ''contributors'', wire_strings (env_contributors e)),
     (js ''origin_client'', JStr (env_origin e)), (js ''created_at'', JStr (env_created e)),
     (js ''updated_at'', JStr (env_updated e)), (js ''tombstoned'', JBool False)]"

fun wire_event :: "sync_event \<Rightarrow> json" where
  "wire_event (Ev_Upsert q e) = JObj [(js ''type'', JStr (js ''upsert'')), (js ''seq'', wire_int q), (js ''entity'', wire_envelope e)]"
| "wire_event (Ev_Tombstone q e) = JObj [(js ''type'', JStr (js ''tombstone'')), (js ''seq'', wire_int q),
     (js ''entity_id'', JStr (te_entity e)), (js ''entity_version'', wire_int (te_version e)),
     (js ''deleted_by'', JStr (te_by e)), (js ''deleted_at'', JStr (te_at e))]"
| "wire_event (Ev_Alias q e) = JObj [(js ''type'', JStr (js ''alias'')), (js ''seq'', wire_int q),
     (js ''from_entity_id'', JStr (ae_from e)), (js ''to_entity_id'', JStr (ae_to e)),
     (js ''as_of_version'', wire_int (ae_version e))]"
| "wire_event (Ev_Conflict_Open q e) = JObj [(js ''type'', JStr (js ''conflict-open'')), (js ''seq'', wire_int q),
     (js ''conflict_set_id'', JStr (oe_set e)), (js ''member_entity_ids'', wire_strings (oe_members e)),
     (js ''reason'', JStr (reason_str (oe_reason e))), (js ''opened_by'', JStr (oe_by e))]"
| "wire_event (Ev_Resolve q e) = JObj [(js ''type'', JStr (js ''resolve-commit'')), (js ''seq'', wire_int q),
     (js ''conflict_set_id'', JStr (re_set e)), (js ''canonical'', wire_envelope (re_canonical e)),
     (js ''tombstoned_entity_ids'', wire_strings (re_tombstoned e)), (js ''contributors'', wire_strings (re_contributors e))]"

section \<open>Facts\<close>

lemma check_string_Inr: "check_string P v l = Inr s \<longleftrightarrow> v = Some (JStr s) \<and> P s"
  by (auto simp: check_string_def split: option.splits json.splits)

lemma check_strings_Inr:
  "check_strings P lo hi v l = Inr xs \<longleftrightarrow> Option.bind v str_array_of = Some xs \<and> tokens_ok P lo hi xs"
  by (auto simp: check_strings_def tokens_ok_def split: option.splits)

lemma isSafePositiveInt_pos: "isSafePositiveInt v = Some i \<Longrightarrow> safe_pos i"
  by (auto simp: isSafePositiveInt_def safe_pos_def safe_int_def split: option.splits json.splits number.splits if_splits)

lemma check_int_Inr: "check_int v l = Inr i \<longleftrightarrow> isSafePositiveInt v = Some i"
  by (auto simp: check_int_def split: option.splits)

lemma check_wire_int [simp]: "safe_pos i \<Longrightarrow> check_int (Some (wire_int i)) l = Inr i"
  by (simp add: check_int_Inr wire_int_def isSafePositiveInt_def safe_int_def safe_pos_def)

lemma check_wire_strings [simp]: "tokens_ok P lo hi xs \<Longrightarrow> check_strings P lo hi (Some (wire_strings xs)) l = Inr xs"
  by (simp add: check_strings_Inr wire_strings_def)

lemma check_wire_string [simp]: "P s \<Longrightarrow> check_string P (Some (JStr s)) l = Inr s"
  by (simp add: check_string_Inr)

lemma check_wire_reason [simp]: "check_reason (Some (JStr (reason_str r))) = Inr r"
  by (cases r) (simp_all add: check_reason_def string_prop_def isConflictReason_def vocab_find_def)

lemmas check_Inr = check_string_Inr check_strings_Inr check_int_Inr assertIdentityToken_def assertBoundedId_def

lemma validateEnvelopeShape_ok: "validateEnvelopeShape v = Inr e \<Longrightarrow> envelope_ok e"
  by (auto simp: validateEnvelopeShape_def bindE_Inr_iff check_Inr envelope_ok_def isSafePositiveInt_pos
      split: option.splits json.splits)

lemma wire_envelope_accepted: "envelope_ok e \<Longrightarrow> validateEnvelopeShape (Some (wire_envelope e)) = Inr e"
  by (simp add: validateEnvelopeShape_def wire_envelope_def envelope_ok_def assertIdentityToken_def
      assertBoundedId_def version_is_def CANONICALIZATION_VERSION_def CONTENT_HASH_VERSION_def wire_int_def [of 1])

lemma validateEventShape_ok: "validateEventShape t raw = Inr e \<Longrightarrow> event_ok e"
  by (auto simp: validateEventShape_def validate_tombstone_def validate_alias_def validate_open_def
      validate_resolve_def bindE_Inr_iff check_Inr validateEnvelopeShape_ok isSafePositiveInt_pos split: if_splits)

lemma validate_one_ok: "validate_one ev = Inr e \<Longrightarrow> event_ok e"
  by (auto simp: validate_one_def validateEventShape_ok split: json.splits option.splits)

lemma validate_events_ok:
  "validate_events seqs evs = Inr es \<Longrightarrow>
    map validate_one evs = map Inr es \<and> list_all event_ok es \<and> distinct (map ev_seq es) \<and> set seqs \<inter> ev_seq ` set es = {}"
proof (induction seqs evs arbitrary: es rule: validate_events.induct)
  case (2 seqs ev evs)
  then obtain e es' where e: "validate_one ev = Inr e" "ev_seq e \<notin> set seqs"
    and r: "validate_events (ev_seq e # seqs) evs = Inr es'" and es: "es = e # es'"
    by (auto simp: bindE_Inr_iff)
  from 2(1) [OF r] e(2) have i: "map validate_one evs = map Inr es'" "list_all event_ok es'"
    "distinct (map ev_seq es')" "set (ev_seq e # seqs) \<inter> ev_seq ` set es' = {}" by auto
  then show ?case using e es validate_one_ok [OF e(1)] by auto
qed simp

lemma wire_event_accepted: "event_ok e \<Longrightarrow> validate_one (wire_event e) = Inr e"
  by (cases e) (simp_all add: validate_one_def string_prop_def isSyncEventType_def SYNC_EVENTS_def
      validateEventShape_def wire_envelope_accepted validate_tombstone_def validate_alias_def validate_open_def
      validate_resolve_def assertBoundedId_def)

lemma validate_wire:
  "list_all event_ok es \<Longrightarrow> distinct (map ev_seq es) \<Longrightarrow> set seqs \<inter> ev_seq ` set es = {} \<Longrightarrow>
    validate_events seqs (map wire_event es) = Inr es"
  by (induction es arbitrary: seqs) (auto simp: wire_event_accepted)

definition record_bounds :: "jstr \<Rightarrow> portable_record \<Rightarrow> bool" where
  "record_bounds project r \<longleftrightarrow> p_id r \<noteq> None \<and> shareable (p_kind r) \<and> length (p_content r) \<le> MAX_CONTENT_CHARS \<and>
     length (p_tags r) \<le> MAX_TAGS \<and> list_all (\<lambda>t. length t \<le> MAX_ID_LENGTH) (p_tags r) \<and>
     (case p_anchor r of None \<Rightarrow> True | Some a \<Rightarrow> length a \<le> MAX_ANCHOR_CHARS) \<and> p_project r = Some project"

lemma validatePayload_Inr:
  "validatePayload h env project = Inr r \<longleftrightarrow>
    (\<exists>v. json_parse (nums h) (env_payload env) = Some v \<and> env_hash env = hashCanonical h (canonicalJson (nums h) v) \<and>
      validateRecordPayload v = Inr r) \<and> record_bounds project r"
  by (auto simp: validatePayload_def bindE_Inr_iff shareable_def record_bounds_def split: option.splits sum.splits)

lemma payload_accepted:
  assumes "portable_ok h r" "record_bounds project r" "env_payload env = canonicalJson (nums h) (record_json r)"
    "env_hash env = hashCanonical h (canonicalJson (nums h) (sort_keys (record_json r)))"
  shows "validatePayload h env project = Inr (key_normal r)"
proof -
  have "json_ok (nums h) (record_json r)" using assms(1) by (simp add: portable_ok_def)
  from canonicalJson_parse [OF this] have "json_parse (nums h) (env_payload env) = Some (sort_keys (record_json r))"
    using assms(3) by simp
  moreover have "record_bounds project (key_normal r)" using assms(2) by (simp add: record_bounds_def key_normal_def)
  ultimately show ?thesis
    unfolding validatePayload_Inr using validate_record_json [OF assms(1)] assms(4) by blast
qed

section \<open>Properties\<close>



section \<open>Witnesses\<close>

definition sample_envelope :: envelope where
  "sample_envelope = \<lparr> env_entity = js ''e1'', env_version = 1,
     env_payload = canonicalJson (nums sample_host) (record_json sample_record),
     env_hash = hashCanonical sample_host (canonicalJson (nums sample_host) (sort_keys (record_json sample_record))),
     env_author = js ''acct'', env_contributors = [js ''acct''], env_origin = js ''claude'',
     env_created = js ''2026'', env_updated = js ''2026'' \<rparr>"

lemma sample_payload_valid: "validatePayload sample_host sample_envelope (js ''web'') = Inr (key_normal sample_record)"
  by (rule payload_accepted [OF sample_record_ok])
    (simp_all add: record_bounds_def sample_record_def sample_envelope_def sync_bounds js_def)



end
