(* ===== verification/Upsert_Apply.thy ===== *)
theory Upsert_Apply
  imports Sync_Validator
begin

text \<open>
  The upsert side of the transition table, \<open>src/db/sync-apply/upsert-apply.ts\<close>: rows T1, T2, T3, T4,
  T5, T8a, T8b and S8.  A handler answers an outcome and the new state, or the error that rolls the
  batch back; the state after an error is dropped by the caller.

  \<open>record.id!\<close> is \<open>record_id\<close>: the validator only lets records with an id through.
\<close>

section \<open>Inert projections\<close>

record inert_projection =
  i_record :: projection_fields
  i_confidence :: number
  i_source :: memory_source
  i_fingerprint :: json
  i_author :: jstr
  i_origin :: jstr
  i_created :: jstr
  i_updated :: jstr
  i_expires :: "jstr option"

definition buildInertProjection :: "host \<Rightarrow> envelope \<Rightarrow> portable_record \<Rightarrow> inert_projection" where
  "buildInertProjection h env r = \<lparr> i_record = projectPayload h r, i_confidence = p_confidence r,
     i_source = p_source r, i_fingerprint = (if p_fingerprint r = JNull then JNull else cleanDeep h (p_fingerprint r)),
     i_author = env_author env, i_origin = env_origin env, i_created = env_created env,
     i_updated = env_updated env, i_expires = p_expires_at r \<rparr>"

text \<open>\<open>JSON.stringify\<close> of the object, members in the order of the literal.\<close>

definition fields_json :: "projection_fields \<Rightarrow> json" where
  "fields_json f = JObj [(js ''kind'', JStr (kind_str (pj_kind f))), (js ''project'', nullable (pj_project f)),
     (js ''content'', JStr (pj_content f)), (js ''tags'', JArr (pj_tags f)), (js ''context'', pj_context f),
     (js ''anchor'', nullable (pj_anchor f))]"

definition inert_json :: "inert_projection \<Rightarrow> json" where
  "inert_json p = JObj [(js ''record'', fields_json (i_record p)), (js ''confidence'', JNum (i_confidence p)),
     (js ''source'', JStr (source_str (i_source p))), (js ''fingerprint'', i_fingerprint p),
     (js ''author'', JStr (i_author p)), (js ''origin_client'', JStr (i_origin p)),
     (js ''created_at'', JStr (i_created p)), (js ''updated_at'', JStr (i_updated p)),
     (js ''expires_at'', nullable (i_expires p))]"

definition inert_text :: "host \<Rightarrow> inert_projection \<Rightarrow> jstr" where
  "inert_text h p = stringify (nums h) (inert_json p)"

text \<open>\<open>v ? JSON.stringify(v) : null\<close> for an object or null.\<close>

definition json_column :: "host \<Rightarrow> json \<Rightarrow> jstr option" where
  "json_column h v = (if v = JNull then None else Some (stringify (nums h) v))"

definition tags_column :: "host \<Rightarrow> json list \<Rightarrow> jstr" where
  "tags_column h tags = stringify (nums h) (JArr tags)"

definition projected_row :: "host \<Rightarrow> jstr \<Rightarrow> inert_projection \<Rightarrow> memory_row" where
  "projected_row h i p = (let f = i_record p in
     \<lparr> r_id = i, r_content = pj_content f, r_kind = pj_kind f, r_project = pj_project f,
       r_tags = Some (tags_column h (pj_tags f)), r_confidence = i_confidence p, r_source = i_source p,
       r_created_at = i_created p, r_last_recalled = None, r_recall_count = 0, r_invalidated = 0,
       r_expires_at = i_expires p, r_surface_count = 0, r_impact_count = 0,
       r_fingerprint = json_column h (i_fingerprint p), r_context = json_column h (pj_context f),
       r_embedding = None, r_embedding_model = None, r_anchor = pj_anchor f, r_superseded_by = None,
       r_superseded_at = None, r_revision = 1, r_origin_client = i_origin p, r_author = Some (i_author p),
       r_updated_at = Some (i_updated p), r_share_state = None,
       r_last_decayed = None \<rparr>)"

definition insertProjectedRow :: "host \<Rightarrow> jstr \<Rightarrow> inert_projection \<Rightarrow> db \<Rightarrow> apply_error + db" where
  "insertProjectedRow h i p d = (case exec_insert (projected_row h i p) d of
      None \<Rightarrow> Inl (Js_Error ''SQLITE_CONSTRAINT_PRIMARYKEY'')
    | Some d' \<Rightarrow> Inr d')"

section \<open>Local intent\<close>

definition pending_entry :: "jstr \<Rightarrow> journal_entry \<Rightarrow> bool" where
  "pending_entry i j \<longleftrightarrow> j_memory j = i \<and> (j_class j = None \<or> j_class j = Some Deferred)"

definition hasUnpushedLocalIntent :: "host \<Rightarrow> jstr \<Rightarrow> jstr \<Rightarrow> db \<Rightarrow> apply_error + bool" where
  "hasUnpushedLocalIntent h i entry_hash d =
     bindE (projectionHashOfRow h i d) (\<lambda>localHash.
       Inr (localHash \<noteq> Some entry_hash \<or> isLocallyRetracted i d \<or> isRowOptedOut i d \<or>
            list_ex (pending_entry i) (journal d)))"

definition hasPendingVolatileIntent :: "jstr \<Rightarrow> db \<Rightarrow> bool" where
  "hasPendingVolatileIntent i d \<longleftrightarrow>
     list_ex (\<lambda>j. j_memory j = i \<and> (j_class j = None \<or> j_class j = Some Deferred \<or> j_class j = Some Enqueued)) (journal d)"

definition assertRebindLegal :: "host \<Rightarrow> jstr \<Rightarrow> jstr \<Rightarrow> jstr \<Rightarrow> db \<Rightarrow> apply_error + unit" where
  "assertRebindLegal h i project pHash d = (case row_of d i of
      None \<Rightarrow> Inr ()
    | Some r \<Rightarrow>
        bindE (if r_project r \<noteq> Some project then Inl (ApplyValidationError ''collision'')
               else bindE (projectionHashOfRow h i d) (\<lambda>x. ensure (x = Some pHash) (ApplyValidationError ''collision''))) (\<lambda>_.
        ensure (\<not> (r_invalidated r = 1 \<or> r_superseded_by r \<noteq> None)) (ApplyValidationError ''retired locally'')))"

definition storedHashes :: "host \<Rightarrow> envelope \<Rightarrow> projection_fields \<Rightarrow> jstr \<times> jstr" where
  "storedHashes h env projected = (env_hash env, hashCanonical h (canonicalRowBytes h projected))"

definition writeForkNotice :: "host \<Rightarrow> jstr \<Rightarrow> jstr \<Rightarrow> string \<Rightarrow> int \<Rightarrow> db \<Rightarrow> db" where
  "writeForkNotice h i entity path seq d = state_add (js ''fork-notice'') i
     (SText (stringify (nums h) (JObj [(js ''entity'', JStr entity), (js ''path'', JStr (js path)), (js ''seq'', wire_int seq)]))) d"

datatype event_outcome =
    Applied_New | Applied_Edit | Forked | Shadow_Associated | Twin_Inserted | Coexist_Conflict | Assoc_Refreshed
  | Replay_Noop | Tombstoned | Fork_Preserved | Assoc_Closed | Aliased | Conflict_Opened | Resolved

section \<open>The exact match\<close>

record exact_match =
  x_id :: jstr
  x_share :: "share_state option"
  x_bound :: "entity_entry option"

type_synonym match_classes = "exact_match list \<times> exact_match list \<times> exact_match list"

definition match_candidates :: "jstr \<Rightarrow> projection_fields \<Rightarrow> db \<Rightarrow> memory_row list" where
  "match_candidates project f d = sort_key r_id (filter (\<lambda>r. r_project r = Some project \<and>
     r_kind r = pj_kind f \<and> r_content r = pj_content f \<and> active r) (memories d))"

definition classify_candidate :: "host \<Rightarrow> jstr \<Rightarrow> db \<Rightarrow> memory_row \<Rightarrow> match_classes \<Rightarrow> apply_error + match_classes" where
  "classify_candidate h pHash d c classes =
     bindE (projectionHashOfRow h (r_id c) d) (\<lambda>x.
       let (bound, opted, free) = classes; m = \<lparr> x_id = r_id c, x_share = r_share_state c, x_bound = None \<rparr> in
       if x \<noteq> Some pHash then Inr classes
       else case getByLocalMemoryId (r_id c) d of
           Some e \<Rightarrow> if e_state e = Bound then Inr (bound @ [m\<lparr> x_bound := Some e \<rparr>], opted, free) else Inr classes
         | None \<Rightarrow> if r_share_state c = Some Local then Inr (bound, opted @ [m], free) else Inr (bound, opted, free @ [m]))"

definition first_match :: "match_classes \<Rightarrow> exact_match option" where
  "first_match classes = (case classes of (bound, opted, free) \<Rightarrow>
     (case bound @ opted @ free of [] \<Rightarrow> None | m # _ \<Rightarrow> Some m))"

definition selectExactMatch :: "host \<Rightarrow> jstr \<Rightarrow> projection_fields \<Rightarrow> jstr \<Rightarrow> db \<Rightarrow> apply_error + exact_match option" where
  "selectExactMatch h project f pHash d =
     bindE (foldE (classify_candidate h pHash d) (match_candidates project f d) ([], [], [])) (\<lambda>c. Inr (first_match c))"

section \<open>Applying\<close>

definition record_id :: "portable_record \<Rightarrow> jstr" where
  "record_id r = (case p_id r of Some i \<Rightarrow> i | None \<Rightarrow> [])"

definition upsert_binding :: "envelope \<Rightarrow> jstr \<Rightarrow> jstr \<Rightarrow> jstr \<Rightarrow> bind_input" where
  "upsert_binding env project localId ph = \<lparr> bi_entity = env_entity env, bi_local = localId, bi_project = project,
     bi_version = env_version env, bi_canonical = env_hash env, bi_projection = ph \<rparr>"

text \<open>\<open>bindEntity\<close> with the hash of the row as stored, then \<open>mergeContributors\<close>.\<close>

definition bind_as_stored :: "host \<Rightarrow> jstr \<Rightarrow> envelope \<Rightarrow> jstr \<Rightarrow> jstr \<Rightarrow> db \<Rightarrow> apply_error + db" where
  "bind_as_stored h project env localId ph d =
     bindE (projectionHashOfRow h localId d) (\<lambda>x.
     bindE (bindEntity h (upsert_binding env project localId (case x of Some y \<Rightarrow> y | None \<Rightarrow> ph)) d) (\<lambda>d1.
     Inr (mergeContributors (env_entity env) (env_contributors env) (env_version env) d1)))"

definition shadow_write :: "host \<Rightarrow> jstr \<Rightarrow> envelope \<Rightarrow> portable_record \<Rightarrow> jstr \<Rightarrow> jstr \<Rightarrow> db \<Rightarrow> apply_error + db" where
  "shadow_write h project env record localId ph d =
     writeShadowAssoc h (upsert_binding env project localId ph)
       (inert_text h (buildInertProjection h env record)) (env_contributors env) d"

text \<open>S8: an existing shadow association.\<close>

definition apply_shadow :: "host \<Rightarrow> jstr \<Rightarrow> envelope \<Rightarrow> portable_record \<Rightarrow> jstr \<Rightarrow> entity_entry \<Rightarrow> db \<Rightarrow>
    apply_error + (event_outcome \<times> db)" where
  "apply_shadow h project env record ph existing d =
     bindE (projectionHashOfRow h (e_local_id existing) d) (\<lambda>localHash.
       if localHash = Some ph then
         bindE (shadow_write h project env record (e_local_id existing) ph d) (\<lambda>d1. Inr (Assoc_Refreshed, d1))
       else
         let (s8Id, d1) = generateId h d in
         bindE (insertProjectedRow h s8Id (buildInertProjection h env record) d1) (\<lambda>d2.
         bindE (bind_as_stored h project env s8Id ph (closeEntry (env_entity env) d2)) (\<lambda>d3. Inr (Applied_Edit, d3))))"

text \<open>T3: the incoming edit becomes a new row, the local row is opted out and keeps a fork notice.\<close>

definition apply_fork :: "host \<Rightarrow> jstr \<Rightarrow> envelope \<Rightarrow> portable_record \<Rightarrow> jstr \<Rightarrow> entity_entry \<Rightarrow> db \<Rightarrow>
    apply_error + (event_outcome \<times> db)" where
  "apply_fork h project env record ph existing d =
     (let (forkId, d1) = generateId h d in
      bindE (insertProjectedRow h forkId (buildInertProjection h env record) d1) (\<lambda>d2.
        let d3 = exec_update_plain (has_id (e_local_id existing)) (\<lambda>r. r\<lparr> r_share_state := Some Local \<rparr>) d2;
            d4 = writeForkNotice h (e_local_id existing) (env_entity env) ''T3'' (env_version env) d3
        in bindE (bind_as_stored h project env forkId ph d4) (\<lambda>d5. Inr (Forked, d5))))"

text \<open>The SET lists of T2: the semantic columns, the embedding when the content changes, and the volatile
  columns unless a local change of them is pending.\<close>

definition set_semantic :: "host \<Rightarrow> projection_fields \<Rightarrow> memory_row \<Rightarrow> memory_row" where
  "set_semantic h f r = r\<lparr> r_content := pj_content f, r_kind := pj_kind f,
     r_tags := Some (tags_column h (pj_tags f)), r_context := json_column h (pj_context f), r_anchor := pj_anchor f,
     r_embedding := (if r_content r \<noteq> pj_content f then None else r_embedding r),
     r_embedding_model := (if r_content r \<noteq> pj_content f then None else r_embedding_model r) \<rparr>"

definition set_volatile :: "host \<Rightarrow> inert_projection \<Rightarrow> memory_row \<Rightarrow> memory_row" where
  "set_volatile h p r = r\<lparr> r_confidence := i_confidence p, r_source := i_source p,
     r_fingerprint := json_column h (i_fingerprint p), r_expires_at := i_expires p \<rparr>"

definition apply_edit :: "host \<Rightarrow> jstr \<Rightarrow> envelope \<Rightarrow> portable_record \<Rightarrow> jstr \<Rightarrow> entity_entry \<Rightarrow> db \<Rightarrow>
    apply_error + (event_outcome \<times> db)" where
  "apply_edit h project env record ph existing d =
     (let inert = buildInertProjection h env record; i = e_local_id existing;
          preserveVolatile = hasPendingVolatileIntent i d in
      case row_of d i of
        None \<Rightarrow> Inl (Js_Error ''TypeError'')
      | Some _ \<Rightarrow>
          (let d1 = exec_update h (has_id i) (\<lambda>r. let s = set_semantic h (projectPayload h record) r in
                      if preserveVolatile then s else set_volatile h inert s) d;
               d2 = exec_update_plain (has_id i) (\<lambda>r. r\<lparr> r_updated_at := Some (env_updated env) \<rparr>) d1
           in bindE (bind_as_stored h project env i ph d2) (\<lambda>d3. Inr (Applied_Edit, d3))))"

definition apply_bound :: "host \<Rightarrow> jstr \<Rightarrow> envelope \<Rightarrow> portable_record \<Rightarrow> jstr \<Rightarrow> entity_entry \<Rightarrow> db \<Rightarrow>
    apply_error + (event_outcome \<times> db)" where
  "apply_bound h project env record ph existing d =
     (let i = e_local_id existing in
      bindE (projectionHashOfRow h i d) (\<lambda>localPh.
        if \<not> isLocallyRetracted i d \<and> \<not> isRowOptedOut i d \<and> localPh = Some ph
        then apply_edit h project env record ph existing d
        else bindE (hasUnpushedLocalIntent h i (e_projection_hash existing) d) (\<lambda>intent.
          if intent then apply_fork h project env record ph existing d
          else apply_edit h project env record ph existing d)))"

definition insert_if_absent :: "host \<Rightarrow> jstr \<Rightarrow> inert_projection \<Rightarrow> db \<Rightarrow> apply_error + db" where
  "insert_if_absent h i p d = (if row_of d i = None then insertProjectedRow h i p d else Inr d)"

text \<open>\<open>UPDATE memories SET author = COALESCE(author, ?), origin_client = ?\<close>\<close>

definition stamp_provenance :: "envelope \<Rightarrow> jstr \<Rightarrow> db \<Rightarrow> db" where
  "stamp_provenance env i d = exec_update_plain (has_id i) (\<lambda>r. r\<lparr>
     r_author := (if r_author r = None then Some (env_author env) else r_author r),
     r_origin_client := env_origin env \<rparr>) d"

text \<open>T8a and T8b: the match is bound to another entity.\<close>

definition apply_coexist :: "host \<Rightarrow> jstr \<Rightarrow> envelope \<Rightarrow> portable_record \<Rightarrow> jstr \<Rightarrow> entity_entry \<Rightarrow> db \<Rightarrow>
    apply_error + (event_outcome \<times> db)" where
  "apply_coexist h project env record ph other d =
     (let i = record_id record; members = [env_entity env, e_entity_id other] in
      if e_canonical_hash other = env_hash env then Inl (ProtocolInvariantError (env_entity env) (e_entity_id other))
      else
        bindE (assertRebindLegal h i project ph d) (\<lambda>_.
        bindE (insert_if_absent h i (buildInertProjection h env record) d) (\<lambda>d1.
        bindE (bind_as_stored h project env i ph d1) (\<lambda>d2.
        Inr (Coexist_Conflict,
          openConflictSet h (deterministicConflictSetId h members Near_Duplicate) project members
            Near_Duplicate (js ''client'') (env_version env) d2)))))"

text \<open>T5: an unbound match, the incoming row itself or a twin of it.\<close>

definition apply_twin :: "host \<Rightarrow> jstr \<Rightarrow> envelope \<Rightarrow> portable_record \<Rightarrow> jstr \<Rightarrow> jstr \<Rightarrow> db \<Rightarrow>
    apply_error + (event_outcome \<times> db)" where
  "apply_twin h project env record ph match_id d =
     (let i = record_id record in
      if match_id = i then
        bindE (bind_as_stored h project env i ph (stamp_provenance env i d)) (\<lambda>d1. Inr (Replay_Noop, d1))
      else
        bindE (assertRebindLegal h i project ph d) (\<lambda>_.
        bindE (insert_if_absent h i (buildInertProjection h env record) d) (\<lambda>d1.
        bindE (bind_as_stored h project env i ph d1) (\<lambda>d2. Inr (Twin_Inserted, d2)))))"

text \<open>T1: no match.\<close>

definition apply_new :: "host \<Rightarrow> jstr \<Rightarrow> envelope \<Rightarrow> portable_record \<Rightarrow> jstr \<Rightarrow> db \<Rightarrow> apply_error + (event_outcome \<times> db)" where
  "apply_new h project env record ph d =
     (let i = record_id record in
      if row_of d i \<noteq> None then
        bindE (assertRebindLegal h i project ph d) (\<lambda>_.
        bindE (bind_as_stored h project env i ph (stamp_provenance env i d)) (\<lambda>d1. Inr (Replay_Noop, d1)))
      else
        bindE (insertProjectedRow h i (buildInertProjection h env record) d) (\<lambda>d1.
        bindE (bind_as_stored h project env i ph d1) (\<lambda>d2. Inr (Applied_New, d2))))"

text \<open>The branches for an entity without a binding, by the row that matches.\<close>

definition apply_matched :: "host \<Rightarrow> jstr \<Rightarrow> envelope \<Rightarrow> portable_record \<Rightarrow> jstr \<Rightarrow> exact_match option \<Rightarrow> db \<Rightarrow>
    apply_error + (event_outcome \<times> db)" where
  "apply_matched h project env record ph m d = (case m of
      None \<Rightarrow> apply_new h project env record ph d
    | Some x \<Rightarrow> (case x_bound x of
          Some other \<Rightarrow> apply_coexist h project env record ph other d
        | None \<Rightarrow> if x_share x = Some Local
            then bindE (shadow_write h project env record (x_id x) ph d) (\<lambda>d1. Inr (Shadow_Associated, d1))
            else apply_twin h project env record ph (x_id x) d))"

definition applyUpsert :: "host \<Rightarrow> jstr \<Rightarrow> envelope \<Rightarrow> portable_record \<Rightarrow> db \<Rightarrow> apply_error + (event_outcome \<times> db)" where
  "applyUpsert h project env record d =
     (let projected = projectPayload h record; (ch, ph) = storedHashes h env projected in
      case getByEntityId (env_entity env) d of
        Some existing \<Rightarrow>
          if env_version env \<le> e_version existing then Inr (Replay_Noop, d)
          else if e_state existing = Shadow_Assoc then apply_shadow h project env record ph existing d
          else apply_bound h project env record ph existing d
      | None \<Rightarrow>
          bindE (selectExactMatch h project projected ph d) (\<lambda>m. apply_matched h project env record ph m d))"

end
