(* ===== verification/Apply.thy ===== *)
theory Apply
  imports Upsert_Apply
begin

text \<open>
  The event handlers and the batch loop of \<open>src/db/sync-apply/apply.ts\<close>.

  A batch is one immediate transaction: \<open>applyEventBatch\<close> answers the result with the new state, or
  the error, and \<open>commit_batch\<close> is what the connection is left with: the old state after an error.
  \<open>inert_of_json\<close> reads the stored inert projection back under the shape \<open>writeShadowAssoc\<close> wrote it
  with; a column with another shape, which no operation writes, is an error of the model.
\<close>

section \<open>The cursor\<close>

definition cursor_key :: "jstr \<Rightarrow> jstr" where
  "cursor_key project = js ''cursor:'' @ project"

definition readCursor :: "jstr \<Rightarrow> db \<Rightarrow> int" where
  "readCursor project d = state_int (js ''apply'') (cursor_key project) d"

definition writeCursor :: "jstr \<Rightarrow> int \<Rightarrow> db \<Rightarrow> db" where
  "writeCursor project seq d = state_put (js ''apply'') (cursor_key project) (SInt seq) d"

section \<open>Tombstones\<close>

definition tombstoneLocalRow :: "host \<Rightarrow> jstr \<Rightarrow> db \<Rightarrow> db" where
  "tombstoneLocalRow h i d = exec_delete (has_id i) (log_tombstones h Delete (has_id i) d)"

definition fork_preserve :: "host \<Rightarrow> jstr \<Rightarrow> jstr \<Rightarrow> int \<Rightarrow> db \<Rightarrow> db" where
  "fork_preserve h entity i seq d =
     closeEntry entity (writeForkNotice h i entity ''S9'' seq
       (exec_update_plain (has_id i) (\<lambda>r. r\<lparr> r_share_state := Some Local \<rparr>) d))"

definition applyTombstone :: "host \<Rightarrow> jstr \<Rightarrow> int \<Rightarrow> jstr \<Rightarrow> int \<Rightarrow> db \<Rightarrow> apply_error + (event_outcome \<times> db)" where
  "applyTombstone h targetProject seq entity version d = (case getByEntityId entity d of
      None \<Rightarrow> Inr (Replay_Noop, d)
    | Some entry \<Rightarrow>
        if e_project entry \<noteq> targetProject then Inl (ApplyValidationError ''tombstone targets another project'')
        else if version \<le> e_version entry then Inr (Replay_Noop, d)
        else if e_state entry = Shadow_Assoc then Inr (Assoc_Closed, closeEntry entity d)
        else
          (let i = e_local_id entry in
           bindE (projectionHashOfRow h i d) (\<lambda>localHash.
           bindE (if localHash = None then Inr False else hasUnpushedLocalIntent h i (e_projection_hash entry) d) (\<lambda>intent.
             if intent then Inr (Fork_Preserved, fork_preserve h entity i seq d)
             else Inr (Tombstoned, closeEntry entity (tombstoneLocalRow h i d))))))"

section \<open>Aliases\<close>

definition fields_of_json :: "json \<Rightarrow> projection_fields option" where
  "fields_of_json v = (case v of
      JObj o1 \<Rightarrow>
        (case (Option.bind (string_prop (obj_get (js ''kind'') o1)) (vocab_find kind_str MEMORY_KINDS),
               isStringOrNull (obj_get (js ''project'') o1), string_prop (obj_get (js ''content'') o1),
               obj_get (js ''tags'') o1, obj_get (js ''context'') o1, isStringOrNull (obj_get (js ''anchor'') o1)) of
           (Some kind, Some project, Some content, Some (JArr tags), Some ctx, Some anchor) \<Rightarrow>
             (case ctx of
                JNull \<Rightarrow> Some \<lparr> pj_kind = kind, pj_project = project, pj_content = content, pj_tags = tags,
                  pj_context = ctx, pj_anchor = anchor \<rparr>
              | JObj _ \<Rightarrow> Some \<lparr> pj_kind = kind, pj_project = project, pj_content = content, pj_tags = tags,
                  pj_context = ctx, pj_anchor = anchor \<rparr>
              | _ \<Rightarrow> None)
         | _ \<Rightarrow> None)
    | _ \<Rightarrow> None)"

definition number_prop :: "json option \<Rightarrow> number option" where
  "number_prop v = (case v of Some (JNum n) \<Rightarrow> Some n | _ \<Rightarrow> None)"

definition inert_of_json :: "json \<Rightarrow> inert_projection option" where
  "inert_of_json v = (case v of
      JObj p \<Rightarrow>
        (case (Option.bind (obj_get (js ''record'') p) fields_of_json, number_prop (obj_get (js ''confidence'') p),
               Option.bind (string_prop (obj_get (js ''source'') p)) source_of_str, obj_get (js ''fingerprint'') p,
               string_prop (obj_get (js ''author'') p), string_prop (obj_get (js ''origin_client'') p),
               string_prop (obj_get (js ''created_at'') p), string_prop (obj_get (js ''updated_at'') p),
               isStringOrNull (obj_get (js ''expires_at'') p)) of
           (Some f, Some c, Some s, Some fp, Some a, Some oc, Some cr, Some up, Some ex) \<Rightarrow>
             Some \<lparr> i_record = f, i_confidence = c, i_source = s, i_fingerprint = fp, i_author = a, i_origin = oc,
                    i_created = cr, i_updated = up, i_expires = ex \<rparr>
         | _ \<Rightarrow> None)
    | _ \<Rightarrow> None)"

definition parse_inert :: "host \<Rightarrow> jstr \<Rightarrow> apply_error + inert_projection" where
  "parse_inert h t = (case Option.bind (json_parse (nums h) t) inert_of_json of
      None \<Rightarrow> Inl (Js_Error ''inert projection'') | Some p \<Rightarrow> Inr p)"

definition parse_accounts :: "host \<Rightarrow> jstr \<Rightarrow> apply_error + jstr list" where
  "parse_accounts h t = (case Option.bind (json_parse (nums h) t) str_array_of of
      None \<Rightarrow> Inl (Js_Error ''contributors'') | Some xs \<Rightarrow> Inr xs)"

definition alias_binding :: "jstr \<Rightarrow> entity_entry \<Rightarrow> jstr \<Rightarrow> jstr \<Rightarrow> bind_input" where
  "alias_binding project e i ph = \<lparr> bi_entity = e_entity_id e, bi_local = i, bi_project = project,
     bi_version = e_version e, bi_canonical = e_canonical_hash e, bi_projection = ph \<rparr>"

text \<open>The contributor snapshot of the association.\<close>

definition merge_snapshot :: "host \<Rightarrow> entity_entry \<Rightarrow> int \<Rightarrow> db \<Rightarrow> apply_error + db" where
  "merge_snapshot h e seq d = (case e_contributors e of
      None \<Rightarrow> Inr d
    | Some t \<Rightarrow> if t = [] then Inr d
        else bindE (parse_accounts h t) (\<lambda>accts. Inr (mergeContributors (e_entity_id e) accts seq d)))"

text \<open>T6, the target half: a shadowed target becomes a row of its own.  The caller has refused an
  association without an inert projection.\<close>

definition materialize_target :: "host \<Rightarrow> jstr \<Rightarrow> int \<Rightarrow> entity_entry \<Rightarrow> db \<Rightarrow> apply_error + db" where
  "materialize_target h project seq e d =
     bindE (parse_inert h (case e_inert e of Some t \<Rightarrow> t | None \<Rightarrow> [])) (\<lambda>inert.
       let (newId, d1) = generateId h d in
       bindE (insertProjectedRow h newId inert d1) (\<lambda>d2.
         let d3 = closeEntry (e_entity_id e) d2 in
         bindE (projectionHashOfRow h newId d3) (\<lambda>x.
         bindE (bindEntity h (alias_binding project e newId (case x of Some y \<Rightarrow> y | None \<Rightarrow> e_projection_hash e)) d3)
           (merge_snapshot h e seq))))"

definition alias_apply :: "host \<Rightarrow> jstr \<Rightarrow> int \<Rightarrow> alias_event \<Rightarrow> entity_entry \<Rightarrow> entity_entry \<Rightarrow> db \<Rightarrow>
    apply_error + (event_outcome \<times> db)" where
  "alias_apply h project seq ev from_e to_e d =
     (let d1 = (if e_state from_e = Bound then tombstoneLocalRow h (e_local_id from_e) d else d);
          d2 = closeEntry (ae_from ev) d1 in
      bindE (if e_state to_e = Shadow_Assoc then materialize_target h project seq to_e d2 else Inr d2) (\<lambda>d3.
      Inr (Aliased, mergeContributors (ae_to ev) (contributorsOf (ae_from ev) d3) seq d3)))"

definition applyAlias :: "host \<Rightarrow> jstr \<Rightarrow> int \<Rightarrow> alias_event \<Rightarrow> db \<Rightarrow> apply_error + (event_outcome \<times> db)" where
  "applyAlias h project seq ev d =
     (let from_entry = getByEntityId (ae_from ev) d in
      if (case from_entry of Some e \<Rightarrow> ae_version ev < e_version e | None \<Rightarrow> False) then Inr (Replay_Noop, d)
      else
        (let d1 = recordAlias h (ae_from ev) (ae_to ev) (ae_version ev) seq d in
         case from_entry of
           None \<Rightarrow> Inr (Replay_Noop, d1)
         | Some from_e \<Rightarrow>
             if e_project from_e \<noteq> project then Inl (ApplyValidationError ''alias source of another project'')
             else (case getByEntityId (ae_to ev) d1 of
                 None \<Rightarrow> Inl (ApplyValidationError ''alias target unknown'')
               | Some to_e \<Rightarrow>
                   if e_project to_e \<noteq> project then Inl (ApplyValidationError ''alias target of another project'')
                   else if e_state to_e = Shadow_Assoc \<and> (e_inert to_e = None \<or> e_inert to_e = Some [])
                   then Inl (ApplyValidationError ''alias target not materializable'')
                   else alias_apply h project seq ev from_e to_e d1)))"

section \<open>Conflict sets\<close>

definition check_member :: "jstr \<Rightarrow> db \<Rightarrow> jstr \<Rightarrow> unit \<Rightarrow> apply_error + unit" where
  "check_member project d m u = (case getByEntityId m d of
      None \<Rightarrow> Inl (ApplyValidationError ''member unknown'')
    | Some e \<Rightarrow> ensure (e_project e = project) (ApplyValidationError ''member of another project''))"

definition applyConflictOpen :: "host \<Rightarrow> jstr \<Rightarrow> int \<Rightarrow> open_event \<Rightarrow> db \<Rightarrow> apply_error + (event_outcome \<times> db)" where
  "applyConflictOpen h project seq ev d =
     bindE (foldE (check_member project d) (oe_members ev) ()) (\<lambda>_.
       case t_get cs_id (oe_set ev) (conflict_sets d) of
         Some c \<Rightarrow>
           if cs_project c \<noteq> project \<or> cs_members c \<noteq> members_text h (oe_members ev) \<or> cs_reason c \<noteq> oe_reason ev
           then Inl (ApplyValidationError ''conflict set id collides'')
           else Inr (Replay_Noop, d)
       | None \<Rightarrow> Inr (Conflict_Opened,
           openConflictSet h (oe_set ev) project (oe_members ev) (oe_reason ev) (oe_by ev) seq d))"

text \<open>\<open>new Set(JSON.parse(text))\<close>\<close>

definition parse_members :: "host \<Rightarrow> jstr \<Rightarrow> apply_error + json list" where
  "parse_members h t = (case json_parse (nums h) t of
      None \<Rightarrow> Inl (Js_Error ''SyntaxError'')
    | Some (JArr vs) \<Rightarrow> Inr vs
    | Some (JStr s) \<Rightarrow> Inr (map JStr (code_points s))
    | Some JNull \<Rightarrow> Inr []
    | Some _ \<Rightarrow> Inl (Js_Error ''TypeError''))"

text \<open>The tombstones of a resolution come before its upsert; each supersedes the bound version.\<close>

definition resolve_tombstone :: "host \<Rightarrow> jstr \<Rightarrow> int \<Rightarrow> jstr \<Rightarrow> jstr \<Rightarrow> db \<Rightarrow> apply_error + db" where
  "resolve_tombstone h project seq canonical entity d =
     (if entity = canonical then Inr d
      else bindE (applyTombstone h project seq entity
          ((case getByEntityId entity d of Some m \<Rightarrow> e_version m | None \<Rightarrow> 0) + 1) d) (\<lambda>(_, d1). Inr d1))"

definition applyResolveCommit :: "host \<Rightarrow> jstr \<Rightarrow> int \<Rightarrow> resolve_event \<Rightarrow> db \<Rightarrow> apply_error + (event_outcome \<times> db)" where
  "applyResolveCommit h project seq ev d =
     bindE (validatePayload h (re_canonical ev) project) (\<lambda>record.
       case t_get cs_id (re_set ev) (conflict_sets d) of
         None \<Rightarrow> Inl (ApplyValidationError ''unknown conflict set'')
       | Some c \<Rightarrow>
           if cs_project c \<noteq> project then Inl (ApplyValidationError ''conflict set of another project'')
           else if cs_status c = Resolved_Set then
             (if cs_resolved_seq c = Some seq then Inr (Replay_Noop, d)
              else Inl (ApplyValidationError ''already resolved''))
           else
             bindE (parse_members h (cs_members c)) (\<lambda>members.
             bindE (ensure (list_all (\<lambda>t. JStr t \<in> set members) (re_tombstoned ev))
               (ApplyValidationError ''not a member'')) (\<lambda>_.
             bindE (ensure (JStr (env_entity (re_canonical ev)) \<in> set members \<or>
                 getByEntityId (env_entity (re_canonical ev)) d = None)
               (ApplyValidationError ''canonical is a bound non-member'')) (\<lambda>_.
             bindE (foldE (resolve_tombstone h project seq (env_entity (re_canonical ev))) (re_tombstoned ev) d) (\<lambda>d1.
             bindE (applyUpsert h project (re_canonical ev) record d1) (\<lambda>(_, d2).
             Inr (Resolved, resolveConflictSet (re_set ev) seq
               (mergeContributors (env_entity (re_canonical ev)) (re_contributors ev) seq d2))))))))"

section \<open>The batch\<close>

fun apply_event :: "host \<Rightarrow> jstr \<Rightarrow> sync_event \<Rightarrow> db \<Rightarrow> apply_error + (event_outcome \<times> db)" where
  "apply_event h project (Ev_Upsert seq env) d =
     bindE (validatePayload h env project) (\<lambda>record. applyUpsert h project env record d)"
| "apply_event h project (Ev_Tombstone seq ev) d = applyTombstone h project seq (te_entity ev) (te_version ev) d"
| "apply_event h project (Ev_Alias seq ev) d = applyAlias h project seq ev d"
| "apply_event h project (Ev_Conflict_Open seq ev) d = applyConflictOpen h project seq ev d"
| "apply_event h project (Ev_Resolve seq ev) d = applyResolveCommit h project seq ev d"

record batch_result =
  br_outcomes :: "(int \<times> event_outcome) list"
  br_generation :: int
  br_cursor :: int

type_synonym batch_state = "(int \<times> event_outcome) list \<times> int \<times> db"

definition batch_step :: "host \<Rightarrow> jstr \<Rightarrow> int \<Rightarrow> sync_event \<Rightarrow> batch_state \<Rightarrow> apply_error + batch_state" where
  "batch_step h project startCursor ev st = (case st of (outcomes, cursor, d) \<Rightarrow>
     if ev_seq ev \<le> startCursor then Inr (outcomes @ [(ev_seq ev, Replay_Noop)], cursor, d)
     else bindE (apply_event h project ev d) (\<lambda>(outcome, d1).
       Inr (outcomes @ [(ev_seq ev, outcome)], max cursor (ev_seq ev), d1)))"

text \<open>After the loop: the cursor is written, and the generation is bumped when a handler wrote.\<close>

definition finish_batch :: "jstr \<Rightarrow> nat \<Rightarrow> batch_state \<Rightarrow> batch_result \<times> db" where
  "finish_batch project changesBefore st = (case st of (outcomes, cursor, d) \<Rightarrow>
     let d1 = writeCursor project cursor d;
         (generation, d2) = (if changesBefore < changes d then bumpGeneration d1 else (readGeneration d1, d1))
     in (\<lparr> br_outcomes = outcomes, br_generation = generation, br_cursor = cursor \<rparr>, d2))"

definition applyEventBatch :: "host \<Rightarrow> jstr \<Rightarrow> json list \<Rightarrow> db \<Rightarrow> apply_error + (batch_result \<times> db)" where
  "applyEventBatch h project events d =
     (let startCursor = readCursor project d in
      bindE (validateBatch events) (\<lambda>es.
      bindE (foldE (batch_step h project startCursor) (sort_key ev_seq es) ([], startCursor, d)) (\<lambda>st.
      Inr (finish_batch project (changes d) st))))"

definition commit_batch :: "host \<Rightarrow> jstr \<Rightarrow> json list \<Rightarrow> db \<Rightarrow> db" where
  "commit_batch h project events d = (case applyEventBatch h project events d of Inl _ \<Rightarrow> d | Inr (_, d') \<Rightarrow> d')"

end
