(* ===== verification/Apply_Facts.thy ===== *)
theory Apply_Facts
  imports Apply
begin

text \<open>
  What a batch of replicated events keeps.

  The locale \<open>apply_relation\<close> is the contract between the statements of the store and the event
  handlers: a reflexive and transitive relation between states that every statement respects.  Its
  lemmas lift the relation through every handler to a whole batch.  It is interpreted four times:
  the cardinality of the entity map, the tables a replicated mutation must not write, the logs that
  only grow, and the count of changed rows.
\<close>

section \<open>Lifting a relation to a batch\<close>

locale apply_relation =
  fixes R :: "host \<Rightarrow> db \<Rightarrow> db \<Rightarrow> bool"
  assumes R_refl: "R h d d"
    and R_trans: "R h a b \<Longrightarrow> R h b c \<Longrightarrow> R h a c"
    and R_bind: "bindEntity h bi d = Inr d' \<Longrightarrow> R h d d'"
    and R_shadow: "writeShadowAssoc h bi t accts d = Inr d' \<Longrightarrow> R h d d'"
    and R_close: "R h d (closeEntry ent d)"
    and R_alias: "R h d (recordAlias h ent ent' version sq d)"
    and R_contrib: "R h d (add_contributor ent sq acct d)"
    and R_open: "R h d (openConflictSet h sid proj ents reason opener sq d)"
    and R_resolve: "R h d (resolveConflictSet sid sq d)"
    and R_insert: "insertProjectedRow h mid ip d = Inr d' \<Longrightarrow> R h d d'"
    and R_update: "R h d (exec_update h P f d)"
    and R_plain: "R h d (exec_update_plain P f d)"
    and R_delete: "R h d (tombstoneLocalRow h mid d)"
    and R_state_add: "R h d (state_add (js ''fork-notice'') k val d)"
    and R_uuid: "R h d (snd (generateId h d))"
begin

lemma R_step: "R h a b \<Longrightarrow> (\<And>d. R h d (f d)) \<Longrightarrow> R h a (f b)"
  using R_trans by blast

lemma R_contributors: "R h d (mergeContributors e as s d)"
  unfolding mergeContributors_def by (induction as arbitrary: d) (auto intro: R_refl R_trans [OF R_contrib])

lemma R_bind_as_stored: "bind_as_stored h p env i ph d = Inr d' \<Longrightarrow> R h d d'"
  by (auto simp: bind_as_stored_def bindE_Inr_iff intro: R_trans [OF R_bind R_contributors])

lemma R_insert_if_absent: "insert_if_absent h i p d = Inr d' \<Longrightarrow> R h d d'"
  by (auto simp: insert_if_absent_def R_refl intro: R_insert split: if_splits)

lemma R_shadow_write: "shadow_write h p env r i ph d = Inr d' \<Longrightarrow> R h d d'"
  by (auto simp: shadow_write_def intro: R_shadow)

lemma R_generate: "generateId h d = (i, d') \<Longrightarrow> R h d d'"
  using R_uuid [of h d] by simp

lemma R_apply_shadow:
  assumes "apply_shadow h p env r ph e d = Inr (out, d')"
  shows "R h d d'"
proof -
  obtain i d1 where g: "generateId h d = (i, d1)" by fastforce
  have "R h d d3" if "insertProjectedRow h i q d1 = Inr d2" "bind_as_stored h p env i ph (closeEntry x d2) = Inr d3" for q x d2 d3
    using R_trans [OF R_generate [OF g] R_trans [OF R_insert [OF that(1)] R_trans [OF R_close R_bind_as_stored [OF that(2)]]]] .
  with assms g show ?thesis
    by (auto simp: apply_shadow_def bindE_Inr_iff intro: R_shadow_write split: if_splits)
qed

lemma R_apply_fork:
  assumes "apply_fork h p env r ph e d = Inr (out, d')"
  shows "R h d d'"
proof -
  obtain i d1 where g: "generateId h d = (i, d1)" by fastforce
  have "R h d d3" if "insertProjectedRow h i q d1 = Inr d2"
    "bind_as_stored h p env i ph (writeForkNotice h x y z s (exec_update_plain P f d2)) = Inr d3" for q x y z s P f d2 d3
  proof -
    have "R h d2 (writeForkNotice h x y z s (exec_update_plain P f d2))"
      unfolding writeForkNotice_def by (rule R_trans [OF R_plain R_state_add])
    with R_generate [OF g] R_insert [OF that(1)] R_bind_as_stored [OF that(2)] show ?thesis by (blast intro: R_trans)
  qed
  with assms g show ?thesis by (auto simp: apply_fork_def bindE_Inr_iff Let_def)
qed

lemma R_apply_edit: "apply_edit h p env r ph e d = Inr (out, d') \<Longrightarrow> R h d d'"
  by (auto simp: apply_edit_def bindE_Inr_iff Let_def split: option.splits
      intro!: R_trans [OF R_trans [OF R_update R_plain] R_bind_as_stored])

lemma R_apply_bound: "apply_bound h p env r ph e d = Inr (out, d') \<Longrightarrow> R h d d'"
  by (auto simp: apply_bound_def bindE_Inr_iff Let_def intro: R_apply_edit R_apply_fork split: if_splits)

lemma R_apply_coexist: "apply_coexist h p env r ph e d = Inr (out, d') \<Longrightarrow> R h d d'"
  by (auto simp: apply_coexist_def bindE_Inr_iff Let_def split: if_splits
      intro!: R_trans [OF R_insert_if_absent R_trans [OF R_bind_as_stored R_open]])

lemma R_apply_twin: "apply_twin h p env r ph m d = Inr (out, d') \<Longrightarrow> R h d d'"
  by (auto simp: apply_twin_def bindE_Inr_iff Let_def stamp_provenance_def split: if_splits
      intro: R_trans [OF R_plain R_bind_as_stored] R_trans [OF R_insert_if_absent R_bind_as_stored])

lemma R_apply_new: "apply_new h p env r ph d = Inr (out, d') \<Longrightarrow> R h d d'"
  by (auto simp: apply_new_def bindE_Inr_iff Let_def stamp_provenance_def split: if_splits
      intro: R_trans [OF R_plain R_bind_as_stored] R_trans [OF R_insert R_bind_as_stored])

lemma R_apply_matched: "apply_matched h p env r ph m d = Inr (out, d') \<Longrightarrow> R h d d'"
  by (auto simp: apply_matched_def bindE_Inr_iff split: option.splits if_splits
      intro: R_apply_new R_apply_coexist R_apply_twin R_shadow_write)

lemma R_applyUpsert: "applyUpsert h p env r d = Inr (out, d') \<Longrightarrow> R h d d'"
  by (auto simp: applyUpsert_def storedHashes_def bindE_Inr_iff Let_def R_refl split: option.splits if_splits
      intro: R_apply_shadow R_apply_bound R_apply_matched)

lemma R_applyTombstone: "applyTombstone h p s e v d = Inr (out, d') \<Longrightarrow> R h d d'"
  by (auto simp: applyTombstone_def bindE_Inr_iff Let_def R_refl R_close fork_preserve_def writeForkNotice_def
      split: option.splits if_splits
      intro: R_trans [OF R_trans [OF R_plain R_state_add] R_close] R_trans [OF R_delete R_close])

lemma R_merge_snapshot: "merge_snapshot h e s d = Inr d' \<Longrightarrow> R h d d'"
  by (auto simp: merge_snapshot_def bindE_Inr_iff R_refl R_contributors split: option.splits if_splits)

lemma R_materialize:
  assumes "materialize_target h p s e d = Inr d'"
  shows "R h d d'"
proof -
  obtain i d1 where g: "generateId h d = (i, d1)" by fastforce
  from assms g obtain q d2 b d4 where "insertProjectedRow h i q d1 = Inr d2"
    "bindEntity h b (closeEntry (e_entity_id e) d2) = Inr d4" "merge_snapshot h e s d4 = Inr d'"
    by (auto simp: materialize_target_def bindE_Inr_iff Let_def)
  then show ?thesis
    using R_trans [OF R_generate [OF g] R_trans [OF R_insert R_trans [OF R_close R_trans [OF R_bind R_merge_snapshot]]]]
    by blast
qed

lemma R_alias_apply:
  assumes "alias_apply h p s ev a b d = Inr (out, d')"
  shows "R h d d'"
proof -
  let ?d1 = "if e_state a = Bound then tombstoneLocalRow h (e_local_id a) d else d"
  let ?d2 = "closeEntry (ae_from ev) ?d1"
  have d2: "R h d ?d2" by (rule R_trans [OF _ R_close]) (simp add: R_refl R_delete)
  from assms obtain d3 where "(if e_state b = Shadow_Assoc then materialize_target h p s b ?d2 else Inr ?d2) = Inr d3"
    and d': "d' = mergeContributors (ae_to ev) (contributorsOf (ae_from ev) d3) s d3"
    unfolding alias_apply_def Let_def bindE_Inr_iff by blast
  then have "R h ?d2 d3" by (auto simp: R_refl intro: R_materialize split: if_splits)
  with d2 d' show ?thesis using R_trans R_contributors by blast
qed

lemma R_applyAlias: "applyAlias h p s ev d = Inr (out, d') \<Longrightarrow> R h d d'"
  by (auto simp: applyAlias_def Let_def R_refl R_alias split: option.splits if_splits
      intro: R_trans [OF R_alias R_alias_apply])

lemma R_applyConflictOpen: "applyConflictOpen h p s ev d = Inr (out, d') \<Longrightarrow> R h d d'"
  by (auto simp: applyConflictOpen_def bindE_Inr_iff R_refl R_open split: option.splits if_splits)

lemma R_resolve_tombstones: "foldE (resolve_tombstone h p s c) es d = Inr d' \<Longrightarrow> R h d d'"
proof (induction es arbitrary: d)
  case (Cons e es)
  then obtain d1 where d1: "resolve_tombstone h p s c e d = Inr d1" "foldE (resolve_tombstone h p s c) es d1 = Inr d'"
    by (auto simp: bindE_Inr_iff)
  from d1(1) have "R h d d1"
    by (auto simp: resolve_tombstone_def bindE_Inr_iff R_refl split: if_splits intro: R_applyTombstone)
  with Cons.IH [OF d1(2)] show ?case by (rule R_trans [rotated])
qed (simp add: R_refl)

lemma R_applyResolve:
  assumes "applyResolveCommit h p s ev d = Inr (out, d')"
  shows "R h d d'"
proof (cases "d' = d")
  case True
  then show ?thesis by (simp add: R_refl)
next
  case False
  with assms obtain c r d1 out2 d2 where t: "foldE (resolve_tombstone h p s c) (re_tombstoned ev) d = Inr d1"
    and u: "applyUpsert h p (re_canonical ev) r d1 = Inr (out2, d2)"
    and d': "d' = resolveConflictSet (re_set ev) s (mergeContributors (env_entity (re_canonical ev)) (re_contributors ev) s d2)"
    by (auto simp: applyResolveCommit_def bindE_Inr_iff split: option.splits if_splits)
  show ?thesis unfolding d'
    by (rule R_trans [OF R_resolve_tombstones [OF t] R_trans [OF R_applyUpsert [OF u] R_trans [OF R_contributors R_resolve]]])
qed

lemma R_event: "apply_event h p ev d = Inr (out, d') \<Longrightarrow> R h d d'"
  by (cases ev) (auto simp: bindE_Inr_iff intro: R_applyUpsert R_applyTombstone R_applyAlias R_applyConflictOpen R_applyResolve)

lemma R_events: "foldE (batch_step h p start) es (os, c, d) = Inr (os', c', d') \<Longrightarrow> R h d d'"
proof (induction es arbitrary: os c d)
  case (Cons e es)
  then obtain os1 c1 d1 where s: "batch_step h p start e (os, c, d) = Inr (os1, c1, d1)"
    "foldE (batch_step h p start) es (os1, c1, d1) = Inr (os', c', d')"
    by (auto simp: bindE_Inr_iff)
  from s(1) have "R h d d1"
    by (auto simp: batch_step_def bindE_Inr_iff R_refl split: if_splits intro: R_event)
  with Cons.IH [OF s(2)] show ?case by (rule R_trans [rotated])
qed (simp add: R_refl)

end

text \<open>With the two writes of the batch itself, the cursor and the generation.\<close>

locale batch_relation = apply_relation +
  assumes R_state_put: "R h d (state_put ns k val d)"
begin

lemma R_finish: "finish_batch p n (os, c, d) = (r, d') \<Longrightarrow> R h d d'"
  by (auto simp: finish_batch_def Let_def writeCursor_def bumpGeneration_def split: if_splits
      intro: R_state_put R_trans [OF R_state_put R_state_put])

lemma R_batch:
  assumes "applyEventBatch h p events d = Inr (r, d')"
  shows "R h d d'"
proof -
  from assms obtain es os c d1 where "foldE (batch_step h p (readCursor p d)) es ([], readCursor p d, d) = Inr (os, c, d1)"
    "finish_batch p (changes d) (os, c, d1) = (r, d')"
    by (auto simp: applyEventBatch_def bindE_Inr_iff Let_def)
  then show ?thesis using R_trans [OF R_events R_finish] by blast
qed

lemma R_commit: "R h d (commit_batch h p events d)"
  by (auto simp: commit_batch_def R_refl split: sum.splits intro: R_batch)

end

section \<open>The interpretations\<close>

lemma insertProjectedRow_Inr:
  "insertProjectedRow h i p d = Inr d' \<longleftrightarrow>
    row_of d i = None \<and> d' = d\<lparr> memories := memories d @ [projected_row h i p], changes := Suc (changes d) \<rparr>"
proof -
  have "r_id (projected_row h i p) = i" by (simp add: projected_row_def Let_def)
  then show ?thesis by (auto simp: insertProjectedRow_def exec_insert_Some exec_insert_def)
qed

lemma bindEntity_Inr: "bindEntity h b d = Inr d' \<Longrightarrow> d' = put_entry (bound_entry h b) d"
  by (simp add: bindEntity_def bindE_Inr_iff)

lemma writeShadowAssoc_Inr: "writeShadowAssoc h b t as d = Inr d' \<Longrightarrow> d' = put_entry (shadow_entry h b t as) d"
  by (simp add: writeShadowAssoc_def bindE_Inr_iff)

definition keeps_map :: "host \<Rightarrow> db \<Rightarrow> db \<Rightarrow> bool" where
  "keeps_map h a b \<longleftrightarrow> (map_ok a \<longrightarrow> map_ok b)"

lemma map_ok_frame: "entity_map b = entity_map a \<Longrightarrow> keeps_map h a b"
  by (simp add: keeps_map_def map_ok_def)

interpretation card: batch_relation keeps_map
proof
  show "keeps_map h a b \<Longrightarrow> keeps_map h b c \<Longrightarrow> keeps_map h a c" for h a b c by (simp add: keeps_map_def)
  show "bindEntity h bi d = Inr d' \<Longrightarrow> keeps_map h d d'" for h bi d d'
    by (simp add: keeps_map_def bindEntity_map_ok)
  show "writeShadowAssoc h bi t accts d = Inr d' \<Longrightarrow> keeps_map h d d'" for h bi t accts d d'
    by (simp add: keeps_map_def writeShadowAssoc_map_ok)
  show "keeps_map h d (closeEntry ent d)" for h d ent by (simp add: keeps_map_def closeEntry_map_ok)
qed (auto intro!: map_ok_frame simp: insertProjectedRow_Inr tombstoneLocalRow_def generateId_def)

text \<open>What a replicated mutation never writes: the journal and the files.\<close>

definition keeps_local :: "host \<Rightarrow> db \<Rightarrow> db \<Rightarrow> bool" where
  "keeps_local h a b \<longleftrightarrow> journal b = journal a \<and> next_entry b = next_entry a \<and> files b = files a"

interpretation untouched: batch_relation keeps_local
  by unfold_locales (auto simp: keeps_local_def insertProjectedRow_Inr tombstoneLocalRow_def generateId_def
      dest!: bindEntity_Inr writeShadowAssoc_Inr)

text \<open>The logs that only grow: aliases, contributors, retired contents, conflict sets by id.\<close>

definition logs_grow :: "host \<Rightarrow> db \<Rightarrow> db \<Rightarrow> bool" where
  "logs_grow h a b \<longleftrightarrow> prefix (alias_log a) (alias_log b) \<and> prefix (contributors a) (contributors b) \<and>
     prefix (tombstones a) (tombstones b) \<and> prefix (map cs_id (conflict_sets a)) (map cs_id (conflict_sets b))"

lemma logs_frame:
  "alias_log b = alias_log a \<Longrightarrow> contributors b = contributors a \<Longrightarrow> tombstones b = tombstones a \<Longrightarrow>
    conflict_sets b = conflict_sets a \<Longrightarrow> logs_grow h a b"
  by (simp add: logs_grow_def)

interpretation logs: batch_relation logs_grow
proof
  show "logs_grow h a b \<Longrightarrow> logs_grow h b c \<Longrightarrow> logs_grow h a c" for h a b c
    by (auto simp: logs_grow_def intro: prefix_order.order_trans)
  show "logs_grow h d (recordAlias h ent ent' version sq d)" for h d ent ent' version sq
    by (simp add: logs_grow_def recordAlias_def)
  show "logs_grow h d (add_contributor ent sq acct d)" for h d ent sq acct
    by (simp add: logs_grow_def add_contributor_def)
  show "logs_grow h d (openConflictSet h sid proj ents reason opener sq d)" for h d sid proj ents reason opener sq
    by (simp add: logs_grow_def openConflictSet_def)
  show "logs_grow h d (resolveConflictSet sid sq d)" for h d sid sq
    by (simp add: logs_grow_def resolveConflictSet_def t_update_def comp_def if_distrib cong: if_cong)
  show "logs_grow h d (tombstoneLocalRow h mid d)" for h d mid
    by (simp add: logs_grow_def tombstoneLocalRow_def log_tombstones_def Let_def)
qed (auto intro!: logs_frame simp: insertProjectedRow_Inr generateId_def dest!: bindEntity_Inr writeShadowAssoc_Inr)

text \<open>The count of changed rows tells the truth: a handler that leaves it alone wrote nothing.\<close>

definition counts_up :: "host \<Rightarrow> db \<Rightarrow> db \<Rightarrow> bool" where
  "counts_up h a b \<longleftrightarrow> changes a \<le> changes b \<and> (changes b = changes a \<longrightarrow> b\<lparr> uuids := 0 \<rparr> = a\<lparr> uuids := 0 \<rparr>)"

lemma t_update_none: "t_count P rows = 0 \<Longrightarrow> t_update P f rows = rows"
  by (auto simp: t_count_def t_update_def filter_empty_conv intro!: map_idI)

lemma filter_none: "t_count P rows = 0 \<Longrightarrow> filter (\<lambda>r. \<not> P r) rows = rows \<and> filter P rows = []"
  by (auto simp: t_count_def filter_empty_conv filter_id_conv)

interpretation writes: apply_relation counts_up
proof
  show "counts_up h a b \<Longrightarrow> counts_up h b c \<Longrightarrow> counts_up h a c" for h a b c
    by (auto simp: counts_up_def)
  show "counts_up h d (closeEntry ent d)" for h d ent
    by (auto simp: counts_up_def closeEntry_def t_del_def dest!: filter_none)
  show "counts_up h d (tombstoneLocalRow h mid d)" for h d mid
  proof (cases "t_count (has_id mid) (memories d) = 0")
    case True
    from filter_none [OF this] True show ?thesis
      by (simp add: counts_up_def tombstoneLocalRow_def log_tombstones_def exec_delete_def Let_def t_count_def)
  next
    case False
    then show ?thesis by (simp add: counts_up_def tombstoneLocalRow_def log_tombstones_def exec_delete_def Let_def)
  qed
qed (auto simp: counts_up_def insertProjectedRow_Inr generateId_def put_entry_def recordAlias_def add_contributor_def
      openConflictSet_def resolveConflictSet_def exec_update_def exec_update_plain_def state_add_def t_update_none
      dest!: bindEntity_Inr writeShadowAssoc_Inr)

text \<open>Handlers leave cursors and the generation alone.\<close>

definition keeps_counters :: "host \<Rightarrow> db \<Rightarrow> db \<Rightarrow> bool" where
  "keeps_counters h a b \<longleftrightarrow> (\<forall>ns k. ns \<noteq> js ''fork-notice'' \<longrightarrow> state_int ns k b = state_int ns k a)"

lemma counters_frame: "sync_state b = sync_state a \<Longrightarrow> keeps_counters h a b"
  by (simp add: keeps_counters_def state_int_def state_get_def)

interpretation counters: apply_relation keeps_counters
proof
  show "keeps_counters h a b \<Longrightarrow> keeps_counters h b c \<Longrightarrow> keeps_counters h a c" for h a b c
    by (simp add: keeps_counters_def)
  show "keeps_counters h d (state_add (js ''fork-notice'') k val d)" for h d k val
    by (simp add: keeps_counters_def state_int_def state_get_add)
qed (auto intro!: counters_frame simp: insertProjectedRow_Inr generateId_def tombstoneLocalRow_def
    dest!: bindEntity_Inr writeShadowAssoc_Inr)

end
