(* ===== verification/Apply_Properties.thy ===== *)
theory Apply_Properties
  imports Apply_Facts
begin

text \<open>
  The properties of sync apply: what a batch keeps, its cursor and generation, idempotent replay,
  protection of unpushed local intent, the hash discipline of bindings, one-shot resolution, and
  the project boundary with the path that crosses it.
\<close>

section \<open>The batch loop\<close>

lemma batch_Inr:
  assumes "applyEventBatch h p events d = Inr (r, d')"
  obtains es d1 where "validateBatch events = Inr es"
    "foldE (batch_step h p (readCursor p d)) (sort_key ev_seq es) ([], readCursor p d, d) =
      Inr (br_outcomes r, br_cursor r, d1)"
    "d' = (if changes d < changes d1 then snd (bumpGeneration (writeCursor p (br_cursor r) d1))
      else writeCursor p (br_cursor r) d1)"
    "br_generation r = (if changes d < changes d1 then readGeneration d1 + 1 else readGeneration d1)"
proof -
  from assms obtain es outcomes cursor d1 where e: "validateBatch events = Inr es"
    "foldE (batch_step h p (readCursor p d)) (sort_key ev_seq es) ([], readCursor p d, d) = Inr (outcomes, cursor, d1)"
    and f: "finish_batch p (changes d) (outcomes, cursor, d1) = (r, d')"
    by (auto simp: applyEventBatch_def bindE_Inr_iff Let_def)
  have "readGeneration (writeCursor p cursor d1) = readGeneration d1"
    by (simp add: readGeneration_def writeCursor_def)
  with e f show thesis
    by (intro that [of es d1]) (auto simp: finish_batch_def bumpGeneration_def Let_def split: if_splits)
qed

lemma batch_cursor:
  "foldE (batch_step h p start) es (os, c, d) = Inr (os', c', d') \<Longrightarrow>
    start \<le> c \<Longrightarrow> c \<le> c' \<and> (\<forall>e\<in>set es. ev_seq e \<le> c') \<and> (c' = c \<or> c' \<in> ev_seq ` set es)"
proof (induction es arbitrary: os c d)
  case (Cons e es)
  then obtain os1 c1 d1 where s: "batch_step h p start e (os, c, d) = Inr (os1, c1, d1)"
    "foldE (batch_step h p start) es (os1, c1, d1) = Inr (os', c', d')"
    by (auto simp: bindE_Inr_iff)
  from s(1) Cons.prems(2) have c1: "c \<le> c1" "ev_seq e \<le> c1" "c1 = c \<or> c1 = ev_seq e"
    by (auto simp: batch_step_def bindE_Inr_iff max_def split: if_splits)
  from Cons.IH [OF s(2)] c1 Cons.prems(2) show ?case by auto
qed simp

lemma batch_outcomes:
  "foldE (batch_step h p start) es (os, c, d) = Inr (os', c', d') \<Longrightarrow> map fst os' = map fst os @ map ev_seq es"
proof (induction es arbitrary: os c d)
  case (Cons e es)
  then obtain os1 c1 d1 where s: "batch_step h p start e (os, c, d) = Inr (os1, c1, d1)"
    "foldE (batch_step h p start) es (os1, c1, d1) = Inr (os', c', d')"
    by (auto simp: bindE_Inr_iff)
  from s(1) have "map fst os1 = map fst os @ [ev_seq e]"
    by (auto simp: batch_step_def bindE_Inr_iff split: if_splits)
  with Cons.IH [OF s(2)] show ?case by simp
qed simp

lemma batch_skips:
  "\<forall>e\<in>set es. ev_seq e \<le> start \<Longrightarrow>
    foldE (batch_step h p start) es (os, c, d) = Inr (os @ map (\<lambda>e. (ev_seq e, Replay_Noop)) es, c, d)"
  by (induction es arbitrary: os) (auto simp: batch_step_def)

lemma cursor_not_generation: "js ''apply'' \<noteq> js ''memory''" "js ''apply'' \<noteq> js ''fork-notice''" "js ''memory'' \<noteq> js ''fork-notice''"
  by simp_all

lemma readCursor_after: "applyEventBatch h p events d = Inr (r, d') \<Longrightarrow> readCursor p d' = br_cursor r"
  by (erule batch_Inr) (auto simp: readCursor_def writeCursor_def bumpGeneration_def Let_def)

lemma readGeneration_after: "applyEventBatch h p events d = Inr (r, d') \<Longrightarrow> readGeneration d' = br_generation r"
  by (erule batch_Inr) (auto simp: readGeneration_def writeCursor_def bumpGeneration_def Let_def)

section \<open>Writing a cursor twice\<close>

lemma t_put_present:
  assumes "\<forall>x\<in>set rows. key x = key r \<longrightarrow> x = r" "r \<in> set rows"
  shows "t_put key r rows = rows"
  using assms by (auto simp: t_put_def list_ex_iff intro!: map_idI)

lemma t_put_settled: "\<forall>x\<in>set (t_put key r rows). key x = key r \<longrightarrow> x = r"
  by (auto simp: t_put_def list_ex_iff split: if_splits)

lemma t_put_in: "r \<in> set (t_put key r rows)"
  by (auto simp: t_put_def list_ex_iff image_iff)

lemma t_put_other:
  assumes "key s \<noteq> key r"
  shows "(x \<in> set (t_put key s rows) \<and> key x = key r) = (x \<in> set rows \<and> key x = key r)"
  using assms by (auto simp: t_put_def list_ex_iff split: if_splits)

lemma t_put_again: "t_put key r (t_put key r rows) = t_put key r rows"
  by (rule t_put_present [OF t_put_settled t_put_in])

lemma t_put_again_other:
  assumes "key s \<noteq> key r"
  shows "t_put key r (t_put key s (t_put key r rows)) = t_put key s (t_put key r rows)"
proof (rule t_put_present)
  have o: "(x \<in> set (t_put key s (t_put key r rows)) \<and> key x = key r) = (x \<in> set (t_put key r rows) \<and> key x = key r)" for x
    using assms by (rule t_put_other)
  show "\<forall>x\<in>set (t_put key s (t_put key r rows)). key x = key r \<longrightarrow> x = r"
    using o t_put_settled [of key r rows] by blast
  show "r \<in> set (t_put key s (t_put key r rows))" using o [of r] t_put_in [of r key rows] by blast
qed

lemma rewrite_cursor:
  assumes "applyEventBatch h p events d = Inr (r, d')"
  shows "writeCursor p (br_cursor r) d' = d'\<lparr> changes := Suc (changes d') \<rparr>"
proof (rule batch_Inr [OF assms])
  fix d1
  let ?cur = "\<lparr> st_ns = js ''apply'', st_key = cursor_key p, st_value = SInt (br_cursor r) \<rparr>"
  assume d': "d' = (if changes d < changes d1 then snd (bumpGeneration (writeCursor p (br_cursor r) d1))
      else writeCursor p (br_cursor r) d1)"
  have o: "state_key \<lparr> st_ns = js ''memory'', st_key = js ''generation'', st_value = v \<rparr> \<noteq> state_key ?cur" for v
    by (simp add: state_key_def)
  have "t_put state_key ?cur (sync_state d') = sync_state d'"
    using d' by (auto simp: writeCursor_def state_put_def bumpGeneration_def Let_def t_put_again
        t_put_again_other [where key = state_key, OF o])
  then show ?thesis by (simp add: writeCursor_def state_put_def)
qed

section \<open>Properties of batches\<close>

text \<open>C1. The entity map stays one-to-one: if no entity and no local row occurs twice in the map, the
  same holds after any batch, valid or not, whatever its events displace, fork, alias or resolve.\<close>

theorem batch_cardinality:
  assumes "map_ok d"
  shows "map_ok (commit_batch h project events d)"
  using card.R_commit [of h d project events] assms by (simp add: keeps_map_def)

text \<open>C2. A replicated mutation leaves no trace in what is local: no batch writes a journal entry, so
  nothing is echoed back to the server, and no batch touches a free-form file; and the audit logs
  only grow: no alias, contributor, retired content or conflict set is ever lost or rewritten.\<close>

theorem batch_never_journals:
  "journal (commit_batch h project events d) = journal d \<and> files (commit_batch h project events d) = files d \<and>
    prefix (alias_log d) (alias_log (commit_batch h project events d)) \<and>
    prefix (contributors d) (contributors (commit_batch h project events d)) \<and>
    prefix (tombstones d) (tombstones (commit_batch h project events d)) \<and>
    prefix (map cs_id (conflict_sets d)) (map cs_id (conflict_sets (commit_batch h project events d)))"
  using untouched.R_commit [of h d project events] logs.R_commit [of h d project events]
  by (simp add: keeps_local_def logs_grow_def)

text \<open>C4. The durable cursor is the only clock and never runs back: after an accepted batch it is the
  maximum of the old cursor and the sequence numbers of the batch, the result reports it, and every
  event got exactly one outcome, in order of sequence.\<close>

theorem cursor_monotone:
  assumes "applyEventBatch h project events d = Inr (r, d')"
  shows "readCursor project d' = br_cursor r \<and> readCursor project d \<le> br_cursor r \<and>
    (\<exists>es. validateBatch events = Inr es \<and> br_cursor r = fold max (map ev_seq es) (readCursor project d) \<and>
      map fst (br_outcomes r) = map ev_seq (sort_key ev_seq es))"
proof (rule batch_Inr [OF assms])
  fix es d1
  assume e: "validateBatch events = Inr es" and
    f: "foldE (batch_step h project (readCursor project d)) (sort_key ev_seq es) ([], readCursor project d, d) =
      Inr (br_outcomes r, br_cursor r, d1)"
  have m: "fold max xs a = b" if "a \<le> b" "\<forall>x\<in>set xs. x \<le> b" "b = a \<or> b \<in> set xs" for xs and a b :: int
    using that by (induction xs arbitrary: a) (auto simp: max_def)
  from batch_cursor [OF f] have "readCursor project d \<le> br_cursor r" "\<forall>x\<in>set (map ev_seq es). x \<le> br_cursor r"
    "br_cursor r = readCursor project d \<or> br_cursor r \<in> set (map ev_seq es)" by auto
  then have "readCursor project d \<le> br_cursor r" "br_cursor r = fold max (map ev_seq es) (readCursor project d)"
    using m by auto
  then show ?thesis using e readCursor_after [OF assms] batch_outcomes [OF f] by auto
qed

text \<open>C3. Replay is idempotent: delivering an accepted batch again succeeds, reports every event as a
  no-op with the same cursor and generation, and changes nothing in the store (the cursor is
  rewritten with the value it has).\<close>

theorem batch_replay_idempotent:
  assumes "applyEventBatch h project events d = Inr (r, d')"
  shows "\<exists>outs. applyEventBatch h project events d' =
      Inr (r\<lparr> br_outcomes := outs \<rparr>, d'\<lparr> changes := Suc (changes d') \<rparr>) \<and>
    map fst outs = map fst (br_outcomes r) \<and> list_all (\<lambda>(_, out). out = Replay_Noop) outs"
proof (rule batch_Inr [OF assms])
  fix es d1
  assume e: "validateBatch events = Inr es" and
    f: "foldE (batch_step h project (readCursor project d)) (sort_key ev_seq es) ([], readCursor project d, d) =
      Inr (br_outcomes r, br_cursor r, d1)"
  let ?outs = "map (\<lambda>e. (ev_seq e, Replay_Noop)) (sort_key ev_seq es)"
  have c: "readCursor project d' = br_cursor r" by (rule readCursor_after [OF assms])
  have "\<forall>x\<in>set (sort_key ev_seq es). ev_seq x \<le> br_cursor r" using batch_cursor [OF f] by auto
  from batch_skips [OF this] have s: "foldE (batch_step h project (br_cursor r)) (sort_key ev_seq es) ([], br_cursor r, d') =
      Inr (?outs, br_cursor r, d')" by simp
  have g: "readGeneration (d'\<lparr> changes := n \<rparr>) = br_generation r" for n
    using readGeneration_after [OF assms] by (simp add: readGeneration_def state_int_def state_get_def)
  have "applyEventBatch h project events d' = Inr (r\<lparr> br_outcomes := ?outs \<rparr>, d'\<lparr> changes := Suc (changes d') \<rparr>)"
    by (simp add: applyEventBatch_def e c s Let_def finish_batch_def rewrite_cursor [OF assms] g)
  moreover have "map fst ?outs = map fst (br_outcomes r)" using batch_outcomes [OF f] by (simp add: comp_def)
  ultimately show ?thesis by (intro exI [of _ ?outs]) (auto simp: list_all_iff)
qed

text \<open>The generation tells the truth to the caches: an accepted batch either bumps it by one, or no
  memory, binding, alias, contributor, conflict set, retired content, version or edge has changed.\<close>

theorem generation_reports_writes:
  assumes "applyEventBatch h project events d = Inr (r, d')"
  shows "br_generation r = readGeneration d + 1 \<or>
    br_generation r = readGeneration d \<and> memories d' = memories d \<and> entity_map d' = entity_map d \<and>
    alias_log d' = alias_log d \<and> contributors d' = contributors d \<and> conflict_sets d' = conflict_sets d \<and>
    tombstones d' = tombstones d \<and> versions d' = versions d \<and> edges d' = edges d"
proof (rule batch_Inr [OF assms])
  fix es d1
  assume f: "foldE (batch_step h project (readCursor project d)) (sort_key ev_seq es) ([], readCursor project d, d) =
      Inr (br_outcomes r, br_cursor r, d1)"
    and d': "d' = (if changes d < changes d1 then snd (bumpGeneration (writeCursor project (br_cursor r) d1))
      else writeCursor project (br_cursor r) d1)"
    and g: "br_generation r = (if changes d < changes d1 then readGeneration d1 + 1 else readGeneration d1)"
  have k: "readGeneration d1 = readGeneration d"
    using counters.R_events [OF f] by (simp add: keeps_counters_def readGeneration_def)
  have w: "counts_up h d d1" by (rule writes.R_events [OF f])
  show ?thesis
  proof (cases "changes d < changes d1")
    case False
    with w have "d1\<lparr> uuids := 0 \<rparr> = d\<lparr> uuids := 0 \<rparr>" by (simp add: counts_up_def)
    then have "F (d1\<lparr> uuids := 0 \<rparr>) = F (d\<lparr> uuids := 0 \<rparr>)" for F :: "db \<Rightarrow> 'x" by simp
    from this [of memories] this [of entity_map] this [of alias_log] this [of contributors] this [of conflict_sets]
      this [of tombstones] this [of versions] this [of edges]
    show ?thesis using False k g d' by (simp add: writeCursor_def state_put_def)
  qed (use k g in simp)
qed

end
