(* ===== verification/Apply_Events.thy ===== *)
theory Apply_Events
  imports Apply_Properties
begin

text \<open>
  Properties of single events: the bytes a binding is hashed over, protection of local intent, what
  an opted-out match leaves alone, one-shot resolution, and the project boundary.
\<close>

section \<open>Stored bytes\<close>

definition record_text_ok :: "host \<Rightarrow> portable_record \<Rightarrow> bool" where
  "record_text_ok h r \<longleftrightarrow> host_text_ok h \<and> list_all js_ok (p_tags r) \<and> json_ok (nums h) (p_context r)"

lemma parse_tags_column:
  "list_all js_ok ts \<Longrightarrow> parse_column h (JArr []) (Some (tags_column h (map JStr ts))) = Some (JArr (map JStr ts))"
proof -
  assume "list_all js_ok ts"
  then have "json_ok (nums h) (JArr (map JStr ts))" by (simp add: list_all_iff)
  from json_parse_stringify [OF this] show ?thesis by (simp add: parse_column_def tags_column_def)
qed

lemma stringify_JObj_neq: "stringify n (JObj kvs) \<noteq> []"
  by simp

lemma row_context_column:
  assumes "json_ok (nums h) ctx" "ctx = JNull \<or> (\<exists>kvs. ctx = JObj kvs)" "context_fields (\<lambda>s. s) ctx = ctx"
  shows "row_context h (json_column h ctx) = ctx"
proof (cases "ctx = JNull")
  case True
  then show ?thesis by (simp add: row_context_def json_column_def parse_column_def context_fields_def)
next
  case False
  then obtain kvs where "ctx = JObj kvs" using assms(2) by auto
  with json_parse_stringify [OF assms(1)] assms(3) show ?thesis
    by (simp add: row_context_def json_column_def parse_column_def stringify_JObj_neq)
qed

lemma projected_columns:
  assumes "record_text_ok h r"
  shows "row_tags h (Some (tags_column h (pj_tags (projectPayload h r)))) = Inr (pj_tags (projectPayload h r))"
    "row_context h (json_column h (pj_context (projectPayload h r))) = pj_context (projectPayload h r)"
proof -
  have "list_all js_ok (sort (map (clean h) (p_tags r)))"
    using assms clean_js_ok by (auto simp: record_text_ok_def list_all_iff)
  from parse_tags_column [OF this] show "row_tags h (Some (tags_column h (pj_tags (projectPayload h r)))) =
      Inr (pj_tags (projectPayload h r))" by (simp add: row_tags_def projectPayload_def)
  have "json_ok (nums h) (context_fields (clean h) (p_context r))"
    using assms clean_js_ok by (intro context_fields_ok) (auto simp: record_text_ok_def)
  from row_context_column [OF this context_fields_shape context_fields_idem]
  show "row_context h (json_column h (pj_context (projectPayload h r))) = pj_context (projectPayload h r)"
    by (simp add: projectPayload_def)
qed

text \<open>A row that carries the projected columns hashes to the hash of the payload.\<close>

lemma row_hash_projected:
  assumes "record_text_ok h r" "r_kind row = p_kind r" "r_project row = p_project r"
    "r_content row = pj_content (projectPayload h r)" "r_tags row = Some (tags_column h (pj_tags (projectPayload h r)))"
    "r_context row = json_column h (pj_context (projectPayload h r))" "r_anchor row = pj_anchor (projectPayload h r)"
  shows "row_hash h row = Inr (projectionHashOfPayload h r)"
proof -
  have "row_fields h row = Inr (projectPayload h r)"
    using assms projected_columns [OF assms(1)] by (simp add: row_fields_def) (simp add: projectPayload_def)
  then show ?thesis by (simp add: row_hash_def projectionHashOfPayload_def)
qed

lemma row_hash_inserted:
  "record_text_ok h r \<Longrightarrow>
    row_hash h (projected_row h i (buildInertProjection h env r)) = Inr (projectionHashOfPayload h r)"
  by (rule row_hash_projected) (simp_all add: projected_row_def buildInertProjection_def Let_def, simp_all add: projectPayload_def)

section \<open>Bindings\<close>

lemma getByEntityId_put: "getByEntityId e (put_entry x d) = (if e = e_entity_id x then Some x else getByEntityId e d)"
  by (simp add: getByEntityId_def t_get_put)

lemma bind_as_stored_Inr:
  assumes "bind_as_stored h p env i ph d = Inr d'"
  shows "\<exists>x. projectionHashOfRow h i d = Inr x \<and> memories d' = memories d \<and>
    getByEntityId (env_entity env) d' =
      Some (bound_entry h (upsert_binding env p i (case x of Some y \<Rightarrow> y | None \<Rightarrow> ph)))"
proof -
  from assms obtain x d1 where x: "projectionHashOfRow h i d = Inr x"
    and b: "bindEntity h (upsert_binding env p i (case x of Some y \<Rightarrow> y | None \<Rightarrow> ph)) d = Inr d1"
    and d': "d' = mergeContributors (env_entity env) (env_contributors env) (env_version env) d1"
    by (auto simp: bind_as_stored_def bindE_Inr_iff)
  have "e_entity_id (bound_entry h (upsert_binding env p i y)) = env_entity env" for y
    by (simp add: bound_entry_def upsert_binding_def)
  with bindEntity_Inr [OF b] d' x show ?thesis
    by (simp add: getByEntityId_put) (simp add: getByEntityId_def t_get_put)
qed

text \<open>The entry a successful upsert leaves.\<close>

definition bound_as_stored :: "host \<Rightarrow> jstr \<Rightarrow> envelope \<Rightarrow> db \<Rightarrow> bool" where
  "bound_as_stored h p env d \<longleftrightarrow> (\<exists>en. getByEntityId (env_entity env) d = Some en \<and> e_state en = Bound \<and>
     e_version en = env_version env \<and> e_project en = p \<and> e_canonical_hash en = env_hash env \<and>
     row_of d (e_local_id en) \<noteq> None \<and> projectionHashOfRow h (e_local_id en) d = Inr (Some (e_projection_hash en)))"

lemma bind_as_stored_bound:
  assumes "bind_as_stored h p env i ph d = Inr d'" "row_of d i \<noteq> None"
  shows "bound_as_stored h p env d'"
proof -
  from bind_as_stored_Inr [OF assms(1)] obtain x where x: "projectionHashOfRow h i d = Inr x" "memories d' = memories d"
    "getByEntityId (env_entity env) d' =
      Some (bound_entry h (upsert_binding env p i (case x of Some y \<Rightarrow> y | None \<Rightarrow> ph)))" by blast
  from x(1) assms(2) obtain y where y: "x = Some y" by (auto simp: projectionHashOfRow_def bindE_Inr_iff)
  have "projectionHashOfRow h i d' = Inr x" using x(1,2) projectionHashOfRow_cong [of i d d' h] by simp
  with x y assms(2) show ?thesis
    by (simp add: bound_as_stored_def bound_entry_def upsert_binding_def)
qed

lemma bound_as_stored_open: "bound_as_stored h p env (openConflictSet h i q ms r b s d) = bound_as_stored h p env d"
  by (simp add: bound_as_stored_def getByEntityId_def projectionHashOfRow_def)

lemma row_of_inserted: "insertProjectedRow h i p d = Inr d' \<Longrightarrow> row_of d' i = Some (projected_row h i p)"
proof -
  have "r_id (projected_row h i p) = i" by (simp add: projected_row_def Let_def)
  then show "insertProjectedRow h i p d = Inr d' \<Longrightarrow> row_of d' i = Some (projected_row h i p)"
    by (auto simp: insertProjectedRow_Inr t_get_append t_get_single)
qed

lemma row_of_insert_other: "insertProjectedRow h i p d = Inr d' \<Longrightarrow> row_of d j = Some r \<Longrightarrow> row_of d' j = Some r"
  by (auto simp: insertProjectedRow_Inr t_get_append)

lemma row_of_plain:
  "(\<And>r. r_id (f r) = r_id r) \<Longrightarrow>
    row_of (exec_update_plain P f d) i = map_option (\<lambda>r. if P r then f r else r) (row_of d i)"
  by (simp add: row_of_update)

lemma row_of_fork: "row_of (writeForkNotice h i e x s d) j = row_of d j"
  by (simp add: writeForkNotice_def)

lemma row_of_close: "row_of (closeEntry e d) j = row_of d j"
  by simp

lemma row_of_insert_if_absent: "insert_if_absent h i p d = Inr d' \<Longrightarrow> row_of d' i \<noteq> None"
  by (auto simp: insert_if_absent_def row_of_inserted split: if_splits)

section \<open>Outcomes of the branches\<close>

lemma edit_outcome: "apply_edit h p env r ph en d = Inr (out, d') \<Longrightarrow> out = Applied_Edit"
  by (auto simp: apply_edit_def Let_def bindE_Inr_iff split: option.splits)

lemma fork_outcome: "apply_fork h p env r ph en d = Inr (out, d') \<Longrightarrow> out = Forked"
  by (auto simp: apply_fork_def Let_def bindE_Inr_iff split: prod.splits)

lemma new_outcome: "apply_new h p env r ph d = Inr (out, d') \<Longrightarrow> out = Applied_New \<or> out = Replay_Noop"
  by (auto simp: apply_new_def Let_def bindE_Inr_iff split: if_splits)

lemma twin_outcome: "apply_twin h p env r ph m d = Inr (out, d') \<Longrightarrow> out = Twin_Inserted \<or> out = Replay_Noop"
  by (auto simp: apply_twin_def Let_def bindE_Inr_iff split: if_splits)

lemma coexist_outcome: "apply_coexist h p env r ph en d = Inr (out, d') \<Longrightarrow> out = Coexist_Conflict"
  by (auto simp: apply_coexist_def Let_def bindE_Inr_iff split: if_splits)

lemma upsert_branches:
  assumes "applyUpsert h p env r d = Inr (out, d')"
  shows "out = Replay_Noop \<and> d' = d \<or> (\<exists>ph en. apply_bound h p env r ph en d = Inr (out, d')) \<or>
    (\<exists>ph en. apply_shadow h p env r ph en d = Inr (out, d')) \<or> (\<exists>ph m. apply_matched h p env r ph m d = Inr (out, d'))"
  using assms by (auto simp: applyUpsert_def storedHashes_def Let_def bindE_Inr_iff split: option.splits if_splits)

lemma bound_branches:
  assumes "apply_bound h p env r ph en d = Inr (out, d')"
  shows "apply_edit h p env r ph en d = Inr (out, d') \<or> apply_fork h p env r ph en d = Inr (out, d')"
  using assms by (auto simp: apply_bound_def Let_def bindE_Inr_iff split: if_splits)

lemma matched_branches:
  assumes "apply_matched h p env r ph m d = Inr (out, d')"
  shows "apply_new h p env r ph d = Inr (out, d') \<or> (\<exists>x. apply_twin h p env r ph x d = Inr (out, d')) \<or>
    (\<exists>x. apply_coexist h p env r ph x d = Inr (out, d')) \<or>
    out = Shadow_Associated \<and> (\<exists>x. shadow_write h p env r x ph d = Inr d')"
  using assms by (auto simp: apply_matched_def bindE_Inr_iff split: option.splits if_splits)

section \<open>Local rows under an upsert\<close>

definition opted_out :: "memory_row \<Rightarrow> memory_row" where
  "opted_out r = r\<lparr> r_share_state := Some Local \<rparr>"

lemma fork_keeps_row:
  assumes "apply_fork h p env rec ph en d = Inr (out, d')" "row_of d (e_local_id en) = Some r"
  shows "out = Forked \<and> row_of d' (e_local_id en) = Some (opted_out r)"
proof -
  let ?i = "e_local_id en"
  obtain f d1 where g: "generateId h d = (f, d1)" by fastforce
  from assms(1) g obtain d2 where ins: "insertProjectedRow h f (buildInertProjection h env rec) d1 = Inr d2"
    and b: "bind_as_stored h p env f ph (writeForkNotice h ?i (env_entity env) ''T3'' (env_version env)
        (exec_update_plain (has_id ?i) (\<lambda>r. r\<lparr> r_share_state := Some Local \<rparr>) d2)) = Inr d'"
    and out: "out = Forked"
    by (auto simp: apply_fork_def bindE_Inr_iff Let_def)
  have "row_of d1 ?i = Some r" using assms(2) g by (auto simp: generateId_def)
  then have "row_of d2 ?i = Some r" using row_of_insert_other [OF ins] by blast
  moreover have "r_id r = ?i" using assms(2) t_get_Some by fastforce
  moreover have "row_of d' ?i = row_of (exec_update_plain (has_id ?i) (\<lambda>r. r\<lparr> r_share_state := Some Local \<rparr>) d2) ?i"
    using bind_as_stored_Inr [OF b] by (auto simp: writeForkNotice_def)
  ultimately show ?thesis using out by (simp add: row_of_update opted_out_def)
qed

lemma tombstone_keeps_row:
  assumes "applyTombstone h p q e v d = Inr (out, d')" "getByEntityId e d = Some en" "e_state en = Bound"
    "row_of d (e_local_id en) = Some r" "hasUnpushedLocalIntent h (e_local_id en) (e_projection_hash en) d = Inr True"
  shows "row_of d' (e_local_id en) = Some r \<or> out = Fork_Preserved \<and> row_of d' (e_local_id en) = Some (opted_out r)"
proof -
  have i: "r_id r = e_local_id en" using assms(4) t_get_Some by fastforce
  from assms show ?thesis
    by (auto simp: applyTombstone_def Let_def bindE_Inr_iff projectionHashOfRow_def fork_preserve_def writeForkNotice_def
        row_of_update opted_out_def i split: if_splits)
qed

section \<open>Properties\<close>

text \<open>C7. The bytes hashed are the bytes stored: a row inserted from a payload hashes, read back from its
  JSON columns, to exactly the projection hash of that payload; the scrubbing and neutralizing of the
  text, the sorting of tags and the reshaping of the context happen once and on both sides.\<close>

theorem stored_hash_is_payload_hash:
  assumes "record_text_ok h record" "insertProjectedRow h i (buildInertProjection h env record) d = Inr d'"
  shows "projectionHashOfRow h i d' = Inr (Some (projectionHashOfPayload h record))"
  using row_of_inserted [OF assms(2)] row_hash_inserted [OF assms(1)] by (simp add: projectionHashOfRow_def)


text \<open>C5. Unpushed local intent survives the stream: when a bound row has an edit, retraction, opt-out or
  journal entry that is not pushed, a tombstone never removes or changes it beyond opting it out,
  and an upsert of its entity that is not an echo of its own bytes forks: the incoming edit gets a
  row of its own and the local row keeps every column but the share state.\<close>

theorem local_intent_preserved:
  assumes "getByEntityId e d = Some en" "e_state en = Bound" "row_of d (e_local_id en) = Some r"
    "hasUnpushedLocalIntent h (e_local_id en) (e_projection_hash en) d = Inr True"
  shows "(applyTombstone h project seq e version d = Inr (out, d') \<longrightarrow>
      row_of d' (e_local_id en) \<in> {Some r, Some (r\<lparr> r_share_state := Some Local \<rparr>)}) \<and>
    (applyUpsert h project env record d = Inr (out, d') \<longrightarrow> env_entity env = e \<longrightarrow> e_version en < env_version env \<longrightarrow>
      isLocallyRetracted (e_local_id en) d \<or> isRowOptedOut (e_local_id en) d \<or>
        projectionHashOfRow h (e_local_id en) d \<noteq> Inr (Some (projectionHashOfPayload h record)) \<longrightarrow>
      out = Forked \<and> row_of d' (e_local_id en) = Some (r\<lparr> r_share_state := Some Local \<rparr>))"
proof (intro conjI impI)
  assume t: "applyTombstone h project seq e version d = Inr (out, d')"
  from tombstone_keeps_row [OF t assms] show "row_of d' (e_local_id en) \<in> {Some r, Some (r\<lparr> r_share_state := Some Local \<rparr>)}"
    by (auto simp: opted_out_def)
next
  let ?ph = "projectionHashOfPayload h record"
  assume u: "applyUpsert h project env record d = Inr (out, d')" and e: "env_entity env = e" "e_version en < env_version env"
    and n: "isLocallyRetracted (e_local_id en) d \<or> isRowOptedOut (e_local_id en) d \<or>
        projectionHashOfRow h (e_local_id en) d \<noteq> Inr (Some ?ph)"
  have "storedHashes h env (projectPayload h record) = (env_hash env, ?ph)"
    by (simp add: storedHashes_def projectionHashOfPayload_def)
  with u e assms(1,2) have "apply_bound h project env record ?ph en d = Inr (out, d')"
    by (simp add: applyUpsert_def)
  with n assms(4) have "apply_fork h project env record ?ph en d = Inr (out, d')"
    by (auto simp: apply_bound_def Let_def bindE_Inr_iff split: if_splits)
  from fork_keeps_row [OF this assms(3)] show "out = Forked"
    "row_of d' (e_local_id en) = Some (r\<lparr> r_share_state := Some Local \<rparr>)" by (simp_all add: opted_out_def)
qed

text \<open>An opted-out row is only associated: when an incoming entity matches a row its owner opted out,
  or refreshes such an association, no row of the store is written, inserted or deleted; the entity
  is recorded beside the row with the content as it would have been stored.\<close>

theorem shadow_writes_no_row:
  assumes "applyUpsert h project env record d = Inr (out, d')" "out \<in> {Shadow_Associated, Assoc_Refreshed}"
  shows "memories d' = memories d \<and>
    (\<exists>en. getByEntityId (env_entity env) d' = Some en \<and> e_state en = Shadow_Assoc \<and> e_project en = project \<and>
      e_inert en = Some (inert_text h (buildInertProjection h env record)))"
proof -
  have sh: "memories d' = memories d \<and> (\<exists>en. getByEntityId (env_entity env) d' = Some en \<and> e_state en = Shadow_Assoc \<and>
      e_project en = project \<and> e_inert en = Some (inert_text h (buildInertProjection h env record)))"
    if "shadow_write h project env record i ph d = Inr d'" for i ph
    using writeShadowAssoc_Inr [OF that [unfolded shadow_write_def]]
    by (simp add: getByEntityId_put shadow_entry_def upsert_binding_def)
  have b: "apply_bound h project env record ph en d \<noteq> Inr (out, d')" for ph en
    using bound_branches [of h project env "record" ph en d out d'] assms(2) by (auto dest: edit_outcome fork_outcome)
  have s: "\<exists>i. shadow_write h project env record i ph d = Inr d'"
    if "apply_shadow h project env record ph en d = Inr (out, d')" for ph en
    using that assms(2) by (auto simp: apply_shadow_def Let_def bindE_Inr_iff split: if_splits prod.splits)
  have m: "\<exists>i. shadow_write h project env record i ph d = Inr d'"
    if "apply_matched h project env record ph m d = Inr (out, d')" for ph m
    using matched_branches [OF that] assms(2) by (auto dest!: new_outcome twin_outcome coexist_outcome)
  have "out \<noteq> Replay_Noop" using assms(2) by auto
  then have "(\<exists>ph en. apply_bound h project env record ph en d = Inr (out, d')) \<or>
      (\<exists>ph en. apply_shadow h project env record ph en d = Inr (out, d')) \<or>
      (\<exists>ph m. apply_matched h project env record ph m d = Inr (out, d'))"
    using upsert_branches [OF assms(1)] by blast
  with b s m sh show ?thesis by blast
qed

lemma conflict_set_kept:
  assumes "t_get cs_id i (conflict_sets d) = Some c"
  shows "t_get cs_id i (conflict_sets (openConflictSet h j p ms r b s d)) = Some c"
  using assms by (auto simp: openConflictSet_def t_get_append)

text \<open>C8. A resolution is final: after a resolve-commit has been applied to a conflict set, a second one
  for the same set is a no-op when it carries the same sequence number and is refused, whatever it
  says, when it carries another.\<close>

theorem resolve_one_shot:
  assumes "t_get cs_id (re_set ev) (conflict_sets d) = Some c" "cs_status c = Resolved_Set"
    "re_set ev' = re_set ev" "applyResolveCommit h project seq ev d0 = Inr (Resolved, d)"
  shows "cs_resolved_seq c = Some seq \<and>
    (applyResolveCommit h project' seq' ev' d = Inr (out, d') \<longrightarrow> seq' = seq \<and> out = Replay_Noop \<and> d' = d)"
proof -
  from assms(4) obtain d1 where d: "d = resolveConflictSet (re_set ev) seq d1"
    by (auto simp: applyResolveCommit_def bindE_Inr_iff split: option.splits if_splits)
  have "t_get cs_id i (t_update (\<lambda>c. cs_id c = j) f cs) = map_option (\<lambda>c. if cs_id c = j then f c else c) (t_get cs_id i cs)"
    if "\<And>c. cs_id (f c) = cs_id c" for i j f and cs :: "conflict_set list"
    using that by (intro t_get_update) auto
  then have "cs_resolved_seq c = Some seq"
    using assms(1) t_get_Some by (fastforce simp: d resolveConflictSet_def)
  then show ?thesis
    using assms(1,2,3) by (auto simp: applyResolveCommit_def bindE_Inr_iff split: if_splits)
qed

end
