(* ===== verification/Project_Boundary.thy ===== *)
theory Project_Boundary
  imports Apply_Events
begin

text \<open>
  The project boundary of sync apply.  Tombstones, aliases and conflict events of a batch for one
  project leave every row of every other project alone, by the checks of their handlers.  The upsert
  handler has no such check on the entity it finds: an event that passes the payload gate for the
  caller's project but names an entity bound in another one rewrites that project's row.
\<close>

section \<open>Rows of other projects\<close>

text \<open>The map agrees with the rows on projects.\<close>

definition map_projects_ok :: "db \<Rightarrow> bool" where
  "map_projects_ok d \<longleftrightarrow> t_keyed r_id (memories d) \<and>
     (\<forall>en\<in>set (entity_map d). \<forall>r. row_of d (e_local_id en) = Some r \<longrightarrow> r_project r = Some (e_project en))"

definition foreign_kept :: "jstr \<Rightarrow> db \<Rightarrow> db \<Rightarrow> bool" where
  "foreign_kept p d d' \<longleftrightarrow> (\<forall>r\<in>set (memories d). r_project r \<noteq> Some p \<longrightarrow> r \<in> set (memories d'))"

lemma foreign_kept_refl: "memories d' = memories d \<Longrightarrow> foreign_kept p d d'"
  by (simp add: foreign_kept_def)

lemma foreign_kept_trans: "foreign_kept p a b \<Longrightarrow> foreign_kept p b c \<Longrightarrow> foreign_kept p a c"
  by (simp add: foreign_kept_def)

lemma foreign_row:
  assumes "map_projects_ok d" "en \<in> set (entity_map d)" "r \<in> set (memories d)" "r_project r \<noteq> Some (e_project en)"
  shows "r_id r \<noteq> e_local_id en"
proof
  assume "r_id r = e_local_id en"
  then have "row_of d (e_local_id en) = Some r"
    using assms(1,3) t_get_keyed [of r_id "memories d" r] by (simp add: map_projects_ok_def)
  with assms(1,2,4) show False by (auto simp: map_projects_ok_def)
qed

lemma getByEntityId_in: "getByEntityId e d = Some en \<Longrightarrow> en \<in> set (entity_map d)"
  using t_get_Some by (fastforce simp: getByEntityId_def)

lemma foreign_kept_update:
  "map_projects_ok d \<Longrightarrow> en \<in> set (entity_map d) \<Longrightarrow> e_project en = p \<Longrightarrow>
    foreign_kept p d (exec_update_plain (has_id (e_local_id en)) f d)"
  using foreign_row [of d en] by (auto simp: foreign_kept_def t_update_def image_iff)

lemma foreign_kept_delete:
  "map_projects_ok d \<Longrightarrow> en \<in> set (entity_map d) \<Longrightarrow> e_project en = p \<Longrightarrow>
    foreign_kept p d (tombstoneLocalRow h (e_local_id en) d)"
  using foreign_row [of d en] by (auto simp: foreign_kept_def tombstoneLocalRow_def)

lemma tombstone_boundary:
  assumes "map_projects_ok d" "applyTombstone h p q e v d = Inr (out, d')"
  shows "foreign_kept p d d'"
proof (cases "getByEntityId e d")
  case None
  with assms(2) show ?thesis by (simp add: applyTombstone_def foreign_kept_refl)
next
  case (Some en)
  show ?thesis
  proof (cases "e_project en = p")
    case True
    have k: "foreign_kept p d (exec_update_plain (has_id (e_local_id en)) f d)"
      "foreign_kept p d (tombstoneLocalRow h (e_local_id en) d)" for f
      using foreign_kept_update foreign_kept_delete assms(1) getByEntityId_in [OF Some] True by blast+
    then have "foreign_kept p d (fork_preserve h e (e_local_id en) q d)"
      "foreign_kept p d (closeEntry e (tombstoneLocalRow h (e_local_id en) d))" "foreign_kept p d (closeEntry e d)"
      by (simp_all add: foreign_kept_def fork_preserve_def writeForkNotice_def)
    with assms(2) Some True show ?thesis
      by (auto simp: applyTombstone_def Let_def bindE_Inr_iff foreign_kept_refl split: if_splits)
  qed (use assms(2) Some in \<open>simp add: applyTombstone_def\<close>)
qed

lemma materialize_boundary:
  assumes "materialize_target h p q e d = Inr d'"
  shows "foreign_kept p d d'"
proof -
  obtain i d1 where g: "generateId h d = (i, d1)" by fastforce
  from assms g obtain ip d2 b d4 where s: "insertProjectedRow h i ip d1 = Inr d2"
    "bindEntity h b (closeEntry (e_entity_id e) d2) = Inr d4" "merge_snapshot h e q d4 = Inr d'"
    by (auto simp: materialize_target_def bindE_Inr_iff Let_def)
  have "memories d' = memories d2"
    using s(3) bindEntity_Inr [OF s(2)] by (auto simp: merge_snapshot_def bindE_Inr_iff split: option.splits if_splits)
  moreover have "memories d1 = memories d" using g by (auto simp: generateId_def)
  ultimately show ?thesis using s(1) by (auto simp: foreign_kept_def insertProjectedRow_Inr)
qed

lemma alias_boundary:
  assumes "map_projects_ok d" "applyAlias h p q ev d = Inr (out, d')"
  shows "foreign_kept p d d'"
proof -
  let ?d1 = "recordAlias h (ae_from ev) (ae_to ev) (ae_version ev) q d"
  have same: "memories ?d1 = memories d" "entity_map ?d1 = entity_map d" by simp_all
  then have ok: "map_projects_ok ?d1" using assms(1) by (simp add: map_projects_ok_def)
  consider (none) "memories d' = memories d"
    | (some) from_e to_e where "getByEntityId (ae_from ev) d = Some from_e" "e_project from_e = p"
      "alias_apply h p q ev from_e to_e ?d1 = Inr (out, d')"
    using assms(2) by (auto simp: applyAlias_def Let_def split: option.splits if_splits)
  then show ?thesis
  proof cases
    case none
    then show ?thesis by (simp add: foreign_kept_refl)
  next
    case some
    have "from_e \<in> set (entity_map ?d1)" using getByEntityId_in [OF some(1)] same by simp
    with ok some(2) have del: "foreign_kept p ?d1 (tombstoneLocalRow h (e_local_id from_e) ?d1)"
      using foreign_kept_delete by blast
    let ?d2 = "if e_state from_e = Bound then tombstoneLocalRow h (e_local_id from_e) ?d1 else ?d1"
    have k2: "foreign_kept p d (closeEntry (ae_from ev) ?d2)"
      using del same by (simp add: foreign_kept_def)
    from some(3) obtain d3 where d3: "(if e_state to_e = Shadow_Assoc
          then materialize_target h p q to_e (closeEntry (ae_from ev) ?d2)
          else Inr (closeEntry (ae_from ev) ?d2)) = Inr d3"
      and d': "d' = mergeContributors (ae_to ev) (contributorsOf (ae_from ev) d3) q d3"
      unfolding alias_apply_def Let_def bindE_Inr_iff by blast
    have "foreign_kept p (closeEntry (ae_from ev) ?d2) d3"
      using d3 materialize_boundary foreign_kept_refl [of d3 "closeEntry (ae_from ev) ?d2" p] by (auto split: if_splits)
    from foreign_kept_trans [OF k2 this] show ?thesis by (simp add: d' foreign_kept_def)
  qed
qed

section \<open>Properties\<close>


lemma clean_row_edited:
  assumes "hasUnpushedLocalIntent h (e_local_id en) (e_projection_hash en) d = Inr False"
  shows "apply_bound h p env r ph en d = apply_edit h p env r ph en d"
  using assms by (auto simp: apply_bound_def Let_def hasUnpushedLocalIntent_def bindE_Inr_iff)

lemma no_foreign_association:
  assumes "map_ok d" "getByEntityId e d = Some en"
  shows "assertNoForeignAssociation (e_local_id en) e d = Inr ()"
proof -
  have en: "en \<in> set (entity_map d)" "e_entity_id en = e"
    using assms(2) t_get_Some by (fastforce simp: getByEntityId_def)+
  have "x = en" if "x \<in> set (entity_map d)" "e_local_id x = e_local_id en" for x
    using assms(1) that en(1) by (auto simp: map_ok_def t_keyed_def distinct_map dest: inj_onD)
  with en(2) show ?thesis by (auto simp: assertNoForeignAssociation_def list_ex_iff)
qed

text \<open>C27. The boundary is open for upserts: let an entity be bound in project \<open>B\<close> to a clean row of \<open>B\<close>;
  an upsert of that entity in a batch for project \<open>A\<close>, newer than the binding and with a payload that
  passes the gate for \<open>A\<close>, is applied; it overwrites the content of the row of project \<open>B\<close>, which
  stays filed under \<open>B\<close>, and rebinds the entity to project \<open>A\<close>.  The tombstone and alias handlers
  refuse the same mismatch.\<close>

theorem upsert_crosses_projects:
  assumes "getByEntityId (env_entity env) d = Some en" "e_state en = Bound" "e_version en < env_version env"
    "row_of d (e_local_id en) = Some r" "r_project r = Some B" "e_project en = B" "A \<noteq> B" "map_ok d"
    "hasUnpushedLocalIntent h (e_local_id en) (e_projection_hash en) d = Inr False"
    "validatePayload h env A = Inr record" "record_text_ok h record"
  shows "\<exists>d' r' en'. apply_event h A (Ev_Upsert q env) d = Inr (Applied_Edit, d') \<and>
    row_of d' (e_local_id en) = Some r' \<and> r_project r' = Some B \<and> r_content r' = clean h (p_content record) \<and>
    getByEntityId (env_entity env) d' = Some en' \<and> e_project en' = A \<and> e_local_id en' = e_local_id en"
proof -
  let ?i = "e_local_id en"
  let ?ph = "projectionHashOfPayload h record"
  let ?upd = "\<lambda>r. let s = set_semantic h (projectPayload h record) r in
    if hasPendingVolatileIntent ?i d then s else set_volatile h (buildInertProjection h env record) s"
  define d1 where "d1 = exec_update h (has_id ?i) ?upd d"
  define d2 where "d2 = exec_update_plain (has_id ?i) (\<lambda>r. r\<lparr> r_updated_at := Some (env_updated env) \<rparr>) d1"
  have id: "r_id r = ?i" using assms(4) t_get_Some by fastforce
  define r2 where "r2 = (revision_trigger h (?upd r))\<lparr> r_updated_at := Some (env_updated env) \<rparr>"
  have row: "row_of d2 ?i = Some r2"
    using assms(4) id by (simp add: d2_def d1_def r2_def row_of_update set_semantic_def set_volatile_def Let_def
        revision_trigger_def)
  have cols: "r_project r2 = Some B" "r_content r2 = clean h (p_content record)"
    "r_tags r2 = Some (tags_column h (pj_tags (projectPayload h record)))"
    using assms(5) by (simp_all add: r2_def revision_trigger_def set_semantic_def set_volatile_def Let_def projectPayload_def)
  obtain x where x: "row_hash h r2 = Inr x"
    using projected_columns(1) [OF assms(11)] cols(3) by (auto simp: row_hash_def row_fields_def)
  have same: "entity_map d2 = entity_map d" by (simp add: d2_def d1_def)
  have "assertNoForeignAssociation ?i (env_entity env) d2 = Inr ()"
    using no_foreign_association [OF assms(8,1)] same by (simp add: assertNoForeignAssociation_def)
  then obtain d' where b: "bind_as_stored h A env ?i ?ph d2 = Inr d'"
    by (simp add: bind_as_stored_def projectionHashOfRow_row [OF row] x bindEntity_def upsert_binding_def)
  have "storedHashes h env (projectPayload h record) = (env_hash env, ?ph)"
    by (simp add: storedHashes_def projectionHashOfPayload_def)
  then have "applyUpsert h A env record d = apply_edit h A env record ?ph en d"
    using assms(1,2,3) clean_row_edited [OF assms(9)] by (simp add: applyUpsert_def)
  also have "\<dots> = Inr (Applied_Edit, d')"
    using assms(4) b by (simp add: apply_edit_def Let_def d2_def d1_def)
  finally have "apply_event h A (Ev_Upsert q env) d = Inr (Applied_Edit, d')" using assms(10) by simp
  moreover have "row_of d' ?i = Some r2" using bind_as_stored_Inr [OF b] row by auto
  moreover have "\<exists>en'. getByEntityId (env_entity env) d' = Some en' \<and> e_project en' = A \<and> e_local_id en' = ?i"
    using bind_as_stored_Inr [OF b] by (auto simp: bound_entry_def upsert_binding_def)
  ultimately show ?thesis using cols by blast
qed

end
