(* ===== verification/Apply_Samples.thy ===== *)
theory Apply_Samples
  imports Project_Boundary
begin

text \<open>
  The properties of sync apply at work: a sample upsert applied to an empty store, and each property
  applied to the states and batches it leads to.
\<close>

section \<open>The sample store\<close>

abbreviation web :: jstr where "web \<equiv> js ''web''"

abbreviation sample_payload :: portable_record where "sample_payload \<equiv> key_normal sample_record"

abbreviation sample_hash :: jstr where "sample_hash \<equiv> projectionHashOfPayload sample_host sample_payload"

definition stored_row :: memory_row where
  "stored_row = projected_row sample_host (record_id sample_payload) (buildInertProjection sample_host sample_envelope sample_payload)"

definition stored_entry :: entity_entry where
  "stored_entry = bound_entry sample_host (upsert_binding sample_envelope web (record_id sample_payload) sample_hash)"

definition stored_db :: "db \<Rightarrow> db" where
  "stored_db d = mergeContributors (env_entity sample_envelope) (env_contributors sample_envelope) (env_version sample_envelope)
     (put_entry stored_entry (d\<lparr> memories := memories d @ [stored_row], changes := Suc (changes d) \<rparr>))"

lemma sample_text_ok: "record_text_ok sample_host sample_payload"
proof -
  have "host_text_ok sample_host" by (simp add: host_text_ok_def sample_host_def)
  then show ?thesis by (simp add: record_text_ok_def key_normal_def sample_record_def js_def)
qed

lemma stored_row_fields [simp]:
  "r_id stored_row = record_id sample_payload" "r_project stored_row = Some web" "r_share_state stored_row = None"
  "r_invalidated stored_row = 0" "r_superseded_by stored_row = None"
  by (simp_all add: stored_row_def projected_row_def Let_def buildInertProjection_def projectPayload_def
      key_normal_def sample_record_def)

lemma stored_entry_fields [simp]:
  "e_entity_id stored_entry = js ''e1''" "e_local_id stored_entry = record_id sample_payload" "e_project stored_entry = web"
  "e_state stored_entry = Bound" "e_version stored_entry = 1" "e_projection_hash stored_entry = sample_hash"
  by (simp_all add: stored_entry_def bound_entry_def upsert_binding_def sample_envelope_def)

lemma stored_row_hash: "row_hash sample_host stored_row = Inr sample_hash"
  by (simp add: stored_row_def row_hash_inserted [OF sample_text_ok])

lemma sample_binds:
  assumes "memories d = [stored_row]" "entity_map d = []"
  shows "bind_as_stored sample_host web sample_envelope (record_id sample_payload) sample_hash d =
    Inr (mergeContributors (env_entity sample_envelope) (env_contributors sample_envelope) (env_version sample_envelope)
      (put_entry stored_entry d))"
proof -
  have "row_of d (record_id sample_payload) = Some stored_row" using assms(1) by (simp add: t_get_single)
  then have "projectionHashOfRow sample_host (record_id sample_payload) d = Inr (Some sample_hash)"
    by (simp add: projectionHashOfRow_row stored_row_hash)
  then show ?thesis using assms(2)
    by (simp add: bind_as_stored_def bindEntity_def assertNoForeignAssociation_def stored_entry_def upsert_binding_def)
qed

lemma sample_upsert:
  assumes "memories d = []" "entity_map d = []"
  shows "applyUpsert sample_host web sample_envelope sample_payload d = Inr (Applied_New, stored_db d)"
proof -
  let ?d1 = "d\<lparr> memories := memories d @ [stored_row], changes := Suc (changes d) \<rparr>"
  have "insertProjectedRow sample_host (record_id sample_payload)
      (buildInertProjection sample_host sample_envelope sample_payload) d = Inr ?d1"
    using assms(1) by (simp add: insertProjectedRow_def exec_insert_def stored_row_def t_get_def)
  moreover have "bind_as_stored sample_host web sample_envelope (record_id sample_payload) sample_hash ?d1 =
      Inr (stored_db d)"
    using sample_binds [of ?d1] assms by (simp add: stored_db_def)
  moreover have "getByEntityId e d = None" for e using assms(2) by (simp add: getByEntityId_def t_get_def)
  moreover have "match_candidates web f d = []" for f using assms(1) by (simp add: match_candidates_def)
  moreover have "storedHashes sample_host sample_envelope (projectPayload sample_host sample_payload) =
      (env_hash sample_envelope, sample_hash)" by (simp add: storedHashes_def projectionHashOfPayload_def)
  ultimately show ?thesis using assms(1)
    by (simp add: applyUpsert_def Let_def selectExactMatch_def first_match_def apply_matched_def apply_new_def t_get_def)
qed

lemma stored_tables:
  assumes "memories d = []" "entity_map d = []"
  shows "memories (stored_db d) = [stored_row]" "entity_map (stored_db d) = [stored_entry]"
    "sync_state (stored_db d) = sync_state d" "conflict_sets (stored_db d) = conflict_sets d" "journal (stored_db d) = journal d"
  using assms by (simp_all add: stored_db_def t_put_def)

lemma stored_lookup:
  assumes "memories d = [stored_row]" "entity_map d = [stored_entry]"
  shows "getByEntityId (js ''e1'') d = Some stored_entry" "row_of d (record_id sample_payload) = Some stored_row"
    "projectionHashOfRow sample_host (record_id sample_payload) d = Inr (Some sample_hash)"
  using assms by (simp_all add: getByEntityId_def t_get_single projectionHashOfRow_row stored_row_hash)

lemma empty_tables [simp]: "memories empty_db = []" "entity_map empty_db = []" "journal empty_db = []" "conflict_sets empty_db = []"
  by (simp_all add: empty_db_def)

lemma map_ok_empty [simp]: "map_ok empty_db"
  by (simp add: map_ok_def t_keyed_def)

text \<open>The same entity one version later.\<close>

definition next_envelope :: envelope where
  "next_envelope = sample_envelope\<lparr> env_version := 2 \<rparr>"

lemma next_envelope_fields [simp]: "env_entity next_envelope = js ''e1''" "env_version next_envelope = 2"
  by (simp_all add: next_envelope_def sample_envelope_def)

section \<open>A sample batch\<close>

definition sample_events :: "sync_event list" where
  "sample_events = [Ev_Alias 2 \<lparr> ae_from = js ''a'', ae_to = js ''b'', ae_version = 1 \<rparr>,
     Ev_Tombstone 1 \<lparr> te_entity = js ''a'', te_version = 3, te_by = js ''u'', te_at = js ''t'' \<rparr>]"

lemma sample_batch_accepted:
  "\<exists>r d'. applyEventBatch sample_host web (map wire_event sample_events) empty_db = Inr (r, d')"
proof -
  have "validate_events [] (map wire_event sample_events) = Inr sample_events"
    by (rule validate_wire) (simp_all add: sample_events_def bounded_id_def safe_pos_def MAX_ID_LENGTH_def js_def)
  then have v: "validateBatch (map wire_event sample_events) = Inr sample_events"
    by (simp add: validateBatch_def MAX_EVENTS_PER_BATCH_def sample_events_def)
  have s: "sort_key ev_seq sample_events = rev sample_events" by (simp add: sample_events_def)
  have n: "getByEntityId e (recordAlias h f t v q empty_db) = None" "getByEntityId e empty_db = None" for e h f t v q
    by (simp_all add: getByEntityId_def t_get_def)
  have "\<exists>st. foldE (batch_step sample_host web c) (rev sample_events) ([], c, empty_db) = Inr st" for c
    by (auto simp: sample_events_def batch_step_def applyTombstone_def applyAlias_def n)
  then show ?thesis by (simp add: applyEventBatch_def v s Let_def) (metis bindE.simps(2) surj_pair)
qed

section \<open>Witnesses\<close>

lemma batch_cardinality_witness:
  "map_ok (commit_batch sample_host web (map wire_event sample_events) empty_db)"
  by (rule batch_cardinality [OF map_ok_empty])

lemma cursor_monotone_witness:
  "\<exists>r d'. applyEventBatch sample_host web (map wire_event sample_events) empty_db = Inr (r, d') \<and>
    readCursor web d' = br_cursor r \<and>
    (\<exists>es. validateBatch (map wire_event sample_events) = Inr es \<and>
      br_cursor r = fold max (map ev_seq es) (readCursor web empty_db) \<and>
      map fst (br_outcomes r) = map ev_seq (sort_key ev_seq es))"
proof -
  obtain r d' where a: "applyEventBatch sample_host web (map wire_event sample_events) empty_db = Inr (r, d')"
    using sample_batch_accepted by blast
  from cursor_monotone [OF a] a show ?thesis by blast
qed

lemma batch_replay_idempotent_witness:
  "\<exists>r d' outs. applyEventBatch sample_host web (map wire_event sample_events) d' =
      Inr (r\<lparr> br_outcomes := outs \<rparr>, d'\<lparr> changes := Suc (changes d') \<rparr>) \<and>
    list_all (\<lambda>(_, out). out = Replay_Noop) outs"
  using sample_batch_accepted batch_replay_idempotent by meson

lemma generation_reports_writes_witness:
  "\<exists>r d'. applyEventBatch sample_host web (map wire_event sample_events) empty_db = Inr (r, d') \<and>
    (br_generation r = readGeneration empty_db + 1 \<or>
     br_generation r = readGeneration empty_db \<and> memories d' = memories empty_db)"
  using sample_batch_accepted generation_reports_writes by meson

lemma stored_hash_is_payload_hash_witness:
  "\<exists>d'. insertProjectedRow sample_host (js ''a'') (buildInertProjection sample_host sample_envelope sample_payload) empty_db = Inr d' \<and>
    projectionHashOfRow sample_host (js ''a'') d' = Inr (Some sample_hash)"
proof -
  obtain d' where i: "insertProjectedRow sample_host (js ''a'')
      (buildInertProjection sample_host sample_envelope sample_payload) empty_db = Inr d'"
    by (simp add: insertProjectedRow_def exec_insert_def t_get_def)
  from stored_hash_is_payload_hash [OF sample_text_ok i] i show ?thesis by blast
qed


text \<open>The stored row with its content changed behind the binding's back: an unpushed local edit.\<close>

definition edited_row :: memory_row where
  "edited_row = stored_row\<lparr> r_share_state := Some Local \<rparr>"

definition edited_db :: db where
  "edited_db = empty_db\<lparr> memories := [edited_row], entity_map := [stored_entry] \<rparr>"

lemma edited_lookup:
  "getByEntityId (js ''e1'') edited_db = Some stored_entry" "row_of edited_db (record_id sample_payload) = Some edited_row"
  by (simp_all add: edited_db_def edited_row_def getByEntityId_def t_get_single)

lemma edited_intent: "hasUnpushedLocalIntent sample_host (record_id sample_payload) sample_hash edited_db = Inr True"
proof -
  have "row_hash sample_host edited_row = row_hash sample_host stored_row"
    by (rule row_hash_cong) (simp_all add: edited_row_def)
  then show ?thesis
    by (simp add: hasUnpushedLocalIntent_def projectionHashOfRow_row [OF edited_lookup(2)] stored_row_hash
        isRowOptedOut_def edited_lookup(2)) (simp add: edited_row_def)
qed

lemma edited_fork:
  "applyTombstone sample_host web 5 (js ''e1'') 2 edited_db =
    Inr (Fork_Preserved, fork_preserve sample_host (js ''e1'') (record_id sample_payload) 5 edited_db)"
proof -
  have "row_hash sample_host edited_row = Inr sample_hash"
    using row_hash_cong [of edited_row stored_row sample_host] stored_row_hash by (simp add: edited_row_def)
  then show ?thesis
    by (simp add: applyTombstone_def edited_lookup edited_intent projectionHashOfRow_row [OF edited_lookup(2)])
qed

lemma local_intent_preserved_witness:
  "row_of (fork_preserve sample_host (js ''e1'') (record_id sample_payload) 5 edited_db) (record_id sample_payload) \<in>
    {Some edited_row, Some (edited_row\<lparr> r_share_state := Some Local \<rparr>)}"
  using local_intent_preserved [of "js ''e1''" edited_db stored_entry edited_row sample_host web 5 2 Fork_Preserved
      "fork_preserve sample_host (js ''e1'') (record_id sample_payload) 5 edited_db"] edited_lookup edited_intent edited_fork
  by simp

text \<open>The same row opted out and only associated.\<close>

definition shadow_db :: db where
  "shadow_db = edited_db\<lparr> entity_map := [stored_entry\<lparr> e_state := Shadow_Assoc \<rparr>] \<rparr>"

lemma shadow_refreshed:
  "\<exists>d'. applyUpsert sample_host web next_envelope sample_payload shadow_db = Inr (Assoc_Refreshed, d')"
proof -
  have "row_of shadow_db (record_id sample_payload) = Some edited_row" "journal shadow_db = []"
    by (simp_all add: shadow_db_def edited_db_def edited_row_def t_get_single)
  moreover have "row_hash sample_host edited_row = Inr sample_hash"
    using row_hash_cong [of edited_row stored_row sample_host] stored_row_hash by (simp add: edited_row_def)
  ultimately have "projectionHashOfRow sample_host (record_id sample_payload) shadow_db = Inr (Some sample_hash)"
    by (simp add: projectionHashOfRow_def)
  moreover have "storedHashes sample_host next_envelope (projectPayload sample_host sample_payload) =
      (env_hash next_envelope, sample_hash)" by (simp add: storedHashes_def projectionHashOfPayload_def)
  moreover have "getByEntityId (js ''e1'') shadow_db = Some (stored_entry\<lparr> e_state := Shadow_Assoc \<rparr>)"
    by (simp add: shadow_db_def getByEntityId_def t_get_single)
  moreover have "entity_map shadow_db = [stored_entry\<lparr> e_state := Shadow_Assoc \<rparr>]" by (simp add: shadow_db_def)
  ultimately show ?thesis
    by (simp add: applyUpsert_def Let_def apply_shadow_def shadow_write_def writeShadowAssoc_def
        assertNoForeignAssociation_def upsert_binding_def)
qed

lemma shadow_writes_no_row_witness:
  "\<exists>d'. applyUpsert sample_host web next_envelope sample_payload shadow_db = Inr (Assoc_Refreshed, d') \<and>
    memories d' = memories shadow_db"
  using shadow_refreshed shadow_writes_no_row by blast

text \<open>A conflict set of the sample entity, and its resolution.\<close>

definition open_set :: conflict_set where
  "open_set = \<lparr> cs_id = js ''c1'', cs_project = web, cs_members = members_text sample_host [js ''e1''],
     cs_reason = Near_Duplicate, cs_opened_by = js ''u'', cs_opened_seq = 3, cs_status = Open_Set, cs_resolved_seq = None \<rparr>"

definition set_db :: db where
  "set_db = empty_db\<lparr> conflict_sets := [open_set] \<rparr>"

definition commit_event :: resolve_event where
  "commit_event = \<lparr> re_set = js ''c1'', re_canonical = sample_envelope, re_tombstoned = [], re_contributors = [] \<rparr>"

lemma set_resolved:
  "applyResolveCommit sample_host web 7 commit_event set_db = Inr (Resolved, resolveConflictSet (js ''c1'') 7 (stored_db set_db))"
proof -
  have "json_ok (nums sample_host) (JArr (map JStr [js ''e1'']))" by (simp add: js_def)
  from json_parse_stringify [OF this] have "parse_members sample_host (cs_members open_set) = Inr [JStr (js ''e1'')]"
    by (simp add: parse_members_def open_set_def members_text_def strings_text_def)
  moreover have "t_get cs_id (js ''c1'') (conflict_sets set_db) = Some open_set"
    by (simp add: set_db_def open_set_def t_get_single)
  moreover have "applyUpsert sample_host web sample_envelope sample_payload set_db = Inr (Applied_New, stored_db set_db)"
    by (rule sample_upsert) (simp_all add: set_db_def)
  moreover have "env_entity sample_envelope = js ''e1''" by (simp add: sample_envelope_def)
  ultimately show ?thesis
    by (simp add: applyResolveCommit_def commit_event_def sample_payload_valid mergeContributors_def [of _ "[]"])
      (simp add: open_set_def)
qed

lemma resolve_one_shot_witness:
  "\<exists>c. t_get cs_id (js ''c1'') (conflict_sets (resolveConflictSet (js ''c1'') 7 (stored_db set_db))) = Some c \<and>
    cs_resolved_seq c = Some 7"
proof -
  let ?d = "resolveConflictSet (js ''c1'') 7 (stored_db set_db)"
  let ?c = "open_set\<lparr> cs_status := Resolved_Set, cs_resolved_seq := Some 7 \<rparr>"
  have "conflict_sets (stored_db set_db) = [open_set]"
    using stored_tables [of set_db] by (simp add: set_db_def)
  then have g: "t_get cs_id (re_set commit_event) (conflict_sets ?d) = Some ?c"
    by (simp add: resolveConflictSet_def t_update_def open_set_def t_get_single commit_event_def)
  from resolve_one_shot [OF g _ refl set_resolved] show ?thesis
    using g by (simp add: commit_event_def)
qed

text \<open>Two projects: the sample row bound in \<open>web\<close> beside a row of \<open>app\<close>.\<close>

definition app_row :: memory_row where
  "app_row = stored_row\<lparr> r_project := Some (js ''app'') \<rparr>"

definition two_db :: db where
  "two_db = empty_db\<lparr> memories := [stored_row, app_row\<lparr> r_id := js ''z'' \<rparr>], entity_map := [stored_entry] \<rparr>"

lemma record_id_sample: "record_id sample_payload = js ''0a000000-0000-4000-8000-000000000001''"
  by (simp add: record_id_def key_normal_def sample_record_def)

lemma two_tombstoned:
  "apply_event sample_host web (Ev_Tombstone 4 \<lparr> te_entity = js ''e1'', te_version = 2, te_by = js ''u'', te_at = js ''t'' \<rparr>) two_db =
    Inr (Tombstoned, closeEntry (js ''e1'') (tombstoneLocalRow sample_host (record_id sample_payload) two_db))"
proof -
  have r: "row_of two_db (record_id sample_payload) = Some stored_row" by (simp add: two_db_def t_get_def)
  then have "hasUnpushedLocalIntent sample_host (record_id sample_payload) sample_hash two_db = Inr False"
    by (simp add: hasUnpushedLocalIntent_def projectionHashOfRow_row stored_row_hash isLocallyRetracted_def isRowOptedOut_def)
      (simp add: two_db_def)
  moreover have "getByEntityId (js ''e1'') two_db = Some stored_entry"
    by (simp add: two_db_def getByEntityId_def t_get_single)
  ultimately show ?thesis using r
    by (simp add: applyTombstone_def projectionHashOfRow_row stored_row_hash)
qed


text \<open>The sample entity bound in project \<open>app\<close>, and its next version delivered in a batch for \<open>web\<close>.\<close>

definition app_hash :: jstr where
  "app_hash = (case row_hash sample_host app_row of Inr x \<Rightarrow> x | Inl _ \<Rightarrow> [])"

definition app_db :: db where
  "app_db = empty_db\<lparr> memories := [app_row],
     entity_map := [stored_entry\<lparr> e_project := js ''app'', e_projection_hash := app_hash \<rparr>] \<rparr>"

lemma app_row_hash: "row_hash sample_host app_row = Inr app_hash"
proof -
  have "r_tags app_row = Some (tags_column sample_host (pj_tags (projectPayload sample_host sample_payload)))"
    by (simp add: app_row_def stored_row_def projected_row_def Let_def buildInertProjection_def)
  then obtain x where "row_hash sample_host app_row = Inr x"
    using projected_columns(1) [OF sample_text_ok] by (auto simp: row_hash_def row_fields_def)
  then show ?thesis by (simp add: app_hash_def)
qed

lemma upsert_crosses_projects_witness:
  "\<exists>d' r'. apply_event sample_host web (Ev_Upsert 9 next_envelope) app_db = Inr (Applied_Edit, d') \<and>
    row_of d' (record_id sample_payload) = Some r' \<and> r_project r' = Some (js ''app'')"
proof -
  let ?en = "stored_entry\<lparr> e_project := js ''app'', e_projection_hash := app_hash \<rparr>"
  have g: "getByEntityId (env_entity next_envelope) app_db = Some ?en"
    by (simp add: app_db_def getByEntityId_def t_get_single)
  have r: "row_of app_db (e_local_id ?en) = Some app_row" by (simp add: app_db_def app_row_def t_get_single)
  have i: "hasUnpushedLocalIntent sample_host (e_local_id ?en) (e_projection_hash ?en) app_db = Inr False"
    using r by (simp add: hasUnpushedLocalIntent_def projectionHashOfRow_row app_row_hash isLocallyRetracted_def isRowOptedOut_def)
      (simp add: app_db_def app_row_def)
  have v: "validatePayload sample_host next_envelope web = Inr sample_payload"
    by (rule payload_accepted [OF sample_record_ok])
      (simp_all add: record_bounds_def sample_record_def sample_envelope_def next_envelope_def sync_bounds js_def)
  have "map_ok app_db" by (simp add: map_ok_def app_db_def t_keyed_def)
  from upsert_crosses_projects [OF g _ _ r _ _ _ this i v sample_text_ok, of "js ''app''" 9]
  show ?thesis by (auto simp: app_row_def js_def)
qed

end
