(* ===== verification/Journal_Consumer.thy ===== *)
theory Journal_Consumer
  imports Sync_Validator
begin

text \<open>
  The consumption side of the journal, \<open>src/db/sync-apply/journal-consumer.ts\<close>: the worker classifies
  the entries it has read and moves the cursor, in one immediate transaction; deferred entries behind
  the cursor are reclassified later.  An error is the value that rolls the transaction back.  The
  caller's numbers and words are untrusted: an item carries a number and a string.

  A history of the journal is a relation \<open>consumer_step\<close>: the writers append entries, the worker
  classifies and reclassifies.  Its invariant is that no entry is ever behind the cursor without a
  classification, provided the worker stays within the entries that exist; what happens beyond
  them is the last property.
\<close>

section \<open>Operations\<close>

fun class_str :: "classification \<Rightarrow> jstr" where
  "class_str Enqueued = js ''enqueued''"
| "class_str Permanently_Ineligible = js ''permanently-ineligible''"
| "class_str Deferred = js ''deferred-pending-eligibility''"

definition JOURNAL_CLASSIFICATIONS :: "classification list" where
  "JOURNAL_CLASSIFICATIONS = [Enqueued, Permanently_Ineligible, Deferred]"

record classification_item =
  ci_entry :: number
  ci_class :: jstr

definition check_item :: "classification_item \<Rightarrow> apply_error + (int \<times> classification)" where
  "check_item it = (case safe_int (ci_entry it) of
      None \<Rightarrow> Inl (ApplyValidationError ''entry id'')
    | Some i \<Rightarrow>
        if i \<le> 0 then Inl (ApplyValidationError ''entry id'')
        else (case vocab_find class_str JOURNAL_CLASSIFICATIONS (ci_class it) of
            None \<Rightarrow> Inl (ApplyValidationError ''unknown classification'')
          | Some c \<Rightarrow> Inr (i, c)))"

fun check_items :: "classification_item list \<Rightarrow> apply_error + (int \<times> classification) list" where
  "check_items [] = Inr []"
| "check_items (it # its) = bindE (check_item it) (\<lambda>x. bindE (check_items its) (\<lambda>xs. Inr (x # xs)))"

definition consumer_key :: "jstr \<Rightarrow> jstr" where
  "consumer_key project = js ''cursor:'' @ project"

definition journalConsumptionCursor :: "jstr \<Rightarrow> db \<Rightarrow> int" where
  "journalConsumptionCursor project d = state_int (js ''journal'') (consumer_key project) d"

definition set_class :: "host \<Rightarrow> classification \<Rightarrow> journal_entry \<Rightarrow> journal_entry" where
  "set_class h c j = j\<lparr> j_class := Some c, j_class_at := Some (sql_now h) \<rparr>"

text \<open>\<open>UPDATE sync_journal SET classification = ? WHERE P\<close>, which must change exactly one row.\<close>

definition update_one :: "host \<Rightarrow> (journal_entry \<Rightarrow> bool) \<Rightarrow> classification \<Rightarrow> string \<Rightarrow> db \<Rightarrow> apply_error + db" where
  "update_one h P c label d =
     (if t_count P (journal d) \<noteq> 1 then Inl (ApplyValidationError label)
      else Inr (d\<lparr> journal := t_update P (set_class h c) (journal d), changes := Suc (changes d) \<rparr>))"

definition reclassify_one :: "host \<Rightarrow> jstr \<Rightarrow> int \<Rightarrow> int \<times> classification \<Rightarrow> db \<Rightarrow> apply_error + db" where
  "reclassify_one h project cursor it d = (case it of (i, c) \<Rightarrow>
     if cursor < i then Inl (ApplyValidationError ''not yet consumed'')
     else update_one h (\<lambda>j. j_id j = i \<and> j_project j = project \<and> j_class j = Some Deferred) c ''not a deferred row'' d)"

definition reclassifyDeferred :: "host \<Rightarrow> jstr \<Rightarrow> classification_item list \<Rightarrow> db \<Rightarrow> apply_error + db" where
  "reclassifyDeferred h project items d =
     bindE (check_items items) (\<lambda>its.
       foldE (reclassify_one h project (journalConsumptionCursor project d)) its d)"

definition classify_one :: "host \<Rightarrow> jstr \<Rightarrow> int \<Rightarrow> int \<Rightarrow> int \<times> classification \<Rightarrow> db \<Rightarrow> apply_error + db" where
  "classify_one h project from_cursor to_cursor it d = (case it of (i, c) \<Rightarrow>
     if i \<le> from_cursor \<or> to_cursor < i then Inl (ApplyValidationError ''outside the consumed range'')
     else update_one h (\<lambda>j. j_id j = i \<and> j_project j = project) c ''does not exist'' d)"

definition unclassified_in :: "jstr \<Rightarrow> int \<Rightarrow> int \<Rightarrow> journal_entry \<Rightarrow> bool" where
  "unclassified_in project from_cursor to_cursor j \<longleftrightarrow>
     j_project j = project \<and> from_cursor < j_id j \<and> j_id j \<le> to_cursor \<and> j_class j = None"

definition classifyAndAdvance ::
  "host \<Rightarrow> jstr \<Rightarrow> classification_item list \<Rightarrow> number \<Rightarrow> db \<Rightarrow> apply_error + db" where
  "classifyAndAdvance h project items cursorTo d =
     bindE (check_items items) (\<lambda>its.
       case safe_int cursorTo of
         None \<Rightarrow> Inl (ApplyValidationError ''cursor'')
       | Some c \<Rightarrow>
           if c < 0 then Inl (ApplyValidationError ''cursor'')
           else
             (let from_cursor = journalConsumptionCursor project d in
              if c < from_cursor then Inl (ApplyValidationError ''cursor regression refused'')
              else
                bindE (foldE (classify_one h project from_cursor c) its d) (\<lambda>d1.
                  if list_ex (unclassified_in project from_cursor c) (journal d1)
                  then Inl (ApplyValidationError ''gap'')
                  else Inr (state_put (js ''journal'') (consumer_key project) (SInt c) d1))))"

section \<open>Histories\<close>

inductive consumer_step :: "host \<Rightarrow> db \<Rightarrow> db \<Rightarrow> bool" for h where
  journaled: "consumer_step h d (journal_row h project i op revision cause d)"
| classified: "classifyAndAdvance h project items cursorTo d = Inr d' \<Longrightarrow>
    safe_int cursorTo = Some c \<Longrightarrow> c < next_entry d \<Longrightarrow> consumer_step h d d'"
| reclassified: "reclassifyDeferred h project items d = Inr d' \<Longrightarrow> consumer_step h d d'"

text \<open>What a journal satisfies: ids are a key below the counter, every cursor is below the counter, and
  no entry at or below its project's cursor lacks a classification.\<close>

definition consumer_ok :: "db \<Rightarrow> bool" where
  "consumer_ok d \<longleftrightarrow> t_keyed j_id (journal d) \<and> (\<forall>j\<in>set (journal d). j_id j < next_entry d) \<and>
     (\<forall>p. journalConsumptionCursor p d < next_entry d) \<and>
     (\<forall>j\<in>set (journal d). j_id j \<le> journalConsumptionCursor (j_project j) d \<longrightarrow> j_class j \<noteq> None)"

text \<open>What a history leaves of the entries it starts from: nothing is deleted, cursors do not run back,
  and behind the cursor only a deferred entry changes its classification.\<close>

definition entry_kept :: "journal_entry \<Rightarrow> journal_entry \<Rightarrow> bool" where
  "entry_kept j j' \<longleftrightarrow> j_id j' = j_id j \<and> j_project j' = j_project j \<and> j_memory j' = j_memory j \<and>
     j_op j' = j_op j \<and> j_revision j' = j_revision j \<and> j_cause j' = j_cause j"

definition consumer_kept :: "db \<Rightarrow> db \<Rightarrow> bool" where
  "consumer_kept d d' \<longleftrightarrow> (\<forall>p. journalConsumptionCursor p d \<le> journalConsumptionCursor p d') \<and>
     next_entry d \<le> next_entry d' \<and>
     (\<forall>j\<in>set (journal d). \<exists>j'\<in>set (journal d'). entry_kept j j' \<and>
        (j_id j \<le> journalConsumptionCursor (j_project j) d \<and> j_class j \<noteq> Some Deferred \<longrightarrow> j_class j' = j_class j))"

lemma consumer_kept_refl: "consumer_kept d d"
  by (auto simp: consumer_kept_def entry_kept_def)

lemma entry_kept_trans: "entry_kept a b \<Longrightarrow> entry_kept b c \<Longrightarrow> entry_kept a c"
  by (simp add: entry_kept_def)

lemma consumer_kept_trans:
  assumes "consumer_kept a b" "consumer_kept b c"
  shows "consumer_kept a c"
proof -
  have "\<exists>z\<in>set (journal c). entry_kept x z \<and>
      (j_id x \<le> journalConsumptionCursor (j_project x) a \<and> j_class x \<noteq> Some Deferred \<longrightarrow> j_class z = j_class x)"
    if x: "x \<in> set (journal a)" for x
  proof -
    from assms(1) x obtain y where y: "y \<in> set (journal b)" "entry_kept x y"
      "j_id x \<le> journalConsumptionCursor (j_project x) a \<and> j_class x \<noteq> Some Deferred \<longrightarrow> j_class y = j_class x"
      unfolding consumer_kept_def by blast
    from assms(2) y(1) obtain z where z: "z \<in> set (journal c)" "entry_kept y z"
      "j_id y \<le> journalConsumptionCursor (j_project y) b \<and> j_class y \<noteq> Some Deferred \<longrightarrow> j_class z = j_class y"
      unfolding consumer_kept_def by blast
    have "journalConsumptionCursor (j_project x) a \<le> journalConsumptionCursor (j_project x) b"
      using assms(1) by (simp add: consumer_kept_def)
    with y z show ?thesis
      by (intro bexI [of _ z]) (auto simp: entry_kept_def)
  qed
  moreover have "\<forall>p. journalConsumptionCursor p a \<le> journalConsumptionCursor p c" "next_entry a \<le> next_entry c"
    using assms by (auto simp: consumer_kept_def intro: order_trans)
  ultimately show ?thesis unfolding consumer_kept_def by blast
qed

section \<open>Facts\<close>

lemma consumer_key_inj [simp]: "consumer_key a = consumer_key b \<longleftrightarrow> a = b"
  by (simp add: consumer_key_def)

lemma cursor_journal [simp]: "journalConsumptionCursor p (journal_row h q i op r c d) = journalConsumptionCursor p d"
  by (simp add: journalConsumptionCursor_def state_int_def state_get_def)

lemma cursor_cong: "sync_state d' = sync_state d \<Longrightarrow> journalConsumptionCursor p d' = journalConsumptionCursor p d"
  by (simp add: journalConsumptionCursor_def state_int_def state_get_def)

text \<open>A transaction rewrites entries one by one: the journal is mapped, and only entries with \<open>Q\<close> change.\<close>

definition entry_mapped :: "(journal_entry \<Rightarrow> bool) \<Rightarrow> journal_entry \<Rightarrow> journal_entry \<Rightarrow> bool" where
  "entry_mapped Q j j' \<longleftrightarrow> entry_kept j j' \<and> (j_class j \<noteq> None \<longrightarrow> j_class j' \<noteq> None) \<and> (Q j \<or> j' = j)"

definition journal_mapped :: "(journal_entry \<Rightarrow> bool) \<Rightarrow> db \<Rightarrow> db \<Rightarrow> bool" where
  "journal_mapped Q d d' \<longleftrightarrow> sync_state d' = sync_state d \<and> next_entry d' = next_entry d \<and>
     (\<exists>f. journal d' = map f (journal d) \<and> (\<forall>j. entry_mapped Q j (f j)))"

lemma entry_mapped_trans: "entry_mapped Q a b \<Longrightarrow> entry_mapped Q b c \<Longrightarrow> entry_mapped Q a c"
  by (auto simp: entry_mapped_def intro: entry_kept_trans)

lemma journal_mapped_refl: "journal_mapped Q d d"
  unfolding journal_mapped_def
  by (intro conjI exI [of _ "\<lambda>j. j"]) (simp_all add: entry_mapped_def entry_kept_def)

lemma journal_mapped_trans:
  assumes "journal_mapped Q a b" "journal_mapped Q b c"
  shows "journal_mapped Q a c"
proof -
  from assms(1) obtain f where f: "journal b = map f (journal a)" "\<forall>j. entry_mapped Q j (f j)"
    unfolding journal_mapped_def by blast
  from assms(2) obtain g where g: "journal c = map g (journal b)" "\<forall>j. entry_mapped Q j (g j)"
    unfolding journal_mapped_def by blast
  have "\<forall>j. entry_mapped Q j (g (f j))" using f(2) g(2) entry_mapped_trans by blast
  moreover have "journal c = map (\<lambda>j. g (f j)) (journal a)" using f(1) g(1) by simp
  ultimately show ?thesis using assms unfolding journal_mapped_def by auto
qed

lemma update_one_mapped:
  assumes "update_one h P c label d = Inr d'" "\<And>j. P j \<Longrightarrow> Q j"
  shows "journal_mapped Q d d'"
proof -
  have d': "d' = d\<lparr> journal := t_update P (set_class h c) (journal d), changes := Suc (changes d) \<rparr>"
    using assms(1) by (auto simp: update_one_def split: if_splits)
  show ?thesis unfolding journal_mapped_def d'
    using assms(2) by (intro conjI exI [of _ "\<lambda>j. if P j then set_class h c j else j"])
      (auto simp: t_update_def set_class_def entry_kept_def entry_mapped_def)
qed

abbreviation in_range :: "jstr \<Rightarrow> int \<Rightarrow> int \<Rightarrow> journal_entry \<Rightarrow> bool" where
  "in_range p a b j \<equiv> j_project j = p \<and> a < j_id j \<and> j_id j \<le> b"

abbreviation deferred_behind :: "jstr \<Rightarrow> int \<Rightarrow> journal_entry \<Rightarrow> bool" where
  "deferred_behind p c j \<equiv> j_project j = p \<and> j_id j \<le> c \<and> j_class j = Some Deferred"

lemma fold_mapped:
  assumes "\<And>it d d'. f it d = Inr d' \<Longrightarrow> journal_mapped Q d d'"
  shows "foldE f its d = Inr d' \<Longrightarrow> journal_mapped Q d d'"
proof (induction its arbitrary: d)
  case (Cons it its)
  then obtain d1 where "f it d = Inr d1" "foldE f its d1 = Inr d'" by (auto simp: bindE_Inr_iff)
  with Cons.IH assms show ?case by (blast intro: journal_mapped_trans)
qed (simp add: journal_mapped_refl)

lemma classify_mapped: "foldE (classify_one h p a b) its d = Inr d' \<Longrightarrow> journal_mapped (in_range p a b) d d'"
  by (rule fold_mapped) (auto simp: classify_one_def split: if_splits prod.splits elim!: update_one_mapped)

lemma reclassify_mapped: "foldE (reclassify_one h p c) its d = Inr d' \<Longrightarrow> journal_mapped (deferred_behind p c) d d'"
  by (rule fold_mapped) (auto simp: reclassify_one_def split: if_splits prod.splits elim!: update_one_mapped)

lemma advance_Inr:
  assumes "classifyAndAdvance h p items cursorTo d = Inr d'" "safe_int cursorTo = Some c"
  obtains d1 where "journal_mapped (in_range p (journalConsumptionCursor p d) c) d d1"
    "\<forall>j\<in>set (journal d1). \<not> unclassified_in p (journalConsumptionCursor p d) c j"
    "d' = state_put (js ''journal'') (consumer_key p) (SInt c) d1" "journalConsumptionCursor p d \<le> c" "0 \<le> c"
proof -
  from assms obtain its d1 where "0 \<le> c" "journalConsumptionCursor p d \<le> c"
    "foldE (classify_one h p (journalConsumptionCursor p d) c) its d = Inr d1"
    "\<forall>j\<in>set (journal d1). \<not> unclassified_in p (journalConsumptionCursor p d) c j"
    "d' = state_put (js ''journal'') (consumer_key p) (SInt c) d1"
    by (auto simp: classifyAndAdvance_def bindE_Inr_iff Let_def list_ex_iff split: if_splits)
  then show thesis using that classify_mapped by blast
qed

lemma cursor_put: "journalConsumptionCursor q (state_put (js ''journal'') (consumer_key p) (SInt c) d) =
    (if q = p then c else journalConsumptionCursor q d)"
  by (simp add: journalConsumptionCursor_def)

lemma mapped_origin:
  assumes "journal_mapped Q d d'" "j' \<in> set (journal d')"
  shows "\<exists>j\<in>set (journal d). entry_mapped Q j j'"
proof -
  from assms(1) obtain f where "journal d' = map f (journal d)" "\<forall>j. entry_mapped Q j (f j)"
    unfolding journal_mapped_def by blast
  with assms(2) show ?thesis by auto
qed

lemma mapped_image:
  assumes "journal_mapped Q d d'" "j \<in> set (journal d)"
  shows "\<exists>j'\<in>set (journal d'). entry_mapped Q j j'"
proof -
  from assms(1) obtain f where "journal d' = map f (journal d)" "\<forall>j. entry_mapped Q j (f j)"
    unfolding journal_mapped_def by blast
  with assms(2) show ?thesis by auto
qed

lemma mapped_bounds:
  assumes "journal_mapped Q d d'" "consumer_ok d"
  shows "t_keyed j_id (journal d')" "\<forall>j\<in>set (journal d'). j_id j < next_entry d"
proof -
  from assms(1) obtain f where f: "journal d' = map f (journal d)" "\<forall>j. entry_mapped Q j (f j)"
    unfolding journal_mapped_def by blast
  have id: "j_id (f j) = j_id j" for j using f(2) by (simp add: entry_mapped_def entry_kept_def)
  show "t_keyed j_id (journal d')" "\<forall>j\<in>set (journal d'). j_id j < next_entry d"
    using assms(2) by (simp_all add: consumer_ok_def t_keyed_def f(1) id comp_def)
qed

section \<open>Every step keeps the invariant\<close>

lemma journaled_ok:
  assumes "consumer_ok d"
  shows "consumer_ok (journal_row h p i op r c d) \<and> consumer_kept d (journal_row h p i op r c d)"
proof -
  let ?d = "journal_row h p i op r c d"
  have c: "journalConsumptionCursor q ?d = journalConsumptionCursor q d" for q by simp
  have n: "next_entry ?d = next_entry d + 1" by (simp add: journal_row_def)
  obtain j where j: "journal ?d = journal d @ [j]" "j_id j = next_entry d"
    by (simp add: journal_row_def)
  have ok: "t_keyed j_id (journal d)" "\<And>x. x \<in> set (journal d) \<Longrightarrow> j_id x < next_entry d"
    "\<And>q. journalConsumptionCursor q d < next_entry d"
    "\<And>x. x \<in> set (journal d) \<Longrightarrow> j_id x \<le> journalConsumptionCursor (j_project x) d \<Longrightarrow> j_class x \<noteq> None"
    using assms by (simp_all add: consumer_ok_def)
  have "t_keyed j_id (journal ?d)" using ok(1,2) j by (fastforce simp: t_keyed_def)
  moreover have "\<forall>x\<in>set (journal ?d). j_id x < next_entry ?d" using ok(2) j n by fastforce
  moreover have "\<forall>q. journalConsumptionCursor q ?d < next_entry ?d" using ok(3) c n by (simp add: order.strict_implies_order)
  moreover have "\<forall>x\<in>set (journal ?d). j_id x \<le> journalConsumptionCursor (j_project x) ?d \<longrightarrow> j_class x \<noteq> None"
    using ok(3) [of "j_project j"] ok(4) j c by auto
  ultimately have "consumer_ok ?d" unfolding consumer_ok_def by blast
  moreover have "consumer_kept d ?d"
    unfolding consumer_kept_def using j n by (auto simp: entry_kept_def intro!: bexI)
  ultimately show ?thesis ..
qed

lemma classified_ok:
  assumes ok: "consumer_ok d" and a: "classifyAndAdvance h p items cursorTo d = Inr d'"
    and c: "safe_int cursorTo = Some c" and lt: "c < next_entry d"
  shows "consumer_ok d' \<and> consumer_kept d d'"
proof -
  let ?from = "journalConsumptionCursor p d"
  from advance_Inr [OF a c] obtain d1 where m: "journal_mapped (in_range p ?from c) d d1"
    and g: "\<forall>j\<in>set (journal d1). \<not> unclassified_in p ?from c j"
    and d': "d' = state_put (js ''journal'') (consumer_key p) (SInt c) d1" and le: "?from \<le> c" by blast
  have s: "journalConsumptionCursor q d1 = journalConsumptionCursor q d" "next_entry d1 = next_entry d" for q
    using m by (auto simp: journal_mapped_def intro: cursor_cong)
  have cur: "journalConsumptionCursor q d' = (if q = p then c else journalConsumptionCursor q d)" for q
    by (simp add: d' cursor_put s)
  have "j_class j' \<noteq> None" if j': "j' \<in> set (journal d1)" and b: "j_id j' \<le> journalConsumptionCursor (j_project j') d'" for j'
  proof -
    from mapped_origin [OF m j'] obtain j where j: "j \<in> set (journal d)" "entry_kept j j'"
      "j_class j \<noteq> None \<longrightarrow> j_class j' \<noteq> None" by (auto simp: entry_mapped_def)
    show ?thesis
    proof (cases "j_id j \<le> journalConsumptionCursor (j_project j) d")
      case True
      with ok j show ?thesis by (simp add: consumer_ok_def)
    next
      case False
      with b j(2) cur have "j_project j' = p" "?from < j_id j'" "j_id j' \<le> c"
        by (auto simp: entry_kept_def split: if_splits)
      with g j' show ?thesis by (simp add: unclassified_in_def)
    qed
  qed
  moreover have "\<forall>q. journalConsumptionCursor q d' < next_entry d" using ok lt cur by (simp add: consumer_ok_def)
  ultimately have "consumer_ok d'"
    using mapped_bounds [OF m ok] by (simp add: consumer_ok_def d' s)
  moreover have "consumer_kept d d'"
  proof -
    have "\<exists>j'\<in>set (journal d'). entry_kept j j' \<and>
        (j_id j \<le> journalConsumptionCursor (j_project j) d \<and> j_class j \<noteq> Some Deferred \<longrightarrow> j_class j' = j_class j)"
      if "j \<in> set (journal d)" for j
      using mapped_image [OF m that] by (auto simp: d' entry_mapped_def)
    then show ?thesis using le cur s by (simp add: consumer_kept_def) (simp add: d')
  qed
  ultimately show ?thesis ..
qed

lemma reclassified_ok:
  assumes ok: "consumer_ok d" and r: "reclassifyDeferred h p items d = Inr d'"
  shows "consumer_ok d' \<and> consumer_kept d d'"
proof -
  let ?c = "journalConsumptionCursor p d"
  from r have m: "journal_mapped (deferred_behind p ?c) d d'"
    by (auto simp: reclassifyDeferred_def bindE_Inr_iff intro: reclassify_mapped)
  have s: "journalConsumptionCursor q d' = journalConsumptionCursor q d" "next_entry d' = next_entry d" for q
    using m by (auto simp: journal_mapped_def intro: cursor_cong)
  have "j_class j' \<noteq> None" if j': "j' \<in> set (journal d')" and b: "j_id j' \<le> journalConsumptionCursor (j_project j') d'" for j'
    using mapped_origin [OF m j'] ok b s by (auto simp: consumer_ok_def entry_mapped_def entry_kept_def)
  then have "consumer_ok d'" using mapped_bounds [OF m ok] ok s by (simp add: consumer_ok_def)
  moreover have "\<exists>j'\<in>set (journal d'). entry_kept j j' \<and>
      (j_id j \<le> journalConsumptionCursor (j_project j) d \<and> j_class j \<noteq> Some Deferred \<longrightarrow> j_class j' = j_class j)"
    if "j \<in> set (journal d)" for j
    using mapped_image [OF m that] by (auto simp: entry_mapped_def)
  ultimately show ?thesis using s by (simp add: consumer_kept_def)
qed

lemma consumer_step_ok: "consumer_step h d d' \<Longrightarrow> consumer_ok d \<Longrightarrow> consumer_ok d' \<and> consumer_kept d d'"
  by (cases rule: consumer_step.cases) (use journaled_ok classified_ok reclassified_ok in blast)+

lemma consumer_run_ok:
  "(consumer_step h)\<^sup>*\<^sup>* d d' \<Longrightarrow> consumer_ok d \<Longrightarrow> consumer_ok d' \<and> consumer_kept d d'"
proof (induction rule: rtranclp_induct)
  case (step d1 d2)
  then show ?case using consumer_step_ok consumer_kept_trans by blast
qed (simp add: consumer_kept_refl)

lemma check_items_named:
  "check_items items = Inr its \<Longrightarrow> it \<in> set items \<Longrightarrow> safe_int (ci_entry it) = Some n \<Longrightarrow> \<exists>c. (n, c) \<in> set its"
  by (induction items arbitrary: its)
    (auto simp: bindE_Inr_iff check_item_def split: option.splits if_splits)

lemma classify_named: "foldE (classify_one h p a b) its d = Inr d' \<Longrightarrow> (n, c) \<in> set its \<Longrightarrow> a < n \<and> n \<le> b"
  by (induction its arbitrary: d) (auto simp: bindE_Inr_iff classify_one_def split: if_splits)

lemma reclassify_named:
  "foldE (reclassify_one h p k) its d = Inr d' \<Longrightarrow> (n, c) \<in> set its \<Longrightarrow>
    \<exists>j\<in>set (journal d). j_id j = n \<and> j_class j = Some Deferred"
proof (induction its arbitrary: d)
  case (Cons it its)
  from Cons.prems(1) obtain d1 where s: "reclassify_one h p k it d = Inr d1" "foldE (reclassify_one h p k) its d1 = Inr d'"
    by (auto simp: bindE_Inr_iff)
  show ?case
  proof (cases "it = (n, c)")
    case True
    with s(1) have "t_count (\<lambda>j. j_id j = n \<and> j_project j = p \<and> j_class j = Some Deferred) (journal d) = 1"
      by (auto simp: reclassify_one_def update_one_def split: if_splits)
    then have "filter (\<lambda>j. j_id j = n \<and> j_project j = p \<and> j_class j = Some Deferred) (journal d) \<noteq> []"
      by (auto simp: t_count_def)
    then show ?thesis by (auto simp: filter_empty_conv)
  next
    case False
    with Cons.prems(2) Cons.IH [OF s(2)] obtain j1 where j1: "j1 \<in> set (journal d1)" "j_id j1 = n" "j_class j1 = Some Deferred"
      by auto
    have "journal_mapped (deferred_behind p k) d d1"
      using reclassify_mapped [of h p k "[it]" d d1] s(1) by simp
    from mapped_origin [OF this j1(1)] j1(2,3) show ?thesis
      by (auto simp: entry_mapped_def entry_kept_def)
  qed
qed simp

lemma advance_items:
  assumes "classifyAndAdvance h p items x d = Inr d'"
  shows "\<exists>its b d1. check_items items = Inr its \<and> foldE (classify_one h p (journalConsumptionCursor p d) b) its d = Inr d1"
  using assms by (cases "safe_int x") (auto simp: classifyAndAdvance_def bindE_Inr_iff Let_def split: if_splits)

section \<open>Properties\<close>


text \<open>The guard against lost entries has a hole above the journal: a call that advances the cursor to or
  past the next entry id is accepted although no such entry exists.  The next mutation journaled
  for the project then lies behind the cursor without a classification, and every call that names
  it, to classify or to reclassify, is refused.\<close>

theorem overshoot_strands_entry:
  assumes "safe_int cursorTo = Some c" "0 \<le> c" "journalConsumptionCursor p d \<le> c" "next_entry d \<le> c"
    "\<forall>j\<in>set (journal d). j_id j < next_entry d \<and> j_class j \<noteq> None"
  shows "\<exists>d1. classifyAndAdvance h p [] cursorTo d = Inr d1 \<and>
    (let d2 = journal_row h p i op revision cause d1 in
      (\<exists>j\<in>set (journal d2). j_id j = next_entry d \<and> j_class j = None \<and> j_id j \<le> journalConsumptionCursor p d2) \<and>
      (\<forall>items x d3. list_ex (\<lambda>it. safe_int (ci_entry it) = Some (next_entry d)) items \<longrightarrow>
        classifyAndAdvance h p items x d2 \<noteq> Inr d3 \<and> reclassifyDeferred h p items d2 \<noteq> Inr d3))"
proof -
  let ?d1 = "state_put (js ''journal'') (consumer_key p) (SInt c) d"
  let ?d2 = "journal_row h p i op revision cause ?d1"
  have "classifyAndAdvance h p [] cursorTo d = Inr ?d1"
    using assms by (auto simp: classifyAndAdvance_def list_ex_iff unclassified_in_def)
  moreover have cur: "journalConsumptionCursor p ?d2 = c" by (simp add: cursor_put)
  obtain j where j: "journal ?d2 = journal d @ [j]" "j_id j = next_entry d" "j_class j = None"
    by (simp add: journal_row_def)
  have "classifyAndAdvance h p items x ?d2 \<noteq> Inr d3 \<and> reclassifyDeferred h p items ?d2 \<noteq> Inr d3"
    if "list_ex (\<lambda>it. safe_int (ci_entry it) = Some (next_entry d)) items" for items x d3
  proof -
    have named: "\<exists>k. (next_entry d, k) \<in> set its" if "check_items items = Inr its" for its
      using check_items_named [OF that] \<open>list_ex _ items\<close> by (auto simp: list_ex_iff)
    have "classifyAndAdvance h p items x ?d2 \<noteq> Inr d3"
    proof
      assume "classifyAndAdvance h p items x ?d2 = Inr d3"
      then obtain its b d4 where "check_items items = Inr its" "foldE (classify_one h p c b) its ?d2 = Inr d4"
        using advance_items cur by metis
      with named classify_named assms(4) show False by fastforce
    qed
    moreover have "reclassifyDeferred h p items ?d2 \<noteq> Inr d3"
    proof
      assume "reclassifyDeferred h p items ?d2 = Inr d3"
      then obtain its where i: "check_items items = Inr its" "foldE (reclassify_one h p c) its ?d2 = Inr d3"
        unfolding reclassifyDeferred_def bindE_Inr_iff cur by blast
      from named [OF i(1)] reclassify_named [OF i(2)] j assms(5) show False by fastforce
    qed
    ultimately show ?thesis ..
  qed
  ultimately show ?thesis using cur j assms(4) by (intro exI [of _ ?d1]) (auto simp: Let_def)
qed

section \<open>Witnesses\<close>

definition class_item :: "int \<Rightarrow> classification \<Rightarrow> classification_item" where
  "class_item i c = \<lparr> ci_entry = Fin (of_int i), ci_class = class_str c \<rparr>"

lemma empty_consumer_ok: "consumer_ok empty_db"
  by (simp add: consumer_ok_def empty_db_def t_keyed_def journalConsumptionCursor_def state_int_def state_get_def t_get_def)


lemma overshoot_strands_entry_witness:
  "\<exists>d1. classifyAndAdvance sample_host (js ''web'') [] (Fin 5) empty_db = Inr d1 \<and>
    (let d2 = journal_row sample_host (js ''web'') (js ''a'') J_Upsert 1 None d1 in
      (\<exists>j\<in>set (journal d2). j_class j = None \<and> j_id j \<le> journalConsumptionCursor (js ''web'') d2) \<and>
      (\<nexists>x d3. classifyAndAdvance sample_host (js ''web'') [class_item 1 Enqueued] x d2 = Inr d3))"
proof -
  have s: "safe_int (Fin 5) = Some 5" "safe_int (Fin 1) = Some 1" by code_simp+
  have e: "next_entry empty_db = 1" "journal empty_db = []" by (simp_all add: empty_db_def)
  have c: "journalConsumptionCursor p empty_db = 0" for p
    by (simp add: empty_db_def journalConsumptionCursor_def state_int_def state_get_def t_get_def)
  have "list_ex (\<lambda>it. safe_int (ci_entry it) = Some 1) [class_item 1 Enqueued]" by (simp add: class_item_def s)
  with overshoot_strands_entry [OF s(1), of "js ''web''" empty_db sample_host "js ''a''" J_Upsert 1 None]
  show ?thesis by (fastforce simp: e c Let_def)
qed

end
