(* ===== verification/Sync_Eligibility.thy ===== *)
theory Sync_Eligibility
  imports Store
begin

text \<open>
  Which rows may leave the machine, \<open>src/db/sync-eligibility.ts\<close>.  Enrolment, consent, the configuration
  snapshot and the owner policy are the caller's; the owner policy and the stored share state are
  untrusted values, kept as JSON.  The first failing checkpoint names the reason.
\<close>

section \<open>The predicate\<close>

record eligibility_context =
  ec_project :: jstr
  ec_enrolled :: bool
  ec_sealed :: bool
  ec_healthy :: bool
  ec_private :: "jstr list"
  ec_owner :: "json option"

record eligibility_row =
  el_kind :: jstr
  el_project :: "jstr option"
  el_share :: json
  el_anchor :: "jstr option"

definition is_sep :: "nat \<Rightarrow> bool" where
  "is_sep u \<longleftrightarrow> u = 47 \<or> u = 92"

text \<open>\<open>f.split(/[\\/]/)\<close>\<close>

fun split_seps :: "jstr \<Rightarrow> jstr list" where
  "split_seps [] = [[]]"
| "split_seps (u # s) = (if is_sep u then [] # split_seps s
     else (case split_seps s of [] \<Rightarrow> [[u]] | p # ps \<Rightarrow> (u # p) # ps))"

text \<open>\<open>/^[A-Za-z]:[\\/]/\<close>\<close>

fun drive_letter :: "jstr \<Rightarrow> bool" where
  "drive_letter (a # b # c # s) \<longleftrightarrow> (is_lower a \<or> is_upper a) \<and> b = 58 \<and> is_sep c"
| "drive_letter _ \<longleftrightarrow> False"

definition fileUnresolvable :: "json \<Rightarrow> bool" where
  "fileUnresolvable f = (case f of
      JStr s \<Rightarrow>
        if s = [] then True
        else if starts_with (js ''/'') s \<or> starts_with [92, 92] s \<or> starts_with (js ''~'') s then True
        else if drive_letter s then True
        else js ''..'' \<in> set (split_seps s)
    | _ \<Rightarrow> True)"

definition anchorUnresolvable :: "num_codec \<Rightarrow> jstr option \<Rightarrow> bool" where
  "anchorUnresolvable n anchor = (case anchor of
      None \<Rightarrow> False
    | Some t \<Rightarrow> (case json_parse n t of
          Some (JObj o1) \<Rightarrow> (case obj_get (js ''files'') o1 of
              Some (JArr fs) \<Rightarrow> list_ex fileUnresolvable fs
            | _ \<Rightarrow> True)
        | _ \<Rightarrow> True))"

datatype ineligible_reason =
    Config_Unhealthy | Project_Private | Not_Enrolled | Consent_Not_Sealed | Project_Mismatch
  | Kind_Not_Shareable | Kind_Owner_Excluded | Opted_Out | Anchor_Unresolvable | Share_State_Invalid
  | Policy_Invalid | Scrub_Not_Verified | Anchor_Not_Relativized

definition share_invalid :: "json \<Rightarrow> bool" where
  "share_invalid v = (case v of JNull \<Rightarrow> False | JStr s \<Rightarrow> \<not> isShareState s | _ \<Rightarrow> True)"

definition owner_check :: "json option \<Rightarrow> jstr \<Rightarrow> ineligible_reason option" where
  "owner_check owner kind = (case owner of
      None \<Rightarrow> None
    | Some v \<Rightarrow> (case str_array_of v of
          None \<Rightarrow> Some Policy_Invalid
        | Some ks \<Rightarrow> if kind \<in> set (filter (\<lambda>k. k \<in> set (map kind_str SHAREABLE_KINDS)) ks) then None
            else Some Kind_Owner_Excluded))"

definition syncEligibility ::
  "num_codec \<Rightarrow> eligibility_row \<Rightarrow> eligibility_context \<Rightarrow> bool \<times> ineligible_reason option" where
  "syncEligibility n row ctx =
    (if \<not> ec_healthy ctx then (False, Some Config_Unhealthy)
     else if ec_project ctx \<in> set (ec_private ctx) then (False, Some Project_Private)
     else if \<not> ec_enrolled ctx then (False, Some Not_Enrolled)
     else if \<not> ec_sealed ctx then (False, Some Consent_Not_Sealed)
     else if el_project row = None \<or> el_project row \<noteq> Some (ec_project ctx) then (False, Some Project_Mismatch)
     else if el_kind row \<notin> set (map kind_str SHAREABLE_KINDS) then (False, Some Kind_Not_Shareable)
     else (case owner_check (ec_owner ctx) (el_kind row) of
         Some r \<Rightarrow> (False, Some r)
       | None \<Rightarrow>
           if share_invalid (el_share row) then (False, Some Share_State_Invalid)
           else if el_share row = JStr (js ''local'') then (False, Some Opted_Out)
           else if anchorUnresolvable n (el_anchor row) then (False, Some Anchor_Unresolvable)
           else (True, None)))"

text \<open>Assertions count only as the literal \<open>true\<close>.\<close>

record transmit_assertions =
  ta_scrubbed :: json
  ta_relativized :: json

definition transmitEligibility ::
  "num_codec \<Rightarrow> eligibility_row \<Rightarrow> eligibility_context \<Rightarrow> transmit_assertions \<Rightarrow> bool \<times> ineligible_reason option" where
  "transmitEligibility n row ctx a =
    (let base = syncEligibility n row ctx in
     if \<not> fst base then base
     else if ta_scrubbed a \<noteq> JBool True then (False, Some Scrub_Not_Verified)
     else if ta_relativized a \<noteq> JBool True then (False, Some Anchor_Not_Relativized)
     else (True, None))"

record eligible_summary =
  es_id :: jstr
  es_kind :: memory_kind
  es_share :: "share_state option"
  es_anchor :: "jstr option"
  es_revision :: int

definition selectProjectRows :: "jstr \<Rightarrow> db \<Rightarrow> eligible_summary list" where
  "selectProjectRows project d =
     map (\<lambda>r. \<lparr> es_id = r_id r, es_kind = r_kind r, es_share = r_share_state r, es_anchor = r_anchor r, es_revision = r_revision r \<rparr>)
       (sort_key r_id (filter (\<lambda>r. r_project r = Some project \<and> active r) (memories d)))"

section \<open>What a relative path reaches\<close>

text \<open>The depth below the repository root after walking a path; \<open>None\<close> is outside of it.\<close>

definition walk :: "nat option \<Rightarrow> jstr \<Rightarrow> nat option" where
  "walk depth seg = (case depth of
      None \<Rightarrow> None
    | Some k \<Rightarrow> if seg = [] \<or> seg = js ''.'' then Some k
        else if seg = js ''..'' then (case k of 0 \<Rightarrow> None | Suc m \<Rightarrow> Some m) else Some (Suc k))"

definition stays_inside :: "jstr \<Rightarrow> bool" where
  "stays_inside s \<longleftrightarrow> s \<noteq> [] \<and> \<not> is_sep (hd s) \<and> hd s \<noteq> 126 \<and> \<not> drive_letter s \<and> foldl walk (Some 0) (split_seps s) \<noteq> None"

definition anchor_inside :: "num_codec \<Rightarrow> jstr option \<Rightarrow> bool" where
  "anchor_inside n anchor \<longleftrightarrow> (case anchor of
      None \<Rightarrow> True
    | Some t \<Rightarrow> (case json_parse n t of
          Some (JObj o1) \<Rightarrow> (case obj_get (js ''files'') o1 of
              Some (JArr fs) \<Rightarrow> list_all (\<lambda>f. case f of JStr s \<Rightarrow> \<not> starts_with [92] s \<longrightarrow> stays_inside s | _ \<Rightarrow> False) fs
            | _ \<Rightarrow> False)
        | _ \<Rightarrow> False))"

lemma walk_no_dotdot: "js ''..'' \<notin> set segs \<Longrightarrow> foldl walk (Some k) segs \<noteq> None"
  by (induction segs arbitrary: k) (auto simp: walk_def)

lemma resolvable_inside: "\<not> fileUnresolvable f \<Longrightarrow> \<exists>s. f = JStr s \<and> (\<not> starts_with [92] s \<longrightarrow> stays_inside s)"
  by (cases f) (auto simp: fileUnresolvable_def stays_inside_def is_sep_def js_def neq_Nil_conv
      simp del: split_seps.simps split_seps.simps intro: walk_no_dotdot [unfolded js_def, simplified] split: if_splits)

lemma anchor_resolvable:
  assumes "\<not> anchorUnresolvable n anchor"
  shows "anchor_inside n anchor"
proof (cases anchor)
  case (Some t)
  note a = assms [unfolded Some anchorUnresolvable_def, simplified]
  obtain v where v: "json_parse n t = Some v" using a by (cases "json_parse n t") auto
  obtain o1 where o1: "v = JObj o1" using a v by (cases v) auto
  obtain w where w: "obj_get (js ''files'') o1 = Some w" using a v o1 by (cases "obj_get (js ''files'') o1") auto
  obtain fs where fs: "w = JArr fs" using a v o1 w by (cases w) auto
  have p: "json_parse n t = Some (JObj o1)" "obj_get (js ''files'') o1 = Some (JArr fs)" "\<not> list_ex fileUnresolvable fs"
    using a v o1 w fs by simp_all
  have "case f of JStr s \<Rightarrow> \<not> starts_with [92] s \<longrightarrow> stays_inside s | _ \<Rightarrow> False" if "f \<in> set fs" for f
  proof -
    from p(3) that have "\<not> fileUnresolvable f" by (auto simp: list_ex_iff)
    from resolvable_inside [OF this] show ?thesis by auto
  qed
  then show ?thesis using p(1,2) Some by (simp add: anchor_inside_def list_all_iff)
qed (simp add: anchor_inside_def)

lemma transmit_eligible:
  "transmitEligibility n row ctx a = (True, r) \<longleftrightarrow> r = None \<and> ec_healthy ctx \<and> ec_project ctx \<notin> set (ec_private ctx) \<and>
    ec_enrolled ctx \<and> ec_sealed ctx \<and> el_project row = Some (ec_project ctx) \<and>
    el_kind row \<in> set (map kind_str SHAREABLE_KINDS) \<and> owner_check (ec_owner ctx) (el_kind row) = None \<and>
    \<not> share_invalid (el_share row) \<and> el_share row \<noteq> JStr (js ''local'') \<and> \<not> anchorUnresolvable n (el_anchor row) \<and>
    ta_scrubbed a = JBool True \<and> ta_relativized a = JBool True"
  by (auto simp: transmitEligibility_def syncEligibility_def split: option.splits)

lemma share_open: "\<not> share_invalid v \<Longrightarrow> v \<noteq> JStr (js ''local'') \<Longrightarrow> v = JNull \<or> v = JStr (js ''team'')"
  by (cases v) (auto simp: share_invalid_def isShareState_def)

section \<open>Properties\<close>


text \<open>The policy of one context is at least as strict as that of another.\<close>

definition stricter :: "eligibility_context \<Rightarrow> eligibility_context \<Rightarrow> bool" where
  "stricter c' c \<longleftrightarrow> ec_project c' = ec_project c \<and> (ec_healthy c' \<longrightarrow> ec_healthy c) \<and> (ec_enrolled c' \<longrightarrow> ec_enrolled c) \<and>
     (ec_sealed c' \<longrightarrow> ec_sealed c) \<and> set (ec_private c) \<subseteq> set (ec_private c') \<and>
     (case ec_owner c of None \<Rightarrow> True
      | Some v \<Rightarrow> (\<exists>ks. str_array_of v = Some ks \<and>
          (case Option.bind (ec_owner c') str_array_of of None \<Rightarrow> ec_owner c' \<noteq> None | Some ks' \<Rightarrow> set ks' \<subseteq> set ks)))"

text \<open>Tightening the policy never opens a row: whatever is transmitted under a context is transmitted
  under every context that is less strict in health, enrolment, consent, private projects and the
  owner's allowlist; a malformed allowlist admits nothing.\<close>

theorem stricter_policy_never_opens:
  assumes "stricter c' c" "transmitEligibility n row c' a = (True, r)"
  shows "transmitEligibility n row c a = (True, None)"
proof -
  note e = assms(2) [unfolded transmit_eligible]
  have "owner_check (ec_owner c) (el_kind row) = None"
    using assms(1) e by (auto simp: owner_check_def stricter_def split: option.splits if_splits)
  with e assms(1) show ?thesis unfolding transmit_eligible by (auto simp: stricter_def)
qed

text \<open>A path rooted at the current drive passes as relative.\<close>

lemma backslash_root_passes: "\<not> fileUnresolvable (JStr (92 # js ''Users''))"
  by code_simp

section \<open>Witnesses\<close>

definition sample_anchor :: jstr where
  "sample_anchor = stringify (nums sample_host) (JObj [(js ''files'', JArr [JStr (js ''src/a.ts'')])])"

definition sample_candidate :: eligibility_row where
  "sample_candidate = \<lparr> el_kind = js ''fact'', el_project = Some (js ''web''), el_share = JNull, el_anchor = Some sample_anchor \<rparr>"

definition sample_context :: "json option \<Rightarrow> eligibility_context" where
  "sample_context owner = \<lparr> ec_project = js ''web'', ec_enrolled = True, ec_sealed = True, ec_healthy = True,
     ec_private = [js ''app''], ec_owner = owner \<rparr>"

definition sample_assertions :: transmit_assertions where
  "sample_assertions = \<lparr> ta_scrubbed = JBool True, ta_relativized = JBool True \<rparr>"

lemma sample_file: "\<not> fileUnresolvable (JStr (js ''src/a.ts''))"
  by code_simp

lemma sample_transmitted:
  "transmitEligibility (nums sample_host) sample_candidate (sample_context (Some (JArr [JStr (js ''fact'')]))) sample_assertions =
    (True, None)"
proof -
  have "json_ok (nums sample_host) (JObj [(js ''files'', JArr [JStr (js ''src/a.ts'')])])" by (simp add: js_def)
  from json_parse_stringify [OF this] have "\<not> anchorUnresolvable (nums sample_host) (Some sample_anchor)"
    using sample_file by (simp add: anchorUnresolvable_def sample_anchor_def)
  then show ?thesis unfolding transmit_eligible
    by (simp add: sample_candidate_def sample_context_def sample_assertions_def owner_check_def share_invalid_def
        SHAREABLE_KINDS_def str_array_of_def)
qed


lemma stricter_policy_never_opens_witness:
  "transmitEligibility (nums sample_host) sample_candidate (sample_context None) sample_assertions = (True, None)"
  by (rule stricter_policy_never_opens [OF _ sample_transmitted]) (simp add: stricter_def sample_context_def)

end
