(* ===== verification/Tool_Errors.thy ===== *)
theory Tool_Errors
  imports Block_Parser Memory_Paths
begin

text \<open>
  The errors of the memory tool, \<open>src/memory-tool/errors.ts\<close>, and how its messages spell limits,
  \<open>src/memory-tool/limit-format.ts\<close>.  A thrown contract error is a value of \<open>tool_error\<close> with the
  arguments of its message, and \<open>err_message\<close> is the message; the two marker classes are values too.
  Path and block errors keep the form of their own components.  \<open>Store_Error\<close> is an exception of the
  database.
\<close>

section \<open>Limits\<close>

definition FILE_BYTES :: nat where "FILE_BYTES = 65536"
definition MAX_FILES :: nat where "MAX_FILES = 256"
definition STORE_BYTES :: nat where "STORE_BYTES = 16 * 1024 * 1024"
definition MAX_FILE_LINES :: nat where "MAX_FILE_LINES = 999999"
definition MAX_VIEW_CHARS :: nat where "MAX_VIEW_CHARS = 16000"

text \<open>\<open>n.toLocaleString('en-US')\<close>: groups of three digits.\<close>

fun group_digits :: "jstr \<Rightarrow> jstr" where
  "group_digits (a # b # c # d # s) = a # b # c # 44 # group_digits (d # s)"
| "group_digits s = s"

definition formatLimit :: "nat \<Rightarrow> jstr" where
  "formatLimit n = rev (group_digits (rev (show_nat n)))"

definition formatBytes :: "nat \<Rightarrow> jstr" where
  "formatBytes bytes = (let MB = 1024 * 1024 in
     if MB \<le> bytes then show_nat (bytes div MB) @ js ''MB'' else show_nat (bytes div 1024) @ js ''KB'')"

definition show_int :: "int \<Rightarrow> jstr" where
  "show_int i = (if i < 0 then 45 # show_nat (nat (- i)) else show_nat (nat i))"

section \<open>The error table\<close>

datatype tool_error =
    Bad_Path path_error
  | Bad_Block block_error
  | Store_Error string
  | Token_Wrong_File jstr jstr
  | Token_No_Match jstr jstr
  | Token_Ambiguous jstr jstr
  | Token_Stale jstr int jstr
  | Old_Block_Not_Canonical jstr jstr
  | Old_Block_Duplicate jstr
  | Duplicate_Of_Existing jstr jstr
  | Duplicate_Within_Command
  | Supersede_Within_Command
  | Would_Supersede jstr jstr
  | Conflict_Target_Missing jstr
  | Update_Failed jstr
  | File_Too_Large
  | Store_Full_Files
  | Store_Full_Bytes
  | Old_Str_Not_Found jstr jstr
  | Old_Str_Multiple jstr jstr
  | Line_Limit_Exceeded jstr
  | Invalid_View_Range number number nat
  | Invalid_View_Range_Shape json
  | Invalid_Insert_Line number nat
  | Nonexistent jstr
  | Is_Directory jstr
  | Already_Exists jstr
  | Read_Only_Plan jstr
  | Create_Tokenless
  | Insert_Tokenless
  | Old_Str_Must_Be_Tokened
  | New_Token_Mismatch jstr
  | New_Token_Duplicate jstr
  | Cannot_Delete_Root jstr
  | Cannot_Rename_Root jstr
  | Destination_Exists jstr
  | Cross_Category_Rename
  | Cross_Domain_Rename
  | Dir_Contains_Plan jstr
  | Duplicate_Existing_Record jstr   \<comment> \<open>marker: \<open>DuplicateExistingRecordError\<close>\<close>
  | Would_Supersede_Record jstr      \<comment> \<open>marker: \<open>WouldSupersedeError\<close>\<close>

abbreviation dash :: jstr where "dash \<equiv> [32, 8212, 32]"

definition PLAN_TOOL :: jstr where
  "PLAN_TOOL = js ''waykeep_plan''"

primrec err_message :: "num_codec \<Rightarrow> tool_error \<Rightarrow> jstr" where
  "err_message n (Token_Wrong_File t p) = js ''token '' @ t @ js '' does not belong in '' @ p"
| "err_message n (Token_No_Match t p) =
    js ''no record matches token '' @ t @ js '' in '' @ p @ dash @ js ''view the file for current tokens''"
| "err_message n (Token_Ambiguous x p) =
    js ''token prefix '' @ x @ js '' is ambiguous in '' @ p @ dash @ js ''view the file and use the longer token shown''"
| "err_message n (Token_Stale t r p) =
    js ''stale record '' @ t @ dash @ js ''its current revision is '' @ show_int r @ js ''. View '' @ p @ js '' again before editing.''"
| "err_message n (Old_Block_Not_Canonical t p) =
    js ''old_str block for '' @ t @ js '' does not match the rendered record exactly'' @ dash @ js ''view '' @ p @
    js '' and copy the whole block verbatim''"
| "err_message n (Old_Block_Duplicate t) =
    js ''old_str lists record '' @ t @ js '' more than once'' @ dash @ js ''include each record at most once''"
| "err_message n (Duplicate_Of_Existing t p) =
    js ''this content matches existing record '' @ t @ dash @ js ''view '' @ p @
    js '' and edit that record instead of creating a duplicate.''"
| "err_message n Duplicate_Within_Command =
    js ''this block duplicates another new block in the same command'' @ dash @ js ''merge them into one record''"
| "err_message n Supersede_Within_Command =
    js ''these new blocks supersede one another'' @ dash @ js ''submit one final record''"
| "err_message n (Would_Supersede t p) =
    js ''this content would supersede existing record '' @ t @ dash @ js ''view '' @ p @ js '' and edit that record instead.''"
| "err_message n (Conflict_Target_Missing p) =
    js ''this write conflicts with a record that could not be re-read after rollback'' @ dash @ js ''view '' @ p @
    js '' and retry the edit.''"
| "err_message n (Update_Failed i) =
    js ''record '' @ i @ js '' could not be updated'' @ dash @ js ''view the file again before editing''"
| "err_message n File_Too_Large = js ''file exceeds the '' @ formatBytes FILE_BYTES @ js '' memory-file limit''"
| "err_message n Store_Full_Files = js ''memory store is full ('' @ show_nat MAX_FILES @ js '' files)''"
| "err_message n Store_Full_Bytes = js ''memory store is full ('' @ formatBytes STORE_BYTES @ js '' aggregate limit)''"
| "err_message n (Old_Str_Not_Found o1 p) =
    js ''No replacement was performed, old_str `'' @ o1 @ js ''` did not appear verbatim in '' @ p @ js ''.''"
| "err_message n (Old_Str_Multiple o1 ls) =
    js ''No replacement was performed. Multiple occurrences of old_str `'' @ o1 @ js ''` in lines: '' @ ls @
    js ''. Please ensure it is unique''"
| "err_message n (Line_Limit_Exceeded p) =
    js ''File '' @ p @ js '' exceeds maximum line limit of '' @ formatLimit MAX_FILE_LINES @ js '' lines.''"
| "err_message n (Invalid_View_Range a b k) =
    js ''Invalid `view_range` parameter: ['' @ show_num n a @ js '', '' @ show_num n b @
    js '']. It should be within the range of lines of the file: [1, '' @ show_nat k @ js '']''"
| "err_message n (Invalid_View_Range_Shape v) =
    js ''Invalid `view_range` parameter: '' @ stringify n v @ js ''. It should be an array of two integers.''"
| "err_message n (Invalid_Insert_Line l k) =
    js ''Invalid `insert_line` parameter: '' @ show_num n l @
    js ''. It should be within the range of lines of the file: [0, '' @ show_nat k @ js '']''"
| "err_message n (Nonexistent p) = js ''The path '' @ p @ js '' does not exist. Please provide a valid path.''"
| "err_message n (Is_Directory p) = js ''The path '' @ p @ js '' is a directory''"
| "err_message n (Already_Exists p) = js ''File '' @ p @ js '' already exists''"
| "err_message n (Read_Only_Plan p) = p @ js '' is read-only'' @ dash @ js ''manage the plan via the '' @ PLAN_TOOL @ js '' tool''"
| "err_message n Create_Tokenless =
    js ''create takes token-less blocks only'' @ dash @ js ''tokened blocks belong to str_replace edits''"
| "err_message n Insert_Tokenless =
    js ''insert takes token-less blocks only'' @ dash @ js ''edit existing records with str_replace''"
| "err_message n Old_Str_Must_Be_Tokened = js ''old_str must contain only rendered (tokened) record blocks''"
| "err_message n (New_Token_Mismatch t) =
    js ''new_str token '' @ t @ js '' does not match any old_str token exactly (kind, id, and old revision must all match)''"
| "err_message n (New_Token_Duplicate t) =
    js ''new_str lists record '' @ t @ js '' more than once'' @ dash @ js ''include each record at most once''"
| "err_message n (Cannot_Delete_Root r) = js ''cannot delete the '' @ r @ js '' directory itself''"
| "err_message n (Cannot_Rename_Root r) = js ''cannot rename the '' @ r @ js '' directory itself''"
| "err_message n (Destination_Exists p) = js ''The destination '' @ p @ js '' already exists''"
| "err_message n Cross_Category_Rename =
    js ''cannot rename across memory categories'' @ dash @ js ''kind changes are delete + create''"
| "err_message n Cross_Domain_Rename =
    js ''cannot rename across memory domains (free-form vs materialized)'' @ dash @ js ''kind changes are delete + create''"
| "err_message n (Dir_Contains_Plan d) = d @ js '' contains read-only plan.md''"
| "err_message n (Duplicate_Existing_Record i) = js ''duplicate of existing record '' @ i"
| "err_message n (Would_Supersede_Record i) = js ''would supersede record '' @ i"
| "err_message n (Bad_Path e) = (case e of Invalid_Path p \<Rightarrow>
    js ''invalid path '' @ p @ dash @ js ''memory paths must stay within '' @ MEMORY_ROOT)"
| "err_message n (Bad_Block e) = (if e = Confidence_Immutable then js ''confidence is system-managed and cannot be edited''
    else js ''malformed record block'')"
| "err_message n (Store_Error s) = js s"

end
