(* ===== verification/View_Renderer.thy ===== *)
theory View_Renderer
  imports Tool_Errors
begin

text \<open>
  Views of files and directories, \<open>src/memory-tool/view-renderer.ts\<close>: numbered lines with a view range,
  the cut at whole lines when the text is too long, sizes, listings and the plan page.  The plan
  comes from the plan repository, a record here.
\<close>

section \<open>Sizes\<close>

text \<open>\<open>(bytes / d).toFixed(1)\<close> for a power of two \<open>d\<close>: the quotient is exact, ties go up.\<close>

definition tenths :: "nat \<Rightarrow> nat \<Rightarrow> jstr" where
  "tenths bytes d = (let t = (20 * bytes + d) div (2 * d) in show_nat (t div 10) @ [46] @ show_nat (t mod 10))"

definition humanSize :: "nat \<Rightarrow> jstr" where
  "humanSize bytes =
    (if bytes < 1024 then show_nat bytes @ js ''B''
     else if bytes < 1024 * 1024 then tenths bytes 1024 @ js ''K''
     else tenths bytes (1024 * 1024) @ js ''M'')"

section \<open>File views\<close>

definition pad6 :: "jstr \<Rightarrow> jstr" where
  "pad6 s = replicate (6 - length s) 32 @ s"

definition numbered_line :: "nat \<Rightarrow> jstr \<Rightarrow> jstr" where
  "numbered_line i l = pad6 (show_nat i) @ [9] @ l"

text \<open>\<open>for (let i = start; i <= end; i++)\<close>.\<close>

definition numbered_lines :: "jstr list \<Rightarrow> nat \<Rightarrow> nat \<Rightarrow> jstr list" where
  "numbered_lines ls a b = map (\<lambda>i. numbered_line i (ls ! (i - 1))) [a..<Suc b]"

text \<open>The first and last line a range asks for; \<open>None\<close> when it is invalid.\<close>

definition view_bounds :: "nat \<Rightarrow> number \<times> number \<Rightarrow> (nat \<times> nat) option" where
  "view_bounds n vr = (case vr of (ra, rb) \<Rightarrow>
     (case (safe_int ra, safe_int rb) of
        (Some a, Some b) \<Rightarrow>
          if 1 \<le> a \<and> a \<le> max (int n) 1 \<and> (b = -1 \<or> (a \<le> b \<and> b \<le> int n))
          then Some (nat a, if b = -1 then n else nat b) else None
      | _ \<Rightarrow> None))"

text \<open>\<open>while (cut > 0 && length > MAX_VIEW_CHARS)\<close>: drop the last line and its newline.\<close>

fun cut_loop :: "jstr list \<Rightarrow> nat \<Rightarrow> int \<Rightarrow> nat" where
  "cut_loop numbered 0 len = 0"
| "cut_loop numbered (Suc k) len =
    (if int MAX_VIEW_CHARS < len then cut_loop numbered k (len - (int (length (numbered ! k)) + 1)) else Suc k)"

definition view_marker :: "nat \<Rightarrow> nat \<Rightarrow> nat \<Rightarrow> jstr" where
  "view_marker start kept n =
    (if kept = 0 then js ''[view truncated'' @ dash @ js ''line '' @ show_nat start @ js '' alone exceeds the '' @
       formatLimit MAX_VIEW_CHARS @ js ''-character view limit]''
     else js ''[view truncated at line '' @ show_nat (start + kept - 1) @ js '' of '' @ show_nat n @ dash @
       js ''use view_range to page]'')"

definition view_body :: "jstr list \<Rightarrow> nat \<Rightarrow> nat \<Rightarrow> jstr" where
  "view_body numbered start n =
    (let body = join [10] numbered in
     if MAX_VIEW_CHARS < length body then
       (let kept = cut_loop numbered (length numbered) (int (length body))
        in join [10] (take kept numbered @ [view_marker start kept n]))
     else body)"

definition view_header :: "jstr \<Rightarrow> jstr" where
  "view_header path = js ''Here'' @ [39] @ js ''s the content of '' @ path @ js '' with line numbers:''"

definition renderFileView :: "jstr \<Rightarrow> jstr list \<Rightarrow> (number \<times> number) option \<Rightarrow> tool_error + jstr" where
  "renderFileView path ls viewRange =
    (if MAX_FILE_LINES < length ls then Inl (Line_Limit_Exceeded path)
     else
       bindE (case viewRange of
           None \<Rightarrow> Inr (1, length ls)
         | Some (ra, rb) \<Rightarrow> (case view_bounds (length ls) (ra, rb) of
             None \<Rightarrow> Inl (Invalid_View_Range ra rb (length ls)) | Some ab \<Rightarrow> Inr ab))
         (\<lambda>(a, b). Inr (view_header path @ [10] @ view_body (numbered_lines ls a b) a (length ls))))"

section \<open>Listings and the plan page\<close>

record listing_entry =
  le_path :: jstr
  le_bytes :: nat

definition renderDirectoryListing :: "jstr \<Rightarrow> listing_entry list \<Rightarrow> jstr" where
  "renderDirectoryListing path entries =
     join [10] ([js ''Here'' @ [39] @ js ''re the files and directories up to 2 levels deep in '' @ path @
         js '', excluding hidden items and node_modules:'',
       humanSize (sum_list (map le_bytes entries)) @ [9] @ path] @
       map (\<lambda>e. humanSize (le_bytes e) @ [9] @ le_path e) entries)"

record plan_step =
  ps_id :: jstr
  ps_status :: jstr
  ps_description :: jstr

record active_plan =
  pl_name :: jstr
  pl_status :: jstr
  pl_steps :: "plan_step list"

definition step_marker :: "jstr \<Rightarrow> jstr" where
  "step_marker status = (if status = js ''done'' then js ''x'' else if status = js ''in_progress'' then js ''~''
     else if status = js ''blocked'' then js ''!'' else js '' '')"

definition renderPlanLines :: "active_plan \<Rightarrow> jstr list" where
  "renderPlanLines p =
     [js ''# Plan: '' @ pl_name p @ js '' ['' @ pl_status p @ js '']'',
      js ''(read-only'' @ dash @ js ''manage via the '' @ PLAN_TOOL @ js '' tool)''] @
     map (\<lambda>s. js ''- ['' @ step_marker (ps_status s) @ js ''] '' @ ps_id s @ js ''. '' @ ps_description s) (pl_steps p)"

section \<open>Facts\<close>

lemma join_length: "length (join [10] xs) + 1 = (\<Sum>x\<leftarrow>xs. length x + 1) + (if xs = [] then 1 else 0)"
  by (induction "[10 :: nat]" xs rule: join.induct) auto

lemma cut_loop_spec:
  assumes "k \<le> length ls" "len = int (\<Sum>x\<leftarrow>take k ls. length x + 1) - 1"
  shows "cut_loop ls k len \<le> k \<and> (cut_loop ls k len = 0 \<or> length (join [10] (take (cut_loop ls k len) ls)) \<le> MAX_VIEW_CHARS) \<and>
    (cut_loop ls k len < k \<longrightarrow> MAX_VIEW_CHARS < length (join [10] (take (Suc (cut_loop ls k len)) ls)))"
  using assms
proof (induction k arbitrary: len)
  case (Suc k)
  have l: "int (length (join [10] (take (Suc k) ls))) = len"
    using Suc.prems join_length [of "take (Suc k) ls"] by (cases ls) auto
  show ?case
  proof (cases "int MAX_VIEW_CHARS < len")
    case True
    have "take (Suc k) ls = take k ls @ [ls ! k]" using Suc.prems(1) by (simp add: take_Suc_conv_app_nth)
    then have "len - (int (length (ls ! k)) + 1) = int (\<Sum>x\<leftarrow>take k ls. length x + 1) - 1"
      using Suc.prems(2) by simp
    note i = Suc.IH [OF _ this]
    show ?thesis
    proof (cases "cut_loop ls k (len - (int (length (ls ! k)) + 1)) = k")
      case True
      then show ?thesis using i Suc.prems(1) \<open>int MAX_VIEW_CHARS < len\<close> l by simp
    qed (use i Suc.prems(1) \<open>int MAX_VIEW_CHARS < len\<close> in auto)
  qed (use l in simp)
qed simp

section \<open>Properties\<close>

text \<open>The text under the header: either all the lines asked for, or the longest run of them from the start
  that fits, and the marker.\<close>

definition view_text :: "jstr list \<Rightarrow> nat \<Rightarrow> nat \<Rightarrow> jstr \<Rightarrow> bool" where
  "view_text ls a b t \<longleftrightarrow> (let all = numbered_lines ls a b in
     t = join [10] all \<and> length (join [10] all) \<le> 16000 \<or>
     (\<exists>kept < length all. t = join [10] (take kept all @ [view_marker a kept (length ls)]) \<and>
        (kept = 0 \<or> length (join [10] (take kept all)) \<le> 16000) \<and>
        16000 < length (join [10] (take (Suc kept) all))))"

lemma view_body_text: "view_text ls a b (view_body (numbered_lines ls a b) a (length ls))"
proof -
  let ?all = "numbered_lines ls a b"
  let ?len = "int (length (join [10] ?all))"
  let ?cut = "cut_loop ?all (length ?all) ?len"
  show ?thesis
  proof (cases "MAX_VIEW_CHARS < length (join [10] ?all)")
    case True
    then have ne: "?all \<noteq> []" by auto
    then have "?len = int (\<Sum>x\<leftarrow>take (length ?all) ?all. length x + 1) - 1"
      using join_length [of ?all] by simp
    from cut_loop_spec [OF order_refl this] have c: "?cut \<le> length ?all"
      "?cut = 0 \<or> length (join [10] (take ?cut ?all)) \<le> MAX_VIEW_CHARS"
      "?cut < length ?all \<longrightarrow> MAX_VIEW_CHARS < length (join [10] (take (Suc ?cut) ?all))" by auto
    have "?cut \<noteq> length ?all" using c(2) True ne by auto
    with c(1) have "?cut < length ?all" by simp
    moreover have "view_body ?all a (length ls) = join [10] (take ?cut ?all @ [view_marker a ?cut (length ls)])"
      using True by (simp add: view_body_def Let_def)
    ultimately show ?thesis using c unfolding view_text_def Let_def MAX_VIEW_CHARS_def by blast
  next
    case False
    then show ?thesis by (simp add: view_text_def view_body_def Let_def MAX_VIEW_CHARS_def)
  qed
qed

text \<open>A view shows what was asked for: it fails exactly for files of more than 999,999 lines and for
  ranges that are not of the form \<open>[a, b]\<close> or \<open>[a, -1]\<close> with \<open>1 <= a <= b <= lines\<close>; otherwise its
  text is every requested line with its number, or the longest prefix of whole lines within 16,000
  characters followed by the paging marker.\<close>

theorem file_view_exact:
  assumes "renderFileView path ls viewRange = Inr out"
  shows "length ls \<le> 999999 \<and> (\<exists>a b t. out = view_header path @ [10] @ t \<and> view_text ls a b t \<and>
    (case viewRange of None \<Rightarrow> a = 1 \<and> b = length ls
     | Some (ra, rb) \<Rightarrow> safe_int ra = Some (int a) \<and> 1 \<le> a \<and> a \<le> max (length ls) 1 \<and>
         (safe_int rb = Some (int b) \<and> a \<le> b \<and> b \<le> length ls \<or> safe_int rb = Some (- 1) \<and> b = length ls)))"
proof (cases viewRange)
  case None
  with assms view_body_text [of ls 1 "length ls"] show ?thesis
    by (auto simp: renderFileView_def MAX_FILE_LINES_def split: if_splits)
next
  case (Some r)
  obtain ra rb where r: "r = (ra, rb)" by (cases r)
  from assms Some r obtain a b where v: "view_bounds (length ls) (ra, rb) = Some (a, b)"
    and out: "out = view_header path @ [10] @ view_body (numbered_lines ls a b) a (length ls)" and n: "length ls \<le> 999999"
    by (auto simp: renderFileView_def MAX_FILE_LINES_def bindE_Inr_iff split: if_splits option.splits)
  from v obtain ia ib where i: "safe_int ra = Some ia" "safe_int rb = Some ib" "1 \<le> ia" "ia \<le> max (int (length ls)) 1"
    "ib = -1 \<or> ia \<le> ib \<and> ib \<le> int (length ls)" "a = nat ia" "b = (if ib = -1 then length ls else nat ib)"
    by (auto simp: view_bounds_def split: option.splits if_splits)
  then have "safe_int ra = Some (int a) \<and> 1 \<le> a \<and> a \<le> max (length ls) 1 \<and>
      (safe_int rb = Some (int b) \<and> a \<le> b \<and> b \<le> length ls \<or> safe_int rb = Some (- 1) \<and> b = length ls)"
    by (auto simp: max_def split: if_splits)
  then show ?thesis using Some r out n view_body_text by auto
qed

lemma file_view_exact_witness:
  "\<exists>out a b t. renderFileView (js ''f'') [js ''x'', js ''y''] (Some (Fin 2, Fin (- 1))) = Inr out \<and>
    out = view_header (js ''f'') @ [10] @ t \<and> view_text [js ''x'', js ''y''] a b t \<and> a = 2 \<and> b = 2"
proof -
  have s: "safe_int (Fin 2) = Some 2" "safe_int (Fin (- 1)) = Some (- 1)" by code_simp+
  obtain out where r: "renderFileView (js ''f'') [js ''x'', js ''y''] (Some (Fin 2, Fin (- 1))) = Inr out"
    by (simp add: renderFileView_def MAX_FILE_LINES_def view_bounds_def s)
  from file_view_exact [OF r] obtain a b t where t: "out = view_header (js ''f'') @ [10] @ t"
    "view_text [js ''x'', js ''y''] a b t" "safe_int (Fin 2) = Some (int a)"
    "safe_int (Fin (- 1)) = Some (int b) \<and> a \<le> b \<and> b \<le> length [js ''x'', js ''y''] \<or>
      safe_int (Fin (- 1)) = Some (- 1) \<and> b = length [js ''x'', js ''y'']"
    unfolding option.case prod.case by blast
  from t(3,4) have "a = 2" "b = 2" by (simp_all add: s)
  with r t(1,2) show ?thesis by blast
qed

end
