(* ===== verification/Free_Form_Store.thy ===== *)
theory Free_Form_Store
  imports View_Renderer Text_Cleaning Store
begin

text \<open>
  Free-form memory files, \<open>src/memory-tool/free-form-store.ts\<close>, over the table \<open>memory_files\<close>.  Every
  mutating operation is one immediate transaction: it answers its text and the new state, or the
  error, and then the state is the old one.  The table counts bytes of UTF-8.  \<open>LIKE\<close> is SQLite's:
  \<open>%\<close> and \<open>_\<close> are wildcards unless escaped, and ASCII letters compare without case.
\<close>

section \<open>Strings\<close>

definition find_from :: "jstr \<Rightarrow> jstr \<Rightarrow> nat \<Rightarrow> nat option" where
  "find_from p s k = find (\<lambda>i. starts_with p (drop i s)) [min k (length s)..<Suc (length s)]"

text \<open>\<open>s.replace(/\n$/, '')\<close>\<close>

definition drop_last_newline :: "jstr \<Rightarrow> jstr" where
  "drop_last_newline s = (if ends_with [10] s then butlast s else s)"

definition is_like_special :: "nat \<Rightarrow> bool" where
  "is_like_special u \<longleftrightarrow> u = 92 \<or> u = 37 \<or> u = 95"

definition escapeLike :: "jstr \<Rightarrow> jstr" where
  "escapeLike s = concat (map (\<lambda>u. if is_like_special u then [92, u] else [u]) s)"

text \<open>\<open>text LIKE pattern ESCAPE '\\'\<close>\<close>

fun sql_like :: "jstr \<Rightarrow> jstr \<Rightarrow> bool" where
  "sql_like [] s \<longleftrightarrow> s = []"
| "sql_like (u # p) s \<longleftrightarrow>
    (if u = 37 then (sql_like p s \<or> (case s of [] \<Rightarrow> False | _ # s' \<Rightarrow> sql_like (u # p) s'))
     else if u = 92 then (case p of [] \<Rightarrow> False | v # p' \<Rightarrow> (case s of [] \<Rightarrow> False | w # s' \<Rightarrow> lower_unit v = lower_unit w \<and> sql_like p' s'))
     else if u = 95 then (case s of [] \<Rightarrow> False | _ # s' \<Rightarrow> sql_like p s')
     else (case s of [] \<Rightarrow> False | w # s' \<Rightarrow> lower_unit u = lower_unit w \<and> sql_like p s'))"

section \<open>Operations\<close>

abbreviation file_of :: "db \<Rightarrow> jstr \<Rightarrow> file_row option" where
  "file_of d path \<equiv> t_get mf_path path (files d)"

definition readFreeForm :: "jstr \<Rightarrow> db \<Rightarrow> jstr option" where
  "readFreeForm path d = map_option mf_content (file_of d path)"

definition file_bytes :: "file_row \<Rightarrow> nat" where
  "file_bytes f = byte_length (mf_content f)"

definition store_bytes :: "db \<Rightarrow> nat" where
  "store_bytes d = sum_list (map file_bytes (files d))"

text \<open>\<open>INSERT ... ON CONFLICT(path) DO UPDATE\<close>, with the revision trigger on the content.\<close>

definition put_file :: "host \<Rightarrow> jstr \<Rightarrow> jstr \<Rightarrow> db \<Rightarrow> db" where
  "put_file h path content d = (case file_of d path of
      None \<Rightarrow> d\<lparr> files := files d @ [\<lparr> mf_path = path, mf_content = content, mf_revision = 1,
          mf_created = sql_now h, mf_updated = sql_now h \<rparr>], changes := Suc (changes d) \<rparr>
    | Some _ \<Rightarrow> d\<lparr> files := t_update (\<lambda>f. mf_path f = path)
          (\<lambda>f. f\<lparr> mf_content := content, mf_updated := sql_now h, mf_revision := mf_revision f + 1 \<rparr>) (files d),
        changes := Suc (changes d) \<rparr>)"

definition writeWithinTransaction :: "host \<Rightarrow> jstr \<Rightarrow> jstr \<Rightarrow> db \<Rightarrow> tool_error + db" where
  "writeWithinTransaction h path content d =
    (let bytes = byte_length content; existing = map_option file_bytes (file_of d path) in
     if FILE_BYTES < bytes then Inl File_Too_Large
     else if existing = None \<and> MAX_FILES \<le> length (files d) then Inl Store_Full_Files
     else
       (let prospective = int (store_bytes d) - int (case existing of Some b \<Rightarrow> b | None \<Rightarrow> 0) + int bytes in
        if int STORE_BYTES < prospective then Inl Store_Full_Bytes
        else Inr (put_file h path content d)))"

definition writeFreeForm :: "host \<Rightarrow> jstr \<Rightarrow> jstr \<Rightarrow> db \<Rightarrow> tool_error + db" where
  "writeFreeForm h path content d = writeWithinTransaction h path content d"

definition edited_text :: "jstr" where
  "edited_text = js ''The memory file has been edited.'' @ [10]"

definition occurrence_lines :: "jstr \<Rightarrow> jstr \<Rightarrow> jstr" where
  "occurrence_lines content oldStr =
     join (js '', '') (map (\<lambda>(i, l). show_nat (i + 1))
       (filter (\<lambda>(i, l). has_sub (hd (split_on 10 oldStr)) l) (enumerate 0 (split_on 10 content))))"

definition freeFormReplace :: "host \<Rightarrow> jstr \<Rightarrow> jstr \<Rightarrow> jstr \<Rightarrow> db \<Rightarrow> tool_error + (jstr \<times> db)" where
  "freeFormReplace h path oldStr newStr d = (case readFreeForm path d of
      None \<Rightarrow> Inl (Nonexistent path)
    | Some content \<Rightarrow> (case find_from oldStr content 0 of
          None \<Rightarrow> Inl (Old_Str_Not_Found oldStr path)
        | Some i \<Rightarrow>
            if find_from oldStr content (i + 1) \<noteq> None
            then Inl (Old_Str_Multiple oldStr (occurrence_lines content oldStr))
            else
              (let nxt = take i content @ newStr @ drop (i + length oldStr) content in
               bindE (writeWithinTransaction h path nxt d) (\<lambda>d1.
               bindE (renderFileView path (split_on 10 nxt) None) (\<lambda>v.
               Inr (edited_text @ v, d1))))))"

definition freeFormInsert :: "host \<Rightarrow> jstr \<Rightarrow> number \<Rightarrow> jstr \<Rightarrow> db \<Rightarrow> tool_error + (jstr \<times> db)" where
  "freeFormInsert h path insertLine insertText d = (case readFreeForm path d of
      None \<Rightarrow> Inl (Nonexistent path)
    | Some content \<Rightarrow>
        (let ls = split_on 10 content in
         case safe_int insertLine of
           None \<Rightarrow> Inl (Invalid_Insert_Line insertLine (length ls))
         | Some k \<Rightarrow>
             if k < 0 \<or> int (length ls) < k then Inl (Invalid_Insert_Line insertLine (length ls))
             else bindE (writeWithinTransaction h path
                 (join [10] (take (nat k) ls @ [drop_last_newline insertText] @ drop (nat k) ls)) d) (\<lambda>d1.
               Inr (js ''The file '' @ path @ js '' has been edited.'', d1))))"

definition freeFormRename :: "host \<Rightarrow> jstr \<Rightarrow> jstr \<Rightarrow> db \<Rightarrow> tool_error + (jstr \<times> db)" where
  "freeFormRename h oldPath newPath d =
    (if file_of d oldPath = None then Inl (Nonexistent oldPath)
     else if file_of d newPath \<noteq> None then Inl (Destination_Exists newPath)
     else Inr (js ''Successfully renamed '' @ oldPath @ js '' to '' @ newPath,
       d\<lparr> files := t_update (\<lambda>f. mf_path f = oldPath) (\<lambda>f. f\<lparr> mf_path := newPath, mf_updated := sql_now h \<rparr>) (files d),
          changes := Suc (changes d) \<rparr>))"

definition freeFormDelete :: "jstr \<Rightarrow> db \<Rightarrow> tool_error + (jstr \<times> db)" where
  "freeFormDelete path d =
    (if file_of d path = None then Inl (Nonexistent path)
     else Inr (js ''Successfully deleted '' @ path,
       d\<lparr> files := t_del mf_path path (files d), changes := changes d + t_count (\<lambda>f. mf_path f = path) (files d) \<rparr>))"

definition freeFormDeleteUnder :: "jstr \<Rightarrow> db \<Rightarrow> nat \<times> db" where
  "freeFormDeleteUnder dir d = (let P = (\<lambda>f. sql_like (escapeLike dir @ js ''/%'') (mf_path f)) in
     (t_count P (files d), d\<lparr> files := filter (\<lambda>f. \<not> P f) (files d), changes := changes d + t_count P (files d) \<rparr>))"

section \<open>Facts\<close>

lemma find_from_Some:
  assumes "find_from p s k = Some i" "k \<le> length s"
  shows "k \<le> i \<and> i \<le> length s \<and> starts_with p (drop i s) \<and> (\<forall>j. k \<le> j \<and> j < i \<longrightarrow> \<not> starts_with p (drop j s))"
proof -
  from assms obtain n where n: "n < length [k..<Suc (length s)]" "starts_with p (drop i s)" "i = [k..<Suc (length s)] ! n"
    "\<forall>j<n. \<not> starts_with p (drop ([k..<Suc (length s)] ! j) s)"
    unfolding find_from_def find_Some_iff by (auto simp: min_def simp del: upt_Suc)
  then have i: "i = k + n" by (simp del: upt_Suc)
  have "\<not> starts_with p (drop j s)" if "k \<le> j" "j < i" for j
    using n(4) [rule_format, of "j - k"] that i n(1) by (simp del: upt_Suc)
  then show ?thesis using n i by (auto simp del: upt_Suc)
qed

lemma find_from_None: "find_from p s k = None \<longleftrightarrow> (\<forall>i\<in>{min k (length s)..length s}. \<not> starts_with p (drop i s))"
  by (simp only: find_from_def find_None_iff set_upt atLeastLessThanSuc_atLeastAtMost) blast

text \<open>A fully escaped prefix followed by \<open>%\<close> matches the strings that begin with it, letter case aside.\<close>

lemma like_percent: "sql_like [37] s"
  by (induction s) auto

declare sql_like.simps [simp del]

lemma like_escaped_Cons:
  "sql_like ((if is_like_special u then [92, u] else [u]) @ p) s \<longleftrightarrow>
    (case s of [] \<Rightarrow> False | w # s' \<Rightarrow> lower_unit u = lower_unit w \<and> sql_like p s')"
  by (auto simp: is_like_special_def sql_like.simps(2) [of 92] sql_like.simps(2) [of u] split: list.splits)

lemma like_escaped:
  "sql_like (escapeLike p @ js ''/%'') s \<longleftrightarrow>
    length p < length s \<and> map lower_unit (take (length p) s) = map lower_unit p \<and> s ! length p = 47"
proof (induction p arbitrary: s)
  case Nil
  have l: "lower_unit 47 = lower_unit w \<longleftrightarrow> w = 47" for w by (auto simp: lower_unit_def is_upper_def)
  have "sql_like (47 # [37]) s \<longleftrightarrow> (case s of [] \<Rightarrow> False | w # s' \<Rightarrow> w = 47)"
    using like_escaped_Cons [of 47 "[37]" s] l by (simp add: is_like_special_def like_percent split: list.splits)
  then show ?case by (cases s) (simp_all add: escapeLike_def js_def)
next
  case (Cons u p)
  have e: "escapeLike (u # p) @ q = (if is_like_special u then [92, u] else [u]) @ escapeLike p @ q" for q
    by (simp add: escapeLike_def)
  have "sql_like (escapeLike (u # p) @ js ''/%'') s \<longleftrightarrow>
      (case s of [] \<Rightarrow> False | w # s' \<Rightarrow> lower_unit u = lower_unit w \<and> sql_like (escapeLike p @ js ''/%'') s')"
    unfolding e by (rule like_escaped_Cons)
  then show ?case unfolding Cons.IH by (cases s) auto
qed

text \<open>The code renders the view after the commit; rendering cannot fail there, because a file within the cap has
  too few lines, so the order does not matter.\<close>

lemma length_le_bytes: "length s \<le> byte_length s"
  unfolding byte_length_def
  by (induction s rule: utf8_encode.induct) (auto simp: utf8_unit_def utf8_pair_def Let_def)

lemma view_after_write:
  assumes "byte_length s \<le> 65536"
  shows "\<exists>v. renderFileView path (split_on 10 s) None = Inr v"
proof -
  have "length (split_on 10 s) \<le> Suc (length s)"
    by (induction s) (auto split: list.splits)
  then show ?thesis using assms length_le_bytes [of s] by (simp add: renderFileView_def MAX_FILE_LINES_def)
qed

section \<open>Histories\<close>

datatype file_op =
    Op_Write jstr jstr
  | Op_Replace jstr jstr jstr
  | Op_Insert jstr number jstr
  | Op_Rename jstr jstr
  | Op_Delete jstr
  | Op_Delete_Under jstr

definition committed :: "db \<Rightarrow> tool_error + (jstr \<times> db) \<Rightarrow> db" where
  "committed d r = (case r of Inl _ \<Rightarrow> d | Inr (_, d') \<Rightarrow> d')"

fun file_step :: "host \<Rightarrow> file_op \<Rightarrow> db \<Rightarrow> db" where
  "file_step h (Op_Write p c) d = (case writeFreeForm h p c d of Inl _ \<Rightarrow> d | Inr d' \<Rightarrow> d')"
| "file_step h (Op_Replace p a b) d = committed d (freeFormReplace h p a b d)"
| "file_step h (Op_Insert p k t) d = committed d (freeFormInsert h p k t d)"
| "file_step h (Op_Rename a b) d = committed d (freeFormRename h a b d)"
| "file_step h (Op_Delete p) d = committed d (freeFormDelete p d)"
| "file_step h (Op_Delete_Under dir) d = snd (freeFormDeleteUnder dir d)"

text \<open>The caps of the store.\<close>

definition files_ok :: "db \<Rightarrow> bool" where
  "files_ok d \<longleftrightarrow> t_keyed mf_path (files d) \<and> length (files d) \<le> 256 \<and>
     (\<forall>f\<in>set (files d). file_bytes f \<le> 65536) \<and> store_bytes d \<le> 16777216"

lemma t_keyed_filter: "t_keyed key rows \<Longrightarrow> t_keyed key (filter P rows)"
  by (simp add: t_keyed_def distinct_map_filter)

lemma sum_filter_le: "sum_list (map g (filter P xs)) \<le> (sum_list (map g xs) :: nat)"
  by (induction xs) auto

lemma files_ok_filter:
  assumes "files_ok d" "files d' = filter P (files d)"
  shows "files_ok d'"
proof -
  have "store_bytes d' \<le> store_bytes d" "length (files d') \<le> length (files d)"
    unfolding store_bytes_def assms(2) by (rule sum_filter_le, rule length_filter_le)
  moreover have "t_keyed mf_path (files d')" unfolding assms(2) using assms(1) by (simp add: files_ok_def t_keyed_filter)
  moreover have "set (files d') \<subseteq> set (files d)" using assms(2) by auto
  ultimately show ?thesis using assms(1) unfolding files_ok_def by (auto simp del: length_filter_le)
qed

lemma sum_update:
  "t_keyed key rows \<Longrightarrow> t_get key k rows = Some r \<Longrightarrow>
    sum_list (map g (t_update (\<lambda>x. key x = k) f rows)) + g r = (sum_list (map g rows) :: nat) + g (f r)"
proof (induction rows)
  case (Cons x rows)
  have same: "t_update (\<lambda>x. key x = k) f rows = rows" if "key x = k"
    using Cons.prems(1) that by (auto simp: t_keyed_def t_update_def intro!: map_idI) (metis image_eqI)
  show ?case
  proof (cases "key x = k")
    case True
    then have "r = x" using Cons.prems(2) by (simp add: t_get_def)
    with True show ?thesis using same by (simp add: t_update_def)
  next
    case False
    then have "t_get key k rows = Some r" "t_keyed key rows" using Cons.prems by (simp_all add: t_get_def t_keyed_def)
    with Cons.IH False show ?thesis by (simp add: t_update_def)
  qed
qed (simp add: t_get_def)

lemma write_Inr:
  assumes "writeWithinTransaction h path content d = Inr d'"
  shows "d' = put_file h path content d \<and> byte_length content \<le> 65536 \<and>
    (file_of d path = None \<longrightarrow> length (files d) < 256) \<and>
    int (store_bytes d) - (case file_of d path of None \<Rightarrow> 0 | Some f \<Rightarrow> int (file_bytes f)) + int (byte_length content) \<le> 16777216"
  using assms
  by (auto simp: writeWithinTransaction_def Let_def FILE_BYTES_def MAX_FILES_def STORE_BYTES_def
      split: if_splits option.splits)

lemma write_files_ok:
  assumes "files_ok d" "writeWithinTransaction h path content d = Inr d'"
  shows "files_ok d'"
proof (cases "file_of d path")
  case None
  let ?f = "\<lparr> mf_path = path, mf_content = content, mf_revision = 1, mf_created = sql_now h, mf_updated = sql_now h \<rparr>"
  have d': "files d' = files d @ [?f]" using None write_Inr [OF assms(2)] by (simp add: put_file_def)
  have "path \<notin> mf_path ` set (files d)" using None by (simp add: t_get_None)
  then have "t_keyed mf_path (files d')" using assms(1) by (simp add: files_ok_def t_keyed_def d')
  moreover have "file_bytes ?f = byte_length content" by (simp add: file_bytes_def)
  moreover have "byte_length content \<le> 65536" "length (files d) < 256" "store_bytes d + byte_length content \<le> 16777216"
    using None write_Inr [OF assms(2)] by auto
  ultimately show ?thesis using assms(1) unfolding files_ok_def store_bytes_def d' by auto
next
  case (Some f)
  let ?g = "\<lambda>f. f\<lparr> mf_content := content, mf_updated := sql_now h, mf_revision := mf_revision f + 1 \<rparr>"
  have d': "files d' = t_update (\<lambda>f. mf_path f = path) ?g (files d)"
    using Some write_Inr [OF assms(2)] by (simp add: put_file_def)
  have k: "t_keyed mf_path (files d)" using assms(1) by (simp add: files_ok_def)
  have b: "file_bytes (?g f) = byte_length content" for f by (simp add: file_bytes_def)
  have "store_bytes d' + file_bytes f = store_bytes d + byte_length content"
    using sum_update [OF k Some, of file_bytes ?g] by (simp add: store_bytes_def d' b)
  moreover have "file_bytes f \<le> store_bytes d"
    using t_get_Some [OF Some] by (auto simp: store_bytes_def intro!: member_le_sum_list)
  ultimately have "store_bytes d' \<le> 16777216" using Some write_Inr [OF assms(2)] by auto
  moreover have "t_keyed mf_path (files d')" unfolding d' by (rule t_keyed_update [OF _ k]) simp
  moreover have "byte_length content \<le> 65536" using write_Inr [OF assms(2)] by simp
  then have "\<forall>x\<in>set (files d'). file_bytes x \<le> 65536"
    using assms(1) unfolding d' t_update_def files_ok_def by (auto simp: b)
  moreover have "length (files d') = length (files d)" by (simp add: d' t_update_def)
  ultimately show ?thesis using assms(1) by (simp add: files_ok_def)
qed

lemma t_keyed_rename:
  "t_keyed mf_path fs \<Longrightarrow> t_get mf_path b fs = None \<Longrightarrow>
    t_keyed mf_path (t_update (\<lambda>f. mf_path f = a) (\<lambda>f. f\<lparr> mf_path := b, mf_updated := u \<rparr>) fs)"
proof (induction fs)
  case (Cons x fs)
  have "t_update (\<lambda>f. mf_path f = a) (\<lambda>f. f\<lparr> mf_path := b, mf_updated := u \<rparr>) fs = fs" if "mf_path x = a"
    using Cons.prems(1) that by (auto simp: t_keyed_def t_update_def intro!: map_idI) (metis image_eqI)
  moreover have "mf_path x \<noteq> b" "t_get mf_path b fs = None" "t_keyed mf_path fs" "mf_path x \<notin> mf_path ` set fs"
    using Cons.prems by (auto simp: t_get_None t_keyed_def)
  ultimately show ?case using Cons.IH
    by (auto simp: t_keyed_def t_update_def t_get_None image_iff split: if_splits)
qed (simp add: t_keyed_def t_update_def)

lemma rename_files_ok:
  assumes "files_ok d" "freeFormRename h a b d = Inr (t, d')"
  shows "files_ok d'"
proof -
  let ?g = "\<lambda>f. f\<lparr> mf_path := b, mf_updated := sql_now h \<rparr>"
  from assms(2) have n: "file_of d b = None" and d': "files d' = t_update (\<lambda>f. mf_path f = a) ?g (files d)"
    by (auto simp: freeFormRename_def split: if_splits)
  have "t_keyed mf_path (files d')" unfolding d' using assms(1) n by (intro t_keyed_rename) (simp_all add: files_ok_def)
  moreover have m: "map file_bytes (files d') = map file_bytes (files d)" by (simp add: d' t_update_def file_bytes_def)
  moreover have "length (files d') = length (files d)" by (simp add: d' t_update_def)
  moreover have "\<forall>x\<in>set (files d'). file_bytes x \<le> 65536"
    using assms(1) unfolding d' files_ok_def t_update_def by (auto simp: file_bytes_def)
  ultimately show ?thesis using assms(1) unfolding files_ok_def store_bytes_def m by simp
qed

lemma replace_Inr:
  assumes "freeFormReplace h path a b d = Inr (t, d')"
  obtains content i where "readFreeForm path d = Some content" "find_from a content 0 = Some i" "find_from a content (i + 1) = None"
    "writeWithinTransaction h path (take i content @ b @ drop (i + length a) content) d = Inr d'"
  using assms by (auto simp: freeFormReplace_def Let_def bindE_Inr_iff split: option.splits if_splits)

lemma insert_Inr:
  assumes "freeFormInsert h path k t d = Inr (r, d')"
  obtains content where "writeWithinTransaction h path content d = Inr d'"
  using assms by (auto simp: freeFormInsert_def Let_def bindE_Inr_iff split: option.splits if_splits)

lemma file_step_ok: "files_ok d \<Longrightarrow> files_ok (file_step h op d)"
proof (cases op)
  case (Op_Replace p a b)
  then show "files_ok d \<Longrightarrow> ?thesis"
    by (auto simp: committed_def split: sum.splits elim!: replace_Inr intro: write_files_ok)
next
  case (Op_Insert p k t)
  then show "files_ok d \<Longrightarrow> ?thesis"
    by (auto simp: committed_def split: sum.splits elim!: insert_Inr intro: write_files_ok)
next
  case (Op_Delete p)
  then show "files_ok d \<Longrightarrow> ?thesis"
    by (auto simp: committed_def freeFormDelete_def t_del_def intro: files_ok_filter)
next
  case (Op_Delete_Under dir)
  then show "files_ok d \<Longrightarrow> ?thesis"
    by (auto simp: freeFormDeleteUnder_def Let_def intro: files_ok_filter)
qed (auto simp: committed_def writeFreeForm_def split: sum.splits intro: write_files_ok rename_files_ok)

lemma put_file_frame [simp]:
  "memories (put_file h p c d) = memories d" "journal (put_file h p c d) = journal d"
  "entity_map (put_file h p c d) = entity_map d"
  by (simp_all add: put_file_def split: option.splits)

lemma file_step_frame:
  "memories (file_step h op d) = memories d \<and> journal (file_step h op d) = journal d \<and> entity_map (file_step h op d) = entity_map d"
proof -
  have w: "writeWithinTransaction h p c d = Inr d' \<Longrightarrow> memories d' = memories d \<and> journal d' = journal d \<and> entity_map d' = entity_map d"
    for p c d'
    using write_Inr [of h p c d d'] by auto
  show ?thesis
  proof (cases op)
    case (Op_Replace p a b)
    then show ?thesis using w by (auto simp: committed_def split: sum.splits elim!: replace_Inr)
  next
    case (Op_Insert p k t)
    then show ?thesis using w by (auto simp: committed_def split: sum.splits elim!: insert_Inr)
  next
    case (Op_Write p c)
    then show ?thesis using w by (auto simp: writeFreeForm_def split: sum.splits)
  qed (auto simp: committed_def freeFormRename_def freeFormDelete_def freeFormDeleteUnder_def Let_def split: if_splits)
qed

lemma read_put_file: "readFreeForm q (put_file h p c d) = (if q = p then Some c else readFreeForm q d)"
proof (cases "file_of d p")
  case None
  then show ?thesis
    by (auto simp: put_file_def readFreeForm_def t_get_append t_get_single split: option.splits)
next
  case (Some f)
  let ?g = "\<lambda>f. f\<lparr> mf_content := c, mf_updated := sql_now h, mf_revision := mf_revision f + 1 \<rparr>"
  have l: "file_of (put_file h p c d) q = map_option (\<lambda>r. if mf_path r = p then ?g r else r) (file_of d q)"
    using Some by (simp add: put_file_def t_get_update)
  show ?thesis
  proof (cases "file_of d q")
    case None
    then show ?thesis using l Some by (auto simp: readFreeForm_def)
  next
    case (Some r)
    then have "mf_path r = q" using t_get_Some by fastforce
    then show ?thesis using l Some by (simp add: readFreeForm_def)
  qed
qed

lemma like_directory:
  "sql_like (escapeLike dir @ js ''/%'') s \<longleftrightarrow> starts_with (map lower_unit dir @ js ''/'') (map lower_unit s)"
proof -
  have l: "lower_unit w = 47 \<longleftrightarrow> w = 47" for w by (auto simp: lower_unit_def is_upper_def)
  show ?thesis unfolding like_escaped
  proof (induction dir arbitrary: s)
    case Nil
    then show ?case by (cases s) (auto simp: l js_def)
  next
    case (Cons u dir)
    show ?case
    proof (cases s)
      case (Cons w s')
      then show ?thesis using Cons.IH [of s'] by auto
    qed simp
  qed
qed

section \<open>Properties\<close>

text \<open>The store never outgrows its caps: whatever sequence of writes, replacements, insertions, renames and
  deletions is tried, the store holds at most 256 files with pairwise different paths, each of at
  most 64 KiB of UTF-8 and together of at most 16 MiB, and no memory record, journal entry or
  binding has been touched.\<close>

theorem free_form_bounded:
  assumes "files_ok d"
  shows "files_ok (fold (file_step h) ops d) \<and> memories (fold (file_step h) ops d) = memories d \<and>
    journal (fold (file_step h) ops d) = journal d \<and> entity_map (fold (file_step h) ops d) = entity_map d"
  using assms
proof (induction ops arbitrary: d)
  case (Cons op ops)
  from Cons.IH [OF file_step_ok [OF Cons.prems]] file_step_frame [of h op d] show ?case by simp
qed simp

text \<open>A replacement is exact: it succeeds only when the old text occurs in the file at exactly one
  position; then the file is the text before, the new text and the text after, and every other file
  is as it was.\<close>

theorem free_form_replace_exact:
  assumes "freeFormReplace h path oldStr newStr d = Inr (msg, d')"
  shows "\<exists>pre post. readFreeForm path d = Some (pre @ oldStr @ post) \<and>
    readFreeForm path d' = Some (pre @ newStr @ post) \<and>
    (\<forall>pre' post'. pre' @ oldStr @ post' = pre @ oldStr @ post \<longrightarrow> pre' = pre) \<and>
    (\<forall>q. q \<noteq> path \<longrightarrow> readFreeForm q d' = readFreeForm q d)"
proof (rule replace_Inr [OF assms])
  fix content i
  assume r: "readFreeForm path d = Some content" and f: "find_from oldStr content 0 = Some i"
    and u: "find_from oldStr content (i + 1) = None"
    and w: "writeWithinTransaction h path (take i content @ newStr @ drop (i + length oldStr) content) d = Inr d'"
  from find_from_Some [OF f] have i: "i \<le> length content" "starts_with oldStr (drop i content)"
    "\<And>j. j < i \<Longrightarrow> \<not> starts_with oldStr (drop j content)" by auto
  let ?post = "drop (i + length oldStr) content"
  from i(2) obtain t where t: "drop i content = oldStr @ t" by (auto simp: starts_with_iff)
  then have "?post = t" by (metis add.commute append_eq_conv_conj drop_drop)
  then have c: "content = take i content @ oldStr @ ?post" using t append_take_drop_id [of i content] by simp
  have one: "pre' = take i content" if p: "pre' @ oldStr @ post' = content" for pre' post'
  proof -
    have at: "starts_with oldStr (drop (length pre') content)" using p [symmetric] by simp
    have le: "length pre' \<le> length content" using p [symmetric] by simp
    have "\<not> length pre' < i" using i(3) at by blast
    moreover have "\<not> i < length pre'"
    proof
      assume "i < length pre'"
      then have "length pre' \<in> {min (i + 1) (length content)..length content}" using le by simp
      with u at show False unfolding find_from_None by blast
    qed
    ultimately have "length pre' = i" by simp
    then show ?thesis using p [symmetric] by simp
  qed
  have "readFreeForm q d' = (if q = path then Some (take i content @ newStr @ ?post) else readFreeForm q d)" for q
    using write_Inr [OF w] read_put_file by simp
  with r c one show ?thesis by (intro exI [of _ "take i content"] exI [of _ ?post]) auto
qed

text \<open>Deleting a directory reaches into others: \<open>freeFormDeleteUnder\<close> removes exactly the files whose path
  begins with the directory and a slash when ASCII letters are compared without case, although the
  segments that encode project names are case-sensitive; so deleting the directory of project
  \<open>aaa\<close> deletes the files of project \<open>aaG\<close>.\<close>

theorem directory_delete_ignores_case:
  "files (snd (freeFormDeleteUnder dir d)) =
      filter (\<lambda>f. \<not> starts_with (map lower_unit dir @ js ''/'') (map lower_unit (mf_path f))) (files d) \<and>
    encodeProjectSegment (js ''aaa'') = js ''p-YWFh'' \<and> encodeProjectSegment (js ''aaG'') = js ''p-YWFH'' \<and>
    files (snd (freeFormDeleteUnder (MEMORY_ROOT @ js ''/'' @ encodeProjectSegment (js ''aaa''))
      (put_file h (MEMORY_ROOT @ js ''/'' @ encodeProjectSegment (js ''aaG'') @ js ''/notes.txt'') content empty_db))) = []"
proof -
  have e: "encodeProjectSegment (js ''aaa'') = js ''p-YWFh''" "encodeProjectSegment (js ''aaG'') = js ''p-YWFH''"
    by (simp_all add: encodeProjectSegment_def b64_encode_def PROJECT_PREFIX_def utf8_unit_def b64_char_def js_def surrogate_def is_high_def is_low_def)
  have m: "map lower_unit (MEMORY_ROOT @ js ''/'' @ js ''p-YWFh'') @ js ''/'' =
      map lower_unit (MEMORY_ROOT @ js ''/'' @ js ''p-YWFH'') @ js ''/''"
    by code_simp
  have n: "map lower_unit (js ''/notes.txt'') = js ''/'' @ js ''notes.txt''" by code_simp
  have "starts_with (map lower_unit (MEMORY_ROOT @ js ''/'' @ js ''p-YWFh'') @ js ''/'')
      (map lower_unit (MEMORY_ROOT @ js ''/'' @ js ''p-YWFH'' @ js ''/notes.txt''))"
    unfolding starts_with_iff m
    by (intro exI [of _ "js ''notes.txt''"]) (simp only: map_append append_assoc n)
  moreover have "files (put_file h p content empty_db) =
      [\<lparr> mf_path = p, mf_content = content, mf_revision = 1, mf_created = sql_now h, mf_updated = sql_now h \<rparr>]" for p
    by (simp add: put_file_def empty_db_def t_get_def)
  ultimately show ?thesis by (simp add: freeFormDeleteUnder_def Let_def like_directory e)
qed

section \<open>Witnesses\<close>

lemma files_ok_empty: "files_ok empty_db"
  by (simp add: files_ok_def empty_db_def t_keyed_def store_bytes_def)

lemma free_form_bounded_witness:
  "files_ok (fold (file_step sample_host) [Op_Write (js ''/memories/a'') (js ''x''), Op_Rename (js ''/memories/a'') (js ''/memories/b'')] empty_db)"
  using free_form_bounded [OF files_ok_empty] by blast

lemma free_form_replace_exact_witness:
  "\<exists>msg d'. freeFormReplace sample_host (js ''n'') (js ''b'') (js ''xy'') (put_file sample_host (js ''n'') (js ''abc'') empty_db) = Inr (msg, d') \<and>
    (\<exists>pre post. js ''abc'' = pre @ js ''b'' @ post \<and> readFreeForm (js ''n'') d' = Some (pre @ js ''xy'' @ post))"
proof -
  let ?d = "put_file sample_host (js ''n'') (js ''abc'') empty_db"
  have f: "find_from (js ''b'') (js ''abc'') 0 = Some 1" "find_from (js ''b'') (js ''abc'') (1 + 1) = None" by code_simp+
  have r: "readFreeForm (js ''n'') ?d = Some (js ''abc'')" by (simp add: read_put_file)
  have b: "file_of ?d (js ''n'') = Some \<lparr> mf_path = js ''n'', mf_content = js ''abc'', mf_revision = 1,
      mf_created = sql_now sample_host, mf_updated = sql_now sample_host \<rparr>" "length (files ?d) = 1" "store_bytes ?d = byte_length (js ''abc'')"
    by (simp_all add: put_file_def empty_db_def t_get_def store_bytes_def file_bytes_def)
  have l: "byte_length (js ''axyc'') = 4" "byte_length (js ''abc'') = 3" "take 1 (js ''abc'') @ js ''xy'' @ drop (1 + length (js ''b'')) (js ''abc'') = js ''axyc''"
    "split_on 10 (js ''axyc'') = [js ''axyc'']"
    by (simp_all add: byte_length_def utf8_unit_def js_def surrogate_def is_high_def is_low_def)
  obtain d1 where w: "writeWithinTransaction sample_host (js ''n'') (js ''axyc'') ?d = Inr d1"
    by (simp add: writeWithinTransaction_def b l file_bytes_def FILE_BYTES_def MAX_FILES_def STORE_BYTES_def)
  obtain t where v: "renderFileView (js ''n'') [js ''axyc''] None = Inr t"
    by (simp add: renderFileView_def MAX_FILE_LINES_def)
  have e: "freeFormReplace sample_host (js ''n'') (js ''b'') (js ''xy'') ?d = Inr (edited_text @ t, d1)"
    unfolding freeFormReplace_def r option.case f Let_def l(3) w bindE.simps l(4) v by simp
  from free_form_replace_exact [OF e] e r show ?thesis by auto
qed

end
