(* ===== verification/Regex.thy ===== *)
theory Regex
  imports Text_Cleaning
begin

text \<open>
  The regular expressions of \<open>src/db/memory-repository/truth.ts\<close> need backtracking and \<open>\b\<close>, so this
  theory has a matcher for the constructs they use: unit classes, concatenation, alternatives in
  order of preference, greedy repetition of a class, word boundaries and the end of the text.

  A cursor is what is left of the text with the information whether the unit before it is a word
  character.  \<open>runs r c\<close> lists the cursors a match of \<open>r\<close> at \<open>c\<close> can end in, the preferred one
  first, which is the order in which a backtracking engine tries them.  \<open>spans\<close> is the match
  relation; \<open>set_runs\<close> says that the matcher finds exactly its pairs.
\<close>

section \<open>Expressions\<close>

datatype regex =
    Eps
  | Cls "nat \<Rightarrow> bool"
  | Cat regex regex
  | Alt regex regex
  | Many nat "nat \<Rightarrow> bool"
  | Bnd
  | Eot

type_synonym cursor = "bool \<times> jstr"

definition head_word :: "jstr \<Rightarrow> bool" where
  "head_word s = (case s of [] \<Rightarrow> False | u # _ \<Rightarrow> is_word_unit u)"

abbreviation Opt :: "regex \<Rightarrow> regex" where
  "Opt r \<equiv> Alt r Eps"

fun cats :: "regex list \<Rightarrow> regex" where
  "cats [] = Eps"
| "cats [r] = r"
| "cats (r # rs) = Cat r (cats rs)"

fun alts :: "regex list \<Rightarrow> regex" where
  "alts [] = Cls (\<lambda>_. False)"
| "alts [r] = r"
| "alts (r # rs) = Alt r (alts rs)"

definition lit_ci :: "string \<Rightarrow> regex" where
  "lit_ci w = cats (map (\<lambda>v. Cls (\<lambda>u. lower_unit u = v)) (js w))"

definition Unit :: "nat \<Rightarrow> regex" where
  "Unit v = Cls (\<lambda>u. u = v)"

section \<open>Matching\<close>

text \<open>\<open>[class]{n,}\<close>, greedy.\<close>

fun many :: "(nat \<Rightarrow> bool) \<Rightarrow> nat \<Rightarrow> bool \<Rightarrow> jstr \<Rightarrow> cursor list" where
  "many P n w [] = (if n = 0 then [(w, [])] else [])"
| "many P n w (u # s) =
    (if P u then many P (n - 1) (is_word_unit u) s else []) @ (if n = 0 then [(w, u # s)] else [])"

fun runs :: "regex \<Rightarrow> cursor \<Rightarrow> cursor list" where
  "runs Eps c = [c]"
| "runs (Cls P) c = (case snd c of [] \<Rightarrow> [] | u # s \<Rightarrow> if P u then [(is_word_unit u, s)] else [])"
| "runs (Cat a b) c = concat (map (runs b) (runs a c))"
| "runs (Alt a b) c = runs a c @ runs b c"
| "runs (Many n P) c = many P n (fst c) (snd c)"
| "runs Bnd c = (if fst c \<noteq> head_word (snd c) then [c] else [])"
| "runs Eot c = (if snd c = [] then [c] else [])"

text \<open>The leftmost match: the text before it, the match and the text after it.\<close>

fun search :: "regex \<Rightarrow> bool \<Rightarrow> jstr \<Rightarrow> (jstr \<times> jstr \<times> jstr) option" where
  "search r w s = (case runs r (w, s) of
      c # _ \<Rightarrow> Some ([], take (length s - length (snd c)) s, snd c)
    | [] \<Rightarrow> (case s of [] \<Rightarrow> None
        | u # t \<Rightarrow> map_option (\<lambda>(a, m, z). (u # a, m, z)) (search r (is_word_unit u) t)))"

declare search.simps [simp del]

definition re_test :: "regex \<Rightarrow> jstr \<Rightarrow> bool" where
  "re_test r s \<longleftrightarrow> search r False s \<noteq> None"

text \<open>\<open>/^...$/.test(s)\<close>\<close>

definition re_full :: "regex \<Rightarrow> jstr \<Rightarrow> bool" where
  "re_full r s \<longleftrightarrow> runs (Cat r Eot) (False, s) \<noteq> []"

text \<open>\<open>s.replace(re, sub)\<close> without the flag \<open>g\<close>: the first match only.\<close>

definition re_replace :: "regex \<Rightarrow> jstr \<Rightarrow> jstr \<Rightarrow> jstr" where
  "re_replace r sub s = (case search r False s of None \<Rightarrow> s | Some (a, m, z) \<Rightarrow> a @ sub @ z)"

section \<open>The match relation\<close>

text \<open>\<open>between c m c'\<close>: the units \<open>m\<close> lead from the cursor \<open>c\<close> to \<open>c'\<close>.\<close>

definition between :: "cursor \<Rightarrow> jstr \<Rightarrow> cursor \<Rightarrow> bool" where
  "between c m c' \<longleftrightarrow> snd c = m @ snd c' \<and> fst c' = (if m = [] then fst c else is_word_unit (last m))"

primrec spans :: "regex \<Rightarrow> cursor \<Rightarrow> cursor \<Rightarrow> bool" where
  "spans Eps = (=)"
| "spans (Cls P) = (\<lambda>c c'. \<exists>u. P u \<and> between c [u] c')"
| "spans (Cat a b) = spans a OO spans b"
| "spans (Alt a b) = (\<lambda>c c'. spans a c c' \<or> spans b c c')"
| "spans (Many n P) = (\<lambda>c c'. \<exists>m. n \<le> length m \<and> list_all P m \<and> between c m c')"
| "spans Bnd = (\<lambda>c c'. c = c' \<and> fst c \<noteq> head_word (snd c))"
| "spans Eot = (\<lambda>c c'. c = c' \<and> snd c = [])"

lemma between_Nil [simp]: "between c [] c' \<longleftrightarrow> c' = c"
  by (cases c; cases c') (auto simp: between_def)

lemma between_Cons: "between c (u # m) c' \<longleftrightarrow> (\<exists>s. snd c = u # s \<and> between (is_word_unit u, s) m c')"
  by (cases m) (auto simp: between_def)

lemma between_trans: "between a m b \<Longrightarrow> between b n c \<Longrightarrow> between a (m @ n) c"
  by (auto simp: between_def)

lemma set_many: "set (many P n w s) = {c'. \<exists>m. n \<le> length m \<and> list_all P m \<and> between (w, s) m c'}"
proof (induction P n w s rule: many.induct)
  case (1 P n w)
  have "between (w, []) m c' \<longleftrightarrow> m = [] \<and> c' = (w, [])" for m c'
    by (cases m) (auto simp: between_def prod_eq_iff)
  then show ?case by auto
next
  case (2 P n w u s)
  have split: "(\<exists>m. n \<le> length m \<and> list_all P m \<and> between (w, u # s) m c') \<longleftrightarrow>
      n = 0 \<and> c' = (w, u # s) \<or>
      P u \<and> (\<exists>m. n - 1 \<le> length m \<and> list_all P m \<and> between (is_word_unit u, s) m c')" (is "?l \<longleftrightarrow> ?r") for c'
  proof
    assume ?l
    then obtain m where m: "n \<le> length m" "list_all P m" "between (w, u # s) m c'" by blast
    show ?r
    proof (cases m)
      case Nil
      with m show ?thesis by auto
    next
      case (Cons v k)
      with m have "n - 1 \<le> length k" "list_all P k" "P u" "between (is_word_unit u, s) k c'"
        by (auto simp: between_Cons)
      then show ?thesis by blast
    qed
  next
    assume ?r
    then show ?l
    proof
      assume "n = 0 \<and> c' = (w, u # s)"
      then have "n \<le> length []" "list_all P []" "between (w, u # s) [] c'" by auto
      then show ?l by blast
    next
      assume "P u \<and> (\<exists>m. n - 1 \<le> length m \<and> list_all P m \<and> between (is_word_unit u, s) m c')"
      then obtain m where "P u" "n - 1 \<le> length m" "list_all P m" "between (is_word_unit u, s) m c'" by blast
      then have "n \<le> length (u # m)" "list_all P (u # m)" "between (w, u # s) (u # m) c'"
        by (auto simp: between_Cons)
      then show ?l by blast
    qed
  qed
  show ?case unfolding split using 2 by auto
qed

theorem set_runs: "set (runs r c) = {c'. spans r c c'}"
proof (induction r arbitrary: c)
  case (Cls P)
  then show ?case by (cases c; cases "snd c") (auto simp: between_Cons)
next
  case (Many n P)
  then show ?case by (simp add: set_many)
qed auto

lemma spans_between: "spans r c c' \<Longrightarrow> \<exists>m. between c m c'"
proof (induction r arbitrary: c c')
  case (Cat a b)
  then obtain d where "spans a c d" "spans b d c'" by auto
  with Cat.IH between_trans show ?case by blast
next
  case Eps
  then have "between c [] c'" by simp
  then show ?case by blast
next
  case Bnd
  then have "between c [] c'" by simp
  then show ?case by blast
next
  case Eot
  then have "between c [] c'" by simp
  then show ?case by blast
qed (simp, blast)+

lemma runs_Nil_iff: "runs r c = [] \<longleftrightarrow> (\<nexists>c'. spans r c c')"
  using set_runs [of r c] by (metis Collect_empty_eq set_empty)

lemma runs_shorter:
  assumes "c' \<in> set (runs r c)"
  shows "length (snd c') \<le> length (snd c)"
proof -
  from assms have "spans r c c'" by (simp add: set_runs)
  from spans_between [OF this] show ?thesis by (auto simp: between_def)
qed

text \<open>The flag of a cursor that has the units \<open>a\<close> behind it.\<close>

definition flag_after :: "bool \<Rightarrow> jstr \<Rightarrow> bool" where
  "flag_after w a = (if a = [] then w else is_word_unit (last a))"

lemma flag_after_simps [simp]:
  "flag_after w [] = w" "flag_after w (u # a) = flag_after (is_word_unit u) a"
  by (auto simp: flag_after_def)

lemma search_None: "search r w s = None \<longleftrightarrow> (\<forall>a b. s = a @ b \<longrightarrow> runs r (flag_after w a, b) = [])"
proof (induction s arbitrary: w)
  case Nil
  then show ?case by (subst search.simps) (auto split: list.splits)
next
  case (Cons u t)
  have all: "(\<forall>a b. u # t = a @ b \<longrightarrow> runs r (flag_after w a, b) = []) \<longleftrightarrow>
      runs r (w, u # t) = [] \<and> (\<forall>a b. t = a @ b \<longrightarrow> runs r (flag_after (is_word_unit u) a, b) = [])"
    (is "?l = ?r")
  proof
    assume l: ?l
    show ?r
    proof (intro conjI allI impI)
      show "runs r (w, u # t) = []" using l [rule_format, of "[]" "u # t"] by simp
      fix a b
      assume "t = a @ b"
      then show "runs r (flag_after (is_word_unit u) a, b) = []" using l [rule_format, of "u # a" b] by simp
    qed
  qed (auto simp: Cons_eq_append_conv)
  show ?case unfolding all by (subst search.simps) (auto simp: Cons.IH split: list.splits)
qed

lemma search_Some:
  assumes "search r w s = Some (a, m, z)"
  shows "s = a @ m @ z \<and> (\<exists>c rest. runs r (flag_after w a, m @ z) = c # rest \<and> snd c = z)"
  using assms
proof (induction s arbitrary: w a m z)
  case Nil
  then show ?case
  proof (cases "runs r (w, [])")
    case (Cons c rest)
    with Nil have "m = []" "a = []" "z = snd c" by (subst (asm) search.simps, auto)+
    moreover have "snd c = []" using runs_shorter [of c r "(w, [])"] Cons by auto
    ultimately show ?thesis using Cons by auto
  qed (subst (asm) search.simps, auto)
next
  case (Cons u t)
  show ?case
  proof (cases "runs r (w, u # t)")
    case Nil
    with Cons.prems obtain a' where a: "a = u # a'" "search r (is_word_unit u) t = Some (a', m, z)"
      by (subst (asm) search.simps) auto
    from Cons.IH [OF this(2)] show ?thesis by (auto simp: a)
  next
    fix c rest
    assume run: "runs r (w, u # t) = c # rest"
    with Cons.prems have e: "a = []" "m = take (length (u # t) - length (snd c)) (u # t)" "z = snd c"
      by (subst (asm) search.simps, auto)+
    have "spans r (w, u # t) c" using set_runs [of r "(w, u # t)"] run by auto
    then obtain k where "between (w, u # t) k c" using spans_between by blast
    then have k: "u # t = k @ snd c" by (simp add: between_def)
    then have "m = k" using e(2) by simp
    then have s: "u # t = m @ z" using k e(3) by simp
    then have "runs r (flag_after w a, m @ z) = c # rest" using run e(1) by simp
    then have "\<exists>c rest. runs r (flag_after w a, m @ z) = c # rest \<and> snd c = z" using e(3) by blast
    moreover have "u # t = a @ m @ z" unfolding e(1) using s by simp
    ultimately show ?thesis by blast
  qed
qed

text \<open>A test succeeds exactly when the expression matches somewhere.\<close>

lemma re_test_iff: "re_test r s \<longleftrightarrow> (\<exists>a b c'. s = a @ b \<and> spans r (flag_after False a, b) c')"
  by (auto simp: re_test_def search_None runs_Nil_iff)

lemma re_full_iff: "re_full r s \<longleftrightarrow> (\<exists>c'. spans r (False, s) c' \<and> snd c' = [])"
proof -
  have "(\<exists>c. spans (Cat r Eot) (False, s) c) \<longleftrightarrow> (\<exists>c'. spans r (False, s) c' \<and> snd c' = [])"
    by (auto simp: relcompp_apply)
  then show ?thesis unfolding re_full_def runs_Nil_iff by blast
qed

text \<open>\<open>s.match(re)\<close> with the flag \<open>g\<close>: all matches, left to right.\<close>

function matches_all :: "regex \<Rightarrow> bool \<Rightarrow> jstr \<Rightarrow> jstr list" where
  "matches_all r w s = (case search r w s of
      None \<Rightarrow> []
    | Some (a, m, z) \<Rightarrow>
        if m \<noteq> [] then m # matches_all r (is_word_unit (last m)) z
        else [] # (case z of [] \<Rightarrow> [] | u # z' \<Rightarrow> matches_all r (is_word_unit u) z'))"
  by pat_completeness auto
termination
proof (relation "measure (\<lambda>(r, w, s). length s)", goal_cases)
  case (2 r w s x a y m z)
  then have "search r w s = Some (a, m, z)" by simp
  with 2 show ?case using search_Some [of r w s a m z] by simp
next
  case (3 r w s x a y m z u z')
  then have "search r w s = Some (a, m, z)" by simp
  with 3 show ?case using search_Some [of r w s a m z] by simp
qed simp

declare matches_all.simps [simp del]

text \<open>Rules that evaluate a match on a literal.\<close>

lemmas re_eval = search.simps matches_all.simps re_test_def re_full_def re_replace_def Unit_def lit_ci_def
  head_word_def is_word_unit_def lower_unit_def unit_class_defs js_def

end
