(* ===== verification/Text_Tokens.thy ===== *)
theory Text_Tokens
  imports Text_Cleaning
begin

text \<open>
  Tokens of free text: \<open>src/utils/similarity.ts\<close> (\<open>tokenOverlap\<close>, \<open>jaccardOverlap\<close>) and
  \<open>src/utils/fts.ts\<close> (\<open>buildFtsQuery\<close>).

  \<^item> \<open>js_lower\<close> is \<open>toLowerCase\<close> as far as these functions can tell: they look only at ASCII letters,
    digits and white space of the result, and the only units outside ASCII whose lower case holds
    an ASCII letter are the Kelvin sign and the dotted capital I.
  \<^item> \<open>text.split(/\s+/)\<close> is always followed by a filter that drops empty pieces, so \<open>pieces\<close> gives
    the maximal runs of units outside the separator class.
  \<^item> A \<open>Set\<close> built from a list is the list without repetitions, in insertion order.
  \<^item> Overlaps are kept as exact fractions.  The code only compares them with one half, which is a
    double, and rounding to a double is monotone, so every comparison comes out the same.
\<close>

section \<open>Words\<close>

definition js_lower :: "jstr \<Rightarrow> jstr" where
  "js_lower s = concat (map (\<lambda>u. if u = 8490 then [107] else if u = 304 then [105, 775] else [lower_unit u]) s)"

text \<open>White space is tested on ASCII first, so that evaluation does not count up to the rare units.\<close>

lemma is_space_code [code]:
  "is_space u \<longleftrightarrow> (if u < 128 then (9 \<le> u \<and> u \<le> 13) \<or> u = 32
     else u = 160 \<or> u = 5760 \<or> (8192 \<le> u \<and> u \<le> 8202) \<or> u = 8232 \<or> u = 8233 \<or> u = 8239 \<or>
       u = 8287 \<or> u = 12288 \<or> u = 65279)"
  by (auto simp: is_space_def)

fun split_by :: "(nat \<Rightarrow> bool) \<Rightarrow> jstr \<Rightarrow> jstr list" where
  "split_by P [] = [[]]"
| "split_by P (u # s) =
    (if P u then [] # split_by P s
     else (case split_by P s of [] \<Rightarrow> [[u]] | x # xs \<Rightarrow> (u # x) # xs))"

definition pieces :: "(nat \<Rightarrow> bool) \<Rightarrow> jstr \<Rightarrow> jstr list" where
  "pieces P s = filter (\<lambda>w. w \<noteq> []) (split_by P s)"

text \<open>\<open>text.toLowerCase().replace(/[^\w\s]/g, ' ').split(/\s+/)\<close>, empty pieces dropped.\<close>

definition plain_words :: "jstr \<Rightarrow> jstr list" where
  "plain_words text =
     pieces is_space (map (\<lambda>u. if is_word_unit u \<or> is_space u then u else 32) (js_lower text))"

lemma split_by_units: "w \<in> set (split_by P s) \<Longrightarrow> u \<in> set w \<Longrightarrow> u \<in> set s \<and> \<not> P u"
proof (induction s arbitrary: w)
  case (Cons v s)
  then show ?case by (cases "split_by P s") (auto split: if_splits, blast+)
qed simp

lemma pieces_units: "w \<in> set (pieces P s) \<Longrightarrow> w \<noteq> [] \<and> (\<forall>u\<in>set w. u \<in> set s \<and> \<not> P u)"
  using split_by_units by (fastforce simp: pieces_def)

text \<open>Every word consists of word characters: nothing in it can act as query syntax.\<close>

lemma plain_words_units:
  assumes "w \<in> set (plain_words text)" "u \<in> set w"
  shows "is_word_unit u"
proof -
  from pieces_units [OF assms(1) [unfolded plain_words_def]] assms(2)
  have "\<not> is_space u" "u \<in> set (map (\<lambda>u. if is_word_unit u \<or> is_space u then u else 32) (js_lower text))"
    by blast+
  then show ?thesis by (auto simp: is_space_def split: if_splits)
qed

section \<open>Overlap\<close>

definition tokenize :: "jstr \<Rightarrow> jstr list" where
  "tokenize text = dedup (filter (\<lambda>t. 1 < length t) (plain_words text))"

definition adjacent :: "'a list \<Rightarrow> ('a \<times> 'a) list" where
  "adjacent ts = zip ts (tl ts)"

definition makeBigrams :: "jstr \<Rightarrow> jstr list" where
  "makeBigrams text =
     dedup (map (\<lambda>(a, b). a @ [32] @ b) (adjacent (filter (\<lambda>t. 1 < length t) (plain_words text))))"

text \<open>Set size and membership of the code: \<open>intersection\<close> counts the members of the first set that the
  second has.\<close>

definition common :: "'a list \<Rightarrow> 'a list \<Rightarrow> nat" where
  "common a b = length (filter (\<lambda>t. t \<in> set b) a)"

definition overlap_ratio :: "'a list \<Rightarrow> 'a list \<Rightarrow> rat" where
  "overlap_ratio a b = (let union = length (dedup (a @ b)) in
     if union = 0 then 0 else of_nat (common a b) / of_nat union)"

definition unigramOverlap :: "jstr \<Rightarrow> jstr \<Rightarrow> rat" where
  "unigramOverlap a b = (let ta = tokenize a; tb = tokenize b in
     if ta = [] \<and> tb = [] then 1 else if ta = [] \<or> tb = [] then 0 else overlap_ratio ta tb)"

definition bigramOverlap :: "jstr \<Rightarrow> jstr \<Rightarrow> rat" where
  "bigramOverlap a b = (let ba = makeBigrams a; bb = makeBigrams b in
     if ba = [] \<or> bb = [] then 0 else overlap_ratio ba bb)"

definition tokenOverlap :: "jstr \<Rightarrow> jstr \<Rightarrow> rat" where
  "tokenOverlap a b = max (unigramOverlap a b) (bigramOverlap a b)"

definition jaccardOverlap :: "'a list \<Rightarrow> 'a list \<Rightarrow> rat" where
  "jaccardOverlap a b = (let sa = dedup a; sb = dedup b in
     if sa = [] \<or> sb = [] then 0
     else (let i = common sa sb; u = length sa + length sb - i in
       if u = 0 then 0 else of_nat i / of_nat u))"

lemma common_card: "distinct a \<Longrightarrow> common a b = card (set a \<inter> set b)"
  by (simp add: common_def distinct_card [symmetric] Int_def)

lemma length_dedup: "length (dedup xs) = card (set xs)"
  by (metis distinct_card distinct_dedup set_dedup)

lemma dedup_Nil_iff [simp]: "dedup xs = [] \<longleftrightarrow> xs = []"
  by (cases xs) auto

lemma overlap_ratio_card:
  "distinct a \<Longrightarrow> overlap_ratio a b =
    (if set a \<union> set b = {} then 0 else of_nat (card (set a \<inter> set b)) / of_nat (card (set a \<union> set b)))"
  by (simp add: overlap_ratio_def common_card length_dedup Let_def)

text \<open>The two ways of writing the Jaccard index agree.\<close>

lemma jaccard_card:
  "jaccardOverlap a b =
    (if set a = {} \<or> set b = {} then 0
     else of_nat (card (set a \<inter> set b)) / of_nat (card (set a \<union> set b)))"
proof -
  have union: "card (set a) + card (set b) - card (set a \<inter> set b) = card (set a \<union> set b)"
    by (metis List.finite_set add_diff_cancel_right' card_Un_Int)
  show ?thesis
    unfolding jaccardOverlap_def Let_def common_card [OF distinct_dedup] length_dedup set_dedup union
    by (auto simp: dedup_Nil_iff)
qed

lemma overlap_ratio_bounds: "distinct a \<Longrightarrow> 0 \<le> overlap_ratio a b \<and> overlap_ratio a b \<le> 1"
  by (auto simp: overlap_ratio_card divide_le_eq card_mono intro!: card_mono)

lemma overlap_ratio_commute: "distinct a \<Longrightarrow> distinct b \<Longrightarrow> overlap_ratio a b = overlap_ratio b a"
  by (simp add: overlap_ratio_card Int_commute Un_commute)

lemma tokenize_distinct [simp]: "distinct (tokenize a)" "distinct (makeBigrams a)"
  by (simp_all add: tokenize_def makeBigrams_def)

lemma token_overlap_bounds: "0 \<le> tokenOverlap a b \<and> tokenOverlap a b \<le> 1"
proof -
  have "0 \<le> unigramOverlap a b \<and> unigramOverlap a b \<le> 1" "0 \<le> bigramOverlap a b \<and> bigramOverlap a b \<le> 1"
    by (simp_all add: unigramOverlap_def bigramOverlap_def Let_def overlap_ratio_bounds)
  then show ?thesis by (auto simp: tokenOverlap_def le_max_iff_disj)
qed

lemma token_overlap_commute: "tokenOverlap a b = tokenOverlap b a"
  by (auto simp: tokenOverlap_def unigramOverlap_def bigramOverlap_def Let_def
      overlap_ratio_commute [OF tokenize_distinct(1) tokenize_distinct(1)]
      overlap_ratio_commute [OF tokenize_distinct(2) tokenize_distinct(2)])

lemma token_overlap_self: "tokenOverlap a a = 1"
proof -
  have "unigramOverlap a a = 1"
    by (simp add: unigramOverlap_def Let_def overlap_ratio_card)
  then show ?thesis using token_overlap_bounds [of a a] by (simp add: tokenOverlap_def)
qed

lemma jaccard_commute: "jaccardOverlap a b = jaccardOverlap b a"
  by (simp add: jaccard_card Int_commute Un_commute disj_commute)

section \<open>The full-text query\<close>

definition FTS_STOPWORDS :: "jstr list" where
  "FTS_STOPWORDS = map js
    [''the'', ''and'', ''for'', ''not'', ''with'', ''that'', ''this'', ''from'',
     ''are'', ''was'', ''were'', ''been'', ''have'', ''has'', ''had'', ''does'',
     ''did'', ''will'', ''would'', ''could'', ''should'', ''can'', ''may'',
     ''how'', ''what'', ''why'', ''where'', ''when'', ''which'', ''who'',
     ''any'', ''all'', ''some'', ''there'', ''their'', ''they'', ''them'',
     ''you'', ''your'', ''use'', ''using'', ''also'', ''but'', ''other'',
     ''its'', ''into'', ''than'', ''then'', ''just'', ''only'', ''very'',
     ''about'', ''more'', ''most'', ''over'', ''such'', ''each'', ''make'',
     ''like'', ''need'', ''want'', ''work'', ''know'', ''take'', ''come'',
     ''get'', ''let'', ''now'', ''new'', ''way'', ''our'', ''out'']"

definition query_words :: "bool \<Rightarrow> nat \<Rightarrow> jstr \<Rightarrow> jstr list" where
  "query_words filterStopwords maxTerms text =
     take maxTerms (filter (\<lambda>w. 2 < length w \<and> (\<not> filterStopwords \<or> w \<notin> set FTS_STOPWORDS))
       (plain_words text))"

definition buildFtsQuery :: "bool \<Rightarrow> nat \<Rightarrow> jstr \<Rightarrow> jstr option" where
  "buildFtsQuery filterStopwords maxTerms text = (let ws = query_words filterStopwords maxTerms text in
     if ws = [] then None else Some (join (js '' OR '') (map (\<lambda>w. [34] @ w @ [34]) ws)))"

text \<open>The terms of a query are at most \<open>maxTerms\<close> words of at least three word characters, so no quote or
  operator of the input reaches the query.\<close>

lemma query_words_safe:
  "length (query_words f n text) \<le> n \<and>
    (\<forall>w\<in>set (query_words f n text). 2 < length w \<and> list_all is_word_unit w \<and> (f \<longrightarrow> w \<notin> set FTS_STOPWORDS))"
  by (auto simp: query_words_def list_all_iff dest!: in_set_takeD intro: plain_words_units)

end
