(* ===== verification/Claims.thy ===== *)
theory Claims
  imports Regex Text_Tokens
begin

text \<open>
  Truth maintenance, the pure part of \<open>src/db/memory-repository/truth.ts\<close> with the constants of
  \<open>src/constants/domain.ts\<close>: classifying the claim a text makes, its staleness, the structural
  features two texts are compared by (subject tokens, scope objects, negations, values in context)
  and the decision whether two memories conflict.

  A \<open>Set\<close> is a list without repetitions in insertion order.  \<open>Date.parse\<close> is an argument of
  \<open>classifyClaimStaleness\<close>; ages are exact fractions of a day, and \<open>Math.round\<close> is \<open>math_round\<close>.
\<close>

section \<open>Constants\<close>

datatype claim_type = Version_Claim | Metric_Claim | Date_Claim | Volatile_Claim

definition CLAIM_KINDS :: "memory_kind list" where
  "CLAIM_KINDS = [Fact, Decision]"

definition SUBJECT_MIN_SHARED_TOKENS :: nat where
  "SUBJECT_MIN_SHARED_TOKENS = 2"

definition SUBJECT_MIN_JACCARD :: rat where
  "SUBJECT_MIN_JACCARD = 1 / 2"

definition SCOPE_CUES :: "jstr list" where
  "SCOPE_CUES = map js [''for'', ''when'', ''in'', ''on'', ''with'', ''during'', ''under'', ''if'']"

definition NEGATION_CUES :: "jstr list" where
  "NEGATION_CUES = map js
    [''not'', ''never'', ''no'', ''don'' @ [CHR 0x27] @ ''t'', ''dont'', ''avoid'', ''without'', ''fails'',
     ''cannot'', ''can'' @ [CHR 0x27] @ ''t'', ''stop'', ''refuse'']"

definition ANTONYM_PAIRS :: "(jstr \<times> jstr) list" where
  "ANTONYM_PAIRS = map (\<lambda>(a, b). (js a, js b))
    [(''enable'', ''disable''), (''works'', ''broken''), (''works'', ''fails''), (''add'', ''remove''),
     (''allow'', ''deny''), (''include'', ''exclude''), (''start'', ''stop''), (''open'', ''close''),
     (''true'', ''false''), (''on'', ''off''), (''up'', ''down''), (''prefer'', ''avoid'')]"

fun HALFLIFE_DAYS :: "claim_type \<Rightarrow> nat" where
  "HALFLIFE_DAYS Version_Claim = 90"
| "HALFLIFE_DAYS Metric_Claim = 120"
| "HALFLIFE_DAYS Date_Claim = 180"
| "HALFLIFE_DAYS Volatile_Claim = 60"

definition CONFLICT_CANDIDATE_LIMIT :: nat where
  "CONFLICT_CANDIDATE_LIMIT = 10"

text \<open>The number the code assigns to a source; higher wins.\<close>

definition SOURCE_AUTHORITY :: "memory_source \<Rightarrow> nat" where
  "SOURCE_AUTHORITY s = length SOURCE_AUTHORITY_ORDER - 1 - length (takeWhile (\<lambda>x. x \<noteq> s) SOURCE_AUTHORITY_ORDER)"

lemma source_authority_le: "SOURCE_AUTHORITY a \<le> SOURCE_AUTHORITY b \<longleftrightarrow> a \<le> b"
  by (cases a; cases b) (simp_all add: SOURCE_AUTHORITY_def SOURCE_AUTHORITY_ORDER_def
      less_memory_source_def less_eq_memory_source_def)

section \<open>Claim classification\<close>

definition VERSION_RE :: regex where
  "VERSION_RE = cats [Bnd, Opt (Unit 118), Many 1 is_digit, Unit 46, Many 1 is_digit,
     Opt (Cat (Unit 46) (Many 1 is_digit)), Bnd]"

definition DATE_RE :: regex where
  "DATE_RE = (let d = Cls is_digit in
     cats [Bnd, Alt (Cat (Unit 49) (Unit 57)) (Cat (Unit 50) (Unit 48)), d, d,
       Opt (cats [Unit 45, d, d, Unit 45, d, d]), Bnd])"

definition METRIC_RE :: regex where
  "METRIC_RE = cats [Bnd, Many 2 is_digit, Opt (Cat (Cls (\<lambda>u. u = 46 \<or> u = 47)) (Many 1 is_digit)), Bnd]"

definition cue_re :: "string list \<Rightarrow> regex" where
  "cue_re ws = cats [Bnd, alts (map lit_ci ws), Bnd]"

definition VOLATILE_RE :: regex where
  "VOLATILE_RE = cue_re [''currently'', ''right now'', ''as of'', ''latest'', ''for now'', ''temporarily'',
     ''at the moment'', ''these days'', ''nowadays'', ''at present'']"

definition COMPLETION_RE :: regex where
  "COMPLETION_RE = cue_re [''shipped'', ''completed'', ''complete'', ''committed'', ''migrated'',
     ''finalized'', ''finalised'', ''final'', ''delivered'', ''released'', ''deployed'', ''done'',
     ''resolved'', ''closed'', ''archived'']"

definition classifyClaim :: "jstr \<Rightarrow> claim_type option" where
  "classifyClaim content =
    (if re_test VERSION_RE content then Some Version_Claim
     else if re_test VOLATILE_RE content then Some Volatile_Claim
     else if re_test DATE_RE content then Some Date_Claim
     else if re_test METRIC_RE content then Some Metric_Claim
     else None)"

section \<open>Staleness\<close>

definition MS_PER_DAY :: int where
  "MS_PER_DAY = 86400000"

definition math_round :: "rat \<Rightarrow> int" where
  "math_round q = \<lfloor>q + 1 / 2\<rfloor>"

fun claim_str :: "claim_type \<Rightarrow> jstr" where
  "claim_str Version_Claim = js ''version''"
| "claim_str Metric_Claim = js ''metric''"
| "claim_str Date_Claim = js ''date''"
| "claim_str Volatile_Claim = js ''volatile''"

record staleness_info =
  si_stale :: bool
  si_reason :: jstr
  si_claim :: claim_type
  si_age :: rat

definition classifyClaimStaleness ::
  "(jstr \<Rightarrow> int option) \<Rightarrow> 'a memory_row_scheme \<Rightarrow> int \<Rightarrow> staleness_info option" where
  "classifyClaimStaleness date_parse m nowMs =
    (if r_kind m \<notin> set CLAIM_KINDS then None
     else if re_test COMPLETION_RE (r_content m) then None
     else (case classifyClaim (r_content m) of
         None \<Rightarrow> None
       | Some ct \<Rightarrow> (case date_parse (r_created_at m) of
             None \<Rightarrow> None
           | Some createdMs \<Rightarrow>
               (let age = of_int (nowMs - createdMs) / of_int MS_PER_DAY; halflife = HALFLIFE_DAYS ct in
                Some \<lparr> si_stale = (of_nat halflife < age),
                  si_reason = claim_str ct @ js '' claim, '' @ show_int (math_round age) @
                    js ''d old (verify past '' @ show_nat halflife @ js ''d)'',
                  si_claim = ct, si_age = age \<rparr>))))"

definition stalenessMarker :: "(jstr \<Rightarrow> int option) \<Rightarrow> 'a memory_row_scheme \<Rightarrow> int \<Rightarrow> jstr" where
  "stalenessMarker date_parse m nowMs = (case classifyClaimStaleness date_parse m nowMs of
      None \<Rightarrow> []
    | Some s \<Rightarrow> if si_stale s
        then js '' (verify '' @ [8212] @ js '' '' @ show_int (math_round (si_age s)) @ js ''d old '' @
          claim_str (si_claim s) @ js '')''
        else [])"

text \<open>A claim once marked stays marked as time goes on, and a finalized record is never marked.\<close>

lemma staleness_monotone:
  assumes "stalenessMarker dp m t \<noteq> []" "t \<le> t'"
  shows "stalenessMarker dp m t' \<noteq> []"
proof -
  from assms(1) obtain ct c where c: "r_kind m \<in> set CLAIM_KINDS" "\<not> re_test COMPLETION_RE (r_content m)"
      "classifyClaim (r_content m) = Some ct" "dp (r_created_at m) = Some c"
      "of_nat (HALFLIFE_DAYS ct) < (of_int (t - c) / of_int MS_PER_DAY :: rat)"
    by (auto simp: stalenessMarker_def classifyClaimStaleness_def Let_def split: if_splits option.splits)
  have "(of_int (t - c) / of_int MS_PER_DAY :: rat) \<le> of_int (t' - c) / of_int MS_PER_DAY"
    using assms(2) by (simp add: MS_PER_DAY_def divide_right_mono)
  with c(5) have "of_nat (HALFLIFE_DAYS ct) < (of_int (t' - c) / of_int MS_PER_DAY :: rat)" by linarith
  with c(1-4) show ?thesis by (simp add: stalenessMarker_def classifyClaimStaleness_def Let_def)
qed

lemma finalized_never_stale: "re_test COMPLETION_RE (r_content m) \<Longrightarrow> stalenessMarker dp m t = []"
  by (simp add: stalenessMarker_def classifyClaimStaleness_def)

section \<open>Structural features\<close>

definition STOPWORDS :: "jstr list" where
  "STOPWORDS = map js
    [''the'', ''and'', ''for'', ''with'', ''that'', ''this'', ''from'', ''into'', ''use'', ''used'', ''using'',
     ''via'', ''not'', ''but'', ''are'', ''was'', ''were'', ''has'', ''have'', ''had'', ''can'', ''will'',
     ''should'', ''must'', ''when'', ''then'', ''than'', ''over'', ''under'', ''you'', ''your'', ''its'']"

text \<open>\<open>[a-z0-9_-]\<close>\<close>

definition is_slug :: "nat \<Rightarrow> bool" where
  "is_slug u \<longleftrightarrow> is_lower u \<or> is_digit u \<or> u = 95 \<or> u = 45"

definition subjectTokens :: "jstr \<Rightarrow> jstr list" where
  "subjectTokens content =
    (let withoutValues = re_replace METRIC_RE [32] (re_replace VERSION_RE [32] content);
         words = matches_all (Cat (Cls is_lower) (Many 2 is_slug)) False (js_lower withoutValues)
     in dedup (filter (\<lambda>w. w \<notin> set STOPWORDS) words))"

definition scopeObjects :: "jstr \<Rightarrow> jstr list" where
  "scopeObjects content =
    (let tokens = pieces (\<lambda>u. \<not> is_slug u) (js_lower content) in
     dedup (map snd (filter (\<lambda>(a, b). a \<in> set SCOPE_CUES \<and> b \<notin> set STOPWORDS \<and> 3 \<le> length b)
       (adjacent tokens))))"

definition negationCount :: "jstr \<Rightarrow> nat" where
  "negationCount content =
     length (filter (\<lambda>t. t \<in> set NEGATION_CUES) (pieces (\<lambda>u. \<not> (is_lower u \<or> u = 39)) (js_lower content)))"

datatype value_type = Version_Value | Metric_Value

record value_context =
  vc_value :: jstr
  vc_type :: value_type
  vc_context :: "jstr list"

text \<open>\<open>tok.replace(/[.,;:)]+$/, '')\<close>\<close>

definition strip_trailing :: "jstr \<Rightarrow> jstr" where
  "strip_trailing t = rev (dropWhile (\<lambda>u. u \<in> {46, 44, 59, 58, 41}) (rev t))"

definition value_type_of :: "jstr \<Rightarrow> value_type option" where
  "value_type_of tok =
    (if re_full VERSION_RE tok then Some Version_Value
     else if re_full METRIC_RE tok then Some Metric_Value
     else None)"

definition context_word :: "jstr \<Rightarrow> jstr option" where
  "context_word tok = (let w = filter is_slug (js_lower tok) in
     if 3 \<le> length w \<and> w \<notin> set STOPWORDS \<and> \<not> is_digit (hd w) then Some w else None)"

text \<open>The window \<open>i - 2 .. i + 2\<close> of the token list, at every position: the tokens before it, the token itself
  and the tokens after it.\<close>

fun windows :: "'a list \<Rightarrow> 'a list \<Rightarrow> ('a list \<times> 'a \<times> 'a list) list" where
  "windows bef [] = []"
| "windows bef (t # ts) = (rev (take 2 bef), t, take 2 ts) # windows (t # bef) ts"

definition context_of :: "jstr list \<Rightarrow> jstr list" where
  "context_of near = dedup (map the (filter (\<lambda>w. w \<noteq> None) (map context_word near)))"

definition valueContexts :: "jstr \<Rightarrow> value_context list" where
  "valueContexts content =
     concat (map (\<lambda>(bef, t, aft). let tok = strip_trailing t in
       case value_type_of tok of
         None \<Rightarrow> []
       | Some ty \<Rightarrow> [\<lparr> vc_value = tok, vc_type = ty, vc_context = context_of (bef @ aft) \<rparr>])
       (windows [] (pieces is_space content)))"

definition UNIT_WORDS :: "jstr list" where
  "UNIT_WORDS = map js
    [''seconds'', ''second'', ''secs'', ''sec'', ''milliseconds'', ''millisecond'', ''millis'',
     ''minutes'', ''minute'', ''mins'', ''hours'', ''hour'', ''days'', ''day'', ''weeks'', ''months'',
     ''bytes'', ''byte'', ''kilobytes'', ''megabytes'', ''gigabytes'', ''kib'', ''mib'', ''gib'',
     ''percent'', ''pct'']"

definition unitOf :: "jstr list \<Rightarrow> jstr option" where
  "unitOf context = find (\<lambda>c. c \<in> set UNIT_WORDS) context"

text \<open>The body of the two loops of \<open>valueDrift\<close>: whether this pair is answered.\<close>

definition drifting :: "value_context \<Rightarrow> value_context \<Rightarrow> bool" where
  "drifting x y \<longleftrightarrow> vc_type x = vc_type y \<and> vc_value x \<noteq> vc_value y \<and>
     list_ex (\<lambda>c. c \<notin> set UNIT_WORDS \<and> c \<in> set (vc_context y)) (vc_context x) \<and>
     (case (unitOf (vc_context x), unitOf (vc_context y)) of (Some ux, Some uy) \<Rightarrow> ux = uy | _ \<Rightarrow> True)"

definition valueDrift :: "jstr \<Rightarrow> jstr \<Rightarrow> value_type option" where
  "valueDrift a b = map_option (\<lambda>(x, y). vc_type x)
     (find (\<lambda>(x, y). drifting x y) (List.product (valueContexts a) (valueContexts b)))"

definition valuesDiverge :: "jstr \<Rightarrow> jstr \<Rightarrow> bool" where
  "valuesDiverge a b \<longleftrightarrow> valueDrift a b \<noteq> None"

definition antonymFlip :: "jstr list \<Rightarrow> jstr list \<Rightarrow> bool" where
  "antonymFlip aTokens bTokens = list_ex (\<lambda>(x, y).
     x \<in> set aTokens \<and> y \<in> set bTokens \<or> y \<in> set aTokens \<and> x \<in> set bTokens) ANTONYM_PAIRS"

definition contentsOppose :: "jstr \<Rightarrow> jstr \<Rightarrow> bool" where
  "contentsOppose a b =
    (if valuesDiverge a b then True
     else if (negationCount a + negationCount b) mod 2 = 1 then True
     else antonymFlip (subjectTokens a) (subjectTokens b))"

section \<open>Conflicts\<close>

datatype conflict_type = Supersession | Contradiction

record conflict_result =
  cr_type :: conflict_type
  cr_signal :: jstr
  cr_loser :: jstr
  cr_winner :: jstr

definition flag_both :: "'a memory_row_scheme \<Rightarrow> 'a memory_row_scheme \<Rightarrow> jstr \<Rightarrow> conflict_result" where
  "flag_both existing incoming sig =
     \<lparr> cr_type = Contradiction, cr_signal = sig, cr_loser = r_id existing, cr_winner = r_id incoming \<rparr>"

definition scopes_disjoint :: "jstr \<Rightarrow> jstr \<Rightarrow> bool" where
  "scopes_disjoint a b \<longleftrightarrow> (let sa = scopeObjects a; sb = scopeObjects b in
     sa \<noteq> [] \<and> sb \<noteq> [] \<and> \<not> list_ex (\<lambda>s. s \<in> set sb) sa)"

definition detectConflict :: "'a memory_row_scheme \<Rightarrow> 'a memory_row_scheme \<Rightarrow> conflict_result option" where
  "detectConflict existing incoming =
    (let a = r_content existing; b = r_content incoming; aSubj = subjectTokens a; bSubj = subjectTokens b in
     if common aSubj bSubj < SUBJECT_MIN_SHARED_TOKENS then None
     else if jaccardOverlap aSubj bSubj < SUBJECT_MIN_JACCARD then None
     else if scopes_disjoint a b then None
     else if valueDrift a b = Some Version_Value then
       (if SOURCE_AUTHORITY (r_source existing) \<le> SOURCE_AUTHORITY (r_source incoming)
        then Some \<lparr> cr_type = Supersession, cr_signal = js ''version drift, newer value supersedes'',
          cr_loser = r_id existing, cr_winner = r_id incoming \<rparr>
        else Some (flag_both existing incoming
          (js ''version drift, lower-authority '' @ [8212] @ js '' flag for review'')))
     else if valueDrift a b = Some Metric_Value then
       Some (flag_both existing incoming (js ''metric drift '' @ [8212] @ js '' flag both for review''))
     else if (negationCount a + negationCount b) mod 2 = 1 then
       Some (flag_both existing incoming (js ''negation-parity flip''))
     else if antonymFlip aSubj bSubj then Some (flag_both existing incoming (js ''antonym flip''))
     else None)"

section \<open>Facts\<close>

lemma drifting_commute: "drifting x y = drifting y x"
  by (auto simp: drifting_def list_ex_iff split: option.splits)

lemma valueDrift_None:
  "valueDrift a b = None \<longleftrightarrow> (\<forall>x\<in>set (valueContexts a). \<forall>y\<in>set (valueContexts b). \<not> drifting x y)"
  by (auto simp: valueDrift_def find_None_iff)

lemma find_SomeD: "find P xs = Some x \<Longrightarrow> P x \<and> x \<in> set xs"
  by (induction xs) (auto split: if_splits)

lemma valueDrift_Some:
  assumes "valueDrift a b = Some ty"
  obtains x y where "x \<in> set (valueContexts a)" "y \<in> set (valueContexts b)" "drifting x y" "vc_type x = ty"
proof -
  from assms obtain x y where f: "find (\<lambda>(x, y). drifting x y) (List.product (valueContexts a) (valueContexts b)) = Some (x, y)"
    and ty: "vc_type x = ty"
    by (auto simp: valueDrift_def)
  from find_SomeD [OF f] ty that show ?thesis by auto
qed

lemma values_diverge_commute: "valuesDiverge a b = valuesDiverge b a"
  unfolding valuesDiverge_def not_None_eq [symmetric] valueDrift_None using drifting_commute by blast

lemma antonym_flip_commute: "antonymFlip a b = antonymFlip b a"
  by (auto simp: antonymFlip_def list_ex_iff)

text \<open>Opposition does not depend on which text was written first.\<close>

lemma contents_oppose_commute: "contentsOppose a b = contentsOppose b a"
  by (auto simp: contentsOppose_def values_diverge_commute [of a b] antonym_flip_commute [of "subjectTokens a"]
      add.commute)

lemma value_context_shape:
  assumes "x \<in> set (valueContexts a)"
  shows "value_type_of (vc_value x) = Some (vc_type x)"
  using assms by (auto simp: valueContexts_def Let_def split: option.splits)

lemma version_value: "value_type_of tok = Some Version_Value \<longleftrightarrow> re_full VERSION_RE tok"
  by (simp add: value_type_of_def)

lemma subject_tokens_distinct [simp]: "distinct (subjectTokens s)"
  by (simp add: subjectTokens_def Let_def)

text \<open>A supersession names the older memory as the loser, never one of higher authority, and rests on two
  different versions of something both texts name, within compatible scopes.\<close>

lemma detectConflict_supersession:
  assumes "detectConflict e i = Some c" "cr_type c = Supersession"
  shows "cr_loser c = r_id e" "cr_winner c = r_id i" "r_source e \<le> r_source i"
    and "2 \<le> card (set (subjectTokens (r_content e)) \<inter> set (subjectTokens (r_content i)))"
    and "\<not> scopes_disjoint (r_content e) (r_content i)"
    and "valueDrift (r_content e) (r_content i) = Some Version_Value"
  using assms
  by (auto simp: detectConflict_def Let_def flag_both_def source_authority_le SUBJECT_MIN_SHARED_TOKENS_def
      common_card split: if_splits)

lemma detectConflict_ids:
  assumes "detectConflict e i = Some c"
  shows "cr_loser c = r_id e" "cr_winner c = r_id i"
  using assms by (auto simp: detectConflict_def Let_def flag_both_def split: if_splits)

text \<open>What a version drift rests on.\<close>

lemma version_drift_versions:
  assumes "valueDrift a b = Some Version_Value"
  shows "\<exists>x\<in>set (valueContexts a). \<exists>y\<in>set (valueContexts b).
    re_full VERSION_RE (vc_value x) \<and> re_full VERSION_RE (vc_value y) \<and> vc_value x \<noteq> vc_value y \<and>
    (\<exists>w. w \<in> set (vc_context x) \<and> w \<in> set (vc_context y) \<and> w \<notin> set UNIT_WORDS)"
proof -
  obtain x y where x: "x \<in> set (valueContexts a)" and y: "y \<in> set (valueContexts b)"
    and d: "drifting x y" and ty: "vc_type x = Version_Value"
    using valueDrift_Some [OF assms] by metis
  from d ty have "vc_type y = Version_Value" by (simp add: drifting_def)
  with value_context_shape [OF x] value_context_shape [OF y] ty
  have "re_full VERSION_RE (vc_value x)" "re_full VERSION_RE (vc_value y)" by (simp_all add: version_value)
  moreover from d have "vc_value x \<noteq> vc_value y"
      "\<exists>w. w \<in> set (vc_context x) \<and> w \<in> set (vc_context y) \<and> w \<notin> set UNIT_WORDS"
    by (auto simp: drifting_def list_ex_iff)
  ultimately show ?thesis using x y by blast
qed

text \<open>Two texts that name the same two versions of one thing already diverge, from each other and each
  from itself: the code asks for some pair of different values, not for no shared value.\<close>

lemma release_contexts:
  "valueContexts (js ''node 18.1, node 20.2'') =
    [\<lparr> vc_value = js ''18.1'', vc_type = Version_Value, vc_context = [js ''node''] \<rparr>,
     \<lparr> vc_value = js ''20.2'', vc_type = Version_Value, vc_context = [js ''node''] \<rparr>]"
proof -
  have tokens: "pieces is_space (js ''node 18.1, node 20.2'') = map js [''node'', ''18.1,'', ''node'', ''20.2'']"
    by (simp add: pieces_def is_space_def js_def)
  have types: "value_type_of (js ''18.1'') = Some Version_Value" "value_type_of (js ''20.2'') = Some Version_Value"
      "value_type_of (js ''node'') = None"
    by (simp_all add: value_type_of_def VERSION_RE_def METRIC_RE_def re_eval)
  have strip: "strip_trailing (js ''18.1,'') = js ''18.1''" "strip_trailing (js ''20.2'') = js ''20.2''"
      "strip_trailing (js ''node'') = js ''node''"
    by (simp_all add: strip_trailing_def js_def)
  have words: "context_word (js ''node'') = Some (js ''node'')" "context_word (js ''18.1,'') = None"
      "context_word (js ''20.2'') = None"
    by (simp_all add: context_word_def js_lower_def Let_def is_slug_def STOPWORDS_def re_eval)
  show ?thesis by (simp add: valueContexts_def tokens types strip words context_of_def Let_def)
qed

lemma repeated_values_diverge:
  "valuesDiverge (js ''node 18.1, node 20.2'') (js ''node 18.1, node 20.2'')"
  by (simp add: valuesDiverge_def valueDrift_def release_contexts drifting_def unitOf_def UNIT_WORDS_def)

text \<open>Only the first version in a text is taken out of it: a later one stays behind as a subject token.\<close>

lemma second_version_is_subject:
  "subjectTokens (js ''pin v12.3 and v45.6'') = map js [''pin'', ''v45'']"
  by code_simp

end
