(* ===== verification/Truth_Apply.thy ===== *)
theory Truth_Apply
  imports Claims Journal
begin

text \<open>
  Truth maintenance on the store: \<open>applyConflictDetection\<close>, \<open>supersededLoserIds\<close> and
  \<open>getContradictions\<close> of \<open>src/db/memory-repository/truth.ts\<close>.

  The full-text index is a parameter: \<open>fts query rows\<close> stands for the rows that
  \<open>memories_fts MATCH query\<close> joins, in the order SQLite returns them, \<open>None\<close> for a statement that
  throws.  The only thing a theorem assumes of it is that it answers rows of the table (\<open>fts_ok\<close>).
  \<open>None\<close> as a result is a thrown \<open>SyntaxError\<close> of a JSON column.
\<close>

type_synonym fts_index = "jstr \<Rightarrow> memory_row list \<Rightarrow> memory_row list option"

definition fts_ok :: "fts_index \<Rightarrow> bool" where
  "fts_ok fts \<longleftrightarrow> (\<forall>q rows ms. fts q rows = Some ms \<longrightarrow> set ms \<subseteq> set rows)"

section \<open>Edges\<close>

definition edge_key :: "edge_row \<Rightarrow> jstr \<times> jstr \<times> jstr" where
  "edge_key e = (ed_source e, ed_target e, ed_relation e)"

text \<open>\<open>INSERT OR IGNORE INTO memory_edges\<close>.\<close>

definition add_edge :: "edge_row \<Rightarrow> db \<Rightarrow> db" where
  "add_edge e d = (if list_ex (\<lambda>x. edge_key x = edge_key e) (edges d) then d
     else d\<lparr> edges := edges d @ [e], changes := Suc (changes d) \<rparr>)"

definition contradicts :: jstr where
  "contradicts = js ''contradicts''"

section \<open>Applying a conflict\<close>

record conflict_application =
  ca_superseded :: "jstr option"
  ca_contradicts :: "jstr option"
  ca_signal :: "jstr option"

definition no_conflict :: conflict_application where
  "no_conflict = \<lparr> ca_superseded = None, ca_contradicts = None, ca_signal = None \<rparr>"

text \<open>The transaction that retires the loser with its successor.\<close>

definition retire_loser :: "host \<Rightarrow> bool \<Rightarrow> conflict_result \<Rightarrow> memory \<Rightarrow> db \<Rightarrow> db" where
  "retire_loser h suppressed c loser d =
    (let rev0 = currentRevision (cr_loser c) d;
         d1 = exec_update h (has_id (cr_loser c))
           (\<lambda>r. r\<lparr> r_superseded_by := Some (cr_winner c), r_superseded_at := Some (iso_now h) \<rparr>) d
     in journalMutation h suppressed
       \<lparr> ji_memory = cr_loser c, ji_project = r_project loser, ji_kind = r_kind loser, ji_op = J_Tombstone,
         ji_revision = rev0, ji_cause = Some (JOURNAL_CAUSE_SUPERSEDED_PREFIX @ cr_winner c) \<rparr> d1)"

definition apply_conflict ::
  "host \<Rightarrow> bool \<Rightarrow> conflict_result \<Rightarrow> memory \<Rightarrow> memory \<Rightarrow> db \<Rightarrow> conflict_application \<times> db" where
  "apply_conflict h suppressed c existing incoming d =
    (if cr_type c = Supersession \<and> cr_loser c \<noteq> [] then
       (\<lparr> ca_superseded = Some (cr_loser c), ca_contradicts = None, ca_signal = Some (cr_signal c) \<rparr>,
        retire_loser h suppressed c (if cr_loser c = r_id existing then existing else incoming) d)
     else
       (\<lparr> ca_superseded = None, ca_contradicts = Some (r_id existing), ca_signal = Some (cr_signal c) \<rparr>,
        add_edge \<lparr> ed_source = cr_loser c, ed_target = cr_winner c, ed_relation = contradicts,
          ed_weight = Fin 1, ed_at = iso_now h \<rparr> d))"

fun scan_conflicts ::
  "host \<Rightarrow> bool \<Rightarrow> memory \<Rightarrow> memory_row list \<Rightarrow> db \<Rightarrow> (conflict_application \<times> db) option" where
  "scan_conflicts h suppressed incoming [] d = Some (no_conflict, d)"
| "scan_conflicts h suppressed incoming (row # rest) d = (case rowToMemory h row of
      None \<Rightarrow> None
    | Some existing \<Rightarrow> (case detectConflict existing incoming of
          None \<Rightarrow> scan_conflicts h suppressed incoming rest d
        | Some c \<Rightarrow> Some (apply_conflict h suppressed c existing incoming d)))"

text \<open>\<open>invalidated = 0 AND superseded_by IS NULL AND kind = ? AND\<close> the exact scope.\<close>

definition candidate :: "memory_kind \<Rightarrow> jstr option \<Rightarrow> memory_row \<Rightarrow> bool" where
  "candidate kind project r \<longleftrightarrow> active r \<and> r_kind r = kind \<and> r_project r = project"

definition applyConflictDetection ::
  "host \<Rightarrow> fts_index \<Rightarrow> bool \<Rightarrow> memory \<Rightarrow> db \<Rightarrow> (conflict_application \<times> db) option" where
  "applyConflictDetection h fts suppressed incoming d =
    (if r_kind incoming \<notin> set CLAIM_KINDS then Some (no_conflict, d)
     else (case buildFtsQuery True 8 (r_content incoming) of
         None \<Rightarrow> Some (no_conflict, d)
       | Some q \<Rightarrow> (case fts q (memories d) of
             None \<Rightarrow> Some (no_conflict, d)
           | Some hits \<Rightarrow> scan_conflicts h suppressed incoming
               (take CONFLICT_CANDIDATE_LIMIT (filter (\<lambda>r. candidate (r_kind incoming) (r_project incoming) r \<and>
                  r_id r \<noteq> r_id incoming) hits)) d)))"

section \<open>Queries\<close>

definition supersededLoserIds :: "jstr list \<Rightarrow> db \<Rightarrow> jstr list" where
  "supersededLoserIds ids d =
    (if ids = [] then []
     else map r_id (filter (\<lambda>r. r_id r \<in> set ids \<and> r_superseded_by r \<noteq> None) (memories d)))"

text \<open>The pairs of the join, by id; then both rows are read again and mapped.\<close>

definition contradiction_ids :: "jstr option \<Rightarrow> db \<Rightarrow> (jstr \<times> jstr) list" where
  "contradiction_ids project d =
    map (\<lambda>e. (ed_source e, ed_target e)) (filter (\<lambda>e. ed_relation e = contradicts \<and>
      (case (row_of d (ed_source e), row_of d (ed_target e)) of
         (Some ls, Some ws) \<Rightarrow> active ls \<and> active ws \<and> r_project ls = project
       | _ \<Rightarrow> False)) (edges d))"

fun contradiction_pairs :: "host \<Rightarrow> db \<Rightarrow> (jstr \<times> jstr) list \<Rightarrow> (memory \<times> memory) list option" where
  "contradiction_pairs h d [] = Some []"
| "contradiction_pairs h d ((l, w) # rest) = (case (row_of d l, row_of d w) of
      (Some lr, Some wr) \<Rightarrow> (case (rowToMemory h lr, rowToMemory h wr) of
          (Some lm, Some wm) \<Rightarrow> map_option ((#) (lm, wm)) (contradiction_pairs h d rest)
        | _ \<Rightarrow> None)
    | _ \<Rightarrow> contradiction_pairs h d rest)"

definition getContradictions :: "host \<Rightarrow> jstr option \<Rightarrow> db \<Rightarrow> (memory \<times> memory) list option" where
  "getContradictions h project d = contradiction_pairs h d (contradiction_ids project d)"

section \<open>Facts\<close>

lemma add_edge_frame [simp]:
  "memories (add_edge e d) = memories d" "entity_map (add_edge e d) = entity_map d"
  "journal (add_edge e d) = journal d" "next_entry (add_edge e d) = next_entry d"
  "sync_state (add_edge e d) = sync_state d" "conflict_sets (add_edge e d) = conflict_sets d"
  "contributors (add_edge e d) = contributors d" "alias_log (add_edge e d) = alias_log d"
  "files (add_edge e d) = files d" "tombstones (add_edge e d) = tombstones d"
  "versions (add_edge e d) = versions d" "uuids (add_edge e d) = uuids d"
  by (simp_all add: add_edge_def)

lemma scan_conflicts_cases:
  assumes "scan_conflicts h s incoming rows d = Some (a, d')"
  shows "a = no_conflict \<and> d' = d \<or>
    (\<exists>row existing c. row \<in> set rows \<and> rowToMemory h row = Some existing \<and>
      detectConflict existing incoming = Some c \<and> (a, d') = apply_conflict h s c existing incoming d)"
  using assms
proof (induction rows)
  case (Cons row rows)
  then show ?case by (auto split: option.splits)
qed simp

lemma row_fields_kept:
  assumes "rowToMemory h row = Some m"
  shows "r_id m = r_id row" "r_content m = r_content row" "r_kind m = r_kind row" "r_project m = r_project row"
    "r_source m = r_source row" "r_revision m = r_revision row" "r_confidence m = r_confidence row"
  using assms by (auto simp: rowToMemory_def memory_row.defs memory.defs split: option.splits)

text \<open>The outcome of conflict detection: nothing, one edge, or the retirement of one candidate of the same
  kind and scope that the new memory's source outranks or equals.\<close>

inductive conflict_effect :: "host \<Rightarrow> bool \<Rightarrow> memory \<Rightarrow> db \<Rightarrow> conflict_application \<Rightarrow> db \<Rightarrow> bool"
  for h suppressed incoming d where
  nothing: "conflict_effect h suppressed incoming d no_conflict d"
| flagged: "ca_superseded a = None \<Longrightarrow> conflict_effect h suppressed incoming d a (add_edge e d)"
| retired: "row \<in> set (memories d) \<Longrightarrow> candidate (r_kind incoming) (r_project incoming) row \<Longrightarrow>
    r_id row \<noteq> r_id incoming \<Longrightarrow> r_source row \<le> r_source incoming \<Longrightarrow> rowToMemory h row = Some existing \<Longrightarrow>
    valueDrift (r_content row) (r_content incoming) = Some Version_Value \<Longrightarrow>
    \<not> scopes_disjoint (r_content row) (r_content incoming) \<Longrightarrow>
    cr_loser c = r_id row \<Longrightarrow> cr_winner c = r_id incoming \<Longrightarrow> ca_superseded a = Some (r_id row) \<Longrightarrow> r_id row \<noteq> [] \<Longrightarrow>
    conflict_effect h suppressed incoming d a (retire_loser h suppressed c existing d)"

lemma conflict_detection_effect:
  assumes fts: "fts_ok fts" and run: "applyConflictDetection h fts suppressed incoming d = Some (a, d')"
  shows "conflict_effect h suppressed incoming d a d'"
proof -
  let ?pick = "\<lambda>hits. take CONFLICT_CANDIDATE_LIMIT (filter (\<lambda>r. candidate (r_kind incoming) (r_project incoming) r \<and>
                  r_id r \<noteq> r_id incoming) hits)"
  from run consider "a = no_conflict" "d' = d"
    | q hits where "fts q (memories d) = Some hits" "scan_conflicts h suppressed incoming (?pick hits) d = Some (a, d')"
    by (auto simp: applyConflictDetection_def split: if_splits option.splits)
  then show ?thesis
  proof cases
    case 1
    then show ?thesis by (simp add: conflict_effect.nothing)
  next
    case 2
    from scan_conflicts_cases [OF 2(2)] show ?thesis
    proof (elim disjE exE conjE)
      assume "a = no_conflict" "d' = d"
      then show ?thesis by (simp add: conflict_effect.nothing)
    next
      fix row existing c
      assume row: "row \<in> set (?pick hits)" and m: "rowToMemory h row = Some existing"
        and c: "detectConflict existing incoming = Some c"
        and e: "(a, d') = apply_conflict h suppressed c existing incoming d"
      note ids = detectConflict_ids [OF c]
      from row have cand: "candidate (r_kind incoming) (r_project incoming) row" "r_id row \<noteq> r_id incoming"
        and hit: "row \<in> set hits"
        by (auto dest: in_set_takeD)
      have mem: "row \<in> set (memories d)" using fts 2(1) hit by (auto simp: fts_ok_def)
      show ?thesis
      proof (cases "cr_type c = Supersession \<and> cr_loser c \<noteq> []")
        case True
        note sup = detectConflict_supersession [OF c, unfolded row_fields_kept [OF m]]
        from True e ids have "d' = retire_loser h suppressed c existing d" "ca_superseded a = Some (r_id row)"
          by (auto simp: apply_conflict_def row_fields_kept [OF m])
        with True mem cand m sup show ?thesis by (auto intro!: conflict_effect.retired [where row = row])
      next
        case False
        with e show ?thesis by (auto simp: apply_conflict_def intro: conflict_effect.flagged)
      qed
    qed
  qed
qed

lemma retire_loser_frame [simp]:
  "entity_map (retire_loser h s c l d) = entity_map d" "files (retire_loser h s c l d) = files d"
  "tombstones (retire_loser h s c l d) = tombstones d" "versions (retire_loser h s c l d) = versions d"
  "edges (retire_loser h s c l d) = edges d" "sync_state (retire_loser h s c l d) = sync_state d"
  "uuids (retire_loser h s c l d) = uuids d"
  "memories (retire_loser h s c l d) = map (\<lambda>r. if r_id r = cr_loser c
     then revision_trigger h (r\<lparr> r_superseded_by := Some (cr_winner c), r_superseded_at := Some (iso_now h) \<rparr>)
     else r) (memories d)"
  by (simp_all add: retire_loser_def Let_def t_update_def)

end
