(* ===== verification/Writes.thy ===== *)
theory Writes
  imports Truth_Apply Materializer Sync_Validator
begin

text \<open>
  The write gateway, \<open>src/db/memory-repository/writes.ts\<close>: finding the row a new memory would merge into,
  \<open>create\<close> and \<open>storeMemory\<close> with their merge rules, the versioned \<open>update\<close>, the retraction of a row
  with its tombstone and \<open>promote\<close>.

  \<^item> \<open>search_env\<close> holds what lies outside: the full-text index, the key of the active embedding model
    and the cosine of two stored vectors (floating-point arithmetic).
  \<^item> Confidences are doubles: every constant and every sum goes through the host's rounding \<open>fl\<close>.
  \<^item> A result in \<open>write_error + _\<close> is \<open>Inl\<close> when the code throws; the transaction is rolled back then, so
    no store is returned.  An \<open>option\<close> result is \<open>None\<close> for a thrown \<open>SyntaxError\<close> of a JSON column.
  \<^item> A spread \<open>[...v]\<close> of a parsed column takes the elements of an array and the characters of a string
    and throws on anything else; \<open>new Set\<close> compares strings and numbers by value and objects by identity.
\<close>

record search_env =
  se_fts :: fts_index
  se_model :: jstr
  se_cosine :: "nat list \<Rightarrow> nat list \<Rightarrow> rat"

datatype write_error = Rule_Write | Thrown | Constraint_Failed

record create_result =
  cw_id :: jstr
  cw_deduplicated :: bool
  cw_conflict :: conflict_application

section \<open>Constants\<close>

datatype confidence_const = LEARNED | CORRECTION | USER_CORRECTION | AUTO_DETECTED | BOOST_INCREMENT
  | DEDUP_REINFORCEMENT_CEILING | USER_PROFILE_CONFIDENCE | REFERENCE_CONFIDENCE
  | DELIBERATE | STRENGTHENED_DECISION_FLOOR | STRENGTHEN_INCREMENT | WEAKEN_FACTOR | DELETE_THRESHOLD
  | PREDICTION_VERIFIED_BOOST | CONFIRMED_CONFIDENCE

primrec confidence_literal :: "confidence_const \<Rightarrow> rat" where
  "confidence_literal LEARNED = 65 / 100"
| "confidence_literal CORRECTION = 8 / 10"
| "confidence_literal USER_CORRECTION = 9 / 10"
| "confidence_literal AUTO_DETECTED = 55 / 100"
| "confidence_literal BOOST_INCREMENT = 5 / 100"
| "confidence_literal DEDUP_REINFORCEMENT_CEILING = 8 / 10"
| "confidence_literal USER_PROFILE_CONFIDENCE = 75 / 100"
| "confidence_literal REFERENCE_CONFIDENCE = 75 / 100"
| "confidence_literal DELIBERATE = 7 / 10"
| "confidence_literal STRENGTHENED_DECISION_FLOOR = 75 / 100"
| "confidence_literal STRENGTHEN_INCREMENT = 1 / 10"
| "confidence_literal WEAKEN_FACTOR = 85 / 100"
| "confidence_literal DELETE_THRESHOLD = 1 / 10"
| "confidence_literal PREDICTION_VERIFIED_BOOST = 8 / 100"
| "confidence_literal CONFIRMED_CONFIDENCE = 7 / 10"

definition CONFIDENCE :: "host \<Rightarrow> confidence_const \<Rightarrow> rat" where
  "CONFIDENCE h c = fl h (confidence_literal c)"

definition SIMILARITY_THRESHOLD :: rat where
  "SIMILARITY_THRESHOLD = 1 / 2"

definition CLIENT_CLAUDE :: jstr where
  "CLIENT_CLAUDE = js ''claude''"

definition defaultConfidence :: "host \<Rightarrow> memory_kind \<Rightarrow> rat" where
  "defaultConfidence h kind =
    (if kind = Correction then CONFIDENCE h CORRECTION
     else if kind = User_Profile then CONFIDENCE h USER_PROFILE_CONFIDENCE
     else if kind = Reference then CONFIDENCE h REFERENCE_CONFIDENCE
     else CONFIDENCE h LEARNED)"

definition GATEWAY_DEFAULT_CONFIDENCE :: "host \<Rightarrow> memory_kind \<Rightarrow> rat option" where
  "GATEWAY_DEFAULT_CONFIDENCE h kind =
    (if kind = Decision then Some (CONFIDENCE h LEARNED)
     else if kind = Pitfall then Some (CONFIDENCE h AUTO_DETECTED)
     else None)"

section \<open>JavaScript values\<close>

definition truthy :: "json \<Rightarrow> bool" where
  "truthy v = (case v of JNull \<Rightarrow> False | JBool b \<Rightarrow> b | JNum n \<Rightarrow> n \<noteq> Fin 0 \<and> n \<noteq> NaN
     | JStr s \<Rightarrow> s \<noteq> [] | _ \<Rightarrow> True)"

definition spread :: "json \<Rightarrow> json list option" where
  "spread v = (case v of JArr xs \<Rightarrow> Some xs | JStr s \<Rightarrow> Some (map JStr (code_points s)) | _ \<Rightarrow> None)"

definition js_length :: "json \<Rightarrow> nat" where
  "js_length v = (case v of JArr xs \<Rightarrow> length xs | JStr s \<Rightarrow> length s | _ \<Rightarrow> 0)"

fun same_value :: "json \<Rightarrow> json \<Rightarrow> bool" where
  "same_value (JArr _) _ = False"
| "same_value (JObj _) _ = False"
| "same_value a b = (a = b)"

text \<open>\<open>[...new Set(xs)]\<close>\<close>

fun set_of_values :: "json list \<Rightarrow> json list" where
  "set_of_values [] = []"
| "set_of_values (x # xs) = x # filter (\<lambda>y. \<not> same_value x y) (set_of_values xs)"

text \<open>\<open>[...new Set([...existing.tags, ...tags])].slice(0, Math.max(MAX_TAGS, existing.tags.length))\<close>\<close>

definition merge_tags :: "json \<Rightarrow> jstr list \<Rightarrow> json option" where
  "merge_tags existing tags = map_option (\<lambda>xs.
     JArr (take (max MAX_TAGS (js_length existing)) (set_of_values (xs @ map JStr tags)))) (spread existing)"

type_synonym context_input = "(jstr \<times> json) list option"

definition clean_text :: "host \<Rightarrow> jstr \<Rightarrow> jstr" where
  "clean_text h s = scrub h (sanitize s)"

definition sanitizeContext :: "host \<Rightarrow> context_input \<Rightarrow> context_input" where
  "sanitizeContext h ctx = map_option (map (\<lambda>(k, v).
     (k, if k = js ''why'' \<or> k = js ''how_to_apply''
         then (case v of JStr s \<Rightarrow> JStr (clean_text h s) | _ \<Rightarrow> v) else v))) ctx"

definition context_json :: "host \<Rightarrow> context_input \<Rightarrow> jstr option" where
  "context_json h ctx = map_option (\<lambda>kvs. stringify (nums h) (JObj kvs)) (sanitizeContext h ctx)"

section \<open>Finding the row to merge into\<close>

definition embedding_match :: "host \<Rightarrow> search_env \<Rightarrow> nat list option \<Rightarrow> memory_row \<Rightarrow> bool" where
  "embedding_match h se inputEmbedding row = (case (inputEmbedding, r_embedding row) of
      (Some a, Some b) \<Rightarrow> r_embedding_model row = Some (se_model se) \<and> fl h (85 / 100) \<le> se_cosine se a b
    | _ \<Rightarrow> False)"

fun scan_similar :: "host \<Rightarrow> search_env \<Rightarrow> jstr \<Rightarrow> nat list option \<Rightarrow> memory_row list \<Rightarrow> memory option option" where
  "scan_similar h se content emb [] = Some None"
| "scan_similar h se content emb (row # rest) =
    (if contentsOppose content (r_content row) then scan_similar h se content emb rest
     else if SIMILARITY_THRESHOLD \<le> tokenOverlap content (r_content row) then map_option Some (rowToMemory h row)
     else if embedding_match h se emb row then map_option Some (rowToMemory h row)
     else scan_similar h se content emb rest)"

definition near_match ::
  "host \<Rightarrow> search_env \<Rightarrow> jstr \<Rightarrow> jstr option \<Rightarrow> memory_kind \<Rightarrow> nat list option \<Rightarrow> db \<Rightarrow> memory option option" where
  "near_match h se content project kind emb d = (case buildFtsQuery True 8 content of
      None \<Rightarrow> Some None
    | Some q \<Rightarrow> (case se_fts se q (memories d) of
          None \<Rightarrow> Some None
        | Some hits \<Rightarrow> scan_similar h se content emb (take 10 (filter (candidate kind project) hits))))"

definition findSimilar ::
  "host \<Rightarrow> search_env \<Rightarrow> jstr \<Rightarrow> jstr option \<Rightarrow> memory_kind \<Rightarrow> nat list option \<Rightarrow> db \<Rightarrow> memory option option" where
  "findSimilar h se content project kind emb d =
    (if kind = Rule then Some None
     else (case find (\<lambda>r. candidate kind project r \<and> r_content r = content) (memories d) of
         None \<Rightarrow> near_match h se content project kind emb d
       | Some exact \<Rightarrow> (case rowToMemory h exact of
             Some m \<Rightarrow> Some (Some m)
           | None \<Rightarrow> near_match h se content project kind emb d)))"

definition probeSimilar ::
  "host \<Rightarrow> search_env \<Rightarrow> jstr \<Rightarrow> jstr option \<Rightarrow> memory_kind \<Rightarrow> db \<Rightarrow> memory option option" where
  "probeSimilar h se content project kind d = findSimilar h se (clean_text h content) project kind None d"

section \<open>Creating\<close>

record create_input =
  ci_content :: jstr
  ci_kind :: memory_kind
  ci_tags :: "jstr list option"
  ci_project :: "jstr option"
  ci_source :: "memory_source option"
  ci_client :: "jstr option"
  ci_confidence :: "number option"
  ci_expires :: "jstr option"
  ci_fingerprint :: "json option"
  ci_context :: context_input
  ci_embedding :: "nat list option"
  ci_anchor :: "jstr option"
  ci_created :: "jstr option"
  ci_skip_dedup :: bool
  ci_skip_conflicts :: bool
  ci_suppressed :: bool

definition detectConflicts ::
  "host \<Rightarrow> search_env \<Rightarrow> bool \<Rightarrow> jstr \<Rightarrow> db \<Rightarrow> conflict_application \<times> db" where
  "detectConflicts h se suppressed i d = (case findById h i (memories d) of
      Some (Some m) \<Rightarrow> (case applyConflictDetection h (se_fts se) suppressed m d of
          Some r \<Rightarrow> r
        | None \<Rightarrow> (no_conflict, d))
    | _ \<Rightarrow> (no_conflict, d))"

definition boosted :: "host \<Rightarrow> rat \<Rightarrow> rat" where
  "boosted h c = min (fl h (c + CONFIDENCE h BOOST_INCREMENT)) (max (CONFIDENCE h DEDUP_REINFORCEMENT_CEILING) c)"

definition longer :: "jstr \<Rightarrow> jstr \<Rightarrow> jstr" where
  "longer content existing = (if length existing < length content then content else existing)"

definition journal_upsert :: "host \<Rightarrow> bool \<Rightarrow> jstr \<Rightarrow> jstr option \<Rightarrow> memory_kind \<Rightarrow> db \<Rightarrow> db" where
  "journal_upsert h suppressed i project kind d = journalMutation h suppressed
     \<lparr> ji_memory = i, ji_project = project, ji_kind = kind, ji_op = J_Upsert,
       ji_revision = currentRevision i d, ji_cause = None \<rparr> d"

definition create_merged :: "host \<Rightarrow> create_input \<Rightarrow> jstr \<Rightarrow> json \<Rightarrow> memory \<Rightarrow> memory_row \<Rightarrow> memory_row" where
  "create_merged h ci content tags existing r =
    (let b = boosted h (num_val (r_confidence existing)) in
     r\<lparr> r_content := longer content (r_content existing),
       r_confidence := Fin (case ci_confidence ci of None \<Rightarrow> b | Some c \<Rightarrow> min (max b (num_val c)) 1),
       r_tags := Some (stringify (nums h) tags),
       r_source := (case ci_source ci of None \<Rightarrow> Learned | Some s \<Rightarrow> s) \<rparr>)"

definition merge_create :: "host \<Rightarrow> create_input \<Rightarrow> jstr \<Rightarrow> memory \<Rightarrow> db \<Rightarrow> write_error + (create_result \<times> db)" where
  "merge_create h ci content existing d =
    (case merge_tags (m_tags existing) (case ci_tags ci of None \<Rightarrow> [] | Some ts \<Rightarrow> ts) of
       None \<Rightarrow> Inl Thrown
     | Some tags \<Rightarrow>
         (let d1 = exec_update h (has_id (r_id existing)) (create_merged h ci content tags existing) d in
          Inr (\<lparr> cw_id = r_id existing, cw_deduplicated = True, cw_conflict = no_conflict \<rparr>,
            journal_upsert h (ci_suppressed ci) (r_id existing) (ci_project ci) (ci_kind ci) d1)))"

text \<open>The row that \<open>create\<close> and \<open>storeMemory\<close> insert.\<close>

definition fresh_row :: "host \<Rightarrow> search_env \<Rightarrow> create_input \<Rightarrow> jstr \<Rightarrow> jstr \<Rightarrow> rat \<Rightarrow> memory_row" where
  "fresh_row h se ci i content conf =
    (let ts = (case ci_created ci of None \<Rightarrow> iso_now h | Some t \<Rightarrow> t) in
     \<lparr> r_id = i, r_content = content, r_kind = ci_kind ci, r_project = ci_project ci,
       r_tags = Some (stringify (nums h) (JArr (map JStr (case ci_tags ci of None \<Rightarrow> [] | Some ts \<Rightarrow> ts)))),
       r_confidence = Fin conf, r_source = (case ci_source ci of None \<Rightarrow> Learned | Some s \<Rightarrow> s),
       r_created_at = ts, r_last_recalled = None, r_recall_count = 0, r_invalidated = 0,
       r_expires_at = ci_expires ci, r_surface_count = 0, r_impact_count = 0,
       r_fingerprint = map_option (stringify (nums h)) (ci_fingerprint ci),
       r_context = context_json h (ci_context ci), r_embedding = ci_embedding ci,
       r_embedding_model = (case ci_embedding ci of None \<Rightarrow> None | Some _ \<Rightarrow> Some (se_model se)),
       r_anchor = ci_anchor ci, r_superseded_by = None, r_superseded_at = None, r_revision = 1,
       r_origin_client = (case ci_client ci of None \<Rightarrow> CLIENT_CLAUDE | Some c \<Rightarrow> c),
       r_author = None, r_updated_at = Some ts, r_share_state = None,
       r_last_decayed = None \<rparr>)"

definition insert_fresh ::
  "host \<Rightarrow> search_env \<Rightarrow> create_input \<Rightarrow> jstr \<Rightarrow> rat \<Rightarrow> db \<Rightarrow> write_error + (create_result \<times> db)" where
  "insert_fresh h se ci content conf d =
    (let (i, d0) = generateId h d in
     case exec_insert (fresh_row h se ci i content conf) d0 of
       None \<Rightarrow> Inl Constraint_Failed
     | Some d1 \<Rightarrow>
         (let d2 = journalMutation h (ci_suppressed ci)
                \<lparr> ji_memory = i, ji_project = ci_project ci, ji_kind = ci_kind ci, ji_op = J_Upsert,
                  ji_revision = 1, ji_cause = None \<rparr> d1;
              (a, d3) = (if ci_skip_conflicts ci then (no_conflict, d2)
                else detectConflicts h se (ci_suppressed ci) i d2)
          in Inr (\<lparr> cw_id = i, cw_deduplicated = False, cw_conflict = a \<rparr>, d3)))"

definition create :: "host \<Rightarrow> search_env \<Rightarrow> create_input \<Rightarrow> db \<Rightarrow> write_error + (create_result \<times> db)" where
  "create h se ci d =
    (if ci_kind ci = Rule then Inl Rule_Write
     else
       (let content = clean_text h (ci_content ci);
            conf = (case ci_confidence ci of None \<Rightarrow> defaultConfidence h (ci_kind ci) | Some c \<Rightarrow> num_val c) in
        case (if ci_skip_dedup ci then Some None
              else findSimilar h se content (ci_project ci) (ci_kind ci) (ci_embedding ci) d) of
          None \<Rightarrow> Inl Thrown
        | Some (Some existing) \<Rightarrow> merge_create h ci content existing d
        | Some None \<Rightarrow> insert_fresh h se ci content conf d))"

section \<open>The smart-merge gateway\<close>

text \<open>\<open>Object.values(fp).filter(v => v && v.length > 0).length\<close>\<close>

definition obj_values :: "json \<Rightarrow> json list" where
  "obj_values v = (case v of JObj kvs \<Rightarrow> map snd kvs | JArr xs \<Rightarrow> xs | JStr s \<Rightarrow> map (\<lambda>u. JStr [u]) s | _ \<Rightarrow> [])"

definition fp_dims :: "json option \<Rightarrow> nat" where
  "fp_dims fp = (case fp of None \<Rightarrow> 0
     | Some v \<Rightarrow> if truthy v then length (filter (\<lambda>x. truthy x \<and> 0 < js_length x) (obj_values v)) else 0)"

definition ctx_member :: "jstr \<Rightarrow> json \<Rightarrow> json option" where
  "ctx_member k ctx = (case ctx of JObj kvs \<Rightarrow> (case obj_get k kvs of Some JNull \<Rightarrow> None | v \<Rightarrow> v) | _ \<Rightarrow> None)"

definition merge_context :: "host \<Rightarrow> json \<Rightarrow> context_input \<Rightarrow> jstr option" where
  "merge_context h existing ctx =
    (let inc = (case sanitizeContext h ctx of None \<Rightarrow> [] | Some kvs \<Rightarrow> kvs);
         pick = (\<lambda>k. case ctx_member k existing of None \<Rightarrow> obj_get k inc | Some v \<Rightarrow> Some v);
         why = pick (js ''why''); how = pick (js ''how_to_apply'');
         member = (\<lambda>k v. case v of None \<Rightarrow> [] | Some x \<Rightarrow> [(k, x)]);
         has = (\<lambda>v. case v of None \<Rightarrow> False | Some x \<Rightarrow> truthy x)
     in if has why \<or> has how
        then Some (stringify (nums h) (JObj (member (js ''why'') why @ member (js ''how_to_apply'') how)))
        else if truthy existing then Some (stringify (nums h) existing)
        else None)"

definition hasEmbedding :: "search_env \<Rightarrow> jstr \<Rightarrow> db \<Rightarrow> bool" where
  "hasEmbedding se i d = list_ex (\<lambda>r. r_id r = i \<and> r_kind r \<noteq> Rule \<and> r_embedding r \<noteq> None \<and>
     r_embedding_model r = Some (se_model se)) (memories d)"

text \<open>The assignments of the UPDATE.\<close>

definition store_merged ::
  "host \<Rightarrow> search_env \<Rightarrow> create_input \<Rightarrow> jstr \<Rightarrow> rat \<Rightarrow> nat list option \<Rightarrow> json \<Rightarrow> memory \<Rightarrow> memory_row \<Rightarrow> memory_row" where
  "store_merged h se ci content conf emb tags existing r =
    (let src = (case ci_source ci of None \<Rightarrow> Learned | Some s \<Rightarrow> s);
         fp = (if fp_dims (Some (m_fingerprint existing)) < fp_dims (ci_fingerprint ci)
               then ci_fingerprint ci else Some (m_fingerprint existing))
     in r\<lparr> r_content := longer content (r_content existing),
       r_confidence := Fin (min (max (boosted h (num_val (r_confidence existing))) conf) 1),
       r_tags := Some (stringify (nums h) tags),
       r_source := (if SOURCE_AUTHORITY (r_source existing) \<le> SOURCE_AUTHORITY src then src else r_source existing),
       r_context := merge_context h (m_context existing) (ci_context ci),
       r_fingerprint := (case fp of None \<Rightarrow> None
         | Some v \<Rightarrow> if truthy v then Some (stringify (nums h) v) else None),
       r_embedding := (case emb of None \<Rightarrow> r_embedding r | Some e \<Rightarrow> Some e),
       r_embedding_model := (case emb of None \<Rightarrow> r_embedding_model r | Some e \<Rightarrow> Some (se_model se)) \<rparr>)"

definition merge_store ::
  "host \<Rightarrow> search_env \<Rightarrow> create_input \<Rightarrow> jstr \<Rightarrow> rat \<Rightarrow> memory \<Rightarrow> db \<Rightarrow> write_error + (create_result \<times> db)" where
  "merge_store h se ci content conf existing d =
    (let emb = (if hasEmbedding se (r_id existing) d then None else ci_embedding ci) in
     case merge_tags (m_tags existing) (case ci_tags ci of None \<Rightarrow> [] | Some ts \<Rightarrow> ts) of
       None \<Rightarrow> Inl Thrown
     | Some tags \<Rightarrow>
         (let d1 = exec_update h (has_id (r_id existing)) (store_merged h se ci content conf emb tags existing) d in
          Inr (\<lparr> cw_id = r_id existing, cw_deduplicated = True, cw_conflict = no_conflict \<rparr>,
            journal_upsert h (ci_suppressed ci) (r_id existing) (ci_project ci) (ci_kind ci) d1)))"

text \<open>\<open>StoreMemoryInput\<close> has no expiry, no creation time and no skip options.\<close>

definition plain_input :: "create_input \<Rightarrow> create_input" where
  "plain_input ci = ci\<lparr> ci_expires := None, ci_created := None, ci_skip_dedup := False, ci_skip_conflicts := False \<rparr>"

definition storeMemory :: "host \<Rightarrow> search_env \<Rightarrow> create_input \<Rightarrow> db \<Rightarrow> write_error + (create_result \<times> db)" where
  "storeMemory h se ci d =
    (let content = clean_text h (ci_content ci);
         conf = (case ci_confidence ci of Some c \<Rightarrow> num_val c
           | None \<Rightarrow> (case GATEWAY_DEFAULT_CONFIDENCE h (ci_kind ci) of Some c \<Rightarrow> c | None \<Rightarrow> CONFIDENCE h LEARNED)) in
     case findSimilar h se content (ci_project ci) (ci_kind ci) (ci_embedding ci) d of
       None \<Rightarrow> Inl Thrown
     | Some (Some existing) \<Rightarrow> merge_store h se ci content conf existing d
     | Some None \<Rightarrow> insert_fresh h se (plain_input ci) content conf d)"

section \<open>Updating and retracting\<close>

definition storeVersion :: "host \<Rightarrow> jstr \<Rightarrow> jstr \<Rightarrow> jstr \<Rightarrow> db \<Rightarrow> db" where
  "storeVersion h i old new d = d\<lparr> versions := versions d @ [\<lparr> v_memory = i, v_old = old, v_new = new, v_at = iso_now h \<rparr>],
     changes := Suc (changes d) \<rparr>"

definition getVersionHistory :: "jstr \<Rightarrow> db \<Rightarrow> (jstr \<times> jstr \<times> jstr) list" where
  "getVersionHistory i d = map (\<lambda>v. (v_old v, v_new v, v_at v))
     (take 10 (rev (sort_key v_at (rev (filter (\<lambda>v. v_memory v = i) (versions d))))))"

definition updatable :: "jstr \<Rightarrow> memory_row \<Rightarrow> bool" where
  "updatable i r \<longleftrightarrow> r_id r = i \<and> r_invalidated r = 0 \<and> r_kind r \<noteq> Rule"

definition update :: "host \<Rightarrow> jstr \<Rightarrow> jstr \<Rightarrow> bool \<Rightarrow> db \<Rightarrow> (bool \<times> db) option" where
  "update h i newContent suppressed d =
    (let content = clean_text h newContent in
     case findById h i (memories d) of
       None \<Rightarrow> None
     | Some existing \<Rightarrow>
         (let d1 = (case existing of Some m \<Rightarrow> if r_content m \<noteq> content then storeVersion h i (r_content m) content d else d
                | None \<Rightarrow> d);
              n = t_count (updatable i) (memories d1);
              d2 = exec_update h (updatable i) (\<lambda>r. r\<lparr> r_content := content,
                r_confidence := Fin (CONFIDENCE h CORRECTION), r_source := Corrected \<rparr>) d1;
              d3 = (case existing of Some m \<Rightarrow> if 0 < n then journal_upsert h suppressed i (r_project m) (r_kind m) d2 else d2
                | None \<Rightarrow> d2)
          in Some (0 < n, d3)))"

definition retractable :: "jstr \<Rightarrow> memory_row \<Rightarrow> bool" where
  "retractable i r \<longleftrightarrow> r_id r = i \<and> r_kind r \<noteq> Rule"

definition retractWithTombstone :: "host \<Rightarrow> jstr \<Rightarrow> retract_action \<Rightarrow> bool \<Rightarrow> db \<Rightarrow> bool \<times> db" where
  "retractWithTombstone h i action suppressed d = (case find (retractable i) (memories d) of
      None \<Rightarrow> (False, d)
    | Some row \<Rightarrow>
        (let d1 = d\<lparr> tombstones := tombstones d @ [\<lparr> mt_memory = i, mt_action = action, mt_project = r_project row,
                    mt_kind = r_kind row, mt_content = r_content row, mt_at = sql_now h \<rparr>], changes := Suc (changes d) \<rparr>;
             d2 = journalMutation h suppressed
               \<lparr> ji_memory = i, ji_project = r_project row, ji_kind = r_kind row, ji_op = J_Tombstone,
                 ji_revision = r_revision row, ji_cause = None \<rparr> d1;
             n = t_count (retractable i) (memories d2)
         in (0 < n, case action of
               Delete \<Rightarrow> exec_delete (retractable i) d2
             | Invalidate \<Rightarrow> exec_update h (retractable i) (\<lambda>r. r\<lparr> r_invalidated := 1 \<rparr>) d2)))"

definition invalidate_memory :: "host \<Rightarrow> jstr \<Rightarrow> bool \<Rightarrow> db \<Rightarrow> bool \<times> db" where
  "invalidate_memory h i suppressed d = retractWithTombstone h i Invalidate suppressed d"

definition deleteById :: "host \<Rightarrow> jstr \<Rightarrow> bool \<Rightarrow> db \<Rightarrow> bool \<times> db" where
  "deleteById h i suppressed d = retractWithTombstone h i Delete suppressed d"

definition promotable :: "jstr \<Rightarrow> memory_row \<Rightarrow> bool" where
  "promotable i r \<longleftrightarrow> r_id r = i \<and> r_invalidated r = 0 \<and> r_project r \<noteq> None \<and> r_kind r \<noteq> Rule"

definition promote :: "host \<Rightarrow> jstr \<Rightarrow> bool \<Rightarrow> db \<Rightarrow> bool \<times> db" where
  "promote h i suppressed d = (case find (promotable i) (memories d) of
      None \<Rightarrow> (False, d)
    | Some row \<Rightarrow>
        (let d1 = journalMutation h suppressed
               \<lparr> ji_memory = i, ji_project = r_project row, ji_kind = r_kind row, ji_op = J_Tombstone,
                 ji_revision = r_revision row, ji_cause = None \<rparr> d;
             n = t_count (promotable i) (memories d1)
         in (0 < n, exec_update h (promotable i) (\<lambda>r. r\<lparr> r_project := None \<rparr>) d1)))"

end
