(* ===== verification/Writes_Facts.thy ===== *)
theory Writes_Facts
  imports Writes
begin

text \<open>
  What the write gateway does to the store: which row a new memory merges into, what a merge and an
  insertion leave alone, that no memory disappears unless an equal or higher authority supersedes it,
  the ceiling of repetition, and the version row that a refused update leaves behind.
\<close>

section \<open>The row found\<close>

lemma scan_similar_Some:
  assumes "scan_similar h se content emb rows = Some (Some m)"
  shows "\<exists>row\<in>set rows. rowToMemory h row = Some m \<and> \<not> contentsOppose content (r_content row)"
  using assms by (induction rows) (auto split: if_splits)

lemma findSimilar_Some:
  assumes fts: "fts_ok (se_fts se)" and "findSimilar h se content project kind emb d = Some (Some m)"
  shows "\<exists>row\<in>set (memories d). rowToMemory h row = Some m \<and> candidate kind project row \<and>
    (r_content row = content \<or> \<not> contentsOppose content (r_content row))"
proof -
  have near: ?thesis if n: "near_match h se content project kind emb d = Some (Some m)"
  proof -
    from n obtain q hits where q: "se_fts se q (memories d) = Some hits"
      and s: "scan_similar h se content emb (take 10 (filter (candidate kind project) hits)) = Some (Some m)"
      by (auto simp: near_match_def split: option.splits)
    from scan_similar_Some [OF s] obtain row where row: "row \<in> set (take 10 (filter (candidate kind project) hits))"
      "rowToMemory h row = Some m" "\<not> contentsOppose content (r_content row)" by blast
    from row(1) have "row \<in> set hits" "candidate kind project row" by (auto dest: in_set_takeD)
    moreover have "set hits \<subseteq> set (memories d)" using fts q by (auto simp: fts_ok_def)
    ultimately show ?thesis using row by blast
  qed
  show ?thesis
  proof (cases "find (\<lambda>r. candidate kind project r \<and> r_content r = content) (memories d)")
    case None
    with assms(2) near show ?thesis by (auto simp: findSimilar_def split: if_splits)
  next
    case (Some exact)
    from find_SomeD [OF Some] have "exact \<in> set (memories d)" "candidate kind project exact" "r_content exact = content"
      by auto
    with assms(2) Some near show ?thesis by (auto simp: findSimilar_def split: if_splits option.splits)
  qed
qed

text \<open>An exact duplicate is always found: an identical memory is never inserted twice.\<close>

lemma exact_row_found:
  assumes "row \<in> set (memories d)" "candidate kind project row" "r_content row = content" "kind \<noteq> Rule"
    "\<forall>r\<in>set (memories d). rowToMemory h r \<noteq> None"
  shows "\<exists>m. findSimilar h se content project kind emb d = Some (Some m) \<and> r_content m = content"
proof -
  from assms(1-3) have "find (\<lambda>r. candidate kind project r \<and> r_content r = content) (memories d) \<noteq> None"
    by (auto simp: find_None_iff)
  then obtain exact where f: "find (\<lambda>r. candidate kind project r \<and> r_content r = content) (memories d) = Some exact"
    by auto
  from find_SomeD [OF f] assms(5) obtain m where "rowToMemory h exact = Some m" "r_content exact = content" by fastforce
  with f assms(4) show ?thesis by (auto simp: findSimilar_def row_fields_kept)
qed

section \<open>Merging and inserting\<close>

definition input_source :: "create_input \<Rightarrow> memory_source" where
  "input_source ci = (case ci_source ci of None \<Rightarrow> Learned | Some s \<Rightarrow> s)"

text \<open>A merge rewrites one row in place: it keeps its identity, scope and state, and its content is the
  longer of the two.\<close>

definition merged_row :: "jstr \<Rightarrow> memory_row \<Rightarrow> memory_row \<Rightarrow> bool" where
  "merged_row content r r' \<longleftrightarrow> r_id r' = r_id r \<and> r_kind r' = r_kind r \<and> r_project r' = r_project r \<and>
     active r' = active r \<and> r_content r' = longer content (r_content r) \<and> r_revision r' = r_revision r + 1"

lemma journal_upsert_frame [simp]:
  "memories (journal_upsert h s i p k d) = memories d" "files (journal_upsert h s i p k d) = files d"
  "entity_map (journal_upsert h s i p k d) = entity_map d" "tombstones (journal_upsert h s i p k d) = tombstones d"
  "versions (journal_upsert h s i p k d) = versions d" "edges (journal_upsert h s i p k d) = edges d"
  by (simp_all add: journal_upsert_def)

text \<open>The two merges, as one: the fields they assign.\<close>

definition merges :: "host \<Rightarrow> search_env \<Rightarrow> create_input \<Rightarrow> jstr \<Rightarrow> memory \<Rightarrow> db \<Rightarrow> create_result \<Rightarrow> db \<Rightarrow> bool" where
  "merges h se ci content m d res d' \<longleftrightarrow> merge_create h ci content m d = Inr (res, d') \<or>
     (\<exists>conf. merge_store h se ci content conf m d = Inr (res, d'))"

definition merge_fields :: "host \<Rightarrow> search_env \<Rightarrow> create_input \<Rightarrow> jstr \<Rightarrow> memory \<Rightarrow> (memory_row \<Rightarrow> memory_row) \<Rightarrow> bool" where
  "merge_fields h se ci content m g \<longleftrightarrow> (\<exists>tags. g = create_merged h ci content tags m) \<or>
     (\<exists>conf emb tags. g = store_merged h se ci content conf emb tags m)"

lemma merge_fields_intros:
  "merge_fields h se ci content m (create_merged h ci content tags m)"
  "merge_fields h se ci content m (store_merged h se ci content conf emb tags m)"
  by (auto simp: merge_fields_def)

lemma merges_update:
  assumes "merges h se ci content m d res d'"
  shows "\<exists>g. merge_fields h se ci content m g \<and> d' = journal_upsert h (ci_suppressed ci) (r_id m) (ci_project ci) (ci_kind ci)
      (exec_update h (has_id (r_id m)) g d) \<and>
    res = \<lparr> cw_id = r_id m, cw_deduplicated = True, cw_conflict = no_conflict \<rparr>"
proof -
  from assms consider "merge_create h ci content m d = Inr (res, d')"
    | conf where "merge_store h se ci content conf m d = Inr (res, d')" by (auto simp: merges_def)
  then show ?thesis
  proof cases
    case 1
    then show ?thesis by (auto simp: merge_create_def Let_def intro!: exI merge_fields_intros(1) split: option.splits)
  next
    case 2
    then show ?thesis by (auto simp: merge_store_def Let_def intro!: exI merge_fields_intros(2) split: option.splits)
  qed
qed

lemma merged_fields:
  "merged_row content (memory_row.truncate m) (revision_trigger h (create_merged h ci content tags m (memory_row.truncate m)))"
  "merged_row content (memory_row.truncate m) (revision_trigger h (store_merged h se ci content conf emb tags m (memory_row.truncate m)))"
  by (simp_all add: merged_row_def revision_trigger_def create_merged_def store_merged_def Let_def active_def
      memory_row.defs)

lemma merges_effect:
  assumes "merges h se ci content m d res d'" "rowToMemory h row = Some m"
  shows "\<exists>f. memories d' = map (\<lambda>r. if r_id r = r_id row then f r else r) (memories d) \<and> merged_row content row (f row) \<and>
    cw_id res = r_id row \<and> cw_deduplicated res \<and> cw_conflict res = no_conflict \<and> files d' = files d"
proof -
  from merges_update [OF assms(1)] obtain g where d': "d' = journal_upsert h (ci_suppressed ci) (r_id m) (ci_project ci)
      (ci_kind ci) (exec_update h (has_id (r_id m)) g d)"
    and g: "merge_fields h se ci content m g"
    and res: "res = \<lparr> cw_id = r_id m, cw_deduplicated = True, cw_conflict = no_conflict \<rparr>" by blast
  have "memory_row.truncate m = row" using rowToMemory_fields [OF assms(2)] by simp
  with g merged_fields have "merged_row content row (revision_trigger h (g row))"
    unfolding merge_fields_def by metis
  with d' res show ?thesis by (intro exI [of _ "\<lambda>r. revision_trigger h (g r)"])
      (simp add: t_update_def row_fields_kept [OF assms(2)])
qed

lemma generateId_memories: "generateId h d = (i, d0) \<Longrightarrow> memories d0 = memories d \<and> files d0 = files d \<and> journal d0 = journal d \<and> i = uuid h (uuids d)"
  by (auto simp: generateId_def)

lemma find_appended:
  "t_get r_id i rows = None \<Longrightarrow> find (\<lambda>r. r_id r = i \<and> P r) (rows @ [x]) = (if r_id x = i \<and> P x then Some x else None)"
  by (induction rows) (auto simp: t_get_def split: if_splits)

text \<open>An insertion adds one row; conflict detection may then retire one other row.\<close>

lemma insert_fresh_effect:
  assumes fts: "fts_ok (se_fts se)" and run: "insert_fresh h se ci content conf d = Inr (res, d')"
  shows "\<exists>i d1 d2. row_of d i = None \<and> cw_id res = i \<and> \<not> cw_deduplicated res \<and>
    d2 = journalMutation h (ci_suppressed ci) \<lparr> ji_memory = i, ji_project = ci_project ci, ji_kind = ci_kind ci,
      ji_op = J_Upsert, ji_revision = 1, ji_cause = None \<rparr> d1 \<and> journal d1 = journal d \<and>
    memories d2 = memories d @ [fresh_row h se ci i content conf] \<and> files d2 = files d \<and>
    (d' = d2 \<and> cw_conflict res = no_conflict \<or>
     (\<exists>m. rowToMemory h (fresh_row h se ci i content conf) = Some m \<and>
       conflict_effect h (ci_suppressed ci) m d2 (cw_conflict res) d'))"
proof -
  obtain i d0 where g: "generateId h d = (i, d0)" by fastforce
  let ?row = "fresh_row h se ci i content conf"
  from run g obtain d1 where ins: "exec_insert ?row d0 = Some d1"
    by (auto simp: insert_fresh_def split: option.splits)
  let ?d2 = "journalMutation h (ci_suppressed ci) \<lparr> ji_memory = i, ji_project = ci_project ci, ji_kind = ci_kind ci,
    ji_op = J_Upsert, ji_revision = 1, ji_cause = None \<rparr> d1"
  have id: "r_id ?row = i" by (simp add: fresh_row_def Let_def)
  from ins generateId_memories [OF g] id have none: "row_of d i = None"
    and mem: "memories ?d2 = memories d @ [?row]" and fl: "files ?d2 = files d" and j: "journal d1 = journal d"
    by (auto simp: exec_insert_Some)
  have res: "cw_id res = i" "\<not> cw_deduplicated res"
    using run g ins by (auto simp: insert_fresh_def Let_def split: prod.splits)
  have "d' = ?d2 \<and> cw_conflict res = no_conflict \<or>
     (\<exists>m. rowToMemory h ?row = Some m \<and> conflict_effect h (ci_suppressed ci) m ?d2 (cw_conflict res) d')"
  proof (cases "ci_skip_conflicts ci")
    case True
    then show ?thesis using run g ins by (auto simp: insert_fresh_def Let_def)
  next
    case False
    then have dc: "detectConflicts h se (ci_suppressed ci) i ?d2 = (cw_conflict res, d')"
      using run g ins by (auto simp: insert_fresh_def Let_def split: prod.splits)
    show ?thesis
    proof (cases "\<exists>m r. findById h i (memories ?d2) = Some (Some m) \<and>
        applyConflictDetection h (se_fts se) (ci_suppressed ci) m ?d2 = Some r")
      case True
      then obtain m where m: "findById h i (memories ?d2) = Some (Some m)"
        and a: "applyConflictDetection h (se_fts se) (ci_suppressed ci) m ?d2 = Some (cw_conflict res, d')"
        using dc by (auto simp: detectConflicts_def)
      from m have "rowToMemory h ?row = Some m"
        unfolding mem findById_def find_appended [OF none] by (auto split: if_splits option.splits)
      with conflict_detection_effect [OF fts a] show ?thesis by blast
    next
      case False
      with dc show ?thesis by (auto simp: detectConflicts_def split: option.splits)
    qed
  qed
  with none mem fl res j show ?thesis by blast
qed

section \<open>Nothing disappears\<close>

definition gateway :: "host \<Rightarrow> search_env \<Rightarrow> create_input \<Rightarrow> db \<Rightarrow> create_result \<Rightarrow> db \<Rightarrow> bool" where
  "gateway h se ci d res d' \<longleftrightarrow> create h se ci d = Inr (res, d') \<or> storeMemory h se ci d = Inr (res, d')"

lemma gateway_cases [consumes 1, case_names inserted merged]:
  assumes "gateway h se ci d res d'"
  obtains (inserted) x conf where "insert_fresh h se x (clean_text h (ci_content ci)) conf d = Inr (res, d')"
      "x = ci \<or> x = plain_input ci"
    | (merged) m where
      "findSimilar h se (clean_text h (ci_content ci)) (ci_project ci) (ci_kind ci) (ci_embedding ci) d = Some (Some m)"
      "merges h se ci (clean_text h (ci_content ci)) m d res d'"
proof -
  let ?c = "clean_text h (ci_content ci)"
  let ?found = "\<lambda>m. findSimilar h se ?c (ci_project ci) (ci_kind ci) (ci_embedding ci) d = Some (Some m)"
  from assms have "(\<exists>x conf. insert_fresh h se x ?c conf d = Inr (res, d') \<and> (x = ci \<or> x = plain_input ci)) \<or>
      (\<exists>m. ?found m \<and> merges h se ci ?c m d res d')"
    unfolding gateway_def
  proof
    assume "create h se ci d = Inr (res, d')"
    then have "(\<exists>conf. insert_fresh h se ci ?c conf d = Inr (res, d')) \<or> (\<exists>m. ?found m \<and> merge_create h ci ?c m d = Inr (res, d'))"
      by (auto simp: create_def Let_def split: if_splits option.splits)
    then show ?thesis by (auto simp: merges_def)
  next
    assume "storeMemory h se ci d = Inr (res, d')"
    then have "(\<exists>conf. insert_fresh h se (plain_input ci) ?c conf d = Inr (res, d')) \<or>
        (\<exists>m conf. ?found m \<and> merge_store h se ci ?c conf m d = Inr (res, d'))"
      by (auto simp: storeMemory_def Let_def split: option.splits)
    then show ?thesis by (auto simp: merges_def)
  qed
  then show ?thesis using that by blast
qed

text \<open>What may become of an active row.\<close>

definition row_survives :: "create_input \<Rightarrow> jstr \<Rightarrow> create_result \<Rightarrow> memory_row \<Rightarrow> memory_row \<Rightarrow> bool" where
  "row_survives ci content res r r' \<longleftrightarrow> r_id r' = r_id r \<and> r_kind r' = r_kind r \<and> r_project r' = r_project r \<and> active r' \<and>
     (r' = r \<or> cw_deduplicated res \<and> cw_id res = r_id r \<and> r_content r' = longer content (r_content r))"

definition row_superseded :: "create_input \<Rightarrow> jstr \<Rightarrow> create_result \<Rightarrow> memory_row \<Rightarrow> memory_row \<Rightarrow> bool" where
  "row_superseded ci content res r r' \<longleftrightarrow> r_id r' = r_id r \<and> r_content r' = r_content r \<and> r_invalidated r' = 0 \<and>
     ca_superseded (cw_conflict res) = Some (r_id r) \<and> r_superseded_by r' = Some (cw_id res) \<and>
     r_kind r = ci_kind ci \<and> r_project r = ci_project ci \<and> r_source r \<le> input_source ci \<and>
     valueDrift (r_content r) content = Some Version_Value"

lemma keyed_row: "t_keyed r_id rows \<Longrightarrow> r \<in> set rows \<Longrightarrow> r' \<in> set rows \<Longrightarrow> r_id r = r_id r' \<Longrightarrow> r = r'"
  by (metis option.inject t_get_keyed)

lemma merge_survives:
  assumes keyed: "t_keyed r_id (memories d)" and row: "row \<in> set (memories d)"
    and mem: "memories d' = map (\<lambda>r. if r_id r = r_id row then f r else r) (memories d)"
    and m: "merged_row content row (f row)" and res: "cw_id res = r_id row" "cw_deduplicated res"
    and r: "r \<in> set (memories d)" "active r"
  shows "\<exists>r'\<in>set (memories d'). row_survives ci content res r r'"
proof (cases "r_id r = r_id row")
  case True
  with keyed row r have "r = row" by (blast intro: keyed_row)
  with mem row have "f row \<in> set (memories d')" by force
  moreover have "row_survives ci content res r (f row)" using m res r \<open>r = row\<close>
    by (auto simp: row_survives_def merged_row_def)
  ultimately show ?thesis by blast
next
  case False
  with mem r have "r \<in> set (memories d')" by force
  with r show ?thesis by (auto simp: row_survives_def intro!: bexI [of _ r])
qed

lemma fresh_row_fields [simp]:
  "r_id (fresh_row h se ci i content conf) = i" "r_content (fresh_row h se ci i content conf) = content"
  "r_kind (fresh_row h se ci i content conf) = ci_kind ci" "r_project (fresh_row h se ci i content conf) = ci_project ci"
  "r_source (fresh_row h se ci i content conf) = input_source ci" "active (fresh_row h se ci i content conf)"
  by (simp_all add: fresh_row_def Let_def input_source_def active_def)

lemma insert_survives:
  assumes keyed: "t_keyed r_id (memories d)" and fts: "fts_ok (se_fts se)"
    and run: "insert_fresh h se ci content conf d = Inr (res, d')"
    and r: "r \<in> set (memories d)" "active r"
  shows "\<exists>r'\<in>set (memories d'). row_survives ci content res r r' \<or> row_superseded ci content res r r'"
proof -
  from insert_fresh_effect [OF fts run] obtain i d2 where none: "row_of d i = None" and res: "cw_id res = i"
    and mem: "memories d2 = memories d @ [fresh_row h se ci i content conf]"
    and alt: "d' = d2 \<and> cw_conflict res = no_conflict \<or>
     (\<exists>m. rowToMemory h (fresh_row h se ci i content conf) = Some m \<and>
       conflict_effect h (ci_suppressed ci) m d2 (cw_conflict res) d')" by blast
  have kept: ?thesis if "memories d' = memories d2"
    using that mem r by (auto simp: row_survives_def intro!: bexI [of _ r])
  from alt show ?thesis
  proof (elim disjE exE conjE)
    assume "d' = d2"
    then show ?thesis using kept by simp
  next
    fix m
    assume m: "rowToMemory h (fresh_row h se ci i content conf) = Some m"
      and eff: "conflict_effect h (ci_suppressed ci) m d2 (cw_conflict res) d'"
    note mf = row_fields_kept [OF m, unfolded fresh_row_fields]
    from eff show ?thesis
    proof cases
      case nothing
      then show ?thesis using kept by simp
    next
      case (flagged e)
      then show ?thesis using kept by simp
    next
      case (retired row existing c)
      have row: "row \<in> set (memories d)" using retired(2,4) mem mf by auto
      have mem': "memories d' = map (\<lambda>r. if r_id r = r_id row
          then revision_trigger h (r\<lparr> r_superseded_by := Some i, r_superseded_at := Some (iso_now h) \<rparr>)
          else r) (memories d2)"
        using retired(1,9,10) mf by simp
      show ?thesis
      proof (cases "r_id r = r_id row")
        case True
        with keyed row r have e: "r = row" by (blast intro: keyed_row)
        let ?r' = "revision_trigger h (row\<lparr> r_superseded_by := Some i, r_superseded_at := Some (iso_now h) \<rparr>)"
        have "?r' \<in> set (memories d')" using row mem by (force simp: mem')
        moreover have "row_superseded ci content res r ?r'"
          using e r retired mf res by (auto simp: row_superseded_def candidate_def active_def revision_trigger_def)
        ultimately show ?thesis by blast
      next
        case False
        with r mem have "r \<in> set (memories d')" by (force simp: mem')
        with r show ?thesis by (auto simp: row_survives_def intro!: bexI [of _ r])
      qed
    qed
  qed
qed

end
