(* ===== verification/Cas_Edits.thy ===== *)
theory Cas_Edits
  imports Writes_Facts Block_Parser Free_Form_Store
begin

text \<open>
  Editing records through the memory tool: token resolution and revision checks
  (\<open>src/memory-tool/cas.ts\<close>), the application of a tokened block (\<open>record-updater.ts\<close>) and the planner for
  token-less blocks (\<open>gateway-planner.ts\<close>).  All of it runs inside the transaction of a command, so an
  \<open>Inl\<close> means that the command's transaction is rolled back.

  Exceptions that are not part of the contract (a column that does not parse, a property of
  \<open>null\<close>) are \<open>Store_Error\<close> with the name of the JavaScript error.
\<close>

definition syntax_error :: tool_error where "syntax_error = Store_Error ''SyntaxError''"
definition type_error :: tool_error where "type_error = Store_Error ''TypeError''"

section \<open>Tokens\<close>

definition show_token :: "jstr \<Rightarrow> jstr \<Rightarrow> int \<Rightarrow> jstr" where
  "show_token code pre rv = js ''['' @ code @ js '':'' @ pre @ js ''@'' @ show_int rv @ js '']''"

definition tokenText :: "block_token \<Rightarrow> jstr" where
  "tokenText t = show_token (t_code t) (t_prefix t) (t_revision t)"

definition canonicalPrefixes :: "host \<Rightarrow> jstr option \<Rightarrow> category \<Rightarrow> db \<Rightarrow> (jstr \<times> jstr option) list" where
  "canonicalPrefixes h project cat d =
     assignTokenPrefixes (fst (partitionRenderable (fst (loadActiveRecords h project cat (memories d)))))"

text \<open>\<open>pfx.get(id)\<close> with \<open>undefined\<close> and \<open>null\<close> alike.\<close>

definition prefix_get :: "(jstr \<times> jstr option) list \<Rightarrow> jstr \<Rightarrow> jstr option" where
  "prefix_get ps i = (case map_of ps i of Some (Some p) \<Rightarrow> Some p | _ \<Rightarrow> None)"

definition canonicalTokenFor :: "host \<Rightarrow> memory \<Rightarrow> category \<Rightarrow> jstr option \<Rightarrow> db \<Rightarrow> jstr" where
  "canonicalTokenFor h record cat project d =
     show_token (case KIND_CODES (r_kind record) of Some c \<Rightarrow> c | None \<Rightarrow> js ''???'')
       (case prefix_get (canonicalPrefixes h project cat d) (r_id record) of Some p \<Rightarrow> p | None \<Rightarrow> r_id record)
       (r_revision record)"

text \<open>SQLite \<open>LIKE\<close> without an escape character: ASCII letters compare without case.\<close>

fun like_plain :: "jstr \<Rightarrow> jstr \<Rightarrow> bool" where
  "like_plain [] s \<longleftrightarrow> s = []"
| "like_plain (c # p) [] \<longleftrightarrow> c = 37 \<and> like_plain p []"
| "like_plain (c # p) (u # s) \<longleftrightarrow>
    (if c = 37 then like_plain p (u # s) \<or> like_plain (c # p) s
     else if c = 95 then like_plain p s
     else lower_unit c = lower_unit u \<and> like_plain p s)"

declare like_plain.simps [simp del]

definition token_rows :: "block_token \<Rightarrow> memory_kind \<Rightarrow> jstr option \<Rightarrow> db \<Rightarrow> memory_row list" where
  "token_rows t kind project d =
     take 2 (filter (\<lambda>r. like_plain (t_prefix t @ [37]) (r_id r) \<and> candidate kind project r) (memories d))"

definition resolveAndCheck ::
  "host \<Rightarrow> block_token \<Rightarrow> jstr option \<Rightarrow> jstr \<Rightarrow> memory_kind list \<Rightarrow> db \<Rightarrow> tool_error + memory" where
  "resolveAndCheck h t project path allowed d = (case CODE_KINDS (t_code t) of
      None \<Rightarrow> Inl (Token_Wrong_File (tokenText t) path)
    | Some kind \<Rightarrow>
        if kind \<notin> set allowed then Inl (Token_Wrong_File (tokenText t) path)
        else (case token_rows t kind project d of
            [] \<Rightarrow> Inl (Token_No_Match (tokenText t) path)
          | [row] \<Rightarrow> (case rowToMemory h row of
                None \<Rightarrow> Inl syntax_error
              | Some record \<Rightarrow>
                  if r_revision record \<noteq> t_revision t
                  then Inl (Token_Stale (tokenText t) (r_revision record) path)
                  else Inr record)
          | _ \<Rightarrow> Inl (Token_Ambiguous (t_prefix t) path)))"

text \<open>The resolutions, keyed by canonical prefix in insertion order.\<close>

record resolved_record =
  rr_prefix :: jstr
  rr_record :: memory
  rr_token :: block_token

definition verify_block ::
  "host \<Rightarrow> (jstr \<times> jstr option) list \<Rightarrow> jstr option \<Rightarrow> category \<Rightarrow> jstr \<Rightarrow> db \<Rightarrow> parsed_block \<Rightarrow> resolved_record list \<Rightarrow>
    tool_error + resolved_record list" where
  "verify_block h pfx project cat path d block resolved = (case b_token block of
      None \<Rightarrow> Inl type_error
    | Some t \<Rightarrow> bindE (resolveAndCheck h t project path (CATEGORY_KINDS cat) d) (\<lambda>record.
        if list_ex (\<lambda>x. r_id (rr_record x) = r_id record) resolved then Inl (Old_Block_Duplicate (tokenText t))
        else (case prefix_get pfx (r_id record) of
            None \<Rightarrow> Inl (Old_Block_Not_Canonical (tokenText t) path)
          | Some p \<Rightarrow> (case renderBlock h record p of
                None \<Rightarrow> Inl (Old_Block_Not_Canonical (tokenText t) path)
              | Some canonical \<Rightarrow>
                  if p = [] \<or> t_prefix t \<noteq> p \<or> join [10] (b_raw block) \<noteq> join [10] canonical
                  then Inl (Old_Block_Not_Canonical (tokenText t) path)
                  else Inr (t_put rr_prefix \<lparr> rr_prefix = p, rr_record = record, rr_token = t \<rparr> resolved)))))"

definition verifyOldBlocks ::
  "host \<Rightarrow> parsed_block list \<Rightarrow> jstr option \<Rightarrow> category \<Rightarrow> jstr \<Rightarrow> db \<Rightarrow> tool_error + resolved_record list" where
  "verifyOldBlocks h blocks project cat path d =
     foldE (verify_block h (canonicalPrefixes h project cat d) project cat path d) blocks []"

section \<open>Applying a tokened block\<close>

definition edit_member :: "jstr \<Rightarrow> jstr option option \<Rightarrow> (jstr \<times> json) list \<Rightarrow> (jstr \<times> json) list" where
  "edit_member k v kvs = (case v of None \<Rightarrow> kvs | Some None \<Rightarrow> filter (\<lambda>(k', _). k' \<noteq> k) kvs
     | Some (Some s) \<Rightarrow> obj_put k (JStr s) kvs)"

definition member_truthy :: "jstr \<Rightarrow> (jstr \<times> json) list \<Rightarrow> bool" where
  "member_truthy k kvs = (case obj_get k kvs of None \<Rightarrow> False | Some v \<Rightarrow> truthy v)"

text \<open>The new \<open>context\<close> column; \<open>None\<close> when the code throws.  Assigning a property works on objects and
  arrays (whose text does not show it), throws on primitives, and any access throws on \<open>null\<close>.\<close>

definition edited_context :: "host \<Rightarrow> jstr option \<Rightarrow> jstr option option \<Rightarrow> jstr option option \<Rightarrow> jstr option option" where
  "edited_context h col why how = (case parse_column h (JObj []) col of
      None \<Rightarrow> None
    | Some ctx \<Rightarrow>
        (let edit = (\<lambda>kvs. edit_member (js ''how_to_apply'') how (edit_member (js ''why'') why kvs));
             present = (\<lambda>kvs. member_truthy (js ''why'') kvs \<or> member_truthy (js ''how_to_apply'') kvs);
             assigns = (\<lambda>v. case v of Some (Some _) \<Rightarrow> True | _ \<Rightarrow> False)
         in (case ctx of
              JObj kvs \<Rightarrow> Some (if present (edit kvs) then Some (stringify (nums h) (JObj (edit kvs))) else None)
            | JArr xs \<Rightarrow> Some (if present (edit []) then Some (stringify (nums h) ctx) else None)
            | JNull \<Rightarrow> None
            | _ \<Rightarrow> if assigns why \<or> assigns how then None else Some None)))"

definition meta_changed :: "parsed_block \<Rightarrow> bool" where
  "meta_changed b \<longleftrightarrow> b_why b \<noteq> None \<or> b_how b \<noteq> None \<or> b_tags b \<noteq> None"

text \<open>The versioned content update with its journal write suppressed.\<close>

definition apply_content :: "host \<Rightarrow> jstr \<Rightarrow> jstr \<Rightarrow> parsed_block \<Rightarrow> db \<Rightarrow> tool_error + db" where
  "apply_content h i currentContent b d =
    (if b_content b = currentContent then Inr d
     else (case update h i (b_content b) True d of
         None \<Rightarrow> Inl syntax_error
       | Some (ok, d1) \<Rightarrow> if ok then Inr d1 else Inl (Update_Failed i)))"

definition apply_meta :: "host \<Rightarrow> jstr \<Rightarrow> parsed_block \<Rightarrow> db \<Rightarrow> tool_error + db" where
  "apply_meta h i b d = (case row_of d i of
      None \<Rightarrow> Inl type_error
    | Some row \<Rightarrow> (case edited_context h (r_context row) (b_why b) (b_how b) of
          None \<Rightarrow> Inl type_error
        | Some context \<Rightarrow>
            (let tags = (case b_tags b of None \<Rightarrow> r_tags row | Some ts \<Rightarrow> Some (stringify (nums h) (JArr (map JStr ts)))) in
             Inr (exec_update h (has_id i) (\<lambda>r. r\<lparr> r_context := context, r_tags := tags \<rparr>) d))))"

definition applyRecordUpdate :: "host \<Rightarrow> jstr \<Rightarrow> jstr \<Rightarrow> parsed_block \<Rightarrow> db \<Rightarrow> tool_error + db" where
  "applyRecordUpdate h i currentContent b d =
     bindE (apply_content h i currentContent b d) (\<lambda>d1.
       if \<not> meta_changed b then Inr (if b_content b \<noteq> currentContent then journalUpsertForId h i d1 else d1)
       else bindE (apply_meta h i b d1) (\<lambda>d2. Inr (journalUpsertForId h i d2)))"

section \<open>Planning a token-less block\<close>

definition block_context :: "parsed_block \<Rightarrow> context_input" where
  "block_context b =
    (let why = (case b_why b of Some (Some s) \<Rightarrow> Some s | _ \<Rightarrow> None);
         how = (case b_how b of Some (Some s) \<Rightarrow> Some s | _ \<Rightarrow> None);
         member = (\<lambda>k v. case v of None \<Rightarrow> [] | Some s \<Rightarrow> [(k, JStr s)])
     in if (why \<noteq> None \<and> why \<noteq> Some []) \<or> (how \<noteq> None \<and> how \<noteq> Some [])
        then Some (member (js ''why'') why @ member (js ''how_to_apply'') how) else None)"

definition block_input :: "parsed_block \<Rightarrow> memory_kind \<Rightarrow> jstr option \<Rightarrow> create_input" where
  "block_input b kind project = \<lparr> ci_content = b_content b, ci_kind = kind,
     ci_tags = Some (case b_tags b of None \<Rightarrow> [] | Some ts \<Rightarrow> ts), ci_project = project, ci_source = None,
     ci_client = None, ci_confidence = None, ci_expires = None, ci_fingerprint = None, ci_context = block_context b,
     ci_embedding = None, ci_anchor = None, ci_created = None, ci_skip_dedup = True, ci_skip_conflicts = False,
     ci_suppressed = False \<rparr>"

definition write_failure :: "write_error \<Rightarrow> tool_error" where
  "write_failure e = (case e of Rule_Write \<Rightarrow> Store_Error ''rule memories require the governance repository''
     | Thrown \<Rightarrow> syntax_error | Constraint_Failed \<Rightarrow> Store_Error ''SQLITE_CONSTRAINT_PRIMARYKEY'')"

text \<open>The ids created so far and the store, after one block.\<close>

definition executeCreatePlan ::
  "host \<Rightarrow> search_env \<Rightarrow> category \<Rightarrow> jstr option \<Rightarrow> parsed_block \<Rightarrow> jstr list \<times> db \<Rightarrow> tool_error + (jstr list \<times> db)" where
  "executeCreatePlan h se cat project b st = (case st of (created, d) \<Rightarrow>
    (let kind = hd (CATEGORY_KINDS cat) in
     case findSimilar h se (b_content b) project kind None d of
       None \<Rightarrow> Inl syntax_error
     | Some (Some m) \<Rightarrow>
         if r_id m \<in> set created then Inl Duplicate_Within_Command else Inl (Duplicate_Existing_Record (r_id m))
     | Some None \<Rightarrow> (case create h se (block_input b kind project) d of
           Inl e \<Rightarrow> Inl (write_failure e)
         | Inr (res, d1) \<Rightarrow> (case ca_superseded (cw_conflict res) of
               Some i \<Rightarrow>
                 if i = [] then Inr (created @ [cw_id res], d1)
                 else if i \<in> set created then Inl Supersede_Within_Command else Inl (Would_Supersede_Record i)
             | None \<Rightarrow> Inr (created @ [cw_id res], d1)))))"

definition plannerErrorToContract ::
  "host \<Rightarrow> tool_error \<Rightarrow> category \<Rightarrow> jstr option \<Rightarrow> jstr \<Rightarrow> db \<Rightarrow> tool_error" where
  "plannerErrorToContract h err cat project path d =
    (let conv = (\<lambda>i f. case findById h i (memories d) of
           None \<Rightarrow> syntax_error
         | Some None \<Rightarrow> Conflict_Target_Missing path
         | Some (Some m) \<Rightarrow> f (canonicalTokenFor h m cat project d))
     in (case err of
          Duplicate_Existing_Record i \<Rightarrow> conv i (\<lambda>t. Duplicate_Of_Existing t path)
        | Would_Supersede_Record i \<Rightarrow> conv i (\<lambda>t. Would_Supersede t path)
        | _ \<Rightarrow> err))"

end
