(* ===== verification/Command_Handlers.thy ===== *)
theory Command_Handlers
  imports Cas_Edits
begin

text \<open>
  The memory tool's commands, \<open>src/memory-tool/command-handlers.ts\<close>, with the listings of
  \<open>src/memory-tool/listings.ts\<close>.  A command takes the state of the tool, which is the database and the
  cache of frozen renderings, and answers a text or an error with the new state.  A transaction that
  throws leaves the database as it was; the cache is outside the transaction, so a command that fails
  may have rendered.

  The repository of plans is a parameter: the active plans with their projects, in the order the
  queries give them.  \<open>now\<close> is the clock of the cache.  SQLite does not say in which order it returns the
  distinct projects of the root listing; here they come in the order of the rows.
\<close>

record tool_env =
  te_host :: host
  te_search :: search_env
  te_now :: int
  te_plans :: "(jstr option \<times> active_plan) list"

record tool_state =
  ts_db :: db
  ts_cache :: render_cache

type_synonym answer = "(tool_error + jstr) \<times> tool_state"

text \<open>\<open>planRepo.getActive(project)\<close>\<close>

definition getActive :: "tool_env \<Rightarrow> jstr \<Rightarrow> active_plan option" where
  "getActive te project = map_option snd (find (\<lambda>(p, _). p = Some project) (te_plans te))"

section \<open>Listings\<close>

definition LISTABLE_CATEGORIES :: "category list" where
  "LISTABLE_CATEGORIES = filter (\<lambda>c. c \<noteq> Plan) category_entries"

definition categoryPath :: "jstr option \<Rightarrow> category \<Rightarrow> jstr" where
  "categoryPath project category =
     MEMORY_ROOT @ [47] @ scope_dir project @ [47] @ category_str category @ js ''.md''"

text \<open>\<open>materializeView\<close> on the state.\<close>

definition materialize :: "tool_env \<Rightarrow> jstr \<Rightarrow> jstr option \<Rightarrow> category \<Rightarrow> bool \<Rightarrow> tool_state \<Rightarrow> jstr list \<times> tool_state" where
  "materialize te path project cat ranged s =
    (case materializeView (te_host te) (te_now te) (memories (ts_db s)) path project cat ranged (ts_cache s) of
       None \<Rightarrow> ([], s)
     | Some (v, c') \<Rightarrow> (mr_lines v, s\<lparr> ts_cache := c' \<rparr>))"

fun category_listing :: "tool_env \<Rightarrow> jstr option \<Rightarrow> category list \<Rightarrow> tool_state \<Rightarrow> listing_entry list \<times> tool_state" where
  "category_listing te project [] s = ([], s)"
| "category_listing te project (cat # cs) s =
    (if project \<noteq> None \<and> cat = User_Profile_File then category_listing te project cs s
     else if activeRows project (CATEGORY_KINDS cat) (memories (ts_db s)) = [] then category_listing te project cs s
     else (case materialize te (categoryPath project cat) project cat False s of (ls, s1) \<Rightarrow>
       (case category_listing te project cs s1 of (es, s2) \<Rightarrow>
         (\<lparr> le_path = categoryPath project cat, le_bytes = byte_length (join [10] ls) \<rparr> # es, s2))))"

definition directoryEntries :: "tool_env \<Rightarrow> jstr option \<Rightarrow> tool_state \<Rightarrow> listing_entry list \<times> tool_state" where
  "directoryEntries te project s = (case category_listing te project LISTABLE_CATEGORIES s of (es, s1) \<Rightarrow>
     (es @ (case project of None \<Rightarrow> []
        | Some p \<Rightarrow> (case getActive te p of None \<Rightarrow> []
            | Some plan \<Rightarrow> [\<lparr> le_path = categoryPath project Plan,
                le_bytes = byte_length (join [10] (renderPlanLines plan)) \<rparr>])), s1))"

definition listed_projects :: "tool_env \<Rightarrow> db \<Rightarrow> jstr option list" where
  "listed_projects te d =
     dedup (map r_project (filter (\<lambda>r. active r \<and> r_kind r \<noteq> Rule) (memories d)) @ map fst (te_plans te))"

fun project_listings :: "tool_env \<Rightarrow> jstr option list \<Rightarrow> tool_state \<Rightarrow> listing_entry list \<times> tool_state" where
  "project_listings te [] s = ([], s)"
| "project_listings te (p # ps) s = (case directoryEntries te p s of (es, s1) \<Rightarrow>
     (case project_listings te ps s1 of (fs, s2) \<Rightarrow> (es @ fs, s2)))"

definition rootEntries :: "tool_env \<Rightarrow> tool_state \<Rightarrow> listing_entry list \<times> tool_state" where
  "rootEntries te s = (case project_listings te (listed_projects te (ts_db s)) s of (es, s1) \<Rightarrow>
     (es @ map (\<lambda>f. \<lparr> le_path = mf_path f, le_bytes = byte_length (mf_content f) \<rparr>)
        (sort_key (\<lambda>f. utf8_encode (mf_path f)) (files (ts_db s))), s1))"

section \<open>Helpers\<close>

definition canonicalDir :: "jstr option \<Rightarrow> jstr" where
  "canonicalDir project = MEMORY_ROOT @ [47] @ scope_dir project"

definition materializedLines ::
  "tool_env \<Rightarrow> jstr option \<Rightarrow> category \<Rightarrow> bool \<Rightarrow> tool_state \<Rightarrow> (tool_error + jstr list) \<times> tool_state" where
  "materializedLines te project cat ranged s =
    (let path = categoryPath project cat in
     if cat = Plan then
       (case project of None \<Rightarrow> (Inl (Nonexistent path), s)
        | Some p \<Rightarrow> (case getActive te p of None \<Rightarrow> (Inl (Nonexistent path), s)
            | Some plan \<Rightarrow> (Inr (renderPlanLines plan), s)))
     else (case materialize te path project cat ranged s of (ls, s1) \<Rightarrow>
       if ls = [] then (Inl (Nonexistent path), s1) else (Inr ls, s1)))"

definition drop_cached :: "jstr \<Rightarrow> tool_state \<Rightarrow> tool_state" where
  "drop_cached path s = s\<lparr> ts_cache := invalidate path (ts_cache s) \<rparr>"

text \<open>\<open>run.immediate()\<close> inside \<open>runPlanned\<close>: on an error the store is what it was, the marker is converted
  against it; on success the store is the new one and the path leaves the cache.\<close>

definition run_planned ::
  "tool_env \<Rightarrow> category \<Rightarrow> jstr option \<Rightarrow> jstr \<Rightarrow> (db \<Rightarrow> tool_error + db) \<Rightarrow> tool_state \<Rightarrow> (tool_error + unit) \<times> tool_state" where
  "run_planned te cat project path body s = (case body (ts_db s) of
      Inl e \<Rightarrow> (Inl (plannerErrorToContract (te_host te) e cat project path (ts_db s)), s)
    | Inr d' \<Rightarrow> (Inr (), drop_cached path (s\<lparr> ts_db := d' \<rparr>)))"

definition create_all ::
  "tool_env \<Rightarrow> category \<Rightarrow> jstr option \<Rightarrow> parsed_block list \<Rightarrow> db \<Rightarrow> tool_error + db" where
  "create_all te cat project blocks d =
     bindE (foldE (executeCreatePlan (te_host te) (te_search te) cat project) blocks ([], d)) (\<lambda>(_, d'). Inr d')"

definition parsed :: "tool_env \<Rightarrow> jstr \<Rightarrow> tool_error + parsed_block list" where
  "parsed te text = (case parseBlocks (te_host te) text of Inl e \<Rightarrow> Inl (Bad_Block e) | Inr bs \<Rightarrow> Inr bs)"

definition routed :: "jstr \<Rightarrow> tool_error + routed_path" where
  "routed raw = (case routeMemoryPath raw of Inl e \<Rightarrow> Inl (Bad_Path e) | Inr r \<Rightarrow> Inr r)"

text \<open>A free-form operation: the store of a failure is not kept.\<close>

definition free_form :: "tool_error + (jstr \<times> db) \<Rightarrow> tool_state \<Rightarrow> answer" where
  "free_form r s = (case r of Inl e \<Rightarrow> (Inl e, s) | Inr (text, d') \<Rightarrow> (Inr text, s\<lparr> ts_db := d' \<rparr>))"

section \<open>view\<close>

definition view :: "tool_env \<Rightarrow> jstr \<Rightarrow> (number \<times> number) option \<Rightarrow> tool_state \<Rightarrow> answer" where
  "view te raw viewRange s = (case routed raw of
      Inl e \<Rightarrow> (Inl e, s)
    | Inr Root \<Rightarrow> (case rootEntries te s of (es, s1) \<Rightarrow> (Inr (renderDirectoryListing MEMORY_ROOT es), s1))
    | Inr (Directory project) \<Rightarrow> (case directoryEntries te project s of (es, s1) \<Rightarrow>
        if es = [] then (Inl (Nonexistent raw), s1)
        else (Inr (renderDirectoryListing (canonicalDir project) es), s1))
    | Inr (Free_Form path) \<Rightarrow> (case readFreeForm path (ts_db s) of
          None \<Rightarrow> (Inl (Nonexistent path), s)
        | Some content \<Rightarrow> (renderFileView path (split_on 10 content) viewRange, s))
    | Inr (Materialized project cat ro) \<Rightarrow>
        (case materializedLines te project cat (viewRange \<noteq> None) s of
           (Inl e, s1) \<Rightarrow> (Inl e, s1)
         | (Inr ls, s1) \<Rightarrow> (renderFileView (categoryPath project cat) ls viewRange, s1)))"

section \<open>create\<close>

definition created_text :: "jstr \<Rightarrow> jstr" where
  "created_text path = js ''File created successfully at: '' @ path"

definition create_body ::
  "tool_env \<Rightarrow> category \<Rightarrow> jstr option \<Rightarrow> parsed_block list \<Rightarrow> db \<Rightarrow> tool_error + db" where
  "create_body te cat project blocks d =
    (if activeRows project (CATEGORY_KINDS cat) (memories d) \<noteq> [] then Inl (Already_Exists (categoryPath project cat))
     else create_all te cat project blocks d)"

definition create_file :: "tool_env \<Rightarrow> jstr \<Rightarrow> jstr \<Rightarrow> tool_state \<Rightarrow> answer" where
  "create_file te raw fileText s = (case routed raw of
      Inl e \<Rightarrow> (Inl e, s)
    | Inr Root \<Rightarrow> (Inl (Is_Directory raw), s)
    | Inr (Directory p) \<Rightarrow> (Inl (Is_Directory raw), s)
    | Inr (Free_Form path) \<Rightarrow> (case writeFreeForm (te_host te) path fileText (ts_db s) of
          Inl e \<Rightarrow> (Inl e, s)
        | Inr d' \<Rightarrow> (Inr (created_text path), s\<lparr> ts_db := d' \<rparr>))
    | Inr (Materialized project cat ro) \<Rightarrow>
        if ro \<or> cat = Plan then (Inl (Read_Only_Plan raw), s)
        else (case parsed te fileText of
            Inl e \<Rightarrow> (Inl e, s)
          | Inr blocks \<Rightarrow>
              if list_ex (\<lambda>b. b_token b \<noteq> None) blocks then (Inl Create_Tokenless, s)
              else (case run_planned te cat project (categoryPath project cat) (create_body te cat project blocks) s of
                  (Inl e, s1) \<Rightarrow> (Inl e, s1)
                | (Inr _, s1) \<Rightarrow> (Inr (created_text (categoryPath project cat)), s1))))"

section \<open>str\_replace\<close>

record edit_state =
  ed_db :: db
  ed_created :: "jstr list"
  ed_used :: "jstr list"

definition replace_block ::
  "tool_env \<Rightarrow> category \<Rightarrow> jstr option \<Rightarrow> resolved_record list \<Rightarrow> parsed_block \<Rightarrow> edit_state \<Rightarrow> tool_error + edit_state" where
  "replace_block te cat project resolved b st = (case b_token b of
      None \<Rightarrow> bindE (executeCreatePlan (te_host te) (te_search te) cat project b (ed_created st, ed_db st))
        (\<lambda>(created, d'). Inr (st\<lparr> ed_created := created, ed_db := d' \<rparr>))
    | Some t \<Rightarrow> (case t_get rr_prefix (t_prefix t) resolved of
          None \<Rightarrow> Inl (New_Token_Mismatch (tokenText t))
        | Some m \<Rightarrow>
            if t_code (rr_token m) \<noteq> t_code t \<or> t_revision (rr_token m) \<noteq> t_revision t
            then Inl (New_Token_Mismatch (tokenText t))
            else if t_prefix t \<in> set (ed_used st) then Inl (New_Token_Duplicate (tokenText t))
            else bindE (applyRecordUpdate (te_host te) (r_id (rr_record m)) (r_content (rr_record m)) b (ed_db st))
              (\<lambda>d'. Inr (st\<lparr> ed_used := ed_used st @ [t_prefix t], ed_db := d' \<rparr>))))"

definition replace_body ::
  "tool_env \<Rightarrow> category \<Rightarrow> jstr option \<Rightarrow> parsed_block list \<Rightarrow> parsed_block list \<Rightarrow> db \<Rightarrow> tool_error + db" where
  "replace_body te cat project oldBlocks newBlocks d =
     bindE (verifyOldBlocks (te_host te) oldBlocks project cat (categoryPath project cat) d) (\<lambda>resolved.
     bindE (foldE (replace_block te cat project resolved) newBlocks \<lparr> ed_db = d, ed_created = [], ed_used = [] \<rparr>) (\<lambda>st.
       let dropped = map (\<lambda>x. r_id (rr_record x)) (filter (\<lambda>x. rr_prefix x \<notin> set (ed_used st)) resolved)
       in Inr (snd (retireIdsByInvalidation (te_host te) False dropped (ed_db st)))))"

definition strReplace :: "tool_env \<Rightarrow> jstr \<Rightarrow> jstr \<Rightarrow> jstr option \<Rightarrow> tool_state \<Rightarrow> answer" where
  "strReplace te raw oldStr newStr s = (case routed raw of
      Inl e \<Rightarrow> (Inl e, s)
    | Inr Root \<Rightarrow> (Inl (Nonexistent raw), s)
    | Inr (Directory p) \<Rightarrow> (Inl (Nonexistent raw), s)
    | Inr (Free_Form path) \<Rightarrow>
        free_form (freeFormReplace (te_host te) path oldStr (case newStr of None \<Rightarrow> [] | Some x \<Rightarrow> x) (ts_db s)) s
    | Inr (Materialized project cat ro) \<Rightarrow>
        if ro \<or> cat = Plan then (Inl (Read_Only_Plan raw), s)
        else (case parsed te oldStr of
            Inl e \<Rightarrow> (Inl e, s)
          | Inr oldBlocks \<Rightarrow>
              if list_ex (\<lambda>b. b_token b = None) oldBlocks then (Inl Old_Str_Must_Be_Tokened, s)
              else (case (if newStr = None \<or> newStr = Some [] then Inr [] else parsed te (the newStr)) of
                  Inl e \<Rightarrow> (Inl e, s)
                | Inr newBlocks \<Rightarrow>
                    (let path = categoryPath project cat in
                     case run_planned te cat project path (replace_body te cat project oldBlocks newBlocks) s of
                       (Inl e, s1) \<Rightarrow> (Inl e, s1)
                     | (Inr _, s1) \<Rightarrow> (case materializedLines te project cat False s1 of
                           (Inl e, s2) \<Rightarrow> (Inl e, s2)
                         | (Inr ls, s2) \<Rightarrow> (case renderFileView path ls None of
                               Inl e \<Rightarrow> (Inl e, s2)
                             | Inr snippet \<Rightarrow> (Inr (js ''The memory file has been edited.'' @ [10] @ snippet), s2)))))))"

section \<open>insert\<close>

definition insert_records :: "tool_env \<Rightarrow> jstr \<Rightarrow> jstr option \<Rightarrow> category \<Rightarrow> number \<Rightarrow> parsed_block list \<Rightarrow> tool_state \<Rightarrow> answer" where
  "insert_records te path project cat insertLine blocks s =
    (case materializedLines te project cat False s of
       (Inl e, s1) \<Rightarrow> (Inl (plannerErrorToContract (te_host te) e cat project path (ts_db s1)), s1)
     | (Inr rendered, s1) \<Rightarrow>
         if (case safe_int insertLine of None \<Rightarrow> True | Some k \<Rightarrow> k < 0 \<or> int (length rendered) < k)
         then (Inl (Invalid_Insert_Line insertLine (length rendered)), s1)
         else (case run_planned te cat project path (create_all te cat project blocks) s1 of
             (Inl e, s2) \<Rightarrow> (Inl e, s2)
           | (Inr _, s2) \<Rightarrow> (Inr (js ''The file '' @ path @ js '' has been edited.''), s2)))"

definition insert_text :: "tool_env \<Rightarrow> jstr \<Rightarrow> number \<Rightarrow> jstr \<Rightarrow> tool_state \<Rightarrow> answer" where
  "insert_text te raw insertLine insertText s = (case routed raw of
      Inl e \<Rightarrow> (Inl e, s)
    | Inr Root \<Rightarrow> (Inl (Nonexistent raw), s)
    | Inr (Directory p) \<Rightarrow> (Inl (Nonexistent raw), s)
    | Inr (Free_Form path) \<Rightarrow> free_form (freeFormInsert (te_host te) path insertLine insertText (ts_db s)) s
    | Inr (Materialized project cat ro) \<Rightarrow>
        if ro \<or> cat = Plan then (Inl (Read_Only_Plan raw), s)
        else (case parsed te insertText of
            Inl e \<Rightarrow> (Inl e, s)
          | Inr blocks \<Rightarrow>
              if list_ex (\<lambda>b. b_token b \<noteq> None) blocks then (Inl Insert_Tokenless, s)
              else insert_records te (categoryPath project cat) project cat insertLine blocks s))"

section \<open>delete\<close>

definition delete_body :: "tool_env \<Rightarrow> jstr option \<Rightarrow> category \<Rightarrow> db \<Rightarrow> tool_error + (nat \<times> db)" where
  "delete_body te project cat d =
    (let rows = activeRows project (CATEGORY_KINDS cat) (memories d) in
     if rows = [] then Inl (Nonexistent (categoryPath project cat))
     else Inr (retireIdsByInvalidation (te_host te) False (map fst rows) d))"

definition deleteDirectory_body :: "tool_env \<Rightarrow> jstr option \<Rightarrow> db \<Rightarrow> tool_error + (nat \<times> nat \<times> db)" where
  "deleteDirectory_body te project d =
    (let dir = canonicalDir project in
     if (case project of None \<Rightarrow> False | Some p \<Rightarrow> getActive te p \<noteq> None) then Inl (Dir_Contains_Plan dir)
     else
       (let ids = map r_id (filter (in_scope project (vfsOwnedKinds project)) (memories d));
            (records, d1) = retireIdsByInvalidation (te_host te) False ids d;
            (fs, d2) = freeFormDeleteUnder dir d1
        in if records + fs = 0 then Inl (Nonexistent dir) else Inr (records, fs, d2)))"

definition deleteDirectory :: "tool_env \<Rightarrow> jstr option \<Rightarrow> tool_state \<Rightarrow> answer" where
  "deleteDirectory te project s = (case deleteDirectory_body te project (ts_db s) of
      Inl e \<Rightarrow> (Inl e, s)
    | Inr (records, fs, d') \<Rightarrow>
        (Inr (js ''Successfully deleted '' @ canonicalDir project @ [10] @ js ''('' @ show_nat records @
           js '' records invalidated, '' @ show_nat fs @ js '' files deleted)''),
         s\<lparr> ts_db := d', ts_cache := invalidateAll (ts_cache s) \<rparr>))"

definition delete_path :: "tool_env \<Rightarrow> jstr \<Rightarrow> tool_state \<Rightarrow> answer" where
  "delete_path te raw s = (case routed raw of
      Inl e \<Rightarrow> (Inl e, s)
    | Inr Root \<Rightarrow> (Inl (Cannot_Delete_Root MEMORY_ROOT), s)
    | Inr (Directory project) \<Rightarrow> deleteDirectory te project s
    | Inr (Free_Form path) \<Rightarrow> free_form (freeFormDelete path (ts_db s)) s
    | Inr (Materialized project cat ro) \<Rightarrow>
        if ro \<or> cat = Plan then (Inl (Read_Only_Plan raw), s)
        else (case delete_body te project cat (ts_db s) of
            Inl e \<Rightarrow> (Inl e, s)
          | Inr (n, d') \<Rightarrow> (Inr (js ''Successfully deleted '' @ categoryPath project cat @ [10] @ js ''('' @ show_nat n @
                js '' records invalidated)''), drop_cached (categoryPath project cat) (s\<lparr> ts_db := d' \<rparr>))))"

section \<open>rename\<close>

definition move_row :: "host \<Rightarrow> jstr option \<Rightarrow> jstr \<Rightarrow> db \<Rightarrow> db" where
  "move_row h project i d = exec_update h (has_id i) (\<lambda>r. r\<lparr> r_project := project \<rparr>) d"

definition rename_body ::
  "tool_env \<Rightarrow> category \<Rightarrow> jstr option \<Rightarrow> jstr option \<Rightarrow> db \<Rightarrow> tool_error + db" where
  "rename_body te cat src dst d =
    (let kinds = CATEGORY_KINDS cat; h = te_host te;
         source = map fst (activeRows src kinds (memories d)) in
     if source = [] then Inl (Nonexistent (categoryPath src cat))
     else if activeRows dst kinds (memories d) \<noteq> [] then Inl (Destination_Exists (categoryPath dst cat))
     else Inr (journalUpsertsForIds h False source
       (fold (move_row h dst) source (journalTombstonesForIds h False source d))))"

definition materializedRename ::
  "tool_env \<Rightarrow> jstr \<Rightarrow> jstr \<Rightarrow> jstr option \<times> category \<times> bool \<Rightarrow> jstr option \<times> category \<times> bool \<Rightarrow> tool_state \<Rightarrow> answer" where
  "materializedRename te rawOld rawNew src dst s = (case (src, dst) of ((p, cat, ro), (p', cat', ro')) \<Rightarrow>
     if ro \<or> cat = Plan then (Inl (Read_Only_Plan rawOld), s)
     else if ro' \<or> cat' = Plan then (Inl (Read_Only_Plan rawNew), s)
     else if cat \<noteq> cat' then (Inl Cross_Category_Rename, s)
     else (case rename_body te cat p p' (ts_db s) of
         Inl e \<Rightarrow> (Inl e, s)
       | Inr d' \<Rightarrow> (Inr (js ''Successfully renamed '' @ categoryPath p cat @ js '' to '' @ categoryPath p' cat),
           drop_cached (categoryPath p' cat) (drop_cached (categoryPath p cat) (s\<lparr> ts_db := d' \<rparr>)))))"

definition rename_path :: "tool_env \<Rightarrow> jstr \<Rightarrow> jstr \<Rightarrow> tool_state \<Rightarrow> answer" where
  "rename_path te rawOld rawNew s = (case routed rawOld of
      Inl e \<Rightarrow> (Inl e, s)
    | Inr oldRoute \<Rightarrow> (case routed rawNew of
          Inl e \<Rightarrow> (Inl e, s)
        | Inr newRoute \<Rightarrow>
            if oldRoute = Root \<or> newRoute = Root then (Inl (Cannot_Rename_Root MEMORY_ROOT), s)
            else (case (oldRoute, newRoute) of
                (Free_Form a, Free_Form b) \<Rightarrow> free_form (freeFormRename (te_host te) a b (ts_db s)) s
              | (Materialized p c ro, Materialized p' c' ro') \<Rightarrow>
                  materializedRename te rawOld rawNew (p, c, ro) (p', c', ro') s
              | _ \<Rightarrow> (Inl Cross_Domain_Rename, s))))"

section \<open>The SDK adapter\<close>

text \<open>\<open>src/memory-tool/sdk-adapter.ts\<close>: the commands the SDK runner sends.\<close>

datatype command =
    View_Command jstr "number list option"
  | Create_Command jstr jstr
  | Str_Replace_Command jstr jstr "jstr option"
  | Insert_Command jstr number jstr
  | Delete_Command jstr
  | Rename_Command jstr jstr

definition toViewRange :: "number list option \<Rightarrow> tool_error + (number \<times> number) option" where
  "toViewRange raw = (case raw of
      None \<Rightarrow> Inr None
    | Some [a, b] \<Rightarrow>
        if safe_int a \<noteq> None \<and> safe_int b \<noteq> None then Inr (Some (a, b))
        else Inl (Invalid_View_Range_Shape (JArr [JNum a, JNum b]))
    | Some ns \<Rightarrow> Inl (Invalid_View_Range_Shape (JArr (map JNum ns))))"

fun run_command :: "tool_env \<Rightarrow> command \<Rightarrow> tool_state \<Rightarrow> answer" where
  "run_command te (View_Command path viewRange) s = (case toViewRange viewRange of
      Inl e \<Rightarrow> (Inl e, s) | Inr vr \<Rightarrow> view te path vr s)"
| "run_command te (Create_Command path text) s = create_file te path text s"
| "run_command te (Str_Replace_Command path old new) s = strReplace te path old new s"
| "run_command te (Insert_Command path line text) s = insert_text te path line text s"
| "run_command te (Delete_Command path) s = delete_path te path s"
| "run_command te (Rename_Command old new) s = rename_path te old new s"

end
