(* ===== verification/Command_Facts.thy ===== *)
theory Command_Facts
  imports Command_Handlers
begin

text \<open>
  What an edit of the store may do: \<open>sound_edit S d d'\<close> says that the rows outside the scope \<open>S\<close> are the
  same before and after, ids stay unique, and every shareable row that was changed, removed from its
  project, added to one or created has an entry of its project in the journal.  Sound edits compose,
  and every step of the memory tool is one.
\<close>

section \<open>Sound edits\<close>

definition admissible :: "memory_row \<Rightarrow> bool" where
  "admissible r \<longleftrightarrow> isJournalAdmissible (r_kind r) (r_project r)"

definition has_entry :: "journal_entry list \<Rightarrow> memory_row \<Rightarrow> bool" where
  "has_entry es r \<longleftrightarrow> (\<exists>j\<in>set es. j_memory j = r_id r \<and> Some (j_project j) = r_project r)"

definition journaled :: "db \<Rightarrow> db \<Rightarrow> bool" where
  "journaled d d' \<longleftrightarrow> (\<exists>new. journal d' = journal d @ new \<and>
     (\<forall>r\<in>set (memories d). admissible r \<and> r \<notin> set (memories d') \<longrightarrow> has_entry new r) \<and>
     (\<forall>r\<in>set (memories d'). admissible r \<and> r \<notin> set (memories d) \<longrightarrow> has_entry new r))"

definition scoped :: "(memory_row \<Rightarrow> bool) \<Rightarrow> db \<Rightarrow> db \<Rightarrow> bool" where
  "scoped S d d' \<longleftrightarrow> filter (\<lambda>r. \<not> S r) (memories d') = filter (\<lambda>r. \<not> S r) (memories d)"

definition sound_edit :: "(memory_row \<Rightarrow> bool) \<Rightarrow> db \<Rightarrow> db \<Rightarrow> bool" where
  "sound_edit S d d' \<longleftrightarrow> t_keyed r_id (memories d') \<and> scoped S d d' \<and> journaled d d'"

lemma has_entry_append [simp]: "has_entry (xs @ ys) r \<longleftrightarrow> has_entry xs r \<or> has_entry ys r"
  by (auto simp: has_entry_def)

lemma journaled_same: "memories d' = memories d \<Longrightarrow> journal d' = journal d \<Longrightarrow> journaled d d'"
  by (auto simp: journaled_def)

lemma journaled_trans:
  assumes "journaled a b" "journaled b c"
  shows "journaled a c"
proof -
  from assms(1) obtain n1 where n1: "journal b = journal a @ n1"
    "\<forall>r\<in>set (memories a). admissible r \<and> r \<notin> set (memories b) \<longrightarrow> has_entry n1 r"
    "\<forall>r\<in>set (memories b). admissible r \<and> r \<notin> set (memories a) \<longrightarrow> has_entry n1 r"
    unfolding journaled_def by blast
  from assms(2) obtain n2 where n2: "journal c = journal b @ n2"
    "\<forall>r\<in>set (memories b). admissible r \<and> r \<notin> set (memories c) \<longrightarrow> has_entry n2 r"
    "\<forall>r\<in>set (memories c). admissible r \<and> r \<notin> set (memories b) \<longrightarrow> has_entry n2 r"
    unfolding journaled_def by blast
  have "journal c = journal a @ (n1 @ n2)" using n1(1) n2(1) by simp
  moreover have "\<forall>r\<in>set (memories a). admissible r \<and> r \<notin> set (memories c) \<longrightarrow> has_entry (n1 @ n2) r"
    using n1(2) n2(2) by fastforce
  moreover have "\<forall>r\<in>set (memories c). admissible r \<and> r \<notin> set (memories a) \<longrightarrow> has_entry (n1 @ n2) r"
    using n1(3) n2(3) by fastforce
  ultimately show ?thesis unfolding journaled_def by blast
qed

lemma sound_edit_trans: "sound_edit S a b \<Longrightarrow> sound_edit S b c \<Longrightarrow> sound_edit S a c"
  unfolding sound_edit_def scoped_def using journaled_trans by fastforce

lemma sound_edit_same:
  "t_keyed r_id (memories d) \<Longrightarrow> memories d' = memories d \<Longrightarrow> journal d' = journal d \<Longrightarrow> sound_edit S d d'"
  by (simp add: sound_edit_def scoped_def journaled_same)

lemma sound_edit_keyed: "sound_edit S d d' \<Longrightarrow> t_keyed r_id (memories d')"
  by (simp add: sound_edit_def)

text \<open>An UPDATE that stays in scope and is journaled is a sound edit.\<close>

lemma scoped_map:
  assumes "\<And>r. r \<in> set rows \<Longrightarrow> S r \<Longrightarrow> S (f r)" "\<And>r. r \<in> set rows \<Longrightarrow> \<not> S r \<Longrightarrow> f r = r"
  shows "filter (\<lambda>r. \<not> S r) (map f rows) = filter (\<lambda>r. \<not> S r) rows"
  using assms by (induction rows) auto

lemma sound_edit_map:
  assumes keyed: "t_keyed r_id (memories d)" and mem: "memories d' = map f (memories d)"
    and jrn: "journal d' = journal d @ new"
    and ids: "\<And>r. r_id (f r) = r_id r"
    and scope: "\<And>r. r \<in> set (memories d) \<Longrightarrow> f r \<noteq> r \<Longrightarrow> S r \<and> S (f r)"
    and entry: "\<And>r. r \<in> set (memories d) \<Longrightarrow> f r \<noteq> r \<Longrightarrow> admissible r \<Longrightarrow> has_entry new r"
      "\<And>r. r \<in> set (memories d) \<Longrightarrow> f r \<noteq> r \<Longrightarrow> admissible (f r) \<Longrightarrow> has_entry new (f r)"
  shows "sound_edit S d d'"
proof -
  have "map r_id (memories d') = map r_id (memories d)" by (simp add: mem ids)
  then have k: "t_keyed r_id (memories d')" using keyed by (simp add: t_keyed_def)
  have "filter (\<lambda>r. \<not> S r) (memories d') = filter (\<lambda>r. \<not> S r) (memories d)"
    unfolding mem by (rule scoped_map) (metis scope)+
  moreover have "journaled d d'" unfolding journaled_def
  proof (intro exI [of _ new] conjI ballI impI)
    show "journal d' = journal d @ new" by (rule jrn)
  next
    fix r
    assume r: "r \<in> set (memories d)" "admissible r \<and> r \<notin> set (memories d')"
    then have "f r \<noteq> r" using mem by force
    with entry(1) r show "has_entry new r" by blast
  next
    fix r'
    assume r': "r' \<in> set (memories d')" "admissible r' \<and> r' \<notin> set (memories d)"
    then obtain r where "r \<in> set (memories d)" "r' = f r" using mem by auto
    with entry(2) r' show "has_entry new r'" by metis
  qed
  ultimately show ?thesis using k by (simp add: sound_edit_def scoped_def)
qed

lemma sound_edit_append:
  assumes keyed: "t_keyed r_id (memories d)" and mem: "memories d' = memories d @ [row]"
    and fresh: "t_get r_id (r_id row) (memories d) = None" and scope: "S row"
    and jrn: "journal d' = journal d @ new" and entry: "admissible row \<Longrightarrow> has_entry new row"
  shows "sound_edit S d d'"
proof -
  have "t_keyed r_id (memories d')" using keyed fresh by (auto simp: mem t_keyed_def t_get_None)
  moreover have "scoped S d d'" using scope by (simp add: scoped_def mem)
  moreover have "journaled d d'" unfolding journaled_def
    using entry jrn by (intro exI [of _ new]) (auto simp: mem)
  ultimately show ?thesis by (simp add: sound_edit_def)
qed

section \<open>Journal writers\<close>

lemma journalMutation_entry:
  "\<exists>new. journal (journalMutation h False i d) = journal d @ new \<and>
    (isJournalAdmissible (ji_kind i) (ji_project i) \<longrightarrow>
      (\<exists>j\<in>set new. j_memory j = ji_memory i \<and> Some (j_project j) = ji_project i))"
  by (auto simp: journalMutation_def journal_row_def isJournalAdmissible_def)

lemma journal_rows_entries:
  "\<exists>new. journal (journal_rows h op rs d) = journal d @ new \<and> (\<forall>r\<in>set rs. admissible r \<longrightarrow> has_entry new r)"
proof -
  obtain new where n: "journal (journal_rows h op rs d) = journal d @ new" "map entry_content new = map (row_entry op) rs"
    using journal_rows_content by blast
  have "has_entry new r" if r: "r \<in> set rs" "admissible r" for r
  proof -
    from r(1) have "row_entry op r \<in> set (map entry_content new)" unfolding n(2) by simp
    then obtain j where "j \<in> set new" "entry_content j = row_entry op r" by auto
    with r(2) show ?thesis
      by (auto simp: has_entry_def entry_content_def row_entry_def admissible_def isJournalAdmissible_def intro!: bexI [of _ j])
  qed
  with n(1) show ?thesis by blast
qed

lemma admissible_row_iff: "admissible_row ids r \<longleftrightarrow> r_id r \<in> set ids \<and> admissible r"
  by (auto simp: admissible_row_def admissible_def isJournalAdmissible_def)

lemma journal_helpers_entries:
  "\<exists>new. journal (journalTombstonesForIds h False ids d) = journal d @ new \<and>
    (\<forall>r\<in>set (memories d). r_id r \<in> set ids \<and> admissible r \<longrightarrow> has_entry new r)"
  "\<exists>new. journal (journalUpsertsForIds h False ids d) = journal d @ new \<and>
    (\<forall>r\<in>set (memories d). r_id r \<in> set ids \<and> admissible r \<longrightarrow> has_entry new r)"
  using journal_rows_entries [of h J_Tombstone "filter (admissible_row ids) (memories d)" d]
    journal_rows_entries [of h J_Upsert "filter (admissible_row ids) (memories d)" d]
  by (auto simp: journalTombstonesForIds_def journalUpsertsForIds_def admissible_row_iff)

section \<open>Retirement\<close>

text \<open>The rows of the ids given lie in the scope.\<close>

definition ids_in :: "(memory_row \<Rightarrow> bool) \<Rightarrow> jstr list \<Rightarrow> db \<Rightarrow> bool" where
  "ids_in S ids d \<longleftrightarrow> (\<forall>r\<in>set (memories d). r_id r \<in> set ids \<longrightarrow> S r)"

text \<open>A scope is a set of projects and kinds.\<close>

definition static_scope :: "(memory_row \<Rightarrow> bool) \<Rightarrow> bool" where
  "static_scope S \<longleftrightarrow> (\<forall>r r'. r_project r = r_project r' \<and> r_kind r = r_kind r' \<longrightarrow> S r = S r')"

lemma static_scopeD: "static_scope S \<Longrightarrow> S r \<Longrightarrow> r_project r' = r_project r \<Longrightarrow> r_kind r' = r_kind r \<Longrightarrow> S r'"
  by (metis static_scope_def)

lemma retire_sound:
  assumes keyed: "t_keyed r_id (memories d)" and S: "static_scope S" "ids_in S ids d"
  shows "sound_edit S d (snd (retireIdsByInvalidation h False ids d))"
proof (cases "ids = []")
  case True
  then show ?thesis using keyed by (simp add: retireIdsByInvalidation_def sound_edit_same)
next
  case False
  let ?f = "\<lambda>r. if retired_row ids r then revision_trigger h (r\<lparr> r_invalidated := 1 \<rparr>) else r"
  let ?d1 = "log_tombstones h Invalidate (retired_row ids) d"
  obtain new where new: "journal (journalTombstonesForIds h False ids ?d1) = journal d @ new"
    "\<forall>r\<in>set (memories d). r_id r \<in> set ids \<and> admissible r \<longrightarrow> has_entry new r"
    using journal_helpers_entries(1) [of h ids ?d1] by auto
  have fields: "r_id (?f r) = r_id r" "r_project (?f r) = r_project r" "r_kind (?f r) = r_kind r" for r
    by (simp_all add: revision_trigger_def)
  have fl: "has_entry new (?f r) = has_entry new r" "admissible (?f r) = admissible r" for r
    unfolding has_entry_def admissible_def fields by simp_all
  have hit: "r_id r \<in> set ids" if "?f r \<noteq> r" for r
    using that by (auto simp: retired_row_def split: if_splits)
  show ?thesis
  proof (rule sound_edit_map [OF keyed])
    show "memories (snd (retireIdsByInvalidation h False ids d)) = map ?f (memories d)"
      using False by (simp add: retireIdsByInvalidation_def Let_def t_update_def)
    show "journal (snd (retireIdsByInvalidation h False ids d)) = journal d @ new"
      using False new(1) by (simp add: retireIdsByInvalidation_def Let_def)
    show "S r \<and> S (?f r)" if "r \<in> set (memories d)" "?f r \<noteq> r" for r
      using that S(2) hit static_scopeD [OF S(1) _ fields(2,3)] by (auto simp: ids_in_def)
    show "has_entry new r" if "r \<in> set (memories d)" "?f r \<noteq> r" "admissible r" for r
      using that new(2) hit by blast
    show "has_entry new (?f r)" if "r \<in> set (memories d)" "?f r \<noteq> r" "admissible (?f r)" for r
      unfolding fl(1) using that(1,3) new(2) hit [OF that(2)] unfolding fl(2) by blast
  qed (rule fields(1))
qed

section \<open>Creating a record\<close>

definition file_scope :: "jstr option \<Rightarrow> memory_kind list \<Rightarrow> memory_row \<Rightarrow> bool" where
  "file_scope project kinds r \<longleftrightarrow> r_project r = project \<and> r_kind r \<in> set kinds"

lemma category_head: "cat \<noteq> Plan \<Longrightarrow> hd (CATEGORY_KINDS cat) \<in> set (CATEGORY_KINDS cat) \<and> hd (CATEGORY_KINDS cat) \<noteq> Rule"
  by (cases cat) auto

text \<open>Without a supersession an insert appends one row and its entry.\<close>

lemma insert_fresh_appends:
  assumes fts: "fts_ok (se_fts se)" and not_suppressed: "\<not> ci_suppressed ci"
    and run: "insert_fresh h se ci content conf d = Inr (res, d')"
    and none: "ca_superseded (cw_conflict res) = None \<or> ca_superseded (cw_conflict res) = Some []"
  obtains i new where "row_of d i = None" "memories d' = memories d @ [fresh_row h se ci i content conf]"
    "journal d' = journal d @ new"
    "isJournalAdmissible (ci_kind ci) (ci_project ci) \<longrightarrow>
      (\<exists>j\<in>set new. j_memory j = i \<and> Some (j_project j) = ci_project ci)"
proof -
  from insert_fresh_effect [OF fts run] obtain i d1 d2 where none_id: "row_of d i = None"
    and d2: "d2 = journalMutation h (ci_suppressed ci) \<lparr> ji_memory = i, ji_project = ci_project ci, ji_kind = ci_kind ci,
      ji_op = J_Upsert, ji_revision = 1, ji_cause = None \<rparr> d1" and j1: "journal d1 = journal d"
    and mem: "memories d2 = memories d @ [fresh_row h se ci i content conf]"
    and alt: "d' = d2 \<or> (\<exists>m. conflict_effect h (ci_suppressed ci) m d2 (cw_conflict res) d')" by blast
  obtain new where new: "journal d2 = journal d @ new"
    and entry: "isJournalAdmissible (ci_kind ci) (ci_project ci) \<longrightarrow>
      (\<exists>j\<in>set new. j_memory j = i \<and> Some (j_project j) = ci_project ci)"
    using journalMutation_entry [of h "\<lparr> ji_memory = i, ji_project = ci_project ci, ji_kind = ci_kind ci,
      ji_op = J_Upsert, ji_revision = 1, ji_cause = None \<rparr>" d1] not_suppressed by (auto simp: d2 j1)
  have same: "memories d' = memories d2 \<and> journal d' = journal d2"
    using alt
  proof (elim disjE exE)
    fix m
    assume "conflict_effect h (ci_suppressed ci) m d2 (cw_conflict res) d'"
    then show ?thesis using none by cases auto
  qed simp
  with that [OF none_id _ _ entry] mem new show thesis by simp
qed

lemma create_plan_appends:
  assumes fts: "fts_ok (se_fts se)" and cat: "cat \<noteq> Plan"
    and step: "executeCreatePlan h se cat project b st = Inr st'"
  obtains row new where "row_of (snd st) (r_id row) = None" "memories (snd st') = memories (snd st) @ [row]"
    "journal (snd st') = journal (snd st) @ new" "file_scope project (CATEGORY_KINDS cat) row"
    "admissible row \<Longrightarrow> has_entry new row"
proof -
  let ?ci = "block_input b (hd (CATEGORY_KINDS cat)) project"
  obtain created d created' d' where st: "st = (created, d)" "st' = (created', d')" by (cases st, cases st')
  from step obtain res where c: "create h se ?ci d = Inr (res, d')"
    and none: "ca_superseded (cw_conflict res) = None \<or> ca_superseded (cw_conflict res) = Some []"
    by (auto simp: st executeCreatePlan_def Let_def split: option.splits sum.splits if_splits)
  have ci: "ci_kind ?ci = hd (CATEGORY_KINDS cat)" "ci_project ?ci = project" "\<not> ci_suppressed ?ci" "ci_skip_dedup ?ci"
    by (simp_all add: block_input_def)
  obtain content conf where f: "insert_fresh h se ?ci content conf d = Inr (res, d')"
    using c category_head [OF cat] by (auto simp: create_def Let_def ci split: if_splits)
  from insert_fresh_appends [OF fts ci(3) f none] obtain i new where
    r: "row_of d i = None" "memories d' = memories d @ [fresh_row h se ?ci i content conf]" "journal d' = journal d @ new"
    "isJournalAdmissible (ci_kind ?ci) (ci_project ?ci) \<longrightarrow>
      (\<exists>j\<in>set new. j_memory j = i \<and> Some (j_project j) = ci_project ?ci)" by blast
  show thesis
  proof (rule that [of "fresh_row h se ?ci i content conf" new])
    show "file_scope project (CATEGORY_KINDS cat) (fresh_row h se ?ci i content conf)"
      using category_head [OF cat] by (simp add: file_scope_def ci)
    show "has_entry new (fresh_row h se ?ci i content conf)" if "admissible (fresh_row h se ?ci i content conf)"
      using that r(4) by (simp add: admissible_def has_entry_def)
  qed (use r in \<open>simp_all add: st\<close>)
qed

lemma create_plan_sound:
  assumes keyed: "t_keyed r_id (memories (snd st))" and fts: "fts_ok (se_fts se)" and cat: "cat \<noteq> Plan"
    and step: "executeCreatePlan h se cat project b st = Inr st'"
  shows "sound_edit (file_scope project (CATEGORY_KINDS cat)) (snd st) (snd st')"
  using create_plan_appends [OF fts cat step] sound_edit_append [OF keyed] by metis

section \<open>Updating a record\<close>

text \<open>A function that leaves id, project and kind of a row alone.\<close>

definition keeps_place :: "(memory_row \<Rightarrow> memory_row) \<Rightarrow> bool" where
  "keeps_place g \<longleftrightarrow> (\<forall>r. r_id (g r) = r_id r \<and> r_project (g r) = r_project r \<and> r_kind (g r) = r_kind r)"

definition edits_row :: "jstr \<Rightarrow> db \<Rightarrow> db \<Rightarrow> bool" where
  "edits_row i d d' \<longleftrightarrow> journal d' = journal d \<and>
     (\<exists>g. keeps_place g \<and> memories d' = map (\<lambda>r. if r_id r = i then g r else r) (memories d))"

lemma edits_row_refl: "edits_row i d d"
  unfolding edits_row_def by (intro conjI exI [of _ "\<lambda>r. r"]) (simp_all add: keeps_place_def)

lemma edits_row_trans:
  assumes "edits_row i a b" "edits_row i b c"
  shows "edits_row i a c"
proof -
  from assms obtain f g where f: "keeps_place f" "memories b = map (\<lambda>r. if r_id r = i then f r else r) (memories a)"
    and g: "keeps_place g" "memories c = map (\<lambda>r. if r_id r = i then g r else r) (memories b)"
    unfolding edits_row_def by blast
  have "memories c = map (\<lambda>r. if r_id r = i then g (f r) else r) (memories a)"
    using f g by (simp add: keeps_place_def)
  moreover have "keeps_place (\<lambda>r. g (f r))" using f(1) g(1) by (simp add: keeps_place_def)
  ultimately show ?thesis using assms unfolding edits_row_def by auto
qed

lemma update_edits_row:
  assumes "update h i c True d = Some (ok, d')"
  shows "edits_row i d d'"
proof -
  let ?up = "\<lambda>r. revision_trigger h (r\<lparr> r_content := clean_text h c, r_confidence := Fin (CONFIDENCE h CORRECTION),
    r_source := Corrected \<rparr>)"
  let ?g = "\<lambda>r. if updatable i r then ?up r else r"
  have "memories d' = t_update (updatable i) ?up (memories d)" "journal d' = journal d"
    using assms by (auto simp: update_def Let_def storeVersion_def journal_upsert_def journalMutation_def
        split: option.splits if_splits)
  moreover have "t_update (updatable i) ?up rows = map (\<lambda>r. if r_id r = i then ?g r else r) rows" for rows
    by (auto simp: t_update_def updatable_def)
  moreover have "keeps_place ?g" by (simp add: keeps_place_def revision_trigger_def)
  ultimately show ?thesis unfolding edits_row_def by (intro conjI exI [of _ ?g]) simp_all
qed

lemma apply_content_edits_row: "apply_content h i cur b d = Inr d' \<Longrightarrow> edits_row i d d'"
  by (auto simp: apply_content_def edits_row_refl dest: update_edits_row split: if_splits option.splits)

lemma apply_meta_edits_row:
  assumes "apply_meta h i b d = Inr d'"
  shows "edits_row i d d'"
proof -
  from assms obtain cx tg where "d' = exec_update h (has_id i) (\<lambda>r. r\<lparr> r_context := cx, r_tags := tg \<rparr>) d"
    by (auto simp: apply_meta_def Let_def split: option.splits)
  then show ?thesis unfolding edits_row_def
    by (intro conjI exI [of _ "\<lambda>r. revision_trigger h (r\<lparr> r_context := cx, r_tags := tg \<rparr>)"])
      (simp_all add: keeps_place_def t_update_def revision_trigger_def)
qed

lemma applyRecordUpdate_cases:
  assumes "applyRecordUpdate h i cur b d = Inr d'"
  shows "d' = d \<or> (\<exists>d1. edits_row i d d1 \<and> d' = journalUpsertForId h i d1)"
proof -
  from assms obtain d1 where d1: "apply_content h i cur b d = Inr d1"
    by (cases "apply_content h i cur b d") (auto simp: applyRecordUpdate_def)
  note e1 = apply_content_edits_row [OF d1]
  show ?thesis
  proof (cases "meta_changed b")
    case True
    with assms d1 obtain d2 where "apply_meta h i b d1 = Inr d2" "d' = journalUpsertForId h i d2"
      by (cases "apply_meta h i b d1") (auto simp: applyRecordUpdate_def)
    with e1 apply_meta_edits_row edits_row_trans show ?thesis by blast
  next
    case False
    with assms d1 have "d' = (if b_content b \<noteq> cur then journalUpsertForId h i d1 else d1)"
      by (simp add: applyRecordUpdate_def)
    moreover have "d1 = d" if "b_content b = cur" using d1 that by (simp add: apply_content_def)
    ultimately show ?thesis using e1 by auto
  qed
qed

lemma edits_row_sound:
  assumes keyed: "t_keyed r_id (memories d)" and S: "static_scope S" "ids_in S [i] d" and e: "edits_row i d d1"
  shows "sound_edit S d (journalUpsertForId h i d1)"
proof -
  from e obtain g where g: "keeps_place g" and m: "memories d1 = map (\<lambda>r. if r_id r = i then g r else r) (memories d)"
    and j: "journal d1 = journal d"
    unfolding edits_row_def by blast
  define f where "f = (\<lambda>r. if r_id r = i then g r else r)"
  have m': "memories d1 = map f (memories d)" by (simp add: m f_def)
  have fields: "r_id (f r) = r_id r" "r_project (f r) = r_project r" "r_kind (f r) = r_kind r" for r
    using g by (simp_all add: keeps_place_def f_def)
  have hit: "r_id r = i" if "f r \<noteq> r" for r using that by (auto simp: f_def split: if_splits)
  have fl: "has_entry new (f r) = has_entry new r" "admissible (f r) = admissible r" for new r
    unfolding has_entry_def admissible_def fields by simp_all
  obtain new where new: "journal (journalUpsertForId h i d1) = journal d @ new"
    "\<forall>r\<in>set (memories d1). r_id r = i \<and> admissible r \<longrightarrow> has_entry new r"
    using journal_helpers_entries(2) [of h "[i]" d1] by (auto simp: journalUpsertForId_def j)
  have entry: "has_entry new r" if "r \<in> set (memories d)" "r_id r = i" "admissible r" for r
  proof -
    have "f r \<in> set (memories d1)" using that(1) by (simp add: m')
    with new(2) have "r_id (f r) = i \<and> admissible (f r) \<longrightarrow> has_entry new (f r)" by (rule bspec)
    with that(2,3) show ?thesis by (simp only: fields fl simp_thms)
  qed
  show ?thesis
  proof (rule sound_edit_map [OF keyed _ new(1)])
    show "memories (journalUpsertForId h i d1) = map f (memories d)" by (simp add: journalUpsertForId_def m')
    show "S r \<and> S (f r)" if "r \<in> set (memories d)" "f r \<noteq> r" for r
    proof -
      have "S r" using S(2) that(1) hit [OF that(2)] by (simp add: ids_in_def)
      then show ?thesis using static_scopeD [OF S(1) _ fields(2,3)] by blast
    qed
    show "has_entry new r" if "r \<in> set (memories d)" "f r \<noteq> r" "admissible r" for r
      using entry that hit by blast
    show "has_entry new (f r)" if "r \<in> set (memories d)" "f r \<noteq> r" "admissible (f r)" for r
      using entry [OF that(1) hit [OF that(2)]] that(3) by (simp add: fl)
  qed (rule fields(1))
qed

lemma record_update_sound:
  assumes keyed: "t_keyed r_id (memories d)" and S: "static_scope S" "ids_in S [i] d"
    and run: "applyRecordUpdate h i cur b d = Inr d'"
  shows "sound_edit S d d'"
  using applyRecordUpdate_cases [OF run] edits_row_sound [OF keyed S] sound_edit_same [OF keyed] by blast

section \<open>Bodies of the commands\<close>

lemma ids_in_scoped: "scoped S d d' \<Longrightarrow> ids_in S ids d \<Longrightarrow> ids_in S ids d'"
proof -
  assume "scoped S d d'" and i: "ids_in S ids d"
  then have "set (filter (\<lambda>r. \<not> S r) (memories d')) = set (filter (\<lambda>r. \<not> S r) (memories d))"
    by (simp only: scoped_def)
  with i show ?thesis by (auto simp: ids_in_def)
qed

lemma static_file_scope: "static_scope (file_scope project kinds)"
  by (simp add: static_scope_def file_scope_def)

lemma sound_edit_refl: "t_keyed r_id (memories d) \<Longrightarrow> sound_edit S d d"
  by (simp add: sound_edit_same)

lemma create_all_sound:
  assumes keyed: "t_keyed r_id (memories d)" and fts: "fts_ok (se_fts (te_search te))" and cat: "cat \<noteq> Plan"
    and run: "create_all te cat project blocks d = Inr d'"
  shows "sound_edit (file_scope project (CATEGORY_KINDS cat)) d d'"
proof -
  let ?S = "file_scope project (CATEGORY_KINDS cat)"
  from run obtain created where f: "foldE (executeCreatePlan (te_host te) (te_search te) cat project) blocks ([], d) = Inr (created, d')"
    by (auto simp: create_all_def bindE_Inr_iff)
  have "sound_edit ?S d (snd (created, d'))"
  proof (rule foldE_invariant [where I = "\<lambda>st. sound_edit ?S d (snd st)", OF _ f])
    fix b :: parsed_block and st st' :: "jstr list \<times> db"
    assume I: "sound_edit ?S d (snd st)" and step: "executeCreatePlan (te_host te) (te_search te) cat project b st = Inr st'"
    have "sound_edit ?S (snd st) (snd st')"
      by (rule create_plan_sound [OF sound_edit_keyed [OF I] fts cat step])
    then show "sound_edit ?S d (snd st')" by (rule sound_edit_trans [OF I])
  qed (simp add: sound_edit_refl keyed)
  then show ?thesis by simp
qed

lemma resolve_Inr:
  assumes "resolveAndCheck h t project path allowed d = Inr record"
  obtains row kind where "row \<in> set (memories d)" "CODE_KINDS (t_code t) = Some kind" "kind \<in> set allowed"
    "candidate kind project row" "rowToMemory h row = Some record" "r_id record = r_id row" "r_revision record = t_revision t"
    "token_rows t kind project d = [row]"
proof -
  from assms obtain kind row where k: "CODE_KINDS (t_code t) = Some kind" "kind \<in> set allowed"
    "token_rows t kind project d = [row]" "rowToMemory h row = Some record" "r_revision record = t_revision t"
    by (auto simp: resolveAndCheck_def split: option.splits if_splits list.splits)
  from k(3) have "row \<in> set (token_rows t kind project d)" by simp
  then have "row \<in> set (memories d)" "candidate kind project row"
    by (auto simp: token_rows_def dest: in_set_takeD)
  with k row_fields_kept [OF k(4)] that show thesis by metis
qed

lemma resolve_in_scope:
  assumes "t_keyed r_id (memories d)" "resolveAndCheck h t project path allowed d = Inr record"
  shows "ids_in (file_scope project allowed) [r_id record] d"
  using assms(2)
proof (rule resolve_Inr)
  fix row kind
  assume row: "row \<in> set (memories d)" "kind \<in> set allowed" "candidate kind project row" "r_id record = r_id row"
  show ?thesis unfolding ids_in_def
  proof (intro ballI impI)
    fix r
    assume "r \<in> set (memories d)" "r_id r \<in> set [r_id record]"
    then have "r = row" using keyed_row [OF assms(1), of r row] row by simp
    then show "file_scope project allowed r" using row by (simp add: file_scope_def candidate_def)
  qed
qed

text \<open>Verification resolves every old block to a record of the file.\<close>

definition resolved_in :: "host \<Rightarrow> (jstr \<times> jstr option) list \<Rightarrow> jstr option \<Rightarrow> category \<Rightarrow> jstr \<Rightarrow> db \<Rightarrow> parsed_block list \<Rightarrow>
    resolved_record \<Rightarrow> bool" where
  "resolved_in h pfx project cat path d blocks x \<longleftrightarrow> (\<exists>b\<in>set blocks. b_token b = Some (rr_token x) \<and>
     resolveAndCheck h (rr_token x) project path (CATEGORY_KINDS cat) d = Inr (rr_record x) \<and>
     prefix_get pfx (r_id (rr_record x)) = Some (rr_prefix x) \<and> t_prefix (rr_token x) = rr_prefix x \<and>
     (\<exists>canonical. renderBlock h (rr_record x) (rr_prefix x) = Some canonical \<and>
        join [10] (b_raw b) = join [10] canonical))"

lemma set_t_put: "x \<in> set (t_put key r rows) \<Longrightarrow> x = r \<or> x \<in> set rows"
  by (auto simp: t_put_def split: if_splits)

lemma verify_block_Inr:
  assumes "verify_block h pfx project cat path d b resolved = Inr resolved'"
  obtains t m p canonical where "b_token b = Some t"
    "resolveAndCheck h t project path (CATEGORY_KINDS cat) d = Inr m"
    "prefix_get pfx (r_id m) = Some p" "renderBlock h m p = Some canonical" "t_prefix t = p"
    "join [10] (b_raw b) = join [10] canonical"
    "resolved' = t_put rr_prefix \<lparr> rr_prefix = p, rr_record = m, rr_token = t \<rparr> resolved"
proof -
  obtain t m where t: "b_token b = Some t"
    and r: "resolveAndCheck h t project path (CATEGORY_KINDS cat) d = Inr m"
    and rest: "\<not> list_ex (\<lambda>x. r_id (rr_record x) = r_id m) resolved"
    using assms by (cases "b_token b") (auto simp: verify_block_def bindE_Inr_iff split: if_splits)
  note run = assms [unfolded verify_block_def t option.case r bindE.simps if_not_P [OF rest]]
  obtain p where p: "prefix_get pfx (r_id m) = Some p"
    using run by (cases "prefix_get pfx (r_id m)") simp_all
  obtain canonical where c: "renderBlock h m p = Some canonical"
    using run by (cases "renderBlock h m p") (simp_all add: p)
  have "t_prefix t = p" "join [10] (b_raw b) = join [10] canonical"
    "resolved' = t_put rr_prefix \<lparr> rr_prefix = p, rr_record = m, rr_token = t \<rparr> resolved"
    using run by (simp_all add: p c split: if_splits)
  from that [OF t r p c this] show thesis .
qed

lemma verify_block_resolved:
  assumes "verify_block h pfx project cat path d b resolved = Inr resolved'" "b \<in> set blocks"
    and "\<forall>x\<in>set resolved. resolved_in h pfx project cat path d blocks x"
  shows "\<forall>x\<in>set resolved'. resolved_in h pfx project cat path d blocks x"
  using assms(1)
proof (rule verify_block_Inr)
  fix t m p canonical
  assume v: "b_token b = Some t" "resolveAndCheck h t project path (CATEGORY_KINDS cat) d = Inr m"
    "prefix_get pfx (r_id m) = Some p" "renderBlock h m p = Some canonical" "t_prefix t = p"
    "join [10] (b_raw b) = join [10] canonical"
    and res: "resolved' = t_put rr_prefix \<lparr> rr_prefix = p, rr_record = m, rr_token = t \<rparr> resolved"
  have "resolved_in h pfx project cat path d blocks \<lparr> rr_prefix = p, rr_record = m, rr_token = t \<rparr>"
    unfolding resolved_in_def using assms(2) v by (intro bexI [of _ b]) auto
  then show ?thesis using assms(3) set_t_put unfolding res by metis
qed

lemma foldE_each: "foldE f xs s = Inr s' \<Longrightarrow> x \<in> set xs \<Longrightarrow> \<exists>t t'. f x t = Inr t'"
  by (induction xs arbitrary: s) (auto simp: bindE_Inr_iff)

lemma verifyOldBlocks_resolved:
  assumes "verifyOldBlocks h blocks project cat path d = Inr resolved" "x \<in> set resolved"
  shows "resolved_in h (canonicalPrefixes h project cat d) project cat path d blocks x"
proof -
  have "\<forall>x\<in>set resolved. resolved_in h (canonicalPrefixes h project cat d) project cat path d blocks x"
    using verify_block_resolved
    by (intro foldE_invariant [where I = "\<lambda>rs. \<forall>x\<in>set rs. resolved_in h (canonicalPrefixes h project cat d) project cat path d blocks x",
          OF _ assms(1) [unfolded verifyOldBlocks_def]]) (blast | simp)+
  with assms(2) show ?thesis by blast
qed

lemma resolved_scope:
  "t_keyed r_id (memories d) \<Longrightarrow> resolved_in h pfx project cat path d blocks x \<Longrightarrow>
    ids_in (file_scope project (CATEGORY_KINDS cat)) [r_id (rr_record x)] d"
  unfolding resolved_in_def using resolve_in_scope by blast

lemma replace_block_sound:
  assumes keyed: "t_keyed r_id (memories (ed_db st))" and fts: "fts_ok (se_fts (te_search te))" and cat: "cat \<noteq> Plan"
    and resolved: "\<forall>x\<in>set resolved. ids_in (file_scope project (CATEGORY_KINDS cat)) [r_id (rr_record x)] (ed_db st)"
    and run: "replace_block te cat project resolved b st = Inr st'"
  shows "sound_edit (file_scope project (CATEGORY_KINDS cat)) (ed_db st) (ed_db st')"
proof (cases "b_token b")
  case None
  with run obtain created d' where "executeCreatePlan (te_host te) (te_search te) cat project b (ed_created st, ed_db st) = Inr (created, d')"
    "ed_db st' = d'" by (auto simp: replace_block_def bindE_Inr_iff)
  then show ?thesis using create_plan_sound [of "(ed_created st, ed_db st)"] keyed fts cat by fastforce
next
  case (Some t)
  with run obtain m d' where m: "t_get rr_prefix (t_prefix t) resolved = Some m"
    and d': "applyRecordUpdate (te_host te) (r_id (rr_record m)) (r_content (rr_record m)) b (ed_db st) = Inr d'" "ed_db st' = d'"
    by (auto simp: replace_block_def bindE_Inr_iff split: option.splits if_splits)
  from m have "m \<in> set resolved" using t_get_Some [of rr_prefix "t_prefix t" resolved m] by blast
  with resolved record_update_sound [OF keyed static_file_scope _ d'(1)] d'(2) show ?thesis by blast
qed

lemma replace_fold_sound:
  assumes keyed: "t_keyed r_id (memories d)" and fts: "fts_ok (se_fts (te_search te))" and cat: "cat \<noteq> Plan"
    and resolved: "\<forall>x\<in>set resolved. ids_in (file_scope project (CATEGORY_KINDS cat)) [r_id (rr_record x)] d"
    and run: "foldE (replace_block te cat project resolved) blocks st0 = Inr st" "ed_db st0 = d"
  shows "sound_edit (file_scope project (CATEGORY_KINDS cat)) d (ed_db st)"
proof (rule foldE_invariant [where I = "\<lambda>st. sound_edit (file_scope project (CATEGORY_KINDS cat)) d (ed_db st)", OF _ run(1)])
  fix b st st'
  assume I: "sound_edit (file_scope project (CATEGORY_KINDS cat)) d (ed_db st)"
    and step: "replace_block te cat project resolved b st = Inr st'"
  have "\<forall>x\<in>set resolved. ids_in (file_scope project (CATEGORY_KINDS cat)) [r_id (rr_record x)] (ed_db st)"
    using resolved ids_in_scoped I unfolding sound_edit_def by blast
  from replace_block_sound [OF sound_edit_keyed [OF I] fts cat this step]
  show "sound_edit (file_scope project (CATEGORY_KINDS cat)) d (ed_db st')" by (rule sound_edit_trans [OF I])
qed (simp add: sound_edit_refl keyed run(2))

lemma replace_body_sound:
  assumes keyed: "t_keyed r_id (memories d)" and fts: "fts_ok (se_fts (te_search te))" and cat: "cat \<noteq> Plan"
    and run: "replace_body te cat project oldBlocks newBlocks d = Inr d'"
  shows "sound_edit (file_scope project (CATEGORY_KINDS cat)) d d'"
proof -
  let ?S = "file_scope project (CATEGORY_KINDS cat)"
  from run obtain resolved st where r: "verifyOldBlocks (te_host te) oldBlocks project cat (categoryPath project cat) d = Inr resolved"
    and f: "foldE (replace_block te cat project resolved) newBlocks \<lparr> ed_db = d, ed_created = [], ed_used = [] \<rparr> = Inr st"
    and d': "d' = snd (retireIdsByInvalidation (te_host te) False
      (map (\<lambda>x. r_id (rr_record x)) (filter (\<lambda>x. rr_prefix x \<notin> set (ed_used st)) resolved)) (ed_db st))"
    by (auto simp: replace_body_def bindE_Inr_iff Let_def)
  have ids: "\<forall>x\<in>set resolved. ids_in ?S [r_id (rr_record x)] d"
    using verifyOldBlocks_resolved [OF r] resolved_scope [OF keyed] by blast
  have I: "sound_edit ?S d (ed_db st)" by (rule replace_fold_sound [OF keyed fts cat ids f]) simp
  have "\<forall>x\<in>set resolved. ids_in ?S [r_id (rr_record x)] (ed_db st)"
    using ids ids_in_scoped I unfolding sound_edit_def by blast
  then have "ids_in ?S (map (\<lambda>x. r_id (rr_record x)) (filter (\<lambda>x. rr_prefix x \<notin> set (ed_used st)) resolved)) (ed_db st)"
    by (auto simp: ids_in_def)
  from retire_sound [OF sound_edit_keyed [OF I] static_file_scope this] show ?thesis
    unfolding d' by (rule sound_edit_trans [OF I])
qed

lemma in_scope_file_scope: "in_scope project kinds r \<Longrightarrow> file_scope project kinds r"
  by (simp add: in_scope_def file_scope_def)

lemma scope_ids:
  assumes "t_keyed r_id (memories d)" "set ids \<subseteq> r_id ` {r \<in> set (memories d). in_scope project kinds r}"
  shows "ids_in (file_scope project kinds) ids d"
  unfolding ids_in_def
proof (intro ballI impI)
  fix r
  assume r: "r \<in> set (memories d)" "r_id r \<in> set ids"
  with assms(2) obtain r' where r': "r' \<in> set (memories d)" "in_scope project kinds r'" "r_id r = r_id r'" by auto
  then have "r = r'" using keyed_row [OF assms(1) r(1)] by blast
  then show "file_scope project kinds r" using r'(2) in_scope_file_scope by blast
qed

lemma activeRows_ids: "set (map fst (activeRows project kinds rows)) = r_id ` {r \<in> set rows. in_scope project kinds r}"
  by (simp add: set_activeRows image_image)

lemma delete_body_sound:
  assumes "t_keyed r_id (memories d)" "delete_body te project cat d = Inr (n, d')"
  shows "sound_edit (file_scope project (CATEGORY_KINDS cat)) d d'"
proof -
  let ?ids = "map fst (activeRows project (CATEGORY_KINDS cat) (memories d))"
  have "d' = snd (retireIdsByInvalidation (te_host te) False ?ids d)"
    using assms(2) by (auto simp: delete_body_def Let_def split: if_splits)
  moreover have "ids_in (file_scope project (CATEGORY_KINDS cat)) ?ids d"
    by (rule scope_ids [OF assms(1)]) (simp only: activeRows_ids order_refl)
  ultimately show ?thesis using retire_sound [OF assms(1) static_file_scope] by blast
qed

lemma deleteDirectory_body_sound:
  assumes "t_keyed r_id (memories d)" "deleteDirectory_body te project d = Inr (m, n, d')"
  shows "sound_edit (file_scope project (vfsOwnedKinds project)) d d'"
proof -
  let ?ids = "map r_id (filter (in_scope project (vfsOwnedKinds project)) (memories d))"
  let ?d1 = "snd (retireIdsByInvalidation (te_host te) False ?ids d)"
  have "d' = snd (freeFormDeleteUnder (canonicalDir project) ?d1)"
    using assms(2) by (auto simp: deleteDirectory_body_def Let_def case_prod_beta split: if_splits)
  then have same: "memories d' = memories ?d1" "journal d' = journal ?d1"
    by (simp_all add: freeFormDeleteUnder_def Let_def)
  have "ids_in (file_scope project (vfsOwnedKinds project)) ?ids d"
    by (rule scope_ids [OF assms(1)]) auto
  note I = retire_sound [OF assms(1) static_file_scope this, where h = "te_host te"]
  from sound_edit_same [OF sound_edit_keyed [OF I] same] show ?thesis by (rule sound_edit_trans [OF I])
qed

text \<open>A rename moves exactly the rows listed to the destination, between a tombstone and an upsert each.\<close>

lemma fold_move_row:
  "\<exists>f. memories (fold (move_row h dst) ids d) = map f (memories d) \<and>
    journal (fold (move_row h dst) ids d) = journal d \<and>
    (\<forall>r. r_id (f r) = r_id r \<and> r_kind (f r) = r_kind r \<and>
      (if r_id r \<in> set ids then r_project (f r) = dst else f r = r))"
proof (induction ids arbitrary: d)
  case Nil
  then show ?case by (intro exI [of _ "\<lambda>r. r"]) simp
next
  case (Cons i ids)
  let ?g = "\<lambda>r. if r_id r = i then revision_trigger h (r\<lparr> r_project := dst \<rparr>) else r"
  have m: "memories (move_row h dst i d) = map ?g (memories d)" "journal (move_row h dst i d) = journal d"
    by (simp_all add: move_row_def t_update_def)
  from Cons [of "move_row h dst i d"] obtain f where f: "memories (fold (move_row h dst) ids (move_row h dst i d)) = map f (map ?g (memories d))"
    "journal (fold (move_row h dst) ids (move_row h dst i d)) = journal d"
    "\<And>r. r_id (f r) = r_id r" "\<And>r. r_kind (f r) = r_kind r"
    "\<And>r. if r_id r \<in> set ids then r_project (f r) = dst else f r = r"
    unfolding m by blast
  have g: "r_id (?g r) = r_id r" "r_kind (?g r) = r_kind r" "r_project (?g r) = (if r_id r = i then dst else r_project r)" for r
    by (simp_all add: revision_trigger_def)
  have p: "if r_id r \<in> set (i # ids) then r_project (f (?g r)) = dst else f (?g r) = r" for r
    using f(5) [of "?g r"] g(3) [of r] unfolding g(1) by (cases "r_id r = i"; cases "r_id r \<in> set ids") simp_all
  show ?case
    by (intro exI [of _ "\<lambda>r. f (?g r)"] conjI allI)
      (use f(1,2) g p in \<open>simp_all only: f(3,4) fold_simps map_map comp_def\<close>)
qed

lemma upserts_memories: "memories (journalUpsertsForIds h b ids d) = memories d"
  by (simp add: journalUpsertsForIds_def)

lemma rename_body_sound:
  assumes keyed: "t_keyed r_id (memories d)" and run: "rename_body te cat src dst d = Inr d'"
  shows "sound_edit (\<lambda>r. file_scope src (CATEGORY_KINDS cat) r \<or> file_scope dst (CATEGORY_KINDS cat) r) d d'"
proof -
  let ?ks = "CATEGORY_KINDS cat" and ?h = "te_host te"
  let ?S = "\<lambda>r. file_scope src ?ks r \<or> file_scope dst ?ks r"
  let ?ids = "map fst (activeRows src ?ks (memories d))"
  let ?d1 = "journalTombstonesForIds ?h False ?ids d"
  let ?d2 = "fold (move_row ?h dst) ?ids ?d1"
  have d': "d' = journalUpsertsForIds ?h False ?ids ?d2"
    using run by (auto simp: rename_body_def Let_def split: if_splits)
  have ids: "ids_in (file_scope src ?ks) ?ids d"
    by (rule scope_ids [OF keyed]) (simp only: activeRows_ids order_refl)
  obtain n1 where n1: "journal ?d1 = journal d @ n1"
    "\<forall>r\<in>set (memories d). r_id r \<in> set ?ids \<and> admissible r \<longrightarrow> has_entry n1 r"
    using journal_helpers_entries(1) by blast
  have m1: "memories ?d1 = memories d" by (simp add: journalTombstonesForIds_def)
  obtain f where f: "memories ?d2 = map f (memories d)" "journal ?d2 = journal ?d1" "\<And>r. r_id (f r) = r_id r"
    "\<And>r. r_kind (f r) = r_kind r" "\<And>r. if r_id r \<in> set ?ids then r_project (f r) = dst else f r = r"
    using fold_move_row [of ?h dst ?ids ?d1] unfolding m1 by blast
  obtain n2 where n2: "journal d' = journal ?d2 @ n2"
    "\<forall>r\<in>set (memories ?d2). r_id r \<in> set ?ids \<and> admissible r \<longrightarrow> has_entry n2 r"
    unfolding d' using journal_helpers_entries(2) by blast
  have hit: "r_id r \<in> set ?ids" if "f r \<noteq> r" for r using f(5) [of r] that by argo
  show ?thesis
  proof (rule sound_edit_map [OF keyed])
    have "memories d' = memories ?d2" unfolding d' by (rule upserts_memories)
    then show "memories d' = map f (memories d)" by (simp only: f(1))
    show "journal d' = journal d @ (n1 @ n2)" by (simp add: n2(1) f(2) n1(1))
    show "?S r \<and> ?S (f r)" if "r \<in> set (memories d)" "f r \<noteq> r" for r
    proof -
      have s: "file_scope src ?ks r" using ids that(1) hit [OF that(2)] by (simp only: ids_in_def)
      moreover have "r_project (f r) = dst" using f(5) [of r] hit [OF that(2)] by simp
      ultimately show ?thesis by (simp add: file_scope_def f(4))
    qed
    show "has_entry (n1 @ n2) r" if "r \<in> set (memories d)" "f r \<noteq> r" "admissible r" for r
      using n1(2) that hit by simp
    show "has_entry (n1 @ n2) (f r)" if "r \<in> set (memories d)" "f r \<noteq> r" "admissible (f r)" for r
    proof -
      have "f r \<in> set (memories ?d2)" using that(1) by (simp add: f(1))
      then show ?thesis using n2(2) hit [OF that(2)] that(3) by (simp add: f(3))
    qed
  qed (rule f(3))
qed

section \<open>What a replacement leaves alone\<close>

definition leaves :: "jstr set \<Rightarrow> db \<Rightarrow> db \<Rightarrow> bool" where
  "leaves ids d d' \<longleftrightarrow> (\<forall>r\<in>set (memories d). r_id r \<notin> ids \<longrightarrow> r \<in> set (memories d'))"

lemma leaves_trans: "leaves ids a b \<Longrightarrow> leaves ids b c \<Longrightarrow> leaves ids a c"
  by (simp add: leaves_def)

lemma leaves_append: "memories d' = memories d @ rows \<Longrightarrow> leaves ids d d'"
  by (simp add: leaves_def)

lemma leaves_map:
  assumes "memories d' = map f (memories d)" "\<And>r. r_id r \<notin> ids \<Longrightarrow> f r = r"
  shows "leaves ids d d'"
  unfolding leaves_def assms(1) using assms(2) by force

lemma leaves_update:
  assumes "applyRecordUpdate h i cur b d = Inr d'" "i \<in> ids"
  shows "leaves ids d d'"
  using applyRecordUpdate_cases [OF assms(1)]
proof (elim disjE exE conjE)
  fix d1
  assume "edits_row i d d1" "d' = journalUpsertForId h i d1"
  then obtain g where "memories d' = map (\<lambda>r. if r_id r = i then g r else r) (memories d)"
    by (auto simp: edits_row_def journalUpsertForId_def upserts_memories)
  then show ?thesis by (rule leaves_map) (use assms(2) in auto)
qed (simp add: leaves_def)

lemma leaves_retire: "leaves (set ids) d (snd (retireIdsByInvalidation h False ids d))"
proof (cases "ids = []")
  case False
  then have "memories (snd (retireIdsByInvalidation h False ids d)) =
      map (\<lambda>r. if retired_row ids r then revision_trigger h (r\<lparr> r_invalidated := 1 \<rparr>) else r) (memories d)"
    by (simp add: retireIdsByInvalidation_def Let_def t_update_def)
  then show ?thesis by (rule leaves_map) (simp add: retired_row_def)
qed (simp add: leaves_def retireIdsByInvalidation_def)

lemma leaves_mono: "leaves ids d d' \<Longrightarrow> ids \<subseteq> ids' \<Longrightarrow> leaves ids' d d'"
  by (auto simp: leaves_def)

lemma replace_block_leaves:
  assumes fts: "fts_ok (se_fts (te_search te))" and cat: "cat \<noteq> Plan"
    and run: "replace_block te cat project resolved b st = Inr st'"
  shows "leaves ((\<lambda>x. r_id (rr_record x)) ` set resolved) (ed_db st) (ed_db st')"
proof (cases "b_token b")
  case None
  with run obtain st1 where c: "executeCreatePlan (te_host te) (te_search te) cat project b (ed_created st, ed_db st) = Inr st1"
    and d: "ed_db st' = snd st1" by (auto simp: replace_block_def bindE_Inr_iff)
  from create_plan_appends [OF fts cat c] obtain row where "memories (snd st1) = memories (ed_db st) @ [row]"
    by (metis snd_conv)
  then show ?thesis unfolding d by (rule leaves_append)
next
  case (Some t)
  with run obtain m d' where m: "t_get rr_prefix (t_prefix t) resolved = Some m"
    and d': "applyRecordUpdate (te_host te) (r_id (rr_record m)) (r_content (rr_record m)) b (ed_db st) = Inr d'" "ed_db st' = d'"
    by (auto simp: replace_block_def bindE_Inr_iff split: option.splits if_splits)
  from m have "m \<in> set resolved" using t_get_Some [of rr_prefix "t_prefix t" resolved m] by blast
  then have "r_id (rr_record m) \<in> (\<lambda>x. r_id (rr_record x)) ` set resolved" by (rule imageI)
  from leaves_update [OF d'(1) this] show ?thesis unfolding d'(2) .
qed

lemma replace_body_leaves:
  assumes fts: "fts_ok (se_fts (te_search te))" and cat: "cat \<noteq> Plan"
    and run: "replace_body te cat project oldBlocks newBlocks d = Inr d'"
  obtains resolved where "verifyOldBlocks (te_host te) oldBlocks project cat (categoryPath project cat) d = Inr resolved"
    "leaves ((\<lambda>x. r_id (rr_record x)) ` set resolved) d d'"
proof -
  from run obtain resolved st where r: "verifyOldBlocks (te_host te) oldBlocks project cat (categoryPath project cat) d = Inr resolved"
    and f: "foldE (replace_block te cat project resolved) newBlocks \<lparr> ed_db = d, ed_created = [], ed_used = [] \<rparr> = Inr st"
    and d': "d' = snd (retireIdsByInvalidation (te_host te) False
      (map (\<lambda>x. r_id (rr_record x)) (filter (\<lambda>x. rr_prefix x \<notin> set (ed_used st)) resolved)) (ed_db st))"
    by (auto simp: replace_body_def bindE_Inr_iff Let_def)
  let ?ids = "(\<lambda>x. r_id (rr_record x)) ` set resolved"
  have "leaves ?ids d (ed_db st)"
  proof (rule foldE_invariant [where I = "\<lambda>st. leaves ?ids d (ed_db st)", OF _ f])
    fix b st st'
    assume "leaves ?ids d (ed_db st)" "replace_block te cat project resolved b st = Inr st'"
    then show "leaves ?ids d (ed_db st')" using leaves_trans replace_block_leaves [OF fts cat] by blast
  qed (simp add: leaves_def)
  moreover have "leaves ?ids (ed_db st) d'"
    unfolding d' by (rule leaves_mono [OF leaves_retire]) auto
  ultimately show thesis using that [OF r] leaves_trans by blast
qed

end
