(* ===== verification/Write_Properties.thy ===== *)
theory Write_Properties
  imports Writes_Facts
begin

text \<open>
  The properties of the write gateway: nothing it should not hide disappears, repetition does not raise
  confidence past its ceiling, and the version row of an update that is refused; with a small store
  in which one memory supersedes another.
\<close>

section \<open>Nothing disappears\<close>

text \<open>C9. The gateway hides nothing it should not: whatever is created or stored, every active memory is
  afterwards still there and active, unchanged or, when the new text merged into it, with the longer
  of the two contents; except for at most one of the same kind and scope that the new memory
  supersedes because both name a version of the same thing, which keeps its content, points to its
  successor and does not come from a source of higher authority.\<close>

theorem gateway_never_hides:
  assumes "t_keyed r_id (memories d)" "fts_ok (se_fts se)" "gateway h se ci d res d'"
    "r \<in> set (memories d)" "active r"
  shows "\<exists>r'\<in>set (memories d').
    row_survives ci (clean_text h (ci_content ci)) res r r' \<or>
    row_superseded ci (clean_text h (ci_content ci)) res r r'"
proof -
  let ?c = "clean_text h (ci_content ci)"
  from assms(3) show ?thesis
  proof (cases rule: gateway_cases)
    case (inserted x conf)
    from insert_survives [OF assms(1,2) inserted(1) assms(4,5)] obtain r' where
      "r' \<in> set (memories d')" "row_survives x ?c res r r' \<or> row_superseded x ?c res r r'" by blast
    moreover have "row_survives x = row_survives ci" "row_superseded x = row_superseded ci"
      using inserted(2) by (auto simp: row_survives_def row_superseded_def plain_input_def input_source_def fun_eq_iff)
    ultimately show ?thesis by auto
  next
    case (merged m)
    from findSimilar_Some [OF assms(2) merged(1)] obtain row where row: "row \<in> set (memories d)"
      "rowToMemory h row = Some m" by blast
    from merges_effect [OF merged(2) row(2)] obtain f where
      f: "memories d' = map (\<lambda>r. if r_id r = r_id row then f r else r) (memories d)"
      "merged_row ?c row (f row)" "cw_id res = r_id row" "cw_deduplicated res" by blast
    from merge_survives [OF assms(1) row(1) f assms(4,5)] show ?thesis by blast
  qed
qed

section \<open>A store in which a version advances\<close>

definition bare_row :: "jstr \<Rightarrow> memory_kind \<Rightarrow> jstr \<Rightarrow> memory_row" where
  "bare_row i k c = (sample_row i c)\<lparr> r_kind := k, r_tags := None, r_context := None \<rparr>"

abbreviation "old_text \<equiv> js ''node cluster 18.1''"
abbreviation "new_text \<equiv> js ''node cluster 20.2''"

lemma clean_new_text: "clean_text sample_host new_text = new_text"
  by (simp add: clean_text_def sample_host_def sanitize_def strip_controls_def is_stripped_control_def is_space_def js_def trim_def trim_start_def)

lemma sample_subjects: "subjectTokens old_text = map js [''node'', ''cluster'']" "subjectTokens new_text = map js [''node'', ''cluster'']"
  by code_simp+

lemma sample_scopes: "scopeObjects old_text = []"
  by code_simp

lemma sample_contexts:
  "valueContexts old_text = [\<lparr> vc_value = js ''18.1'', vc_type = Version_Value, vc_context = map js [''node'', ''cluster''] \<rparr>]"
  "valueContexts new_text = [\<lparr> vc_value = js ''20.2'', vc_type = Version_Value, vc_context = map js [''node'', ''cluster''] \<rparr>]"
proof -
  have tokens: "pieces is_space old_text = map js [''node'', ''cluster'', ''18.1'']"
    "pieces is_space new_text = map js [''node'', ''cluster'', ''20.2'']"
    by (simp_all add: pieces_def is_space_def js_def)
  have types: "value_type_of (js ''18.1'') = Some Version_Value" "value_type_of (js ''20.2'') = Some Version_Value"
      "value_type_of (js ''node'') = None" "value_type_of (js ''cluster'') = None"
    by (simp_all add: value_type_of_def VERSION_RE_def METRIC_RE_def re_eval)
  have strip: "strip_trailing (js ''18.1'') = js ''18.1''" "strip_trailing (js ''20.2'') = js ''20.2''"
      "strip_trailing (js ''node'') = js ''node''" "strip_trailing (js ''cluster'') = js ''cluster''"
    by (simp_all add: strip_trailing_def js_def)
  have words: "context_word (js ''node'') = Some (js ''node'')" "context_word (js ''cluster'') = Some (js ''cluster'')"
      "context_word (js ''18.1'') = None"
      "context_word (js ''20.2'') = None"
    by (simp_all add: context_word_def js_lower_def Let_def is_slug_def STOPWORDS_def re_eval)
  show "valueContexts old_text = [\<lparr> vc_value = js ''18.1'', vc_type = Version_Value, vc_context = map js [''node'', ''cluster''] \<rparr>]"
  "valueContexts new_text = [\<lparr> vc_value = js ''20.2'', vc_type = Version_Value, vc_context = map js [''node'', ''cluster''] \<rparr>]"
   by (simp_all add: valueContexts_def tokens types strip words context_of_def Let_def)
qed

lemma sample_drift: "valueDrift old_text new_text = Some Version_Value"
  by (simp add: valueDrift_def sample_contexts drifting_def unitOf_def UNIT_WORDS_def)

lemma sample_conflict:
  assumes "r_content e = old_text" "r_content i = new_text" "r_source e = r_source i"
  shows "detectConflict e i = Some \<lparr> cr_type = Supersession, cr_signal = js ''version drift, newer value supersedes'', cr_loser = r_id e, cr_winner = r_id i \<rparr>"
  using assms by (simp add: detectConflict_def Let_def sample_subjects scopes_disjoint_def sample_scopes sample_drift common_def SUBJECT_MIN_SHARED_TOKENS_def
     SUBJECT_MIN_JACCARD_def jaccard_card)

lemma sample_query: "buildFtsQuery True 8 new_text \<noteq> None"
  by (simp add: buildFtsQuery_def query_words_def plain_words_def js_lower_def pieces_def FTS_STOPWORDS_def Let_def re_eval)

lemma rowToMemory_bare:
  "r_tags r = None \<Longrightarrow> r_fingerprint r = None \<Longrightarrow> r_context r = None \<Longrightarrow>
    rowToMemory h r = Some (memory_row.extend r (memory.fields (JArr []) JNull JNull))"
  by (simp add: rowToMemory_def parse_column_def)

definition sample_search :: search_env where
  "sample_search = \<lparr> se_fts = (\<lambda>q rows. Some rows), se_model = js ''minilm-l6'', se_cosine = (\<lambda>a b. 0) \<rparr>"

lemma sample_fts_ok: "fts_ok (se_fts sample_search)"
  by (simp add: fts_ok_def sample_search_def)

definition sample_input :: "memory_kind \<Rightarrow> jstr \<Rightarrow> create_input" where
  "sample_input k c = \<lparr> ci_content = c, ci_kind = k, ci_tags = None, ci_project = Some (js ''web''), ci_source = None,
     ci_client = None, ci_confidence = None, ci_expires = None, ci_fingerprint = None, ci_context = None,
     ci_embedding = None, ci_anchor = None, ci_created = None, ci_skip_dedup = True, ci_skip_conflicts = False,
     ci_suppressed = False \<rparr>"

definition release_db :: db where
  "release_db = empty_db\<lparr> memories := [bare_row (js ''a'') Fact old_text] \<rparr>"

definition release_id :: jstr where
  "release_id = uuid sample_host 0"

definition release_row :: memory_row where
  "release_row = fresh_row sample_host sample_search (sample_input Fact new_text) release_id new_text (65 / 100)"

lemma release_id_fresh: "release_id \<noteq> js ''a''"
proof
  assume "release_id = js ''a''"
  then have "length release_id = length (js ''a'')" by simp
  then show False by (simp add: release_id_def sample_host_def)
qed

lemma release_scan:
  assumes "memories d = [bare_row (js ''a'') Fact old_text, release_row]"
    and "rowToMemory sample_host release_row = Some m"
  shows "\<exists>d'. applyConflictDetection sample_host (se_fts sample_search) False m d =
    Some (\<lparr> ca_superseded = Some (js ''a''), ca_contradicts = None,
      ca_signal = Some (js ''version drift, newer value supersedes'') \<rparr>, d')"
proof -
  let ?old = "bare_row (js ''a'') Fact old_text"
  note mf = row_fields_kept [OF assms(2), unfolded release_row_def fresh_row_fields]
  have input: "r_kind m = Fact" "r_project m = Some (js ''web'')" "r_source m = Learned"
    using mf by (simp_all add: sample_input_def input_source_def)
  obtain q where q: "buildFtsQuery True 8 new_text = Some q" using sample_query by auto
  obtain e where e: "rowToMemory sample_host ?old = Some e"
    using rowToMemory_bare [of ?old] by (simp add: bare_row_def sample_row_def)
  note ef = row_fields_kept [OF e]
  have old: "r_id ?old = js ''a''" "r_content ?old = old_text" "r_kind ?old = Fact" "r_project ?old = Some (js ''web'')"
      "r_source ?old = Learned" "active ?old"
    by (simp_all add: bare_row_def sample_row_def active_def)
  have det: "detectConflict e m = Some \<lparr> cr_type = Supersession, cr_signal = js ''version drift, newer value supersedes'',
      cr_loser = js ''a'', cr_winner = release_id \<rparr>"
    using sample_conflict [of e m] mf ef old input by simp
  have picked: "take CONFLICT_CANDIDATE_LIMIT (filter (\<lambda>r. candidate Fact (Some (js ''web'')) r \<and> r_id r \<noteq> release_id)
      (memories d)) = [?old]"
    using old release_id_fresh by (simp add: assms(1) candidate_def CONFLICT_CANDIDATE_LIMIT_def release_row_def)
  have ids: "r_id m = release_id" "r_content m = new_text" using mf by simp_all
  show ?thesis
    by (simp add: applyConflictDetection_def CLAIM_KINDS_def sample_search_def picked apply_conflict_def q e det ids input)
qed

lemma release_supersedes:
  "\<exists>res d'. create sample_host sample_search (sample_input Fact new_text) release_db = Inr (res, d') \<and>
    ca_superseded (cw_conflict res) = Some (js ''a'')"
proof -
  let ?ci = "sample_input Fact new_text"
  obtain i d0 where g: "generateId sample_host release_db = (i, d0)" by fastforce
  have i: "i = release_id" and m0: "memories d0 = [bare_row (js ''a'') Fact old_text]"
    using g by (auto simp: generateId_def release_id_def release_db_def empty_db_def)
  let ?row = "fresh_row sample_host sample_search ?ci release_id new_text (65 / 100)"
  obtain d1 where ins: "exec_insert ?row d0 = Some d1"
    using m0 release_id_fresh by (auto simp: exec_insert_def t_get_def bare_row_def sample_row_def)
  then have m1: "memories d1 = [bare_row (js ''a'') Fact old_text, release_row]"
    using m0 by (auto simp: exec_insert_Some release_row_def)
  have "json_parse (nums sample_host) [91, 93] = Some (JArr [])"
    using json_parse_stringify [of "nums sample_host" "JArr []"] by simp
  then obtain m where m: "rowToMemory sample_host release_row = Some m"
    by (auto simp: release_row_def fresh_row_def Let_def rowToMemory_def parse_column_def sample_input_def context_json_def
        sanitizeContext_def)
  have found: "findById sample_host release_id (memories d1) = Some (Some m)"
    using m release_id_fresh by (simp add: m1 findById_def bare_row_def sample_row_def release_row_def sample_input_def)
  have "create sample_host sample_search ?ci release_db = insert_fresh sample_host sample_search ?ci new_text (65 / 100) release_db"
    using clean_new_text by (simp add: create_def sample_input_def Let_def defaultConfidence_def CONFIDENCE_def sample_host_def)
  moreover
  let ?d2 = "journalMutation sample_host (ci_suppressed ?ci) \<lparr> ji_memory = release_id, ji_project = ci_project ?ci,
    ji_kind = ci_kind ?ci, ji_op = J_Upsert, ji_revision = 1, ji_cause = None \<rparr> d1"
  obtain d' where "applyConflictDetection sample_host (se_fts sample_search) False m ?d2 =
    Some (\<lparr> ca_superseded = Some (js ''a''), ca_contradicts = None,
      ca_signal = Some (js ''version drift, newer value supersedes'') \<rparr>, d')"
    using release_scan [OF _ m, of ?d2] m1 by auto
  moreover have "findById sample_host release_id (memories ?d2) = Some (Some m)" using found by simp
  moreover have "\<not> ci_suppressed ?ci" "\<not> ci_skip_conflicts ?ci" by (simp_all add: sample_input_def)
  ultimately show ?thesis using g i ins by (simp add: insert_fresh_def Let_def detectConflicts_def)
qed

lemma gateway_never_hides_witness:
  "\<exists>res d'. gateway sample_host sample_search (sample_input Fact new_text) release_db res d' \<and>
    ca_superseded (cw_conflict res) = Some (js ''a'') \<and>
    (\<exists>r'\<in>set (memories d').
      row_survives (sample_input Fact new_text) (clean_text sample_host (ci_content (sample_input Fact new_text))) res
        (bare_row (js ''a'') Fact old_text) r' \<or>
      row_superseded (sample_input Fact new_text) (clean_text sample_host (ci_content (sample_input Fact new_text))) res
        (bare_row (js ''a'') Fact old_text) r')"
proof -
  obtain res d' where run: "create sample_host sample_search (sample_input Fact new_text) release_db = Inr (res, d')"
    and sup: "ca_superseded (cw_conflict res) = Some (js ''a'')" using release_supersedes by blast
  from run have g: "gateway sample_host sample_search (sample_input Fact new_text) release_db res d'"
    by (simp add: gateway_def)
  have "t_keyed r_id (memories release_db)" "bare_row (js ''a'') Fact old_text \<in> set (memories release_db)"
    "active (bare_row (js ''a'') Fact old_text)"
    by (simp_all add: release_db_def empty_db_def t_keyed_def bare_row_def sample_row_def active_def)
  from gateway_never_hides [OF this(1) sample_fts_ok g this(2,3)] g sup show ?thesis by blast
qed

section \<open>Repetition\<close>

text \<open>One call of the gateway; a call that throws leaves the store as it was.\<close>

definition gateway_step :: "host \<Rightarrow> search_env \<Rightarrow> bool \<times> create_input \<Rightarrow> db \<Rightarrow> db" where
  "gateway_step h se x d = (case x of (smart, ci) \<Rightarrow>
     (case (if smart then storeMemory h se ci d else create h se ci d) of Inl _ \<Rightarrow> d | Inr (_, d') \<Rightarrow> d'))"

definition confidence_cap :: "host \<Rightarrow> rat \<Rightarrow> db \<Rightarrow> bool" where
  "confidence_cap h c d \<longleftrightarrow> (\<forall>r\<in>set (memories d). num_val (r_confidence r) \<le> max (CONFIDENCE h DEDUP_REINFORCEMENT_CEILING) c)"

lemma default_below_ceiling:
  assumes "mono (fl h)"
  shows "defaultConfidence h k \<le> CONFIDENCE h DEDUP_REINFORCEMENT_CEILING"
    "CONFIDENCE h LEARNED \<le> CONFIDENCE h DEDUP_REINFORCEMENT_CEILING"
    "GATEWAY_DEFAULT_CONFIDENCE h k = Some x \<Longrightarrow> x \<le> CONFIDENCE h DEDUP_REINFORCEMENT_CEILING"
  using assms by (auto simp: defaultConfidence_def GATEWAY_DEFAULT_CONFIDENCE_def CONFIDENCE_def
      split: if_splits intro!: monoD [OF assms])

lemma boosted_cap: "boosted h c \<le> max (CONFIDENCE h DEDUP_REINFORCEMENT_CEILING) c"
  by (simp add: boosted_def)

lemma confidence_cap_map:
  assumes "confidence_cap h c d" "memories d' = map (\<lambda>r. if P r then f r else r) (memories d)"
    "\<And>r. r \<in> set (memories d) \<Longrightarrow> P r \<Longrightarrow> num_val (r_confidence (f r)) \<le> max (CONFIDENCE h DEDUP_REINFORCEMENT_CEILING) c"
  shows "confidence_cap h c d'"
  using assms by (auto simp: confidence_cap_def)

lemma conflict_effect_cap:
  assumes "conflict_effect h s m d a d'" "confidence_cap h c d"
  shows "confidence_cap h c d'"
  using assms(1)
proof cases
  case (retired row existing cr)
  show ?thesis using retired(1) assms(2)
    by (auto simp: confidence_cap_def revision_trigger_def)
qed (use assms(2) in \<open>auto simp: confidence_cap_def\<close>)

lemma insert_fresh_cap:
  assumes "fts_ok (se_fts se)" "insert_fresh h se ci content conf d = Inr (res, d')" "confidence_cap h c d"
    "conf \<le> CONFIDENCE h DEDUP_REINFORCEMENT_CEILING"
  shows "confidence_cap h c d'"
proof -
  from insert_fresh_effect [OF assms(1,2)] obtain i d2 where
    m: "memories d2 = memories d @ [fresh_row h se ci i content conf]"
    and alt: "d' = d2 \<or> (\<exists>m. conflict_effect h (ci_suppressed ci) m d2 (cw_conflict res) d')" by blast
  have "num_val (r_confidence (fresh_row h se ci i content conf)) \<le> max (CONFIDENCE h DEDUP_REINFORCEMENT_CEILING) c"
    using assms(4) by (simp add: fresh_row_def Let_def num_val_def le_max_iff_disj)
  with m assms(3) have "confidence_cap h c d2" by (simp add: confidence_cap_def)
  with alt conflict_effect_cap show ?thesis by blast
qed

lemma found_cap:
  assumes "fts_ok (se_fts se)" "findSimilar h se content p k emb d = Some (Some m)" "confidence_cap h c d"
  shows "num_val (r_confidence m) \<le> max (CONFIDENCE h DEDUP_REINFORCEMENT_CEILING) c"
proof -
  from findSimilar_Some [OF assms(1,2)] obtain row where "row \<in> set (memories d)" "rowToMemory h row = Some m" by blast
  with assms(3) show ?thesis by (auto simp: confidence_cap_def row_fields_kept)
qed

lemma update_cap:
  assumes "confidence_cap h c d" "memories d' = memories (exec_update h P g d)"
    "\<And>r. num_val (r_confidence (g r)) \<le> max (CONFIDENCE h DEDUP_REINFORCEMENT_CEILING) c"
  shows "confidence_cap h c d'"
  by (rule confidence_cap_map [OF assms(1), where P = P and f = "\<lambda>r. revision_trigger h (g r)"])
    (simp_all add: assms(2) t_update_def revision_trigger_def, rule assms(3) [unfolded revision_trigger_def])

lemma create_cap:
  assumes mono: "mono (fl h)" and fts: "fts_ok (se_fts se)" and none: "ci_confidence ci = None"
    and cap: "confidence_cap h c d" and run: "create h se ci d = Inr (res, d')"
  shows "confidence_cap h c d'"
proof -
  let ?c = "clean_text h (ci_content ci)"
  from run none consider "insert_fresh h se ci ?c (defaultConfidence h (ci_kind ci)) d = Inr (res, d')"
    | m where "findSimilar h se ?c (ci_project ci) (ci_kind ci) (ci_embedding ci) d = Some (Some m)"
      "merge_create h ci ?c m d = Inr (res, d')"
    by (auto simp: create_def Let_def split: if_splits option.splits)
  then show ?thesis
  proof cases
    case 1
    then show ?thesis using insert_fresh_cap [OF fts _ cap] default_below_ceiling(1) [OF mono] by blast
  next
    case 2
    let ?b = "boosted h (num_val (r_confidence m))"
    have "?b \<le> max (CONFIDENCE h DEDUP_REINFORCEMENT_CEILING) (num_val (r_confidence m))" by (rule boosted_cap)
    with found_cap [OF fts 2(1) cap] have "?b \<le> max (CONFIDENCE h DEDUP_REINFORCEMENT_CEILING) c" by (simp add: le_max_iff_disj) linarith
    moreover from 2(2) obtain tags where "memories d' = memories (exec_update h (has_id (r_id m)) (create_merged h ci ?c tags m) d)"
      by (auto simp: merge_create_def Let_def split: option.splits)
    ultimately show ?thesis using none
      by (intro update_cap [OF cap]) (auto simp: create_merged_def Let_def num_val_def)
  qed
qed

lemma store_cap:
  assumes mono: "mono (fl h)" and fts: "fts_ok (se_fts se)" and none: "ci_confidence ci = None"
    and cap: "confidence_cap h c d" and run: "storeMemory h se ci d = Inr (res, d')"
  shows "confidence_cap h c d'"
proof -
  let ?c = "clean_text h (ci_content ci)"
  let ?conf = "case GATEWAY_DEFAULT_CONFIDENCE h (ci_kind ci) of Some c \<Rightarrow> c | None \<Rightarrow> CONFIDENCE h LEARNED"
  have low: "?conf \<le> CONFIDENCE h DEDUP_REINFORCEMENT_CEILING"
    using default_below_ceiling(2,3) [OF mono] by (auto split: option.splits)
  from run none consider "insert_fresh h se (plain_input ci) ?c ?conf d = Inr (res, d')"
    | m where "findSimilar h se ?c (ci_project ci) (ci_kind ci) (ci_embedding ci) d = Some (Some m)"
      "merge_store h se ci ?c ?conf m d = Inr (res, d')"
    by (auto simp: storeMemory_def Let_def split: option.splits)
  then show ?thesis
  proof cases
    case 1
    then show ?thesis using insert_fresh_cap [OF fts _ cap low] by blast
  next
    case 2
    let ?b = "boosted h (num_val (r_confidence m))"
    have "?b \<le> max (CONFIDENCE h DEDUP_REINFORCEMENT_CEILING) (num_val (r_confidence m))" by (rule boosted_cap)
    with found_cap [OF fts 2(1) cap] low
    have "min (max ?b ?conf) 1 \<le> max (CONFIDENCE h DEDUP_REINFORCEMENT_CEILING) c" by linarith
    moreover from 2(2) obtain emb tags where
      "memories d' = memories (exec_update h (has_id (r_id m)) (store_merged h se ci ?c ?conf emb tags m) d)"
      by (auto simp: merge_store_def Let_def split: option.splits)
    ultimately show ?thesis
      by (intro update_cap [OF cap]) (auto simp: store_merged_def Let_def num_val_def)
  qed
qed

text \<open>C10. Repetition is not authority: however often texts are created or stored without an explicit
  confidence, through either entry of the gateway, in whatever order and with whatever calls failing,
  no memory ever rises above the reinforcement ceiling or the level the store already had.\<close>

theorem repetition_is_not_authority:
  assumes "mono (fl h)" "fts_ok (se_fts se)" "\<forall>(smart, ci)\<in>set calls. ci_confidence ci = None" "confidence_cap h c d"
  shows "confidence_cap h c (fold (gateway_step h se) calls d)"
  using assms(3,4)
proof (induction calls arbitrary: d)
  case (Cons x calls)
  obtain smart ci where x: "x = (smart, ci)" by fastforce
  have none: "ci_confidence ci = None" using Cons.prems(1) x by simp
  let ?run = "if smart then storeMemory h se ci d else create h se ci d"
  have "confidence_cap h c (gateway_step h se x d)"
  proof (cases ?run)
    case (Inl e)
    then show ?thesis using Cons.prems(2) x by (simp add: gateway_step_def)
  next
    case (Inr y)
    obtain res d' where y: "y = (res, d')" by fastforce
    have "confidence_cap h c d'"
      using Inr y create_cap [OF assms(1,2) none Cons.prems(2)] store_cap [OF assms(1,2) none Cons.prems(2)]
      by (cases smart) auto
    then show ?thesis using Inr y x by (simp add: gateway_step_def)
  qed
  with Cons show ?case by simp
qed simp

lemma repetition_is_not_authority_witness:
  "confidence_cap sample_host (65 / 100) (fold (gateway_step sample_host sample_search)
     [(False, sample_input Fact new_text), (True, sample_input Pitfall old_text), (False, sample_input Rule old_text)] release_db) \<and>
   confidence_cap sample_host (65 / 100) release_db"
proof -
  have m: "mono (fl sample_host)" by (simp add: sample_host_def mono_def)
  have c: "confidence_cap sample_host (65 / 100) release_db"
    by (simp add: confidence_cap_def release_db_def empty_db_def bare_row_def sample_row_def num_val_def CONFIDENCE_def
        sample_host_def)
  have n: "\<forall>(smart, ci)\<in>set [(False, sample_input Fact new_text), (True, sample_input Pitfall old_text),
      (False, sample_input Rule old_text)]. ci_confidence ci = None"
    by (simp add: sample_input_def)
  from repetition_is_not_authority [OF m sample_fts_ok n c] c show ?thesis by blast
qed

section \<open>Updates and merges that do more than they should\<close>

text \<open>A merge through \<open>create\<close> takes the source of the call, even a weaker one: text that the user stated
  becomes merely learned when it is repeated.  (\<open>storeMemory\<close> keeps the stronger source, \<open>merged_source\<close>.)\<close>

lemma updated_member:
  assumes "r \<in> set (t_update (has_id i) f rows)" "r_id r = i" "\<And>x. r_id (f x) = r_id x"
  shows "\<exists>x\<in>set rows. r = f x"
  using assms by (auto simp: t_update_def split: if_splits)

lemma create_merge_overwrites_source:
  assumes "merge_create h ci content m d = Inr (res, d')" "r \<in> set (memories d')" "r_id r = r_id m"
  shows "r_source r = input_source ci"
proof -
  from assms(1) obtain tags where "memories d' = t_update (has_id (r_id m))
      (\<lambda>x. revision_trigger h (create_merged h ci content tags m x)) (memories d)"
    by (auto simp: merge_create_def Let_def split: option.splits)
  with assms(2,3) updated_member [of r "r_id m" "\<lambda>x. revision_trigger h (create_merged h ci content tags m x)" "memories d"]
  obtain x where "r = revision_trigger h (create_merged h ci content tags m x)"
    by (auto simp: create_merged_def Let_def)
  then show ?thesis by (simp add: create_merged_def Let_def revision_trigger_def input_source_def)
qed

lemma merged_source:
  assumes "merge_store h se ci content conf m d = Inr (res, d')" "r \<in> set (memories d')" "r_id r = r_id m"
  shows "r_source m \<le> r_source r"
proof -
  from assms(1) obtain emb tags where "memories d' = t_update (has_id (r_id m))
      (\<lambda>x. revision_trigger h (store_merged h se ci content conf emb tags m x)) (memories d)"
    by (auto simp: merge_store_def Let_def split: option.splits)
  with assms(2,3) updated_member [of r "r_id m" "\<lambda>x. revision_trigger h (store_merged h se ci content conf emb tags m x)" "memories d"]
  obtain x where "r = revision_trigger h (store_merged h se ci content conf emb tags m x)"
    by (auto simp: store_merged_def Let_def)
  then show ?thesis by (simp add: store_merged_def Let_def revision_trigger_def source_authority_le)
qed

text \<open>A refused update leaves a trace: updating a memory that is invalidated changes no row and answers
  false, but the transaction commits a line of version history that records the change as made.\<close>

theorem refused_update_records_version:
  assumes "t_keyed r_id (memories d)" "row_of d i = Some r" "r_kind r \<noteq> Rule" "r_invalidated r \<noteq> 0"
    "rowToMemory h r \<noteq> None" "clean_text h newContent \<noteq> r_content r"
  shows "\<exists>d'. update h i newContent suppressed d = Some (False, d') \<and> memories d' = memories d \<and> journal d' = journal d \<and>
    versions d' = versions d @ [\<lparr> v_memory = i, v_old = r_content r, v_new = clean_text h newContent, v_at = iso_now h \<rparr>]"
proof -
  from assms(5) obtain m where m: "rowToMemory h r = Some m" by auto
  from t_get_Some [OF assms(2)] have r: "r \<in> set (memories d)" "r_id r = i" by auto
  have none: "\<not> updatable i x" if "x \<in> set (memories d)" for x
  proof
    assume u: "updatable i x"
    then have "r_id r = r_id x" using r(2) by (simp add: updatable_def)
    from keyed_row [OF assms(1) r(1) that this] u assms(4) show False by (simp add: updatable_def)
  qed
  have f: "find (\<lambda>r. r_id r = i \<and> r_kind r \<noteq> Rule) (memories d) = Some r"
  proof (cases "find (\<lambda>r. r_id r = i \<and> r_kind r \<noteq> Rule) (memories d)")
    case None
    then show ?thesis using r assms(3) by (auto simp: find_None_iff)
  next
    case (Some x)
    from find_SomeD [OF Some] have x: "x \<in> set (memories d)" "r_id r = r_id x" using r(2) by auto
    from keyed_row [OF assms(1) r(1) x] Some show ?thesis by simp
  qed
  have count: "t_count (updatable i) (memories d) = 0" using none by (simp add: t_count_def filter_empty_conv)
  have same: "t_update (updatable i) g (memories d) = memories d" for g
    using none by (simp add: t_update_def map_idI)
  have found: "findById h i (memories d) = Some (Some m)" using f m by (simp add: findById_def)
  have "r_content m \<noteq> clean_text h newContent" using assms(6) row_fields_kept(2) [OF m] by simp
  then show ?thesis
    by (simp add: update_def Let_def found storeVersion_def count same row_fields_kept(2) [OF m])
qed

lemma refused_update_records_version_witness:
  "let r = (bare_row (js ''a'') Fact old_text)\<lparr> r_invalidated := 1 \<rparr>; d = empty_db\<lparr> memories := [r] \<rparr>
   in \<exists>d'. update sample_host (js ''a'') new_text False d = Some (False, d') \<and> memories d' = [r] \<and>
     map v_new (versions d') = [new_text]"
proof -
  let ?r = "(bare_row (js ''a'') Fact old_text)\<lparr> r_invalidated := 1 \<rparr>"
  let ?d = "empty_db\<lparr> memories := [?r] \<rparr>"
  have "t_keyed r_id (memories ?d)" "row_of ?d (js ''a'') = Some ?r" "r_kind ?r \<noteq> Rule" "r_invalidated ?r \<noteq> 0"
      "r_content ?r = old_text"
    by (simp_all add: t_keyed_def t_get_def bare_row_def sample_row_def)
  moreover have "rowToMemory sample_host ?r \<noteq> None"
    by (simp add: rowToMemory_bare bare_row_def sample_row_def)
  ultimately obtain d' where "update sample_host (js ''a'') new_text False ?d = Some (False, d')"
    "memories d' = memories ?d" "versions d' = versions ?d @
      [\<lparr> v_memory = js ''a'', v_old = r_content ?r, v_new = clean_text sample_host new_text, v_at = iso_now sample_host \<rparr>]"
    using refused_update_records_version [of ?d "js ''a''" ?r sample_host new_text False] clean_new_text by auto
  then show ?thesis using clean_new_text by (simp add: Let_def empty_db_def)
qed

end
