(* ===== verification/Command_Properties.thy ===== *)
theory Command_Properties
  imports Command_Facts Write_Properties Materializer_Facts
begin

text \<open>
  The properties of the memory tool as the SDK runner drives it: a command changes only the rows of
  the files its paths name, what it shares is in the journal, a command that fails has changed
  nothing unless a committed replacement could not be shown, and a replacement touches only the
  records whose current rendering it quotes.
\<close>

section \<open>Effects of the handlers\<close>

text \<open>Rendering reads the database only.\<close>

lemma materialize_db: "materialize te path project cat ranged s = (ls, s') \<Longrightarrow> ts_db s' = ts_db s"
  by (auto simp: materialize_def split: option.splits)

lemma materializedLines_db: "materializedLines te project cat ranged s = (r, s') \<Longrightarrow> ts_db s' = ts_db s"
  using materialize_db [of te _ project cat ranged s]
  by (auto simp: materializedLines_def Let_def split: if_splits option.splits prod.splits)

lemma category_listing_db: "category_listing te project cs s = (es, s') \<Longrightarrow> ts_db s' = ts_db s"
proof (induction cs arbitrary: s es)
  case (Cons cat cs)
  then show ?case using materialize_db [of te _ project cat False s] by (fastforce split: if_splits prod.splits)
qed simp

lemma directoryEntries_db: "directoryEntries te project s = (es, s') \<Longrightarrow> ts_db s' = ts_db s"
  using category_listing_db by (auto simp: directoryEntries_def split: prod.splits)

lemma project_listings_db: "project_listings te ps s = (es, s') \<Longrightarrow> ts_db s' = ts_db s"
proof (induction ps arbitrary: s es)
  case (Cons p ps)
  then show ?case using directoryEntries_db [of te p s] by (fastforce split: prod.splits)
qed simp

lemma rootEntries_db: "rootEntries te s = (es, s') \<Longrightarrow> ts_db s' = ts_db s"
  using project_listings_db by (auto simp: rootEntries_def split: prod.splits)

lemma view_db: "view te raw vr s = (a, s') \<Longrightarrow> ts_db s' = ts_db s"
  using rootEntries_db [of te s] directoryEntries_db [of te _ s] materializedLines_db [of te _ _ _ s]
  by (auto simp: view_def split: sum.splits routed_path.splits prod.splits if_splits option.splits)

lemma drop_cached_db [simp]: "ts_db (drop_cached path s) = ts_db s"
  by (simp add: drop_cached_def)

lemma run_planned_Inl: "run_planned te cat project path body s = (Inl e, s') \<Longrightarrow> s' = s"
  by (auto simp: run_planned_def split: sum.splits)

lemma run_planned_Inr: "run_planned te cat project path body s = (Inr u, s') \<Longrightarrow> body (ts_db s) = Inr (ts_db s')"
  by (auto simp: run_planned_def split: sum.splits)

text \<open>The edits of records a command can commit.\<close>

inductive committed_edit :: "tool_env \<Rightarrow> command \<Rightarrow> db \<Rightarrow> db \<Rightarrow> bool" for te :: tool_env where
  created: "routed path = Inr (Materialized p cat ro) \<Longrightarrow> cat \<noteq> Plan \<Longrightarrow> create_body te cat p blocks d = Inr d' \<Longrightarrow>
    committed_edit te (Create_Command path text) d d'"
| inserted: "routed path = Inr (Materialized p cat ro) \<Longrightarrow> cat \<noteq> Plan \<Longrightarrow> create_all te cat p blocks d = Inr d' \<Longrightarrow>
    committed_edit te (Insert_Command path k text) d d'"
| replaced: "routed path = Inr (Materialized p cat ro) \<Longrightarrow> cat \<noteq> Plan \<Longrightarrow> parsed te old = Inr oldBlocks \<Longrightarrow>
    replace_body te cat p oldBlocks newBlocks d = Inr d' \<Longrightarrow>
    committed_edit te (Str_Replace_Command path old new) d d'"
| deleted: "routed path = Inr (Materialized p cat ro) \<Longrightarrow> cat \<noteq> Plan \<Longrightarrow> delete_body te p cat d = Inr (n, d') \<Longrightarrow>
    committed_edit te (Delete_Command path) d d'"
| emptied: "routed path = Inr (Directory p) \<Longrightarrow> deleteDirectory_body te p d = Inr (m, n, d') \<Longrightarrow>
    committed_edit te (Delete_Command path) d d'"
| renamed: "routed path = Inr (Materialized p cat ro) \<Longrightarrow> routed path' = Inr (Materialized p' cat ro') \<Longrightarrow> cat \<noteq> Plan \<Longrightarrow>
    rename_body te cat p p' d = Inr d' \<Longrightarrow> committed_edit te (Rename_Command path path') d d'"

inductive_cases committed_replace: "committed_edit te (Str_Replace_Command path old new) d d'"

text \<open>What a command did to the database: nothing, a change of free-form files only, or one of these edits;
  and an answer that is an error leaves the last only after a replacement.\<close>

definition free_only :: "db \<Rightarrow> db \<Rightarrow> bool" where
  "free_only d d' \<longleftrightarrow> memories d' = memories d \<and> journal d' = journal d"

definition command_effect :: "tool_env \<Rightarrow> command \<Rightarrow> db \<Rightarrow> (tool_error + jstr) \<Rightarrow> db \<Rightarrow> bool" where
  "command_effect te c d a d' \<longleftrightarrow> d' = d \<or> (\<not> isl a \<and> (free_only d d' \<or> committed_edit te c d d')) \<or>
     (\<exists>path old new. c = Str_Replace_Command path old new \<and> committed_edit te c d d')"

lemma free_form_effect:
  assumes "free_form r s = (a, s')" "\<And>msg d'. r = Inr (msg, d') \<Longrightarrow> free_only (ts_db s) d'"
  shows "command_effect te c (ts_db s) a (ts_db s')"
  using assms by (auto simp: free_form_def command_effect_def split: sum.splits prod.splits)

lemma files_free_only:
  "writeFreeForm h p c d = Inr d' \<Longrightarrow> free_only d d'"
  "freeFormReplace h p x y d = Inr (msg, d') \<Longrightarrow> free_only d d'"
  "freeFormInsert h p k c d = Inr (msg, d') \<Longrightarrow> free_only d d'"
  "freeFormRename h p q d = Inr (msg, d') \<Longrightarrow> free_only d d'"
  "freeFormDelete p d = Inr (msg, d') \<Longrightarrow> free_only d d'"
  using file_step_frame [of h "Op_Write p c" d] file_step_frame [of h "Op_Replace p x y" d]
    file_step_frame [of h "Op_Insert p k c" d] file_step_frame [of h "Op_Rename p q" d] file_step_frame [of h "Op_Delete p" d]
  by (auto simp: free_only_def committed_def)

lemma create_file_effect:
  "create_file te path text s = (a, s') \<Longrightarrow> command_effect te (Create_Command path text) (ts_db s) a (ts_db s')"
  by (auto simp: create_file_def command_effect_def dest: files_free_only(1) dest!: run_planned_Inl run_planned_Inr
      intro: committed_edit.created split: sum.splits routed_path.splits if_splits prod.splits)

lemma insert_records_effect:
  assumes "insert_records te (categoryPath p cat) p cat k blocks s = (a, s')"
    "routed path = Inr (Materialized p cat ro)" "cat \<noteq> Plan"
  shows "command_effect te (Insert_Command path k text) (ts_db s) a (ts_db s')"
proof -
  obtain r s1 where m: "materializedLines te p cat False s = (r, s1)" by fastforce
  note db = materializedLines_db [OF m]
  show ?thesis using assms db
    by (auto simp: insert_records_def m command_effect_def dest!: run_planned_Inl run_planned_Inr
        intro: committed_edit.inserted split: sum.splits if_splits prod.splits option.splits)
qed

lemma insert_text_effect:
  assumes "insert_text te path k text s = (a, s')"
  shows "command_effect te (Insert_Command path k text) (ts_db s) a (ts_db s')"
proof -
  consider (free) p where "routed path = Inr (Free_Form p)"
    | (listed) p cat ro where "routed path = Inr (Materialized p cat ro)" "\<not> (ro \<or> cat = Plan)"
    | (none) "s' = s"
    using assms by (auto simp: insert_text_def split: sum.splits routed_path.splits if_splits)
  then show ?thesis
  proof cases
    case free
    then show ?thesis using assms by (auto simp: insert_text_def dest: files_free_only(3) intro: free_form_effect)
  next
    case listed
    then consider "s' = s" | blocks where "insert_records te (categoryPath p cat) p cat k blocks s = (a, s')"
      using assms by (auto simp: insert_text_def split: sum.splits if_splits)
    then show ?thesis
      by cases (simp add: command_effect_def, use insert_records_effect listed in blast)
  qed (simp add: command_effect_def)
qed

lemma delete_path_effect:
  assumes "delete_path te path s = (a, s')"
  shows "command_effect te (Delete_Command path) (ts_db s) a (ts_db s')"
proof -
  consider (free) p where "routed path = Inr (Free_Form p)"
    | (listed) p cat ro where "routed path = Inr (Materialized p cat ro)" "\<not> (ro \<or> cat = Plan)"
    | (dir) p where "routed path = Inr (Directory p)"
    | (none) "s' = s"
    using assms by (auto simp: delete_path_def split: sum.splits routed_path.splits if_splits)
  then show ?thesis
  proof cases
    case free
    then show ?thesis using assms by (auto simp: delete_path_def dest: files_free_only(5) intro: free_form_effect)
  next
    case listed
    then show ?thesis using assms
      by (auto simp: delete_path_def command_effect_def intro: committed_edit.deleted split: sum.splits prod.splits)
  next
    case dir
    then show ?thesis using assms
      by (auto simp: delete_path_def deleteDirectory_def command_effect_def intro: committed_edit.emptied
          split: sum.splits prod.splits)
  qed (simp add: command_effect_def)
qed

lemma materializedRename_effect:
  assumes "materializedRename te path path' (p, cat, ro) (p', cat', ro') s = (a, s')"
    "routed path = Inr (Materialized p cat ro)" "routed path' = Inr (Materialized p' cat' ro')"
  shows "command_effect te (Rename_Command path path') (ts_db s) a (ts_db s')"
  using assms by (auto simp: materializedRename_def command_effect_def intro: committed_edit.renamed split: sum.splits if_splits)

lemma rename_path_effect:
  assumes "rename_path te path path' s = (a, s')"
  shows "command_effect te (Rename_Command path path') (ts_db s) a (ts_db s')"
proof -
  consider (free) p p' where "free_form (freeFormRename (te_host te) p p' (ts_db s)) s = (a, s')"
    | (listed) p cat ro p' cat' ro' where "routed path = Inr (Materialized p cat ro)" "routed path' = Inr (Materialized p' cat' ro')"
      "materializedRename te path path' (p, cat, ro) (p', cat', ro') s = (a, s')"
    | (none) "s' = s"
    using assms by (auto simp: rename_path_def split: sum.splits routed_path.splits if_splits)
  then show ?thesis
  proof cases
    case free
    then show ?thesis by (rule free_form_effect) (rule files_free_only(4))
  next
    case listed
    then show ?thesis using materializedRename_effect by blast
  qed (simp add: command_effect_def)
qed

lemma strReplace_cases:
  assumes "strReplace te path old new s = (a, s')" "routed path = Inr (Materialized p cat ro)"
  shows "ts_db s' = ts_db s \<or> (cat \<noteq> Plan \<and> (\<exists>oldBlocks newBlocks. parsed te old = Inr oldBlocks \<and>
    replace_body te cat p oldBlocks newBlocks (ts_db s) = Inr (ts_db s')))"
proof (cases "cat = Plan \<or> ro")
  case False
  show ?thesis
  proof (cases "parsed te old")
    case (Inr oldBlocks)
    then show ?thesis using assms False materializedLines_db
      by (fastforce simp: strReplace_def Let_def dest!: run_planned_Inl run_planned_Inr split: sum.splits if_splits prod.splits)
  qed (use assms False in \<open>auto simp: strReplace_def\<close>)
qed (use assms in \<open>auto simp: strReplace_def\<close>)

lemma strReplace_effect:
  assumes "strReplace te path old new s = (a, s')"
  shows "command_effect te (Str_Replace_Command path old new) (ts_db s) a (ts_db s')"
proof -
  consider (free) p x where "free_form (freeFormReplace (te_host te) p old x (ts_db s)) s = (a, s')"
    | (listed) p cat ro where "routed path = Inr (Materialized p cat ro)"
    | (none) "s' = s"
    using assms by (auto simp: strReplace_def split: sum.splits routed_path.splits)
  then show ?thesis
  proof cases
    case free
    then show ?thesis by (rule free_form_effect) (rule files_free_only(2))
  next
    case listed
    from strReplace_cases [OF assms listed] show ?thesis
    proof (elim disjE conjE exE)
      fix oldBlocks newBlocks
      assume "cat \<noteq> Plan" "parsed te old = Inr oldBlocks" "replace_body te cat p oldBlocks newBlocks (ts_db s) = Inr (ts_db s')"
      from committed_edit.replaced [OF listed this] show ?thesis unfolding command_effect_def by blast
    qed (simp add: command_effect_def)
  qed (simp add: command_effect_def)
qed

lemma run_command_effect: "run_command te c s = (a, s') \<Longrightarrow> command_effect te c (ts_db s) a (ts_db s')"
proof (cases c)
  case (View_Command path vr)
  then show "run_command te c s = (a, s') \<Longrightarrow> ?thesis"
    using view_db by (auto simp: command_effect_def split: sum.splits)
qed (auto intro: create_file_effect strReplace_effect insert_text_effect delete_path_effect rename_path_effect)

section \<open>Scope and journal\<close>

text \<open>The rows of the file or directory a path names, and the rows a command may touch.\<close>

definition path_scope :: "jstr \<Rightarrow> memory_row \<Rightarrow> bool" where
  "path_scope raw r = (case routed raw of
      Inr (Materialized project cat ro) \<Rightarrow> r_project r = project \<and> r_kind r \<in> set (CATEGORY_KINDS cat)
    | Inr (Directory project) \<Rightarrow> r_project r = project \<and> r_kind r \<in> set (vfsOwnedKinds project)
    | _ \<Rightarrow> False)"

fun command_scope :: "command \<Rightarrow> memory_row \<Rightarrow> bool" where
  "command_scope (View_Command path vr) r \<longleftrightarrow> False"
| "command_scope (Create_Command path text) r \<longleftrightarrow> path_scope path r"
| "command_scope (Str_Replace_Command path old new) r \<longleftrightarrow> path_scope path r"
| "command_scope (Insert_Command path k text) r \<longleftrightarrow> path_scope path r"
| "command_scope (Delete_Command path) r \<longleftrightarrow> path_scope path r"
| "command_scope (Rename_Command path path') r \<longleftrightarrow> path_scope path r \<or> path_scope path' r"

lemma sound_edit_mono:
  assumes "sound_edit S d d'" "\<And>r. S r \<Longrightarrow> T r"
  shows "sound_edit T d d'"
proof -
  have "filter (\<lambda>r. \<not> T r) xs = filter (\<lambda>r. \<not> T r) (filter (\<lambda>r. \<not> S r) xs)" for xs
    using assms(2) by (induction xs) auto
  then show ?thesis using assms(1) by (metis sound_edit_def scoped_def)
qed

lemma path_scope_file:
  "routed path = Inr (Materialized p cat ro) \<Longrightarrow> file_scope p (CATEGORY_KINDS cat) r \<Longrightarrow> path_scope path r"
  by (simp add: path_scope_def file_scope_def)

lemma committed_sound:
  assumes "committed_edit te c d d'" "t_keyed r_id (memories d)" "fts_ok (se_fts (te_search te))"
  shows "sound_edit (command_scope c) d d'"
  using assms(1)
proof cases
  case (created path p cat ro blocks tx)
  from created have "create_all te cat p blocks d = Inr d'" by (auto simp: create_body_def split: if_splits)
  from create_all_sound [OF assms(2,3) created(3) this] show ?thesis
    by (rule sound_edit_mono) (simp add: created path_scope_file)
next
  case (inserted path p cat ro blocks k tx)
  from create_all_sound [OF assms(2,3) inserted(3,4)] show ?thesis
    by (rule sound_edit_mono) (simp add: inserted path_scope_file)
next
  case (replaced path p cat ro old oldBlocks newBlocks new)
  from replace_body_sound [OF assms(2,3) replaced(3,5)] show ?thesis
    by (rule sound_edit_mono) (simp add: replaced path_scope_file)
next
  case (deleted path p cat ro n)
  from delete_body_sound [OF assms(2) deleted(4)] show ?thesis
    by (rule sound_edit_mono) (simp add: deleted path_scope_file)
next
  case (emptied path p m n)
  from deleteDirectory_body_sound [OF assms(2) emptied(3)] show ?thesis
    by (rule sound_edit_mono) (simp add: emptied path_scope_def file_scope_def)
next
  case (renamed path p cat ro path' p' ro')
  from rename_body_sound [OF assms(2) renamed(5)] show ?thesis
    by (rule sound_edit_mono) (use path_scope_file renamed in auto)
qed

lemma run_command_sound:
  assumes "run_command te c s = (a, s')" "t_keyed r_id (memories (ts_db s))" "fts_ok (se_fts (te_search te))"
  shows "sound_edit (command_scope c) (ts_db s) (ts_db s')"
  using run_command_effect [OF assms(1)] committed_sound [OF _ assms(2,3)] sound_edit_same [OF assms(2)] sound_edit_refl [OF assms(2)]
  unfolding command_effect_def free_only_def by metis

section \<open>Properties\<close>

text \<open>C13. A command changes only the rows of the files its paths name: every other memory is there afterwards,
  unchanged and in the same order, whether the command succeeds or fails.\<close>

theorem commands_stay_in_scope:
  assumes "t_keyed r_id (memories (ts_db s))" "fts_ok (se_fts (te_search te))" "run_command te c s = (a, s')"
  shows "filter (\<lambda>r. \<not> command_scope c r) (memories (ts_db s')) = filter (\<lambda>r. \<not> command_scope c r) (memories (ts_db s))"
  using run_command_sound [OF assms(3,1,2)] by (simp add: sound_edit_def scoped_def)

text \<open>A conversation with the tool.\<close>

definition run_commands :: "tool_env \<Rightarrow> command list \<Rightarrow> tool_state \<Rightarrow> tool_state" where
  "run_commands te cs s = fold (\<lambda>c s. snd (run_command te c s)) cs s"

lemma run_commands_sound:
  assumes "t_keyed r_id (memories (ts_db s))" "fts_ok (se_fts (te_search te))"
  shows "sound_edit (\<lambda>_. True) (ts_db s) (ts_db (run_commands te cs s))"
  using assms(1)
proof (induction cs arbitrary: s)
  case Nil
  then show ?case by (simp add: run_commands_def sound_edit_refl)
next
  case (Cons c cs)
  obtain a s1 where r: "run_command te c s = (a, s1)" by fastforce
  note I = sound_edit_mono [OF run_command_sound [OF r Cons.prems assms(2)], of "\<lambda>_. True", simplified]
  from sound_edit_trans [OF I Cons.IH [OF sound_edit_keyed [OF I]]] show ?case by (simp add: run_commands_def r)
qed



text \<open>An old block quotes a row: the token names it at its current revision and the text is the canonical
  rendering of the record.\<close>

definition quotes :: "host \<Rightarrow> jstr option \<Rightarrow> category \<Rightarrow> db \<Rightarrow> parsed_block \<Rightarrow> memory_row \<Rightarrow> bool" where
  "quotes h project cat d b row \<longleftrightarrow> (\<exists>t m p canonical. b_token b = Some t \<and> in_scope project (CATEGORY_KINDS cat) row \<and>
     rowToMemory h row = Some m \<and> r_revision row = t_revision t \<and> CODE_KINDS (t_code t) = Some (r_kind row) \<and>
     prefix_get (canonicalPrefixes h project cat d) (r_id row) = Some p \<and> t_prefix t = p \<and>
     renderBlock h m p = Some canonical \<and> join [10] (b_raw b) = join [10] canonical)"

lemma resolved_quotes:
  assumes "resolveAndCheck h t project path (CATEGORY_KINDS cat) d = Inr m" "b_token b = Some t"
    "prefix_get (canonicalPrefixes h project cat d) (r_id m) = Some p" "renderBlock h m p = Some canonical" "t_prefix t = p"
    "join [10] (b_raw b) = join [10] canonical"
  shows "\<exists>row\<in>set (memories d). r_id row = r_id m \<and> quotes h project cat d b row"
  using assms(1)
proof (rule resolve_Inr)
  fix row kind
  assume row: "row \<in> set (memories d)" "CODE_KINDS (t_code t) = Some kind" "kind \<in> set (CATEGORY_KINDS cat)"
    "candidate kind project row" "rowToMemory h row = Some m" "r_id m = r_id row" "r_revision m = t_revision t"
  then have "r_revision row = t_revision t" using row_fields_kept [OF row(5)] by simp
  then have "quotes h project cat d b row" unfolding quotes_def using row assms
    by (intro exI [of _ t] exI [of _ m] exI [of _ p] exI [of _ canonical]) (auto simp: in_scope_def candidate_def)
  with row(1,6) show ?thesis by metis
qed

text \<open>C12. A replacement touches only what it quotes: when a \<open>str_replace\<close> on a record file changed the
  database, every block of the old text quotes, word for word, the current rendering of an active
  record of that file at its current revision, and every other memory is there unchanged.\<close>

theorem replacement_touches_only_quoted:
  assumes "t_keyed r_id (memories (ts_db s))" "fts_ok (se_fts (te_search te))" "routed path = Inr (Materialized project cat ro)"
    "strReplace te path old new s = (a, s')" "ts_db s' \<noteq> ts_db s"
  shows "\<exists>blocks. parsed te old = Inr blocks \<and>
    (\<forall>b\<in>set blocks. \<exists>row\<in>set (memories (ts_db s)). quotes (te_host te) project cat (ts_db s) b row) \<and>
    (\<forall>row\<in>set (memories (ts_db s)). row \<in> set (memories (ts_db s')) \<or>
      (\<exists>b\<in>set blocks. quotes (te_host te) project cat (ts_db s) b row))"
proof -
  let ?d = "ts_db s" and ?h = "te_host te"
  from strReplace_cases [OF assms(4,3)] assms(5) obtain blocks newBlocks where cat: "cat \<noteq> Plan" and b: "parsed te old = Inr blocks"
    and body: "replace_body te cat project blocks newBlocks ?d = Inr (ts_db s')" by blast
  from replace_body_leaves [OF assms(2) cat body] obtain resolved where
    v: "verifyOldBlocks ?h blocks project cat (categoryPath project cat) ?d = Inr resolved"
    and l: "leaves ((\<lambda>x. r_id (rr_record x)) ` set resolved) ?d (ts_db s')" by blast
  have "\<exists>row\<in>set (memories ?d). quotes ?h project cat ?d b row" if b: "b \<in> set blocks" for b
    using foldE_each [OF v [unfolded verifyOldBlocks_def] b] by (metis verify_block_Inr resolved_quotes)
  moreover have "row \<in> set (memories (ts_db s')) \<or> (\<exists>b\<in>set blocks. quotes ?h project cat ?d b row)"
    if row: "row \<in> set (memories ?d)" for row
  proof (cases "r_id row \<in> (\<lambda>x. r_id (rr_record x)) ` set resolved")
    case True
    then obtain x where x: "x \<in> set resolved" "r_id row = r_id (rr_record x)" by blast
    from verifyOldBlocks_resolved [OF v x(1)] obtain b row' where "b \<in> set blocks" "row' \<in> set (memories ?d)"
      "r_id row' = r_id row" "quotes ?h project cat ?d b row'"
      unfolding resolved_in_def x(2) using resolved_quotes by metis
    with keyed_row [OF assms(1) row] show ?thesis by metis
  qed (use l row in \<open>auto simp: leaves_def\<close>)
  ultimately show ?thesis using b by blast
qed

text \<open>A file without active rows has no lines, and the full view answers that it does not exist.\<close>

lemma empty_rendering:
  assumes "activeRows project (CATEGORY_KINDS cat) (memories (ts_db s)) = []" "cat \<noteq> Plan"
  shows "fst (materializedLines te project cat False s) = Inl (Nonexistent (categoryPath project cat))"
proof -
  have "filter (in_scope project (CATEGORY_KINDS cat)) (memories (ts_db s)) = []"
    using assms(1) by (simp add: activeRows_Nil filter_empty_conv)
  then have "render (te_host te) (memories (ts_db s)) project cat = []"
    by (simp add: render_def loadActiveRecords_def partitionRenderable_def sort_cmp_def renderRecords_def RECORD_SANITY_LIMIT_def)
  then show ?thesis using assms(2)
    by (simp add: materializedLines_def materialize_def materializeView_def cache_set_def freeze_def frozen_rendering.defs
        Let_def split: prod.splits)
qed

text \<open>C40. A defect: a \<open>str_replace\<close> that removes the last record of a file commits, and then answers that the
  path does not exist, because the answer shows the file that is now empty; the caller sees an error
  although the records are gone.\<close>

theorem str_replace_last_record_errors:
  assumes "routed path = Inr (Materialized project cat False)" "cat \<noteq> Plan" "parsed te old = Inr blocks"
    "list_all (\<lambda>b. b_token b \<noteq> None) blocks" "replace_body te cat project blocks [] (ts_db s) = Inr d'"
    "activeRows project (CATEGORY_KINDS cat) (memories d') = []"
  shows "\<exists>s'. strReplace te path old None s = (Inl (Nonexistent (categoryPath project cat)), s') \<and> ts_db s' = d'"
proof -
  let ?s1 = "drop_cached (categoryPath project cat) (s\<lparr> ts_db := d' \<rparr>)"
  obtain r s2 where m: "materializedLines te project cat False ?s1 = (r, s2)" by fastforce
  have "r = Inl (Nonexistent (categoryPath project cat))"
    using empty_rendering [of project cat ?s1 te] m assms(2,6) by simp
  moreover have "\<not> list_ex (\<lambda>b. b_token b = None) blocks" using assms(4) by (auto simp: list_ex_iff list_all_iff)
  moreover have "ts_db s2 = d'" using materializedLines_db [OF m] by simp
  ultimately show ?thesis using assms m by (simp add: strReplace_def Let_def run_planned_def)
qed

text \<open>A ranged view of a file with no records answers with the notice line alone instead of the error that a
  full view gives.\<close>

lemma ranged_view_of_missing_file:
  assumes "activeRows project (CATEGORY_KINDS cat) (memories (ts_db s)) = []" "cat \<noteq> Plan"
    "t_get fst (categoryPath project cat) (ts_cache s) = None"
  shows "fst (materializedLines te project cat True s) = Inr [FRESH_RENDERING_NOTICE]"
proof -
  have "filter (in_scope project (CATEGORY_KINDS cat)) (memories (ts_db s)) = []"
    using assms(1) by (simp add: activeRows_Nil filter_empty_conv)
  then have "render (te_host te) (memories (ts_db s)) project cat = []"
    by (simp add: render_def loadActiveRecords_def partitionRenderable_def sort_cmp_def renderRecords_def RECORD_SANITY_LIMIT_def)
  then show ?thesis using assms(2,3)
    by (simp add: materializedLines_def materialize_def materializeView_def cache_set_def cache_get_def freeze_def frozen_rendering.defs
        Let_def split: prod.splits)
qed

section \<open>Witnesses\<close>

definition lone_id :: jstr where "lone_id = js ''0a000000-0000-4000-8000-000000000001''"

definition lone_row :: memory_row where "lone_row = bare_row lone_id Pitfall (js ''use tabs'')"

definition lone_db :: db where "lone_db = empty_db\<lparr> memories := [lone_row] \<rparr>"

definition lone_memory :: memory where
  "lone_memory = memory_row.extend lone_row (memory.fields (JArr []) JNull JNull)"

lemma lone_fields: "r_id lone_row = lone_id" "r_kind lone_row = Pitfall" "r_project lone_row = Some (js ''web'')"
  "r_revision lone_row = 1" "r_content lone_row = js ''use tabs''" "active lone_row" "r_invalidated lone_row = 0"
  by (simp_all add: lone_row_def bare_row_def sample_row_def active_def)

lemma lone_maps: "rowToMemory h lone_row = Some lone_memory"
  by (simp add: lone_memory_def lone_row_def bare_row_def sample_row_def rowToMemory_bare)

lemma lone_valid: "recordDefect lone_memory = None" 
  by code_simp

lemma lone_valid2: "recordDefect (memory.extend lone_memory (renderable.fields x)) = None"
  by code_simp

lemma lone_printable: "printable lone_memory"
  using lone_valid by (simp add: printable_def lone_memory_def lone_row_def bare_row_def sample_row_def memory_row.defs memory.defs ctx_one_line_def
      ctx_text_def one_line_def js_def label_ok_def str_array_of_def trim_def trim_start_def is_space_def)

lemma like_plain_prefix: "starts_with p s \<Longrightarrow> list_all is_prefix_unit p \<Longrightarrow> like_plain (p @ [37]) s"
proof (induction p arbitrary: s)
  case Nil
  have "like_plain [37] s" by (induction s) (simp_all add: like_plain.simps)
  then show ?case by simp
next
  case (Cons c p)
  then obtain s' where "s = c # s'" by (cases s) (auto simp: starts_with_def)
  with Cons show ?case by (auto simp: like_plain.simps starts_with_def is_prefix_unit_def is_lower_hex_def is_digit_def)
qed

text \<open>The one record of the file, the prefix it gets, and its block.\<close>

lemma lone_token:
  obtains p block where "prefix_get (canonicalPrefixes sample_host (Some (js ''web'')) Pitfalls lone_db) lone_id = Some p"
    "token_prefix p" "starts_with p lone_id" "renderBlock sample_host lone_memory p = Some block"
    "parseBlocks sample_host (join [10] block) = Inr [record_block lone_memory p block]"
proof -
  let ?r = "memory.extend lone_memory (renderable.fields (julianday sample_host (r_created_at lone_row)))"
  have id: "r_id ?r = lone_id"
    by (simp add: lone_memory_def lone_row_def bare_row_def sample_row_def memory_row.defs memory.defs)
  have load: "fst (loadActiveRecords sample_host (Some (js ''web'')) Pitfalls (memories lone_db)) = [?r]"
    by (simp add: loadActiveRecords_def lone_db_def in_scope_def lone_fields lone_maps)
  have part: "fst (partitionRenderable [?r]) = [?r]" by (simp add: partitionRenderable_def lone_valid2)
  from prefix_of_file [of "[?r]" ?r] id lone_valid2 obtain p where
    p: "map_of (assignTokenPrefixes [?r]) lone_id = Some (Some p)" "token_prefix p" "starts_with p lone_id" by auto
  obtain block where b: "renderBlock sample_host lone_memory p = Some block" using renderBlock_valid [OF lone_valid] by blast
  have "parseBlocks sample_host (join [10] block) = Inr [record_block lone_memory p block]"
    using parseBlocks_rendered [of "[(lone_memory, p, block)]" sample_host] lone_printable p(2) b by simp
  moreover have "prefix_get (canonicalPrefixes sample_host (Some (js ''web'')) Pitfalls lone_db) lone_id = Some p"
    using p(1) by (simp add: canonicalPrefixes_def load part prefix_get_def)
  ultimately show thesis using that p b by blast
qed

lemma lone_verified:
  assumes "prefix_get (canonicalPrefixes sample_host (Some (js ''web'')) Pitfalls lone_db) lone_id = Some p"
    "token_prefix p" "starts_with p lone_id" "renderBlock sample_host lone_memory p = Some block"
  shows "verifyOldBlocks sample_host [record_block lone_memory p block] (Some (js ''web'')) Pitfalls path lone_db =
    Inr [\<lparr> rr_prefix = p, rr_record = lone_memory, rr_token = the (b_token (record_block lone_memory p block)) \<rparr>]"
proof -
  let ?t = "\<lparr> t_code = js ''pit'', t_prefix = p, t_revision = 1 \<rparr>"
  note mf = row_fields_kept [OF lone_maps, unfolded lone_fields]
  have t: "b_token (record_block lone_memory p block) = Some ?t" "b_raw (record_block lone_memory p block) = block"
    by (simp_all add: record_block_def Let_def mf)
  have "like_plain (p @ [37]) lone_id" using like_plain_prefix assms(2,3) by (simp add: token_prefix_def)
  then have "token_rows ?t Pitfall (Some (js ''web'')) lone_db = [lone_row]"
    by (simp add: token_rows_def lone_db_def candidate_def lone_fields)
  moreover have "CODE_KINDS (js ''pit'') = Some Pitfall" by code_simp
  ultimately have r: "resolveAndCheck sample_host ?t (Some (js ''web'')) path [Pitfall] lone_db = Inr lone_memory"
    by (simp add: resolveAndCheck_def lone_maps mf)
  have "p \<noteq> []" using assms(2) by (auto simp: token_prefix_def)
  then show ?thesis
    by (simp add: verifyOldBlocks_def verify_block_def t r assms mf t_put_def)
qed

definition lone_env :: tool_env where
  "lone_env = \<lparr> te_host = sample_host, te_search = sample_search, te_now = 0, te_plans = [] \<rparr>"

definition lone_state :: tool_state where
  "lone_state = \<lparr> ts_db = lone_db, ts_cache = [] \<rparr>"

lemma lone_path: "\<exists>path. routed path = Inr (Materialized (Some (js ''web'')) Pitfalls False)"
proof -
  have w: "pred_option wf_utf16 (Some (js ''web''))"
    by (simp add: js_def surrogate_def is_high_def is_low_def)
  have l: "length (scope_dir (Some (js ''web''))) \<le> 997"
    by (simp add: scope_dir_def encodeProjectSegment_def PROJECT_PREFIX_def js_def surrogate_def
        is_high_def is_low_def utf8_unit_def b64_encode_def)
  have k: "Pitfall \<notin> {Task_State, Rule}" by simp
  show ?thesis
  proof (rule canonical_path_routes_aux [OF w l k])
    fix c path
    assume c: "Pitfall \<in> set (CATEGORY_KINDS c)"
      "routeMemoryPath path = Inr (Materialized (if Pitfall = User_Profile then None else Some (js ''web'')) c False)"
    then have "c = Pitfalls" by (cases c) auto
    with c(2) show ?thesis by (intro exI [of _ path]) (simp add: routed_def)
  qed
qed

text \<open>A replacement that deletes the only record of the file.\<close>

lemma lone_replace:
  obtains blocks old d' where "parsed lone_env old = Inr blocks" "list_all (\<lambda>b. b_token b \<noteq> None) blocks"
    "replace_body lone_env Pitfalls (Some (js ''web'')) blocks [] lone_db = Inr d'" "d' \<noteq> lone_db"
    "activeRows (Some (js ''web'')) [Pitfall] (memories d') = []"
proof (rule lone_token)
  fix p block
  assume p: "prefix_get (canonicalPrefixes sample_host (Some (js ''web'')) Pitfalls lone_db) lone_id = Some p"
    "token_prefix p" "starts_with p lone_id" "renderBlock sample_host lone_memory p = Some block"
    and parse: "parseBlocks sample_host (join [10] block) = Inr [record_block lone_memory p block]"
  let ?b = "record_block lone_memory p block" and ?d' = "snd (retireIdsByInvalidation sample_host False [lone_id] lone_db)"
  have "r_id lone_memory = lone_id" using row_fields_kept(1) [OF lone_maps] by (simp add: lone_fields)
  then have body: "replace_body lone_env Pitfalls (Some (js ''web'')) [?b] [] lone_db = Inr ?d'"
    using lone_verified [OF p] by (simp add: replace_body_def lone_env_def Let_def)
  have m: "memories ?d' = [revision_trigger sample_host (lone_row\<lparr> r_invalidated := 1 \<rparr>)]"
    by (simp add: retireIdsByInvalidation_def Let_def t_update_def lone_db_def retired_row_def lone_fields)
  have "r_invalidated (hd (memories ?d')) \<noteq> r_invalidated (hd (memories lone_db))"
    unfolding m by (simp add: revision_trigger_def lone_db_def lone_fields)
  then have "?d' \<noteq> lone_db" by metis
  moreover have "activeRows (Some (js ''web'')) [Pitfall] (memories ?d') = []"
    by (simp add: activeRows_Nil m in_scope_def active_def revision_trigger_def)
  moreover have "parsed lone_env (join [10] block) = Inr [?b]" by (simp add: parsed_def lone_env_def parse)
  ultimately show thesis using that [OF _ _ body] by (simp add: record_block_def Let_def)
qed

lemma lone_run:
  obtains path old s' where "routed path = Inr (Materialized (Some (js ''web'')) Pitfalls False)"
    "strReplace lone_env path old None lone_state = (Inl (Nonexistent (categoryPath (Some (js ''web'')) Pitfalls)), s')"
    "ts_db s' \<noteq> ts_db lone_state"
proof -
  obtain path where path: "routed path = Inr (Materialized (Some (js ''web'')) Pitfalls False)" using lone_path by blast
  obtain blocks old d' where b: "parsed lone_env old = Inr blocks" "list_all (\<lambda>b. b_token b \<noteq> None) blocks"
    "replace_body lone_env Pitfalls (Some (js ''web'')) blocks [] lone_db = Inr d'" "d' \<noteq> lone_db"
    "activeRows (Some (js ''web'')) [Pitfall] (memories d') = []" by (rule lone_replace)
  let ?s1 = "drop_cached (categoryPath (Some (js ''web'')) Pitfalls) (lone_state\<lparr> ts_db := d' \<rparr>)"
  obtain r s2 where m: "materializedLines lone_env (Some (js ''web'')) Pitfalls False ?s1 = (r, s2)" by fastforce
  have "r = Inl (Nonexistent (categoryPath (Some (js ''web'')) Pitfalls))"
    using empty_rendering [of "Some (js ''web'')" Pitfalls ?s1 lone_env] m b(5) by simp
  moreover have "\<not> list_ex (\<lambda>b. b_token b = None) blocks" using b(2) by (auto simp: list_ex_iff list_all_iff)
  moreover have "ts_db s2 = d'" using materializedLines_db [OF m] by simp
  ultimately show thesis
    using that [OF path, of old s2] b m path by (simp add: strReplace_def Let_def run_planned_def lone_state_def)
qed

lemma lone_state_ok: "t_keyed r_id (memories (ts_db lone_state))" "fts_ok (se_fts (te_search lone_env))"
  using sample_fts_ok by (simp_all add: lone_state_def lone_db_def lone_env_def empty_db_def t_keyed_def)

lemma commands_stay_in_scope_witness:
  "\<exists>c a s'. run_command lone_env c lone_state = (a, s') \<and> ts_db s' \<noteq> ts_db lone_state \<and>
    filter (\<lambda>r. \<not> command_scope c r) (memories (ts_db s')) = filter (\<lambda>r. \<not> command_scope c r) (memories (ts_db lone_state))"
proof (rule lone_run)
  fix path old s'
  assume "strReplace lone_env path old None lone_state = (Inl (Nonexistent (categoryPath (Some (js ''web'')) Pitfalls)), s')"
    and n: "ts_db s' \<noteq> ts_db lone_state"
  then have r: "run_command lone_env (Str_Replace_Command path old None) lone_state =
      (Inl (Nonexistent (categoryPath (Some (js ''web'')) Pitfalls)), s')" by simp
  from commands_stay_in_scope [OF lone_state_ok r] r n show ?thesis by blast
qed



lemma replacement_touches_only_quoted_witness:
  "\<exists>path old a s'. strReplace lone_env path old None lone_state = (a, s') \<and> ts_db s' \<noteq> ts_db lone_state \<and>
    (\<exists>blocks. parsed lone_env old = Inr blocks \<and>
      (\<forall>b\<in>set blocks. \<exists>row\<in>set (memories (ts_db lone_state)). quotes (te_host lone_env) (Some (js ''web'')) Pitfalls (ts_db lone_state) b row) \<and>
      (\<forall>row\<in>set (memories (ts_db lone_state)). row \<in> set (memories (ts_db s')) \<or>
        (\<exists>b\<in>set blocks. quotes (te_host lone_env) (Some (js ''web'')) Pitfalls (ts_db lone_state) b row)))"
proof (rule lone_run)
  fix path old s'
  assume r: "routed path = Inr (Materialized (Some (js ''web'')) Pitfalls False)"
    "strReplace lone_env path old None lone_state = (Inl (Nonexistent (categoryPath (Some (js ''web'')) Pitfalls)), s')"
    "ts_db s' \<noteq> ts_db lone_state"
  from replacement_touches_only_quoted [OF lone_state_ok r] r(2,3) show ?thesis by blast
qed

lemma str_replace_last_record_errors_witness:
  "\<exists>path old d' s'. replace_body lone_env Pitfalls (Some (js ''web'')) (the (case parsed lone_env old of Inr bs \<Rightarrow> Some bs | Inl _ \<Rightarrow> None)) []
      (ts_db lone_state) = Inr d' \<and> d' \<noteq> ts_db lone_state \<and>
    strReplace lone_env path old None lone_state = (Inl (Nonexistent (categoryPath (Some (js ''web'')) Pitfalls)), s') \<and> ts_db s' = d'"
proof -
  obtain path where path: "routed path = Inr (Materialized (Some (js ''web'')) Pitfalls False)" using lone_path by blast
  obtain blocks old d' where b: "parsed lone_env old = Inr blocks" "list_all (\<lambda>b. b_token b \<noteq> None) blocks"
    "replace_body lone_env Pitfalls (Some (js ''web'')) blocks [] (ts_db lone_state) = Inr d'" "d' \<noteq> ts_db lone_state"
    "activeRows (Some (js ''web'')) (CATEGORY_KINDS Pitfalls) (memories d') = []"
    unfolding lone_state_def CATEGORY_KINDS.simps tool_state.simps by (rule lone_replace)
  from str_replace_last_record_errors [OF path _ b(1,2,3,5)] b show ?thesis
    by (intro exI [of _ path] exI [of _ old] exI [of _ d']) auto
qed

end
