(* ===== verification/Lifecycle.thy ===== *)
theory Lifecycle
  imports Writes
begin

text \<open>
  The life of a memory after it was written: feedback on its confidence
  (\<open>src/db/memory-repository/feedback.ts\<close>), its accessors (\<open>reads.ts\<close>), explicit deletion (\<open>stats.ts\<close>,
  \<open>maintenance-cleanup.ts\<close>), expiry and decay (\<open>src/db/decay.ts\<close>) and the staleness sweeps
  (\<open>src/db/staleness.ts\<close>).

  \<open>upkeep_env\<close> is what a sweep gets from the runtime: its time in milliseconds, the value of a
  timestamp (\<open>None\<close> is \<open>NaN\<close>), the ISO text of a time, \<open>Math.exp\<close>, the ISO text of the same clock time a number of
  calendar days ago and \<open>toLowerCase\<close>.  Ages are exact fractions of
  days and stabilities exact products; the confidence written goes through the rounding \<open>fl\<close>.  SQLite
  compares texts by their UTF-8 bytes (\<open>sql_less\<close>).
\<close>

record upkeep_env =
  ue_now :: rat
  ue_parse :: "jstr \<Rightarrow> rat option"
  ue_iso :: "rat \<Rightarrow> jstr"
  ue_exp :: "rat \<Rightarrow> rat"
  ue_back :: "nat \<Rightarrow> jstr"
  ue_lower :: "jstr \<Rightarrow> jstr"

definition sql_less :: "jstr \<Rightarrow> jstr \<Rightarrow> bool" where
  "sql_less a b \<longleftrightarrow> utf8_encode a < utf8_encode b"

definition conf :: "'a memory_row_scheme \<Rightarrow> rat" where
  "conf r = num_val (r_confidence r)"

text \<open>\<open>UPDATE memories SET confidence = ? WHERE id = ?\<close>\<close>

definition set_confidence :: "host \<Rightarrow> jstr \<Rightarrow> rat \<Rightarrow> db \<Rightarrow> db" where
  "set_confidence h i c d = exec_update h (has_id i) (\<lambda>r. r\<lparr> r_confidence := Fin c \<rparr>) d"

section \<open>Feedback\<close>

definition boostConfidence :: "host \<Rightarrow> jstr \<Rightarrow> rat \<Rightarrow> db \<Rightarrow> db" where
  "boostConfidence h i amount d =
     exec_update h (updatable i) (\<lambda>r. r\<lparr> r_confidence := Fin (min 1 (fl h (conf r + amount))) \<rparr>) d"

definition incrementSurface :: "jstr \<Rightarrow> db \<Rightarrow> db" where
  "incrementSurface i d = exec_update_plain (updatable i) (\<lambda>r. r\<lparr> r_surface_count := r_surface_count r + 1 \<rparr>) d"

definition incrementImpact :: "jstr \<Rightarrow> db \<Rightarrow> db" where
  "incrementImpact i d = exec_update_plain (updatable i) (\<lambda>r. r\<lparr> r_impact_count := r_impact_count r + 1 \<rparr>) d"

definition strengthened :: "host \<Rightarrow> memory_row \<Rightarrow> rat" where
  "strengthened h r = (let c = fl h (conf r + CONFIDENCE h STRENGTHEN_INCREMENT) in
     min 1 (if r_kind r = Pitfall then max c (CONFIDENCE h DELIBERATE)
            else if r_kind r = Decision then max c (CONFIDENCE h STRENGTHENED_DECISION_FLOOR) else c))"

definition strengthenConfidence :: "host \<Rightarrow> jstr \<Rightarrow> db \<Rightarrow> bool \<times> db" where
  "strengthenConfidence h i d =
    (let hit = 0 < t_count (updatable i) (memories d);
         d1 = exec_update h (updatable i) (\<lambda>r. r\<lparr> r_confidence := Fin (strengthened h r) \<rparr>) d
     in (hit, if hit then journalUpsertForId h i d1 else d1))"

text \<open>The rows of \<open>session_memories\<close> of the session are given: id and \<open>led_to_success\<close>.\<close>

definition precision_step ::
  "host \<Rightarrow> rat \<Rightarrow> rat \<Rightarrow> jstr \<times> int \<Rightarrow> (nat \<times> nat) \<times> db \<Rightarrow> (nat \<times> nat) \<times> db" where
  "precision_step h inc factor row st = (case (row, st) of ((i, led), ((up, down), d)) \<Rightarrow>
    (let n = t_count (updatable i) (memories d) in
     if led = 1 then
       ((if 0 < n then up + 1 else up, down),
        exec_update h (updatable i) (\<lambda>r. r\<lparr> r_confidence := Fin (min 1 (fl h (conf r + inc))) \<rparr>) d)
     else
       ((up, if 0 < n then down + 1 else down),
        exec_update h (updatable i) (\<lambda>r. r\<lparr> r_confidence :=
          Fin (max (fl h (CONFIDENCE h DELETE_THRESHOLD + fl h (1 / 100))) (fl h (conf r * factor))) \<rparr>) d)))"

definition applyPrecisionFeedback ::
  "host \<Rightarrow> (jstr \<times> int) list \<Rightarrow> rat \<Rightarrow> rat \<Rightarrow> db \<Rightarrow> (nat \<times> nat) \<times> db" where
  "applyPrecisionFeedback h rows inc factor d = fold (precision_step h inc factor) rows ((0, 0), d)"

text \<open>The answer is \<open>weakened\<close> and \<open>invalidated\<close>.\<close>

definition weakenConfidence :: "host \<Rightarrow> jstr \<Rightarrow> bool \<Rightarrow> db \<Rightarrow> (bool \<times> bool) \<times> db" where
  "weakenConfidence h i autonomous d = (case find (updatable i) (memories d) of
      None \<Rightarrow> ((False, False), d)
    | Some mem \<Rightarrow>
        (let newConf = fl h (conf mem * CONFIDENCE h WEAKEN_FACTOR) in
         if newConf < CONFIDENCE h DELETE_THRESHOLD then
           (if autonomous \<and> isRowSyncBound i d then ((True, False), set_confidence h i newConf d)
            else ((True, True), snd (invalidate_memory h i autonomous d)))
         else
           (let d1 = set_confidence h i newConf d in
            ((True, False), if autonomous then d1 else journalUpsertForId h i d1))))"

section \<open>Accessors\<close>

definition by_confidence :: "memory_row list \<Rightarrow> memory_row list" where
  "by_confidence rows = sort_key (\<lambda>r. - conf r) rows"

fun map_memories :: "host \<Rightarrow> memory_row list \<Rightarrow> memory list option" where
  "map_memories h [] = Some []"
| "map_memories h (r # rs) = (case rowToMemory h r of None \<Rightarrow> None
     | Some m \<Rightarrow> map_option ((#) m) (map_memories h rs))"

definition findByIds :: "host \<Rightarrow> jstr list \<Rightarrow> db \<Rightarrow> memory list option" where
  "findByIds h ids d = (if ids = [] then Some []
     else map_memories h (by_confidence (filter (\<lambda>r. r_id r \<in> set ids \<and> r_kind r \<noteq> Rule) (memories d))))"

definition markRecalled :: "host \<Rightarrow> jstr list \<Rightarrow> db \<Rightarrow> db" where
  "markRecalled h ids d = fold (\<lambda>i. exec_update_plain (\<lambda>r. r_id r = i \<and> r_kind r \<noteq> Rule)
     (\<lambda>r. r\<lparr> r_last_recalled := Some (iso_now h), r_recall_count := r_recall_count r + 1 \<rparr>)) ids d"

definition getEmbedding :: "search_env \<Rightarrow> jstr \<Rightarrow> db \<Rightarrow> nat list option" where
  "getEmbedding se i d = (case find (\<lambda>r. updatable i r \<and> r_embedding_model r = Some (se_model se)) (memories d) of
      None \<Rightarrow> None | Some r \<Rightarrow> r_embedding r)"

definition storeEmbedding :: "search_env \<Rightarrow> jstr \<Rightarrow> nat list \<Rightarrow> db \<Rightarrow> bool \<times> db" where
  "storeEmbedding se i emb d = (0 < t_count (updatable i) (memories d),
     exec_update_plain (updatable i) (\<lambda>r. r\<lparr> r_embedding := Some emb, r_embedding_model := Some (se_model se) \<rparr>) d)"

definition memoriesWithoutEmbeddings :: "search_env \<Rightarrow> nat \<Rightarrow> db \<Rightarrow> (jstr \<times> jstr) list" where
  "memoriesWithoutEmbeddings se limit d =
     map (\<lambda>r. (r_id r, r_content r)) (take limit (by_confidence (filter (\<lambda>r. r_invalidated r = 0 \<and> r_kind r \<noteq> Rule \<and>
       (r_embedding r = None \<or> (case r_embedding_model r of None \<Rightarrow> [] | Some k \<Rightarrow> k) \<noteq> se_model se)) (memories d))))"

section \<open>Explicit deletion\<close>

record cleanup_filter =
  cf_project :: "jstr option option"
  cf_kind :: "memory_kind option"
  cf_max_confidence :: "rat option"
  cf_cutoff :: "jstr option"
  cf_never_recalled :: bool

text \<open>\<open>project = ?\<close> with the parameter \<open>null\<close> matches nothing; the cutoff is the ISO text the code computes
  from \<open>olderThanDays\<close>.\<close>

definition filter_matches :: "cleanup_filter \<Rightarrow> memory_row \<Rightarrow> bool" where
  "filter_matches f r \<longleftrightarrow> r_invalidated r = 0 \<and> r_kind r \<noteq> Rule \<and>
     (case cf_project f of None \<Rightarrow> True | Some p \<Rightarrow> p \<noteq> None \<and> r_project r = p) \<and>
     (case cf_kind f of None \<Rightarrow> True | Some k \<Rightarrow> r_kind r = k) \<and>
     (case cf_max_confidence f of None \<Rightarrow> True | Some c \<Rightarrow> conf r \<le> c) \<and>
     (case cf_cutoff f of None \<Rightarrow> True | Some t \<Rightarrow> sql_less (r_created_at r) t) \<and>
     (cf_never_recalled f \<longrightarrow> r_recall_count r = 0)"

definition findByFilter :: "host \<Rightarrow> cleanup_filter \<Rightarrow> nat \<Rightarrow> db \<Rightarrow> memory list option" where
  "findByFilter h f limit d = map_memories h (take limit (sort_key conf (filter (filter_matches f) (memories d))))"

definition deleteByIds :: "host \<Rightarrow> jstr list \<Rightarrow> bool \<Rightarrow> db \<Rightarrow> nat \<times> db" where
  "deleteByIds h ids suppressed d =
    (if ids = [] then (0, d)
     else (let P = (\<lambda>r. r_id r \<in> set ids);
               d1 = log_tombstones h Delete P d;
               d2 = journalTombstonesForIds h suppressed ids d1
           in (t_count P (memories d2), exec_delete P d2)))"

definition deleteByFilter :: "host \<Rightarrow> cleanup_filter \<Rightarrow> nat \<Rightarrow> db \<Rightarrow> (nat \<times> db) option" where
  "deleteByFilter h f limit d =
     map_option (\<lambda>ms. deleteByIds h (map r_id ms) False d) (findByFilter h f limit d)"

definition forgetProject :: "host \<Rightarrow> jstr \<Rightarrow> bool \<Rightarrow> db \<Rightarrow> nat \<times> db" where
  "forgetProject h project suppressed d =
    (let P = (\<lambda>r. r_project r = Some project \<and> r_kind r \<noteq> Rule);
         d1 = log_tombstones h Delete P d;
         ids = map r_id (filter P (memories d1));
         d2 = journalTombstonesForIds h suppressed ids d1
     in (t_count P (memories d2), exec_delete P d2))"

section \<open>Expiry and decay\<close>

definition NON_DECAYING_KINDS :: "memory_kind list" where "NON_DECAYING_KINDS = [Rule]"

definition MS_PER_DAY :: rat where "MS_PER_DAY = 86400000"
definition GRACE_PERIOD_DAYS :: rat where "GRACE_PERIOD_DAYS = 7"
definition MIN_CHARGE_DAYS :: rat where "MIN_CHARGE_DAYS = 1 / 100"
definition PRUNE_DEAD_AGE_DAYS :: rat where "PRUNE_DEAD_AGE_DAYS = 60"
definition CLEANUP_MAX_DELETE :: nat where "CLEANUP_MAX_DELETE = 100"

definition STABILITY_BY_KIND :: "memory_kind \<Rightarrow> rat option" where
  "STABILITY_BY_KIND k = (case k of Pitfall \<Rightarrow> Some 60 | Correction \<Rightarrow> Some 60 | Decision \<Rightarrow> Some 45 | Fact \<Rightarrow> Some 30
     | Task_State \<Rightarrow> Some 15 | User_Profile \<Rightarrow> Some 120 | Reference \<Rightarrow> Some 120 | Pattern \<Rightarrow> Some 50 | Goal \<Rightarrow> Some 90
     | Rule \<Rightarrow> None)"

definition DEFAULT_STABILITY_DAYS :: rat where "DEFAULT_STABILITY_DAYS = 30"

definition SOURCE_WEIGHT :: "memory_source \<Rightarrow> rat" where
  "SOURCE_WEIGHT s = (case s of Corrected \<Rightarrow> 15 / 10 | User \<Rightarrow> 12 / 10 | Confirmed \<Rightarrow> 11 / 10 | Learned \<Rightarrow> 1)"

text \<open>\<open>id NOT IN (SELECT local_memory_id FROM sync_entity_map WHERE state = 'bound')\<close>\<close>

definition unbound :: "db \<Rightarrow> memory_row \<Rightarrow> bool" where
  "unbound d r \<longleftrightarrow> \<not> isRowSyncBound (r_id r) d"

definition expired_row :: "upkeep_env \<Rightarrow> db \<Rightarrow> memory_row \<Rightarrow> bool" where
  "expired_row ue d r \<longleftrightarrow> (case r_expires_at r of None \<Rightarrow> False | Some e \<Rightarrow> sql_less e (ue_iso ue (ue_now ue))) \<and>
     r_kind r \<notin> set NON_DECAYING_KINDS \<and> unbound d r"

definition expireTtlMemories :: "upkeep_env \<Rightarrow> db \<Rightarrow> nat \<times> db" where
  "expireTtlMemories ue d = (t_count (expired_row ue d) (memories d), exec_delete (expired_row ue d) d)"

definition effectiveAgeDays :: "rat \<Rightarrow> rat \<Rightarrow> rat" where
  "effectiveAgeDays t ref = max 0 ((t - ref) / MS_PER_DAY - GRACE_PERIOD_DAYS)"

definition decay_reference :: "upkeep_env \<Rightarrow> memory_row \<Rightarrow> rat option" where
  "decay_reference ue r = ue_parse ue (case r_last_recalled r of Some t \<Rightarrow> t | None \<Rightarrow> r_created_at r)"

definition decay_start :: "upkeep_env \<Rightarrow> memory_row \<Rightarrow> rat option" where
  "decay_start ue r = (case r_last_decayed r of
      Some t \<Rightarrow> if t = [] then decay_reference ue r else ue_parse ue t
    | None \<Rightarrow> decay_reference ue r)"

text \<open>The age charged to a row; \<open>None\<close> is a \<open>NaN\<close>.\<close>

definition decay_delta :: "upkeep_env \<Rightarrow> memory_row \<Rightarrow> rat option" where
  "decay_delta ue r = (case (decay_reference ue r, decay_start ue r) of
      (Some ref, Some prev) \<Rightarrow> Some (effectiveAgeDays (ue_now ue) ref - effectiveAgeDays prev ref)
    | _ \<Rightarrow> None)"

definition stability :: "memory_row \<Rightarrow> rat" where
  "stability r = (case STABILITY_BY_KIND (r_kind r) of Some s \<Rightarrow> s | None \<Rightarrow> DEFAULT_STABILITY_DAYS) * SOURCE_WEIGHT (r_source r)"

definition decayed_confidence :: "host \<Rightarrow> upkeep_env \<Rightarrow> memory_row \<Rightarrow> rat \<Rightarrow> rat" where
  "decayed_confidence h ue r delta = max (CONFIDENCE h DELETE_THRESHOLD) (fl h (conf r * ue_exp ue (- delta / stability r)))"

definition decay_eligible :: "host \<Rightarrow> memory_row \<Rightarrow> bool" where
  "decay_eligible h r \<longleftrightarrow> r_invalidated r = 0 \<and> r_kind r \<noteq> Task_State \<and> r_kind r \<notin> set NON_DECAYING_KINDS \<and>
     CONFIDENCE h DELETE_THRESHOLD < conf r"

definition decay_step :: "host \<Rightarrow> upkeep_env \<Rightarrow> memory_row \<Rightarrow> nat \<times> db \<Rightarrow> nat \<times> db" where
  "decay_step h ue mem st = (case st of (n, d) \<Rightarrow> (case decay_delta ue mem of
      None \<Rightarrow> (n, d)
    | Some delta \<Rightarrow>
        if delta < MIN_CHARGE_DAYS then (n, d)
        else (let newConf = decayed_confidence h ue mem delta in
          (if newConf < conf mem then n + 1 else n,
           exec_update h (has_id (r_id mem))
             (\<lambda>r. r\<lparr> r_confidence := Fin newConf, r_last_decayed := Some (ue_iso ue (ue_now ue)) \<rparr>) d))))"

definition below_threshold :: "host \<Rightarrow> db \<Rightarrow> memory_row \<Rightarrow> bool" where
  "below_threshold h d r \<longleftrightarrow> r_invalidated r = 0 \<and> conf r < CONFIDENCE h DELETE_THRESHOLD \<and>
     r_kind r \<noteq> Task_State \<and> r_kind r \<noteq> Correction \<and> r_kind r \<notin> set NON_DECAYING_KINDS \<and> unbound d r"

definition days_ago :: "upkeep_env \<Rightarrow> rat \<Rightarrow> jstr" where
  "days_ago ue n = ue_iso ue (ue_now ue - n * MS_PER_DAY)"

definition dead_row :: "host \<Rightarrow> upkeep_env \<Rightarrow> db \<Rightarrow> memory_row \<Rightarrow> bool" where
  "dead_row h ue d r \<longleftrightarrow> r_invalidated r = 0 \<and> conf r \<le> CONFIDENCE h DELETE_THRESHOLD \<and> r_recall_count r = 0 \<and>
     sql_less (r_created_at r) (days_ago ue PRUNE_DEAD_AGE_DAYS) \<and>
     r_kind r \<notin> {Task_State, Correction, User_Profile, Decision} \<and> r_kind r \<notin> set NON_DECAYING_KINDS \<and> unbound d r"

definition old_invalidated :: "upkeep_env \<Rightarrow> db \<Rightarrow> memory_row \<Rightarrow> bool" where
  "old_invalidated ue d r \<longleftrightarrow> r_invalidated r = 1 \<and> sql_less (r_created_at r) (days_ago ue 30) \<and>
     r_kind r \<notin> set NON_DECAYING_KINDS \<and> unbound d r"

text \<open>The counts are \<open>decayed\<close> and \<open>deleted\<close>.\<close>

definition applyConfidenceDecay :: "host \<Rightarrow> upkeep_env \<Rightarrow> db \<Rightarrow> (nat \<times> nat) \<times> db" where
  "applyConfidenceDecay h ue d =
    (let (n, d1) = fold (decay_step h ue) (filter (decay_eligible h) (memories d)) (0, d);
         gone = t_count (below_threshold h d1) (memories d1);
         d2 = exec_delete (below_threshold h d1) d1;
         dead = map r_id (take CLEANUP_MAX_DELETE (filter (dead_row h ue d2) (memories d2)));
         P = (\<lambda>r. r_id r \<in> set dead \<and> unbound d2 r);
         pruned = (if dead = [] then 0 else t_count P (memories d2));
         d3 = (if dead = [] then d2 else exec_delete P d2)
     in ((n, gone + pruned), exec_delete (old_invalidated ue d3) d3))"

section \<open>Staleness\<close>

definition WEAKEN_FLOOR :: "host \<Rightarrow> rat" where "WEAKEN_FLOOR h = fl h (15 / 100)"
definition ZERO_IMPACT_THRESHOLD :: int where "ZERO_IMPACT_THRESHOLD = 5"
definition MAX_SWEEP_BATCH :: nat where "MAX_SWEEP_BATCH = 50"

definition weaken_one :: "host \<Rightarrow> memory_row \<Rightarrow> nat \<times> db \<Rightarrow> nat \<times> db" where
  "weaken_one h row st = (case st of (n, d) \<Rightarrow>
    (let newConf = max (fl h (conf row * CONFIDENCE h WEAKEN_FACTOR)) (WEAKEN_FLOOR h) in
     if newConf < conf row then (n + 1, set_confidence h (r_id row) newConf d) else (n, d)))"

definition weakenZeroImpactPitfalls :: "host \<Rightarrow> db \<Rightarrow> nat \<times> db" where
  "weakenZeroImpactPitfalls h d = fold (weaken_one h) (take MAX_SWEEP_BATCH (filter (\<lambda>r. r_invalidated r = 0 \<and>
     r_kind r = Pitfall \<and> ZERO_IMPACT_THRESHOLD \<le> r_surface_count r \<and> r_impact_count r = 0 \<and> WEAKEN_FLOOR h < conf r)
     (memories d))) (0, d)"

text \<open>\<open>fp.module ?? []\<close> and whether the row is stale; \<open>None\<close> is a thrown \<open>TypeError\<close>, which ends the sweep
  (there is no transaction, so what was written before stays).\<close>

definition no_module_known :: "upkeep_env \<Rightarrow> jstr list \<Rightarrow> json \<Rightarrow> bool option" where
  "no_module_known ue terms fp =
    (let check = (\<lambda>v. case v of
         JNull \<Rightarrow> Some False
       | JArr xs \<Rightarrow> (if xs = [] then Some False
           else (case find (\<lambda>x. case x of JStr s \<Rightarrow> ue_lower ue s \<in> set terms | _ \<Rightarrow> True) xs of
               None \<Rightarrow> Some True | Some (JStr s) \<Rightarrow> Some False | Some _ \<Rightarrow> None))
       | JStr s \<Rightarrow> if s = [] then Some False else None
       | _ \<Rightarrow> None)
     in (case fp of JNull \<Rightarrow> None
       | JObj kvs \<Rightarrow> (case obj_get (js ''module'') kvs of None \<Rightarrow> Some False | Some v \<Rightarrow> check v)
       | _ \<Rightarrow> Some False))"

fun stale_sweep :: "host \<Rightarrow> upkeep_env \<Rightarrow> jstr list \<Rightarrow> memory_row list \<Rightarrow> nat \<times> db \<Rightarrow> nat option \<times> db" where
  "stale_sweep h ue terms [] st = (Some (fst st), snd st)"
| "stale_sweep h ue terms (row # rows) st =
    (case json_parse (nums h) (case r_fingerprint row of Some t \<Rightarrow> t | None \<Rightarrow> []) of
       None \<Rightarrow> stale_sweep h ue terms rows st
     | Some fp \<Rightarrow> (case no_module_known ue terms fp of
           None \<Rightarrow> (None, snd st)
         | Some stale \<Rightarrow> stale_sweep h ue terms rows (if stale then weaken_one h row st else st)))"

definition weakenStaleFingerprintMemories :: "host \<Rightarrow> upkeep_env \<Rightarrow> jstr \<Rightarrow> jstr list \<Rightarrow> db \<Rightarrow> nat option \<times> db" where
  "weakenStaleFingerprintMemories h ue project terms d =
    (if terms = [] then (Some 0, d)
     else stale_sweep h ue terms (take MAX_SWEEP_BATCH (filter (\<lambda>r. r_invalidated r = 0 \<and> r_project r = Some project \<and>
       r_kind r \<noteq> Rule \<and> r_fingerprint r \<noteq> None \<and> WEAKEN_FLOOR h < conf r) (memories d))) (0, d))"

end
