(* ===== verification/Consolidation.thy ===== *)
theory Consolidation
  imports Lifecycle Free_Form_Store
begin

text \<open>
  Consolidation and automatic promotion: clustering by affinity (\<open>src/utils/consolidation.ts\<close>) and the two
  sweeps of \<open>src/db/consolidation-runner.ts\<close>, with the edge writers of \<open>src/db/edge-repository.ts\<close> they use.

  A sweep that throws keeps what its earlier transactions wrote, so its answer is \<open>None\<close> beside the
  database it left.
\<close>

section \<open>Edges\<close>

definition refines :: jstr where "refines = js ''refines''"
definition co_occurred :: jstr where "co_occurred = js ''co_occurred''"

definition createEdge :: "host \<Rightarrow> jstr \<Rightarrow> jstr \<Rightarrow> jstr \<Rightarrow> db \<Rightarrow> db" where
  "createEdge h source target relation d =
     add_edge \<lparr> ed_source = source, ed_target = target, ed_relation = relation, ed_weight = Fin 1, ed_at = iso_now h \<rparr> d"

text \<open>\<open>julianday('now') - julianday(created_at) > ?\<close>; a date that does not parse is NULL, which is not true.\<close>

definition older_than :: "host \<Rightarrow> rat \<Rightarrow> jstr \<Rightarrow> bool" where
  "older_than h n t = (case (julianday h (sql_now h), julianday h t) of
      (Some a, Some b) \<Rightarrow> n < fl h (a - b) | _ \<Rightarrow> False)"

definition pruneOldCoOccurrences :: "host \<Rightarrow> db \<Rightarrow> db" where
  "pruneOldCoOccurrences h d = (let P = (\<lambda>e. ed_relation e = co_occurred \<and> older_than h 90 (ed_at e)) in
     d\<lparr> edges := filter (\<lambda>e. \<not> P e) (edges d), changes := changes d + t_count P (edges d) \<rparr>)"

section \<open>Clusters\<close>

record cluster =
  cl_representative :: memory
  cl_members :: "memory list"

text \<open>\<open>None\<close> is \<open>NaN\<close>: a creation time that does not parse.\<close>

definition computeAffinity :: "host \<Rightarrow> upkeep_env \<Rightarrow> memory \<Rightarrow> memory \<Rightarrow> rat option \<Rightarrow> rat option" where
  "computeAffinity h ue a b embeddingSimilarity =
    (case (ue_parse ue (r_created_at a), ue_parse ue (r_created_at b)) of
       (Some ta, Some tb) \<Rightarrow>
         (let tokenSim = fl h (tokenOverlap (r_content a) (r_content b));
              temporal = ue_exp ue (fl h (fl h (- 5 / 100) * fl h (\<bar>ta - tb\<bar> / MS_PER_DAY)))
          in Some (case embeddingSimilarity of
               Some e \<Rightarrow> fl h (fl h (fl h (1 / 2 * e) + fl h (fl h (2 / 10) * tokenSim)) + fl h (fl h (3 / 10) * temporal))
             | None \<Rightarrow> fl h (fl h (fl h (7 / 10) * tokenSim) + fl h (fl h (3 / 10) * temporal))))
     | _ \<Rightarrow> None)"

definition AFFINITY_THRESHOLD :: "host \<Rightarrow> rat" where "AFFINITY_THRESHOLD h = fl h (7 / 10)"

text \<open>The cluster with the highest score above the threshold, the first of equals, by its index.\<close>

fun best_cluster :: "(memory \<Rightarrow> rat option) \<Rightarrow> rat \<Rightarrow> cluster list \<Rightarrow> nat \<Rightarrow> (nat \<times> rat) option \<Rightarrow> (nat \<times> rat) option" where
  "best_cluster score threshold [] n best = best"
| "best_cluster score threshold (c # cs) n best =
    best_cluster score threshold cs (Suc n) (case score (cl_representative c) of
        None \<Rightarrow> best
      | Some q \<Rightarrow> if threshold < q \<and> (case best of None \<Rightarrow> 0 < q | Some (_, b) \<Rightarrow> b < q) then Some (n, q) else best)"

definition join_cluster :: "memory \<Rightarrow> cluster \<Rightarrow> cluster" where
  "join_cluster m c = (let rep = cl_representative c in
     \<lparr> cl_representative = (if length (r_content rep) < length (r_content m) \<or>
          length (r_content m) = length (r_content rep) \<and> conf rep < conf m then m else rep),
       cl_members = cl_members c @ [m] \<rparr>)"

definition place_memory ::
  "host \<Rightarrow> upkeep_env \<Rightarrow> (jstr \<Rightarrow> jstr \<Rightarrow> rat option) \<Rightarrow> rat \<Rightarrow> memory \<Rightarrow> cluster list \<Rightarrow> cluster list" where
  "place_memory h ue sim threshold m cs =
    (case best_cluster (\<lambda>rep. computeAffinity h ue m rep (sim (r_id m) (r_id rep))) threshold cs 0 None of
       None \<Rightarrow> cs @ [\<lparr> cl_representative = m, cl_members = [m] \<rparr>]
     | Some (n, _) \<Rightarrow> cs[n := join_cluster m (cs ! n)])"

definition findConsolidationCandidates ::
  "host \<Rightarrow> upkeep_env \<Rightarrow> memory list \<Rightarrow> rat \<Rightarrow> (jstr \<Rightarrow> jstr \<Rightarrow> rat option) \<Rightarrow> cluster list" where
  "findConsolidationCandidates h ue ms threshold sim =
     filter (\<lambda>c. 1 < length (cl_members c)) (fold (place_memory h ue sim threshold) ms [])"

definition mergedConfidence :: "host \<Rightarrow> cluster \<Rightarrow> rat" where
  "mergedConfidence h c =
     min 1 (fl h (Max (conf ` set (cl_members c)) + fl h (fl h (5 / 100) * of_nat (length (cl_members c) - 1))))"

text \<open>\<open>None\<close> when a member's tags cannot be iterated.\<close>

definition mergedTags :: "cluster \<Rightarrow> json list option" where
  "mergedTags c = (if list_ex (\<lambda>m. spread (m_tags m) = None) (cl_members c) then None
     else Some (set_of_values (concat (map (\<lambda>m. the (spread (m_tags m))) (cl_members c)))))"

section \<open>The consolidation sweep\<close>

text \<open>\<open>buildEmbeddingSimilarityMap\<close>, as the lookup it is used for.\<close>

definition pair_similarity :: "search_env \<Rightarrow> db \<Rightarrow> jstr list \<Rightarrow> jstr \<Rightarrow> jstr \<Rightarrow> rat option" where
  "pair_similarity se d ids a b =
    (let vec = (\<lambda>i. if i \<notin> set ids then None else (case row_of d i of None \<Rightarrow> None
         | Some r \<Rightarrow> (case r_embedding r of None \<Rightarrow> None
             | Some e \<Rightarrow> if r_embedding_model r = Some (se_model se) \<and> length e mod 4 = 0 then Some e else None)))
     in (case (vec a, vec b) of (Some x, Some y) \<Rightarrow> Some (se_cosine se x y) | _ \<Rightarrow> None))"

definition applyClusterMerge :: "host \<Rightarrow> jstr \<Rightarrow> rat \<Rightarrow> jstr \<Rightarrow> jstr list \<Rightarrow> db \<Rightarrow> bool \<times> db" where
  "applyClusterMerge h repId newConf newTagsJson memberIds d =
    (if syncBoundIds (repId # memberIds) d \<noteq> [] then (False, d)
     else
       (let d1 = exec_update h (has_id repId) (\<lambda>r. r\<lparr> r_confidence := Fin newConf, r_tags := Some newTagsJson \<rparr>) d;
            d2 = snd (retireIdsByInvalidation h False memberIds d1);
            d3 = journalUpsertForId h repId d2
        in (True, fold (\<lambda>m. createEdge h m repId refines) memberIds d3)))"

definition merge_cluster :: "host \<Rightarrow> cluster \<Rightarrow> nat \<times> db \<Rightarrow> nat option \<times> db" where
  "merge_cluster h c st = (case st of (n, d) \<Rightarrow>
    (let rep = r_id (cl_representative c);
         memberIds = map r_id (filter (\<lambda>m. r_id m \<noteq> rep) (cl_members c))
     in (case mergedTags c of
          None \<Rightarrow> (None, d)
        | Some tags \<Rightarrow> (case applyClusterMerge h rep (mergedConfidence h c) (stringify (nums h) (JArr tags)) memberIds d of
            (ok, d') \<Rightarrow> (Some (if ok then n + length memberIds else n), d')))))"

fun sweep :: "('a \<Rightarrow> nat \<times> db \<Rightarrow> nat option \<times> db) \<Rightarrow> 'a list \<Rightarrow> nat \<times> db \<Rightarrow> nat option \<times> db" where
  "sweep f [] st = (Some (fst st), snd st)"
| "sweep f (x # xs) st = (case f x st of (None, d) \<Rightarrow> (None, d) | (Some n, d) \<Rightarrow> sweep f xs (n, d))"

definition consolidate_project :: "host \<Rightarrow> search_env \<Rightarrow> upkeep_env \<Rightarrow> memory list \<Rightarrow> nat \<times> db \<Rightarrow> nat option \<times> db" where
  "consolidate_project h se ue ms st =
    (if length ms < 2 then (Some (fst st), snd st)
     else sweep (merge_cluster h)
       (findConsolidationCandidates h ue ms (AFFINITY_THRESHOLD h) (pair_similarity se (snd st) (map r_id ms))) st)"

definition MAX_PER_KIND :: nat where "MAX_PER_KIND = 50"
definition MIN_AGE_DAYS :: nat where "MIN_AGE_DAYS = 7"

definition consolidation_rows :: "upkeep_env \<Rightarrow> memory_kind \<Rightarrow> db \<Rightarrow> memory_row list" where
  "consolidation_rows ue kind d = take MAX_PER_KIND (by_confidence (filter (\<lambda>r. r_invalidated r = 0 \<and> r_kind r = kind \<and>
     sql_less (r_created_at r) (ue_back ue MIN_AGE_DAYS)) (memories d)))"

definition consolidate_kind :: "host \<Rightarrow> search_env \<Rightarrow> upkeep_env \<Rightarrow> memory_kind \<Rightarrow> nat \<times> db \<Rightarrow> nat option \<times> db" where
  "consolidate_kind h se ue kind st =
    (case findByIds h (map r_id (consolidation_rows ue kind (snd st))) (snd st) of
       None \<Rightarrow> (None, snd st)
     | Some ms \<Rightarrow>
         if length ms < 2 then (Some (fst st), snd st)
         else sweep (consolidate_project h se ue)
           (map (\<lambda>p. filter (\<lambda>m. r_project m = p) ms) (dedup (map r_project ms))) st)"

definition ELIGIBLE_KINDS :: "memory_kind list" where "ELIGIBLE_KINDS = [Pitfall, Decision, Fact]"

text \<open>The number of merged memories.\<close>

definition runConsolidation :: "host \<Rightarrow> search_env \<Rightarrow> upkeep_env \<Rightarrow> db \<Rightarrow> nat option \<times> db" where
  "runConsolidation h se ue d = (case sweep (consolidate_kind h se ue) ELIGIBLE_KINDS (0, d) of
      (None, d') \<Rightarrow> (None, d')
    | (Some n, d') \<Rightarrow> (Some n, pruneOldCoOccurrences h d'))"

section \<open>Automatic promotion\<close>

definition MAX_AUTO_PROMOTIONS :: nat where "MAX_AUTO_PROMOTIONS = 3"

definition promotion_candidates :: "host \<Rightarrow> db \<Rightarrow> memory_row list" where
  "promotion_candidates h d = take 20 (sort_key (\<lambda>r. - r_impact_count r) (by_confidence (filter (\<lambda>r. r_invalidated r = 0 \<and>
     r_project r \<noteq> None \<and> r_kind r \<noteq> Rule \<and> fl h (7 / 10) \<le> conf r \<and> 0 < r_impact_count r \<and> older_than h 60 (r_created_at r))
     (memories d))))"

definition recurs_elsewhere :: "host \<Rightarrow> search_env \<Rightarrow> memory_row \<Rightarrow> db \<Rightarrow> bool" where
  "recurs_elsewhere h se r d = (case buildFtsQuery True 8 (r_content r) of
      None \<Rightarrow> False
    | Some q \<Rightarrow> (case se_fts se q (memories d) of
          None \<Rightarrow> False
        | Some hits \<Rightarrow> list_ex (\<lambda>(p, c). fl h (4 / 10) \<le> fl h (tokenOverlap (r_content r) c))
            (take 5 (dedup (map (\<lambda>x. (r_project x, r_content x)) (filter (\<lambda>x. r_invalidated x = 0 \<and> r_project x \<noteq> None \<and>
              r_project x \<noteq> r_project r \<and> r_kind x = r_kind r) hits))))))"

definition names_a_path :: "jstr \<Rightarrow> bool" where
  "names_a_path s \<longleftrightarrow> find_from (js ''/src/'') s 0 \<noteq> None \<or> find_from (js ''/opt/'') s 0 \<noteq> None"

definition guardedPromote :: "host \<Rightarrow> jstr \<Rightarrow> db \<Rightarrow> bool \<times> db" where
  "guardedPromote h i d = (if syncBoundIds [i] d \<noteq> [] then (False, d) else promote h i False d)"

definition promotion_step :: "host \<Rightarrow> search_env \<Rightarrow> memory_row \<Rightarrow> nat \<times> db \<Rightarrow> nat \<times> db" where
  "promotion_step h se r st = (case st of (n, d) \<Rightarrow>
    (if MAX_AUTO_PROMOTIONS \<le> n \<or> \<not> recurs_elsewhere h se r d \<or> names_a_path (r_content r) then (n, d)
     else (case guardedPromote h (r_id r) d of (ok, d') \<Rightarrow> (if ok then n + 1 else n, d'))))"

definition runAutoPromotion :: "host \<Rightarrow> search_env \<Rightarrow> db \<Rightarrow> nat \<times> db" where
  "runAutoPromotion h se d = fold (promotion_step h se) (promotion_candidates h d) (0, d)"

section \<open>Maintenance\<close>

definition MAINTENANCE_MIN_INTERVAL_HOURS :: rat where "MAINTENANCE_MIN_INTERVAL_HOURS = 12"

text \<open>\<open>runMaintenance\<close> of \<open>src/db/maintenance.ts\<close> on the tables of the memory store: \<open>prior\<close> is the time of the last
  run that \<open>maintenance_meta\<close> records.  The answer is whether it returned (a sweep may throw, and then
  the run is not recorded) and the time on record.\<close>

definition runMaintenance ::
  "host \<Rightarrow> search_env \<Rightarrow> upkeep_env \<Rightarrow> rat option \<Rightarrow> bool \<Rightarrow> db \<Rightarrow> (bool \<times> rat option) \<times> db" where
  "runMaintenance h se ue prior force d =
    (let (expired, d1) = expireTtlMemories ue d in
     if \<not> force \<and> (case prior of None \<Rightarrow> False | Some t \<Rightarrow> ue_now ue - t < MAINTENANCE_MIN_INTERVAL_HOURS * 3600000)
     then ((True, prior), d1)
     else
       (let (counts, d2) = applyConfidenceDecay h ue d1 in
        case runConsolidation h se ue d2 of
          (None, d3) \<Rightarrow> ((False, prior), d3)
        | (Some merged, d3) \<Rightarrow>
            (let (promoted, d4) = runAutoPromotion h se d3 in ((True, Some (ue_now ue)), d4))))"

end
