(* ===== verification/Upkeep_Facts.thy ===== *)
theory Upkeep_Facts
  imports Consolidation
begin

text \<open>
  What unattended maintenance may do.  The locale \<open>upkeep_relation\<close> is the contract between the
  statements of the sweeps and facts about sequences of sweeps; its interpretations are that
  replicated rows are spared and that no row is made up.
\<close>

section \<open>Relations that compose\<close>

text \<open>The statements of the sweeps: confidences and counters are written freely, rows are deleted, retired,
  merged or promoted only when no replicated row is meant.\<close>

definition none_bound :: "jstr list \<Rightarrow> db \<Rightarrow> bool" where
  "none_bound ids d \<longleftrightarrow> (\<forall>i\<in>set ids. \<not> isRowSyncBound i d)"

locale upkeep_relation =
  fixes R :: "db \<Rightarrow> db \<Rightarrow> bool"
  assumes refl: "R d d"
    and trans: "R a b \<Longrightarrow> R b c \<Longrightarrow> R a c"
    and confidence: "R d (exec_update h P (\<lambda>r. r\<lparr> r_confidence := cf r \<rparr>) d)"
    and stamp: "R d (exec_update h P (\<lambda>r. r\<lparr> r_confidence := cf r, r_last_decayed := l r \<rparr>) d)"
    and surface: "R d (exec_update_plain P (\<lambda>r. r\<lparr> r_surface_count := n r \<rparr>) d)"
    and impact: "R d (exec_update_plain P (\<lambda>r. r\<lparr> r_impact_count := n r \<rparr>) d)"
    and delete: "(\<And>r. r \<in> set (memories d) \<Longrightarrow> P r \<Longrightarrow> unbound d r) \<Longrightarrow> R d (exec_delete P d)"
    and tags: "none_bound [i] d \<Longrightarrow> R d (exec_update h (has_id i) (\<lambda>r. r\<lparr> r_confidence := q, r_tags := tg \<rparr>) d)"
    and retire: "none_bound ids d \<Longrightarrow> R d (snd (retireIdsByInvalidation h sp ids d))"
    and invalidate: "none_bound [i] d \<Longrightarrow> R d (snd (invalidate_memory h i sp d))"
    and journal: "none_bound [i] d \<Longrightarrow> R d (journalUpsertForId h i d)"
    and promotion: "none_bound [i] d \<Longrightarrow> R d (snd (promote h i False d))"
    and edge: "R d (add_edge e d)"
    and prune: "R d (pruneOldCoOccurrences h d)"
begin

lemma folds: "(\<And>x s. R (snd s) (snd (f x s))) \<Longrightarrow> R (snd s) (snd (fold f xs s))"
proof (induction xs arbitrary: s)
  case (Cons x xs)
  then show ?case using trans by (metis fold_simps(2))
qed (simp add: refl)

lemma folds_db: "(\<And>x d. R d (f x d)) \<Longrightarrow> R d (fold f xs d)"
proof (induction xs arbitrary: d)
  case (Cons x xs)
  then show ?case using trans by (metis fold_simps(2))
qed (simp add: refl)

lemma sweeps: "(\<And>x st. R (snd st) (snd (f x st))) \<Longrightarrow> R (snd s) (snd (sweep f xs s))"
proof (induction xs arbitrary: s)
  case Nil
  then show ?case by (simp add: refl)
next
  case (Cons x xs)
  obtain r d where fx: "f x s = (r, d)" by fastforce
  have step: "R (snd s) d" using Cons.prems [of s x] by (simp add: fx)
  show ?case
  proof (cases r)
    case (Some n)
    have "R d (snd (sweep f xs (n, d)))" using Cons.IH [of "(n, d)"] Cons.prems by simp
    then show ?thesis using trans [OF step] by (simp add: fx Some)
  qed (use step in \<open>simp add: fx\<close>)
qed

lemma set_conf: "R d (set_confidence h i c d)"
  unfolding set_confidence_def by (rule confidence)

lemma boost: "R d (boostConfidence h i a d)"
  unfolding boostConfidence_def by (rule confidence)

lemma precision: "R d (snd (applyPrecisionFeedback h rows inc factor d))"
  unfolding applyPrecisionFeedback_def
  by (rule folds [where s = "((0, 0), d)", simplified]) (auto simp: precision_step_def Let_def confidence split: prod.splits)

lemma expire: "R d (snd (expireTtlMemories ue d))"
  unfolding expireTtlMemories_def snd_conv by (rule delete) (simp add: expired_row_def)

lemma weaken: "R d (snd (weakenConfidence h i True d))"
  unfolding weakenConfidence_def
  by (auto simp: Let_def set_conf none_bound_def refl intro: invalidate split: option.splits)

lemma decay_steps: "R d (snd (fold (decay_step h ue) rows (n, d)))"
  by (rule folds [where s = "(n, d)", simplified]) (auto simp: decay_step_def Let_def stamp refl split: prod.splits option.splits)

lemma decay: "R d (snd (applyConfidenceDecay h ue d))"
proof -
  obtain n d1 where 1: "fold (decay_step h ue) (filter (decay_eligible h) (memories d)) (0, d) = (n, d1)" by fastforce
  let ?d2 = "exec_delete (below_threshold h d1) d1"
  let ?dead = "map r_id (take CLEANUP_MAX_DELETE (filter (dead_row h ue ?d2) (memories ?d2)))"
  let ?d3 = "if ?dead = [] then ?d2 else exec_delete (\<lambda>r. r_id r \<in> set ?dead \<and> unbound ?d2 r) ?d2"
  have first: "R d d1" using decay_steps [of d h ue _ 0] 1 by (metis snd_conv)
  have below: "R d1 ?d2" by (rule delete) (simp add: below_threshold_def)
  have "R ?d2 (exec_delete (\<lambda>r. r_id r \<in> set ?dead \<and> unbound ?d2 r) ?d2)" by (rule delete) simp
  then have dead: "R ?d2 ?d3" using refl by (cases "?dead = []") (simp_all only: if_True if_False simp_thms)
  have "R ?d3 (exec_delete (old_invalidated ue ?d3) ?d3)" by (rule delete) (simp add: old_invalidated_def)
  from trans [OF trans [OF trans [OF first below] dead] this]
  have "R d (exec_delete (old_invalidated ue ?d3) ?d3)" .
  then show ?thesis by (simp only: applyConfidenceDecay_def 1 Let_def prod.case snd_conv)
qed

lemma weakens: "R (snd s) (snd (weaken_one h row s))"
  by (cases s) (simp add: weaken_one_def Let_def set_conf refl)

lemma zero_impact: "R d (snd (weakenZeroImpactPitfalls h d))"
  unfolding weakenZeroImpactPitfalls_def by (rule folds [where s = "(0, d)", simplified]) (rule weakens)

lemma stale_sweeps: "R (snd s) (snd (stale_sweep h ue terms rows s))"
proof (induction rows arbitrary: s)
  case (Cons row rows)
  have "R (snd s) (snd (stale_sweep h ue terms rows (if b then weaken_one h row s else s)))" for b
    using Cons weakens [of s h row] trans by (cases b) auto
  then show ?case using Cons by (auto simp: refl split: option.splits)
qed (simp add: refl)

lemma stale: "R d (snd (weakenStaleFingerprintMemories h ue project terms d))"
  unfolding weakenStaleFingerprintMemories_def using stale_sweeps [of "(0, d)"] by (simp add: refl)

lemma cluster_merge: "R d (snd (applyClusterMerge h rep c t ids d))"
proof (cases "syncBoundIds (rep # ids) d = []")
  case True
  then have nb: "none_bound (rep # ids) d"
    by (auto simp: syncBoundIds_def none_bound_def isRowSyncBound_def list_ex_iff filter_empty_conv)
  let ?d1 = "exec_update h (has_id rep) (\<lambda>r. r\<lparr> r_confidence := Fin c, r_tags := Some t \<rparr>) d"
  let ?d2 = "snd (retireIdsByInvalidation h False ids ?d1)"
  have "entity_map ?d1 = entity_map d" by simp
  moreover have "entity_map ?d2 = entity_map d" by (simp add: retireIdsByInvalidation_def Let_def)
  ultimately have "none_bound ids ?d1" "none_bound [rep] ?d2" "none_bound [rep] d"
    using nb by (simp_all add: none_bound_def isRowSyncBound_def)
  then have "R d (journalUpsertForId h rep ?d2)" using trans [OF trans [OF tags retire] journal] by blast
  moreover have "R (journalUpsertForId h rep ?d2) (fold (\<lambda>m. createEdge h m rep refines) ids (journalUpsertForId h rep ?d2))"
    by (rule folds_db) (simp add: createEdge_def edge)
  ultimately show ?thesis using trans True by (simp add: applyClusterMerge_def Let_def)
qed (simp add: applyClusterMerge_def refl)

lemma merges: "R (snd s) (snd (merge_cluster h c s))"
  using cluster_merge by (cases s) (auto simp: merge_cluster_def Let_def refl split: option.splits prod.splits, metis snd_conv)

lemma consolidate: "R d (snd (runConsolidation h se ue d))"
proof -
  have p: "R (snd s) (snd (consolidate_project h se ue ms s))" for ms s
    unfolding consolidate_project_def using sweeps [where f = "merge_cluster h", OF merges] by (simp add: refl)
  have k: "R (snd s) (snd (consolidate_kind h se ue k s))" for k s
    unfolding consolidate_kind_def using sweeps [where f = "consolidate_project h se ue", OF p] by (auto simp: refl split: option.splits)
  have "R d (snd (sweep (consolidate_kind h se ue) ELIGIBLE_KINDS (0, d)))"
    using sweeps [where f = "consolidate_kind h se ue" and s = "(0, d)", OF k] by simp
  then show ?thesis using trans [OF _ prune] by (auto simp: runConsolidation_def split: prod.splits option.splits)
qed

lemma promotes: "R (snd s) (snd (promotion_step h se r s))"
proof -
  have g: "R d (snd (guardedPromote h i d))" for i d
    using promotion [of i d h]
    by (auto simp: guardedPromote_def refl none_bound_def syncBoundIds_def isRowSyncBound_def list_ex_iff filter_empty_conv)
  show ?thesis by (cases s) (use g in \<open>auto simp: promotion_step_def refl split: prod.splits, metis snd_conv\<close>)
qed

lemma auto_promote: "R d (snd (runAutoPromotion h se d))"
  unfolding runAutoPromotion_def by (rule folds [where s = "(0, d)", simplified]) (rule promotes)

end

section \<open>Replicated rows are spared\<close>

text \<open>Only bookkeeping changed: the confidence with its decay stamp, the counters, the revision.\<close>

definition spared :: "memory_row \<Rightarrow> memory_row \<Rightarrow> bool" where
  "spared r r' \<longleftrightarrow> (\<exists>c l s i v u. r' = r\<lparr> r_confidence := c, r_last_decayed := l, r_surface_count := s, r_impact_count := i,
     r_revision := v, r_updated_at := u \<rparr>)"

lemma spared_refl: "spared r r"
  unfolding spared_def by (intro exI [of _ "r_confidence r"] exI [of _ "r_last_decayed r"] exI [of _ "r_surface_count r"]
      exI [of _ "r_impact_count r"] exI [of _ "r_revision r"] exI [of _ "r_updated_at r"]) simp

lemma spared_trans: "spared a b \<Longrightarrow> spared b c \<Longrightarrow> spared a c"
  unfolding spared_def by (elim exE) (simp, blast)

lemma spared_id: "spared r r' \<Longrightarrow> r_id r' = r_id r"
  by (auto simp: spared_def)

definition keeps_bound :: "db \<Rightarrow> db \<Rightarrow> bool" where
  "keeps_bound d d' \<longleftrightarrow> entity_map d' = entity_map d \<and>
     (\<forall>r\<in>set (memories d). isRowSyncBound (r_id r) d \<longrightarrow> (\<exists>r'\<in>set (memories d'). spared r r')) \<and>
     (\<exists>new. journal d' = journal d @ new \<and> (\<forall>j\<in>set new. \<not> isRowSyncBound (j_memory j) d))"

text \<open>The statements.\<close>

lemma keeps_bound_map:
  assumes "memories d' = map f (memories d)" "entity_map d' = entity_map d" "journal d' = journal d @ new"
    and "\<And>r. r \<in> set (memories d) \<Longrightarrow> isRowSyncBound (r_id r) d \<Longrightarrow> spared r (f r)"
    and "\<And>j. j \<in> set new \<Longrightarrow> \<not> isRowSyncBound (j_memory j) d"
  shows "keeps_bound d d'"
  using assms by (auto simp: keeps_bound_def)

lemma keeps_bound_update:
  assumes "\<And>r. isRowSyncBound (r_id r) d \<Longrightarrow> P r \<Longrightarrow> spared r (revision_trigger h (f r))"
  shows "keeps_bound d (exec_update h P f d)"
  by (rule keeps_bound_map [where f = "\<lambda>r. if P r then revision_trigger h (f r) else r" and new = "[]"])
    (auto simp: t_update_def spared_refl assms)

lemma keeps_bound_plain:
  assumes "\<And>r. spared r (f r)"
  shows "keeps_bound d (exec_update_plain P f d)"
  by (rule keeps_bound_map [where f = "\<lambda>r. if P r then f r else r" and new = "[]"]) (auto simp: t_update_def spared_refl assms)

lemma keeps_bound_frame:
  "memories d' = memories d \<Longrightarrow> entity_map d' = entity_map d \<Longrightarrow> journal d' = journal d \<Longrightarrow> keeps_bound d d'"
  by (rule keeps_bound_map [where f = "\<lambda>r. r" and new = "[]"]) (simp_all add: spared_refl)

lemma spared_confidence: "spared r (revision_trigger h (r\<lparr> r_confidence := c \<rparr>))"
  unfolding spared_def revision_trigger_def
  by (intro exI [of _ c] exI [of _ "r_last_decayed r"] exI [of _ "r_surface_count r"] exI [of _ "r_impact_count r"]
      exI [of _ "r_revision r + 1"] exI [of _ "Some (sql_now h)"]) simp

lemma spared_stamp: "spared r (revision_trigger h (r\<lparr> r_confidence := c, r_last_decayed := l \<rparr>))"
  unfolding spared_def revision_trigger_def
  by (intro exI [of _ c] exI [of _ l] exI [of _ "r_surface_count r"] exI [of _ "r_impact_count r"]
      exI [of _ "r_revision r + 1"] exI [of _ "Some (sql_now h)"]) simp

lemma spared_counts: "spared r (r\<lparr> r_surface_count := s \<rparr>)" "spared r (r\<lparr> r_impact_count := i \<rparr>)"
  unfolding spared_def
  by (intro exI [of _ "r_confidence r"] exI [of _ "r_last_decayed r"] exI [of _ s] exI [of _ "r_impact_count r"]
      exI [of _ "r_revision r"] exI [of _ "r_updated_at r"], simp)
    (intro exI [of _ "r_confidence r"] exI [of _ "r_last_decayed r"] exI [of _ "r_surface_count r"] exI [of _ i]
      exI [of _ "r_revision r"] exI [of _ "r_updated_at r"], simp)

text \<open>What the journal helpers write about.\<close>

lemma journal_rows_about:
  "\<exists>new. journal (journal_rows h op rs d) = journal d @ new \<and> (\<forall>j\<in>set new. j_memory j \<in> r_id ` set rs)"
proof -
  obtain new where n: "journal (journal_rows h op rs d) = journal d @ new" "map entry_content new = map (row_entry op) rs"
    using journal_rows_content by blast
  have "j_memory j \<in> r_id ` set rs" if "j \<in> set new" for j
  proof -
    have "entry_content j \<in> set (map (row_entry op) rs)" using that unfolding n(2) [symmetric] by simp
    then show ?thesis by (auto simp: entry_content_def row_entry_def)
  qed
  with n(1) show ?thesis by blast
qed

lemma journal_ids_about:
  "\<exists>new. journal (journal_rows h op (filter (admissible_row ids) rs) d) = journal d @ new \<and> (\<forall>j\<in>set new. j_memory j \<in> set ids)"
proof -
  obtain new where "journal (journal_rows h op (filter (admissible_row ids) rs) d) = journal d @ new"
    "\<forall>j\<in>set new. j_memory j \<in> r_id ` set (filter (admissible_row ids) rs)" using journal_rows_about by blast
  then show ?thesis by (intro exI [of _ new]) (auto simp: admissible_row_def)
qed

lemma journal_helpers_about:
  "\<exists>new. journal (journalTombstonesForIds h sp ids d) = journal d @ new \<and> (\<forall>j\<in>set new. j_memory j \<in> set ids)"
  "\<exists>new. journal (journalUpsertsForIds h sp ids d) = journal d @ new \<and> (\<forall>j\<in>set new. j_memory j \<in> set ids)"
  by (cases "sp \<or> ids = []"; simp add: journalTombstonesForIds_def journalUpsertsForIds_def journal_ids_about)+

lemma journalMutation_about:
  "\<exists>new. journal (journalMutation h sp i d) = journal d @ new \<and> (\<forall>j\<in>set new. j_memory j = ji_memory i)"
  by (auto simp: journalMutation_def journal_row_def)

lemma retire_keeps_bound:
  assumes "none_bound ids d"
  shows "keeps_bound d (snd (retireIdsByInvalidation h sp ids d))"
proof (cases "ids = []")
  case False
  obtain new where n: "journal (journalTombstonesForIds h sp ids (log_tombstones h Invalidate (retired_row ids) d)) = journal d @ new"
    "\<forall>j\<in>set new. j_memory j \<in> set ids"
    using journal_helpers_about(1) [of h sp ids "log_tombstones h Invalidate (retired_row ids) d"] by auto
  show ?thesis
    by (rule keeps_bound_map [where f = "\<lambda>r. if retired_row ids r then revision_trigger h (r\<lparr> r_invalidated := 1 \<rparr>) else r" and new = new])
      (use assms n False in \<open>auto simp: retireIdsByInvalidation_def Let_def t_update_def retired_row_def none_bound_def spared_refl\<close>)
qed (simp add: retireIdsByInvalidation_def keeps_bound_frame)

lemma upsert_keeps_bound:
  assumes "none_bound [i] d"
  shows "keeps_bound d (journalUpsertForId h i d)"
proof -
  obtain new where "journal (journalUpsertForId h i d) = journal d @ new" "\<forall>j\<in>set new. j_memory j \<in> set [i]"
    using journal_helpers_about(2) [of h False "[i]" d] by (auto simp: journalUpsertForId_def)
  with assms show ?thesis
    by (intro keeps_bound_map [where f = "\<lambda>r. r" and new = new])
      (auto simp: journalUpsertForId_def journalUpsertsForIds_def none_bound_def spared_refl)
qed

lemma invalidate_keeps_bound:
  assumes "none_bound [i] d"
  shows "keeps_bound d (snd (invalidate_memory h i sp d))"
proof (cases "find (retractable i) (memories d)")
  case (Some row)
  let ?d1 = "d\<lparr> tombstones := tombstones d @ [\<lparr> mt_memory = i, mt_action = Invalidate, mt_project = r_project row,
    mt_kind = r_kind row, mt_content = r_content row, mt_at = sql_now h \<rparr>], changes := Suc (changes d) \<rparr>"
  let ?ji = "\<lparr> ji_memory = i, ji_project = r_project row, ji_kind = r_kind row, ji_op = J_Tombstone,
    ji_revision = r_revision row, ji_cause = None \<rparr>"
  obtain new where n: "journal (journalMutation h sp ?ji ?d1) = journal d @ new" "\<forall>j\<in>set new. j_memory j = i"
    using journalMutation_about [of h sp ?ji ?d1] by auto
  show ?thesis
    by (rule keeps_bound_map [where f = "\<lambda>r. if retractable i r then revision_trigger h (r\<lparr> r_invalidated := 1 \<rparr>) else r" and new = new])
      (use assms n Some in \<open>auto simp: invalidate_memory_def retractWithTombstone_def Let_def t_update_def retractable_def none_bound_def spared_refl\<close>)
qed (simp add: invalidate_memory_def retractWithTombstone_def keeps_bound_frame)

lemma promote_keeps_bound:
  assumes "none_bound [i] d"
  shows "keeps_bound d (snd (promote h i False d))"
proof (cases "find (promotable i) (memories d)")
  case (Some row)
  let ?ji = "\<lparr> ji_memory = i, ji_project = r_project row, ji_kind = r_kind row, ji_op = J_Tombstone,
    ji_revision = r_revision row, ji_cause = None \<rparr>"
  obtain new where n: "journal (journalMutation h False ?ji d) = journal d @ new" "\<forall>j\<in>set new. j_memory j = i"
    using journalMutation_about [of h False ?ji d] by auto
  show ?thesis
    by (rule keeps_bound_map [where f = "\<lambda>r. if promotable i r then revision_trigger h (r\<lparr> r_project := None \<rparr>) else r" and new = new])
      (use assms n Some in \<open>auto simp: promote_def Let_def t_update_def promotable_def none_bound_def spared_refl\<close>)
qed (simp add: promote_def keeps_bound_frame)

lemma keeps_bound_trans:
  assumes ab: "keeps_bound a b" and bc: "keeps_bound b c"
  shows "keeps_bound a c"
proof -
  have m: "isRowSyncBound i b = isRowSyncBound i a" for i using ab unfolding keeps_bound_def isRowSyncBound_def by simp
  have "\<exists>r'\<in>set (memories c). spared r r'" if r: "r \<in> set (memories a)" "isRowSyncBound (r_id r) a" for r
  proof -
    obtain r1 where r1: "r1 \<in> set (memories b)" "spared r r1" using ab r unfolding keeps_bound_def by blast
    then have "isRowSyncBound (r_id r1) b" using r(2) by (simp add: m spared_id)
    then obtain r2 where "r2 \<in> set (memories c)" "spared r1 r2" using bc r1(1) unfolding keeps_bound_def by blast
    with r1(2) spared_trans show ?thesis by blast
  qed
  moreover from ab obtain n1 where n1: "journal b = journal a @ n1" "\<forall>j\<in>set n1. \<not> isRowSyncBound (j_memory j) a"
    unfolding keeps_bound_def by blast
  from bc obtain n2 where n2: "journal c = journal b @ n2" "\<forall>j\<in>set n2. \<not> isRowSyncBound (j_memory j) b"
    unfolding keeps_bound_def by blast
  have "journal c = journal a @ (n1 @ n2)" "\<forall>j\<in>set (n1 @ n2). \<not> isRowSyncBound (j_memory j) a"
    using n1 n2 by (auto simp: m)
  then have "\<exists>new. journal c = journal a @ new \<and> (\<forall>j\<in>set new. \<not> isRowSyncBound (j_memory j) a)" by blast
  ultimately show ?thesis using ab bc by (simp add: keeps_bound_def)
qed

interpretation bound: upkeep_relation keeps_bound
proof unfold_locales
  show "keeps_bound d (exec_delete P d)" if "\<And>r. r \<in> set (memories d) \<Longrightarrow> P r \<Longrightarrow> unbound d r" for P d
    using that spared_refl by (auto simp: keeps_bound_def unbound_def intro!: bexI)
  show "keeps_bound d (exec_update h (has_id i) (\<lambda>r. r\<lparr> r_confidence := q, r_tags := tg \<rparr>) d)" if "none_bound [i] d" for i d h q tg
    by (rule keeps_bound_update) (use that in \<open>auto simp: none_bound_def\<close>)
qed (use keeps_bound_trans retire_keeps_bound invalidate_keeps_bound upsert_keeps_bound promote_keeps_bound in
    \<open>blast | simp add: keeps_bound_frame keeps_bound_update keeps_bound_plain spared_confidence spared_stamp spared_counts pruneOldCoOccurrences_def Let_def\<close>)+

section \<open>Nothing is made up\<close>

text \<open>Every row there is afterwards was there before with the same text, kind and source.\<close>

definition makes_nothing_up :: "db \<Rightarrow> db \<Rightarrow> bool" where
  "makes_nothing_up d d' \<longleftrightarrow> (t_keyed r_id (memories d) \<longrightarrow> t_keyed r_id (memories d')) \<and>
     (\<forall>r'\<in>set (memories d'). \<exists>r\<in>set (memories d). r_id r' = r_id r \<and> r_content r' = r_content r \<and>
        r_kind r' = r_kind r \<and> r_source r' = r_source r)"

lemma makes_nothing_up_map:
  assumes "memories d' = map f (memories d)"
    and "\<And>r. r_id (f r) = r_id r \<and> r_content (f r) = r_content r \<and> r_kind (f r) = r_kind r \<and> r_source (f r) = r_source r"
  shows "makes_nothing_up d d'"
proof -
  have "map r_id (memories d') = map r_id (memories d)" using assms by simp
  then have "t_keyed r_id (memories d) \<longrightarrow> t_keyed r_id (memories d')" by (simp add: t_keyed_def)
  moreover have "\<forall>r'\<in>set (memories d'). \<exists>r\<in>set (memories d). r_id r' = r_id r \<and> r_content r' = r_content r \<and>
        r_kind r' = r_kind r \<and> r_source r' = r_source r" using assms by auto
  ultimately show ?thesis by (simp add: makes_nothing_up_def)
qed

lemma makes_nothing_up_update:
  assumes "memories d' = memories (exec_update h P f d)"
    and "\<And>r. r_id (f r) = r_id r \<and> r_content (f r) = r_content r \<and> r_kind (f r) = r_kind r \<and> r_source (f r) = r_source r"
  shows "makes_nothing_up d d'"
  by (rule makes_nothing_up_map [where f = "\<lambda>r. if P r then revision_trigger h (f r) else r"])
    (use assms in \<open>auto simp: t_update_def revision_trigger_def\<close>)

lemma makes_nothing_up_frame: "memories d' = memories d \<Longrightarrow> makes_nothing_up d d'"
  by (rule makes_nothing_up_map [where f = "\<lambda>r. r"]) simp_all

interpretation made: upkeep_relation makes_nothing_up
proof unfold_locales
  show "makes_nothing_up d (exec_delete P d)" for P d
    by (auto simp: makes_nothing_up_def t_keyed_filter)
  show "makes_nothing_up a c" if "makes_nothing_up a b" "makes_nothing_up b c" for a b c
    using that unfolding makes_nothing_up_def by (metis (no_types, lifting))
  show "makes_nothing_up d (snd (retireIdsByInvalidation h sp ids d))" for h sp ids d
    by (cases "ids = []") (auto simp: retireIdsByInvalidation_def Let_def makes_nothing_up_frame
      intro!: makes_nothing_up_update [where h = h and P = "retired_row ids" and f = "\<lambda>r. r\<lparr> r_invalidated := 1 \<rparr>"])
  show "makes_nothing_up d (snd (invalidate_memory h i sp d))" for h i sp d
    by (auto simp: invalidate_memory_def retractWithTombstone_def Let_def makes_nothing_up_frame split: option.splits
      intro!: makes_nothing_up_update [where h = h and P = "retractable i" and f = "\<lambda>r. r\<lparr> r_invalidated := 1 \<rparr>"])
  show "makes_nothing_up d (snd (promote h i False d))" for h i d
    by (auto simp: promote_def Let_def makes_nothing_up_frame split: option.splits
      intro!: makes_nothing_up_update [where h = h and P = "promotable i" and f = "\<lambda>r. r\<lparr> r_project := None \<rparr>"])
  show "makes_nothing_up d (exec_update_plain P (\<lambda>r. r\<lparr> r_surface_count := n r \<rparr>) d)"
    "makes_nothing_up d (exec_update_plain P (\<lambda>r. r\<lparr> r_impact_count := n r \<rparr>) d)" for P n d
    by (rule makes_nothing_up_map [where f = "\<lambda>r. if P r then r\<lparr> r_surface_count := n r \<rparr> else r"], simp_all add: t_update_def)
      (rule makes_nothing_up_map [where f = "\<lambda>r. if P r then r\<lparr> r_impact_count := n r \<rparr> else r"], simp_all add: t_update_def)
qed (rule makes_nothing_up_frame makes_nothing_up_update [OF refl],
    simp add: journalUpsertForId_def journalUpsertsForIds_def pruneOldCoOccurrences_def Let_def)+

end
