(* ===== verification/Upkeep_Properties.thy ===== *)
theory Upkeep_Properties
  imports Upkeep_Facts Write_Properties
begin

text \<open>
  The properties of unattended upkeep: replicated rows are spared, nothing is made up, age is charged
  exactly once, and consolidation can hide the only active statement of a fact.
\<close>

section \<open>Maintenance and histories\<close>

datatype upkeep =
    Maintain "rat option" bool
  | Zero_Impact_Sweep
  | Fingerprint_Sweep jstr "jstr list"
  | Precision_Feedback "(jstr \<times> int) list" rat rat
  | Autonomous_Weaken jstr
  | Boost jstr rat
  | Surfaced jstr
  | Impact jstr

fun upkeep_step :: "host \<Rightarrow> search_env \<Rightarrow> upkeep_env \<times> upkeep \<Rightarrow> db \<Rightarrow> db" where
  "upkeep_step h se (ue, Maintain prior force) d = snd (runMaintenance h se ue prior force d)"
| "upkeep_step h se (ue, Zero_Impact_Sweep) d = snd (weakenZeroImpactPitfalls h d)"
| "upkeep_step h se (ue, Fingerprint_Sweep p terms) d = snd (weakenStaleFingerprintMemories h ue p terms d)"
| "upkeep_step h se (ue, Precision_Feedback rows inc factor) d = snd (applyPrecisionFeedback h rows inc factor d)"
| "upkeep_step h se (ue, Autonomous_Weaken i) d = snd (weakenConfidence h i True d)"
| "upkeep_step h se (ue, Boost i a) d = boostConfidence h i a d"
| "upkeep_step h se (ue, Surfaced i) d = incrementSurface i d"
| "upkeep_step h se (ue, Impact i) d = incrementImpact i d"

context upkeep_relation
begin

lemma maintain: "R d (snd (runMaintenance h se ue prior force d))"
proof -
  obtain n d1 where 1: "expireTtlMemories ue d = (n, d1)" by fastforce
  obtain c d2 where 2: "applyConfidenceDecay h ue d1 = (c, d2)" by fastforce
  obtain m d3 where 3: "runConsolidation h se ue d2 = (m, d3)" by fastforce
  obtain k d4 where 4: "runAutoPromotion h se d3 = (k, d4)" by fastforce
  have s: "R d d1" "R d1 d2" "R d2 d3" "R d3 d4"
    using expire [of d ue] decay [of d1 h ue] consolidate [of d2 h se ue] auto_promote [of d3 h se] by (simp_all add: 1 2 3 4)
  from s trans have "R d d3" "R d d4" by blast+
  then show ?thesis using s by (simp add: runMaintenance_def Let_def 1 2 3 4 split: option.splits)
qed

lemma step: "R d (upkeep_step h se op d)"
  by (cases "(h, se, op, d)" rule: upkeep_step.cases)
    (simp_all add: maintain zero_impact stale precision weaken boost incrementSurface_def incrementImpact_def surface impact)

lemma history: "R d (fold (upkeep_step h se) ops d)"
  by (rule folds_db) (rule step)

end

section \<open>Replicated rows\<close>


text \<open>C17. Upkeep makes nothing up: afterwards every memory was there before under the same id with the same
  text, kind and source, and ids are still unique.\<close>

theorem upkeep_makes_nothing_up:
  assumes "t_keyed r_id (memories d)" "d' = fold (upkeep_step h se) ops d"
  shows "t_keyed r_id (memories d') \<and> (\<forall>r'\<in>set (memories d'). \<exists>r\<in>set (memories d).
    r_id r' = r_id r \<and> r_content r' = r_content r \<and> r_kind r' = r_kind r \<and> r_source r' = r_source r)"
  using made.history [of d h se ops] assms by (simp add: makes_nothing_up_def)

section \<open>Age is charged exactly once\<close>

text \<open>What a sweep does to a row \<open>r\<close> it read as \<open>m\<close>.\<close>

definition charge :: "host \<Rightarrow> upkeep_env \<Rightarrow> memory_row \<Rightarrow> memory_row \<Rightarrow> memory_row" where
  "charge h ue m r = (case decay_delta ue m of None \<Rightarrow> r
     | Some delta \<Rightarrow> if delta < MIN_CHARGE_DAYS then r
         else revision_trigger h (r\<lparr> r_confidence := Fin (decayed_confidence h ue m delta),
           r_last_decayed := Some (ue_iso ue (ue_now ue)) \<rparr>))"

lemma charge_id [simp]: "r_id (charge h ue m r) = r_id r"
  by (simp add: charge_def split: option.splits)

lemma decay_step_row:
  "row_of (snd (decay_step h ue m st)) i = (if r_id m = i then map_option (charge h ue m) (row_of (snd st) i) else row_of (snd st) i)"
proof -
  have "r_id r = i" if "row_of (snd st) i = Some r" for r using t_get_Some [OF that] by simp
  then show ?thesis
    by (cases st; cases "row_of (snd st) i") (auto simp: decay_step_def charge_def Let_def row_of_update split: option.splits)
qed

lemma decay_fold_row:
  assumes "distinct (map r_id rs)"
  shows "row_of (snd (fold (decay_step h ue) rs st)) i =
    (case t_get r_id i rs of None \<Rightarrow> row_of (snd st) i | Some m \<Rightarrow> map_option (charge h ue m) (row_of (snd st) i))"
  using assms
proof (induction rs arbitrary: st)
  case (Cons m rs)
  have "t_get r_id i rs = None" if "r_id m = i" using Cons.prems that by (auto simp: t_get_None)
  moreover have "t_get r_id i (m # rs) = (if r_id m = i then Some m else t_get r_id i rs)" by (simp add: t_get_def)
  moreover have "row_of (snd (fold (decay_step h ue) (m # rs) st)) i = (case t_get r_id i rs of
      None \<Rightarrow> row_of (snd (decay_step h ue m st)) i
    | Some x \<Rightarrow> map_option (charge h ue x) (row_of (snd (decay_step h ue m st)) i))"
    using Cons.IH [of "decay_step h ue m st"] Cons.prems by (simp add: t_get_def)
  ultimately show ?case by (cases "r_id m = i") (simp_all only: decay_step_row if_True if_False option.case simp_thms)
qed (simp add: t_get_def)

lemma row_of_delete:
  assumes "t_keyed r_id (memories d)" "row_of (exec_delete P d) i = Some r"
  shows "row_of d i = Some r"
proof -
  have "r \<in> set (memories d)" "r_id r = i" using t_get_Some [OF assms(2)] by auto
  with t_get_keyed [OF assms(1)] show ?thesis by auto
qed

lemma keyed_delete: "t_keyed r_id (memories d) \<Longrightarrow> t_keyed r_id (memories (exec_delete P d))"
  by (simp add: t_keyed_filter)

text \<open>The row after one sweep that kept it.\<close>

definition swept :: "host \<Rightarrow> upkeep_env \<Rightarrow> memory_row \<Rightarrow> memory_row" where
  "swept h ue r = (if decay_eligible h r then charge h ue r r else r)"

lemma sweep_row:
  assumes keyed: "t_keyed r_id (memories d)" and left: "row_of (snd (applyConfidenceDecay h ue d)) i = Some r'"
  obtains r where "row_of d i = Some r" "r' = swept h ue r"
proof -
  let ?rs = "filter (decay_eligible h) (memories d)"
  obtain n d1 where 1: "fold (decay_step h ue) ?rs (0, d) = (n, d1)" by fastforce
  have k1: "t_keyed r_id (memories d1)"
    using made.decay_steps [where d = d and h = h and ue = ue and rows = ?rs and n = 0] keyed by (simp add: 1 makes_nothing_up_def)
  let ?d2 = "exec_delete (below_threshold h d1) d1"
  let ?dead = "map r_id (take CLEANUP_MAX_DELETE (filter (dead_row h ue ?d2) (memories ?d2)))"
  let ?d3 = "if ?dead = [] then ?d2 else exec_delete (\<lambda>r. r_id r \<in> set ?dead \<and> unbound ?d2 r) ?d2"
  have k2: "t_keyed r_id (memories ?d2)" using k1 by (rule keyed_delete)
  have k3: "t_keyed r_id (memories ?d3)" using k2 keyed_delete by (cases "?dead = []") (simp_all only: if_True if_False simp_thms)
  have "row_of (exec_delete (old_invalidated ue ?d3) ?d3) i = Some r'"
    using left by (simp only: applyConfidenceDecay_def 1 Let_def prod.case snd_conv)
  then have "row_of ?d3 i = Some r'" by (rule row_of_delete [OF k3])
  then have "row_of ?d2 i = Some r'"
    using row_of_delete [OF k2] by (cases "?dead = []") (simp_all only: if_True if_False simp_thms)
  then have r1: "row_of d1 i = Some r'" by (rule row_of_delete [OF k1])
  have "distinct (map r_id ?rs)" using keyed by (simp add: t_keyed_def distinct_map_filter)
  from decay_fold_row [OF this, where h = h and ue = ue and st = "(0, d)" and i = i] r1
  have fr: "(case t_get r_id i ?rs of None \<Rightarrow> row_of d i | Some m \<Rightarrow> map_option (charge h ue m) (row_of d i)) = Some r'"
    by (simp only: 1 snd_conv)
  show ?thesis
  proof (cases "t_get r_id i ?rs")
    case None
    with fr have row: "row_of d i = Some r'" by simp
    from None t_get_Some [OF row] have "\<not> decay_eligible h r'" by (auto simp: t_get_None)
    then have "r' = swept h ue r'" by (simp add: swept_def)
    with row show ?thesis by (rule that)
  next
    case (Some m)
    from t_get_Some [OF Some] have m: "m \<in> set (memories d)" "r_id m = i" "decay_eligible h m" by auto
    with t_get_keyed [OF keyed] have "row_of d i = Some m" by auto
    with fr have "r' = charge h ue m m" by (simp only: Some option.case option.map option.inject)
    with \<open>row_of d i = Some m\<close> m that show ?thesis by (simp add: swept_def)
  qed
qed


text \<open>The effective age a row has been charged for, and what a charge makes of a confidence.\<close>

definition charged_age :: "upkeep_env \<Rightarrow> memory_row \<Rightarrow> rat option" where
  "charged_age ue r = (case (decay_reference ue r, decay_start ue r) of
     (Some ref, Some t) \<Rightarrow> Some (effectiveAgeDays t ref) | _ \<Rightarrow> None)"

definition age_now :: "upkeep_env \<Rightarrow> memory_row \<Rightarrow> rat option" where
  "age_now ue r = map_option (effectiveAgeDays (ue_now ue)) (decay_reference ue r)"

definition decay_by :: "host \<Rightarrow> memory_row \<Rightarrow> upkeep_env \<times> rat \<Rightarrow> rat \<Rightarrow> rat" where
  "decay_by h r c q = (case c of (ue, delta) \<Rightarrow>
     max (CONFIDENCE h DELETE_THRESHOLD) (fl h (q * ue_exp ue (- delta / stability r))))"

definition decay_history :: "host \<Rightarrow> upkeep_env list \<Rightarrow> db \<Rightarrow> db" where
  "decay_history h ues d = fold (\<lambda>ue d. snd (applyConfidenceDecay h ue d)) ues d"

text \<open>The clock: the runtime reads its own ISO texts back, and they are not empty.\<close>

definition clock_ok :: "(jstr \<Rightarrow> rat option) \<Rightarrow> upkeep_env \<Rightarrow> bool" where
  "clock_ok parse ue \<longleftrightarrow> ue_parse ue = parse \<and> ue_iso ue (ue_now ue) \<noteq> [] \<and>
     parse (ue_iso ue (ue_now ue)) = Some (ue_now ue)"

lemma charged_age_cong:
  "clock_ok parse a \<Longrightarrow> clock_ok parse b \<Longrightarrow> charged_age a r = charged_age b r"
  by (simp add: charged_age_def decay_reference_def decay_start_def clock_ok_def split: option.splits)

lemma swept_cases:
  assumes "clock_ok parse ue" "charged_age ue r = Some a"
  obtains "swept h ue r = r"
  | delta where "MIN_CHARGE_DAYS \<le> delta" "charged_age ue (swept h ue r) = Some (a + delta)"
      "conf (swept h ue r) = decay_by h r (ue, delta) (conf r)" "stability (swept h ue r) = stability r"
proof (cases "decay_eligible h r \<and> (\<exists>delta. decay_delta ue r = Some delta \<and> MIN_CHARGE_DAYS \<le> delta)")
  case True
  then obtain delta where e: "decay_eligible h r" and delta: "decay_delta ue r = Some delta" "MIN_CHARGE_DAYS \<le> delta" by blast
  obtain ref prev where ref: "decay_reference ue r = Some ref" "decay_start ue r = Some prev"
    using assms(2) by (auto simp: charged_age_def split: option.splits)
  let ?r' = "revision_trigger h (r\<lparr> r_confidence := Fin (decayed_confidence h ue r delta), r_last_decayed := Some (ue_iso ue (ue_now ue)) \<rparr>)"
  have s: "swept h ue r = ?r'" using e delta by (simp add: swept_def charge_def)
  have "decay_reference ue ?r' = Some ref" using ref(1)
    by (cases "r_last_recalled r") (simp_all add: decay_reference_def revision_trigger_def)
  moreover have "decay_start ue ?r' = Some (ue_now ue)"
    using assms(1) by (simp add: decay_start_def revision_trigger_def clock_ok_def)
  moreover have "delta = effectiveAgeDays (ue_now ue) ref - a"
    using delta(1) assms(2) ref by (simp add: decay_delta_def charged_age_def)
  ultimately have "charged_age ue ?r' = Some (a + delta)" by (simp add: charged_age_def)
  moreover have "conf ?r' = decay_by h r (ue, delta) (conf r)"
    by (simp add: conf_def num_val_def revision_trigger_def decay_by_def decayed_confidence_def)
  moreover have "stability ?r' = stability r" by (simp add: stability_def revision_trigger_def)
  ultimately show ?thesis using that(2) [OF delta(2)] by (simp add: s)
next
  case False
  then have "swept h ue r = r" by (auto simp: swept_def charge_def not_le split: option.splits)
  then show ?thesis by (rule that(1))
qed

lemma decay_by_stable: "stability a = stability b \<Longrightarrow> decay_by h a = decay_by h b"
  by (simp add: decay_by_def fun_eq_iff split: prod.splits)

lemma history_row:
  assumes "t_keyed r_id (memories d)" "row_of (decay_history h ues d) i = Some r'"
  shows "\<exists>r. row_of d i = Some r"
  using assms
proof (induction ues arbitrary: d)
  case (Cons ue ues)
  have "t_keyed r_id (memories (snd (applyConfidenceDecay h ue d)))"
    using made.decay [where d = d and h = h and ue = ue] Cons.prems(1) by (simp add: makes_nothing_up_def)
  with Cons obtain r1 where "row_of (snd (applyConfidenceDecay h ue d)) i = Some r1" by (force simp: decay_history_def)
  from sweep_row [OF Cons.prems(1) this] show ?case by blast
qed (simp add: decay_history_def)

text \<open>C18. Age is charged exactly once, whatever the schedule: over any sequence of decay sweeps, the confidence a
  surviving row ends with is its first confidence decayed by a trail of charges, each of at least
  \<open>MIN_CHARGE_DAYS\<close>, and the charges add up to exactly the effective age gained between the row's first and
  last decay stamp.  Sweeping more often never charges an age twice, sweeping rarely never drops one.\<close>

theorem age_charged_once:
  assumes "t_keyed r_id (memories d)" "row_of d i = Some r" "row_of (decay_history h ues d) i = Some r'"
    and "clock_ok parse ue0" "\<forall>ue\<in>set ues. clock_ok parse ue" "charged_age ue0 r = Some a"
  shows "\<exists>charges. fold (decay_by h r) charges (conf r) = conf r' \<and> charged_age ue0 r' = Some (a + sum_list (map snd charges)) \<and>
    set (map fst charges) \<subseteq> set ues \<and> (\<forall>c\<in>set charges. MIN_CHARGE_DAYS \<le> snd c)"
  using assms
proof (induction ues arbitrary: d r a)
  case Nil
  then show ?case by (intro exI [of _ "[]"]) (simp add: decay_history_def)
next
  case (Cons ue ues)
  let ?d1 = "snd (applyConfidenceDecay h ue d)"
  have k1: "t_keyed r_id (memories ?d1)"
    using made.decay [where d = d and h = h and ue = ue] Cons.prems(1) by (simp add: makes_nothing_up_def)
  have rest: "row_of (decay_history h ues ?d1) i = Some r'" using Cons.prems(3) by (simp add: decay_history_def)
  from history_row [OF k1 rest] obtain r1 where r1: "row_of ?d1 i = Some r1" by blast
  then have sw: "r1 = swept h ue r" using sweep_row [OF Cons.prems(1) r1] Cons.prems(2) by auto
  have ok: "clock_ok parse ue" using Cons.prems(5) by simp
  have same: "charged_age ue x = charged_age ue0 x" for x using charged_age_cong [OF ok Cons.prems(4)] .
  have IH: "\<exists>cs. fold (decay_by h r1) cs (conf r1) = conf r' \<and> charged_age ue0 r' = Some (b + sum_list (map snd cs)) \<and>
      set (map fst cs) \<subseteq> set ues \<and> (\<forall>c\<in>set cs. MIN_CHARGE_DAYS \<le> snd c)" if "charged_age ue0 r1 = Some b" for b
    using Cons.IH [OF k1 r1 rest Cons.prems(4) _ that] Cons.prems(5) by simp
  from ok Cons.prems(6) [folded same] show ?case
  proof (cases rule: swept_cases [where h = h])
    case 1
    then show ?thesis using IH [of a] Cons.prems(6) sw by auto
  next
    case (2 delta)
    with IH [of "a + delta"] sw same obtain cs where cs: "fold (decay_by h r1) cs (conf r1) = conf r'"
      "charged_age ue0 r' = Some (a + delta + sum_list (map snd cs))" "set (map fst cs) \<subseteq> set ues"
      "\<forall>c\<in>set cs. MIN_CHARGE_DAYS \<le> snd c" by auto
    have "decay_by h r1 = decay_by h r" using 2 sw by (intro decay_by_stable) simp
    then have "fold (decay_by h r) ((ue, delta) # cs) (conf r) = conf r'" using cs(1) 2 sw by simp
    then show ?thesis using cs 2 by (intro exI [of _ "(ue, delta) # cs"]) (auto simp: add.assoc)
  qed
qed

section \<open>Gentle weakening\<close>

text \<open>The floor of the gentle weakening lies above the threshold at which decay stops, so a floored row that was
  recalled and ignored gains confidence.\<close>

lemma gentle_weaken_raises_floored:
  assumes "row_of d i = Some r" "r_invalidated r = 0" "r_kind r \<noteq> Rule" "conf r = CONFIDENCE sample_host DELETE_THRESHOLD"
    and "factor \<le> 1"
  shows "\<exists>r'. row_of (snd (applyPrecisionFeedback sample_host [(i, 0)] inc factor d)) i = Some r' \<and> conf r < conf r'"
proof -
  have u: "updatable i r" using assms t_get_Some [OF assms(1)] by (simp add: updatable_def)
  have "row_of (snd (applyPrecisionFeedback sample_host [(i, 0)] inc factor d)) i =
      Some (revision_trigger sample_host (r\<lparr> r_confidence := Fin (max (fl sample_host (CONFIDENCE sample_host DELETE_THRESHOLD +
        fl sample_host (1 / 100))) (fl sample_host (conf r * factor))) \<rparr>))"
    using assms(1) u by (simp add: applyPrecisionFeedback_def precision_step_def Let_def row_of_update)
  then show ?thesis using assms(4)
    by (auto simp: conf_def num_val_def revision_trigger_def CONFIDENCE_def sample_host_def less_max_iff_disj)
qed

end
