(* ===== verification/Upkeep_Samples.thy ===== *)
theory Upkeep_Samples
  imports Upkeep_Properties
begin

text \<open>
  Concrete upkeep: a replicated statement with its history, on which the upkeep properties are
  instantiated, and a store in which consolidation hides the only active statement of a fact.
\<close>

section \<open>Consolidation and supersession\<close>

text \<open>Two statements about the same cluster: the second replaced the first, which is kept as history.\<close>

definition stale_text :: jstr where "stale_text = js ''web cluster runs node 18.14 on every host''"
definition fresh_text :: jstr where "fresh_text = js ''web cluster runs node 20.2 on every host''"

definition stale_row :: memory_row where
  "stale_row = (bare_row (js ''a'') Fact stale_text)\<lparr> r_superseded_by := Some (js ''b'') \<rparr>"
definition newer_row :: memory_row where
  "newer_row = bare_row (js ''b'') Fact fresh_text"

definition history_db :: db where
  "history_db = empty_db\<lparr> memories := [stale_row, newer_row] \<rparr>"

definition quiet_env :: upkeep_env where
  "quiet_env = \<lparr> ue_now = 0, ue_parse = (\<lambda>t. Some 0), ue_iso = (\<lambda>t. js ''2027''), ue_exp = (\<lambda>x. 1),
     ue_back = (\<lambda>n. js ''2027''), ue_lower = js_lower \<rparr>"

lemma text_tokens:
  "tokenize stale_text = map js [''web'', ''cluster'', ''runs'', ''node'', ''18'', ''14'', ''on'', ''every'', ''host'']"
  "tokenize fresh_text = map js [''web'', ''cluster'', ''runs'', ''node'', ''20'', ''on'', ''every'', ''host'']"
  by (code_simp, code_simp)

lemma text_overlap: "7 / 10 \<le> tokenOverlap fresh_text stale_text"
proof -
  have "unigramOverlap fresh_text stale_text = 7 / 10"
    unfolding unigramOverlap_def Let_def text_tokens by (simp add: overlap_ratio_def common_def js_def)
  then show ?thesis by (simp add: tokenOverlap_def)
qed

lemma text_lengths: "length stale_text = 41" "length fresh_text = 40"
  by (simp_all add: stale_text_def fresh_text_def js_def)

lemma history_fields:
  "r_id stale_row = js ''a''" "r_id newer_row = js ''b''" "r_content stale_row = stale_text" "r_content newer_row = fresh_text"
  "r_kind stale_row = Fact" "r_kind newer_row = Fact" "r_project stale_row = Some (js ''web'')" "r_project newer_row = Some (js ''web'')"
  "r_invalidated stale_row = 0" "r_invalidated newer_row = 0" "r_superseded_by stale_row = Some (js ''b'')" "r_superseded_by newer_row = None"
  "conf stale_row = 1 / 2" "conf newer_row = 1 / 2" "r_created_at stale_row = js ''2026''" "r_created_at newer_row = js ''2026''"
  "r_embedding stale_row = None" "r_embedding newer_row = None"
  by (simp_all add: stale_row_def newer_row_def bare_row_def sample_row_def conf_def num_val_def)

definition as_memory :: "memory_row \<Rightarrow> memory" where
  "as_memory r = memory_row.extend r (memory.fields (JArr []) JNull JNull)"

lemma history_maps: "rowToMemory h stale_row = Some (as_memory stale_row)" "rowToMemory h newer_row = Some (as_memory newer_row)"
  by (simp_all add: as_memory_def rowToMemory_bare stale_row_def newer_row_def bare_row_def sample_row_def)

lemma as_memory_fields:
  "r_id (as_memory r) = r_id r" "r_content (as_memory r) = r_content r" "r_project (as_memory r) = r_project r"
  "r_created_at (as_memory r) = r_created_at r" "conf (as_memory r) = conf r" "m_tags (as_memory r) = JArr []"
  by (simp_all add: as_memory_def memory_row.defs memory.defs conf_def)

lemma ids_differ: "js ''a'' \<noteq> js ''b''" by (simp add: js_def)

lemma history_rows:
  "consolidation_rows quiet_env Fact history_db = [stale_row, newer_row]"
  "consolidation_rows quiet_env Pitfall history_db = []" "consolidation_rows quiet_env Decision history_db = []"
proof -
  have old: "sql_less (js ''2026'') (js ''2027'')" by (simp add: sql_less_def js_def utf8_unit_def is_high_def is_low_def surrogate_def)
  show "consolidation_rows quiet_env Fact history_db = [stale_row, newer_row]"
    by (simp add: consolidation_rows_def history_db_def history_fields quiet_env_def old by_confidence_def MAX_PER_KIND_def)
qed (simp_all add: consolidation_rows_def history_db_def history_fields by_confidence_def)

lemma history_found: "findByIds h [js ''a'', js ''b''] history_db = Some [as_memory stale_row, as_memory newer_row]"
  by (simp add: findByIds_def history_db_def history_fields by_confidence_def history_maps)

lemma history_affinity:
  "\<exists>q>7 / 10. computeAffinity sample_host quiet_env (as_memory newer_row) (as_memory stale_row) None = Some q"
  using text_overlap
  by (simp add: computeAffinity_def as_memory_fields history_fields quiet_env_def sample_host_def Let_def)

lemma no_embeddings: "pair_similarity se history_db ids i j = None"
proof -
  have "r_embedding r = None" if "row_of history_db x = Some r" for x r
    using t_get_Some [OF that] by (auto simp: history_db_def history_fields)
  then show ?thesis by (auto simp: pair_similarity_def Let_def split: option.splits)
qed

abbreviation history_cluster :: cluster where
  "history_cluster \<equiv> \<lparr> cl_representative = as_memory stale_row, cl_members = [as_memory stale_row, as_memory newer_row] \<rparr>"

lemma history_clusters:
  "findConsolidationCandidates sample_host quiet_env [as_memory stale_row, as_memory newer_row] (AFFINITY_THRESHOLD sample_host)
     (pair_similarity se history_db ids) = [history_cluster]"
proof -
  obtain q where q: "7 / 10 < q" "computeAffinity sample_host quiet_env (as_memory newer_row) (as_memory stale_row) None = Some q"
    using history_affinity by blast
  have t: "AFFINITY_THRESHOLD sample_host = 7 / 10" by (simp add: AFFINITY_THRESHOLD_def sample_host_def)
  have "join_cluster (as_memory newer_row) \<lparr> cl_representative = as_memory stale_row, cl_members = [as_memory stale_row] \<rparr> = history_cluster"
    by (simp add: join_cluster_def as_memory_fields history_fields text_lengths Let_def)
  then show ?thesis using q
    by (simp add: findConsolidationCandidates_def place_memory_def no_embeddings t)
qed

lemma merge_memories:
  assumes "entity_map d = []" "ids \<noteq> []"
  shows "fst (applyClusterMerge h rep c t ids d)"
    and "memories (snd (applyClusterMerge h rep c t ids d)) =
      t_update (retired_row ids) (\<lambda>r. revision_trigger h (r\<lparr> r_invalidated := 1 \<rparr>))
        (t_update (has_id rep) (\<lambda>r. revision_trigger h (r\<lparr> r_confidence := Fin c, r_tags := Some t \<rparr>)) (memories d))"
proof -
  have e: "memories (fold (\<lambda>m. createEdge h m rep refines) ids x) = memories x" for x
    by (induction ids arbitrary: x) (simp_all add: createEdge_def)
  have b: "syncBoundIds (rep # ids) d = []" using assms(1) by (simp add: syncBoundIds_def)
  show "fst (applyClusterMerge h rep c t ids d)" using b by (simp add: applyClusterMerge_def Let_def)
  show "memories (snd (applyClusterMerge h rep c t ids d)) =
      t_update (retired_row ids) (\<lambda>r. revision_trigger h (r\<lparr> r_invalidated := 1 \<rparr>))
        (t_update (has_id rep) (\<lambda>r. revision_trigger h (r\<lparr> r_confidence := Fin c, r_tags := Some t \<rparr>)) (memories d))"
    using b assms(2) by (simp add: applyClusterMerge_def Let_def e journalUpsertForId_def journalUpsertsForIds_def retireIdsByInvalidation_def)
qed

lemma history_merged:
  obtains c t where "merge_cluster h history_cluster (n, history_db) =
    (Some (n + 1), snd (applyClusterMerge h (js ''a'') c t [js ''b''] history_db))"
proof -
  obtain tags where tags: "mergedTags history_cluster = Some tags" by (simp add: mergedTags_def as_memory_fields spread_def)
  let ?m = "applyClusterMerge h (js ''a'') (mergedConfidence h history_cluster) (stringify (nums h) (JArr tags)) [js ''b''] history_db"
  have "fst ?m" by (rule merge_memories) (simp_all add: history_db_def empty_db_def)
  then have m: "?m = (True, snd ?m)" by (cases ?m) simp
  have members: "map r_id (filter (\<lambda>m. r_id m \<noteq> r_id (as_memory stale_row)) [as_memory stale_row, as_memory newer_row]) = [js ''b'']"
    using ids_differ by (auto simp: as_memory_fields history_fields)
  have "merge_cluster h history_cluster (n, history_db) =
      (case ?m of (ok, d') \<Rightarrow> (Some (if ok then n + 1 else n), d'))"
    unfolding merge_cluster_def prod.case Let_def cluster.simps members tags option.case
    by (simp add: as_memory_fields history_fields split: prod.split)
  then have "merge_cluster h history_cluster (n, history_db) = (Some (n + 1), snd ?m)" by (subst (asm) m) simp
  then show thesis by (rule that)
qed

lemma history_consolidated:
  obtains c t where "runConsolidation sample_host se quiet_env history_db =
    (Some 1, pruneOldCoOccurrences sample_host (snd (applyClusterMerge sample_host (js ''a'') c t [js ''b''] history_db)))"
proof -
  obtain c t where m: "merge_cluster sample_host history_cluster (0, history_db) =
    (Some 1, snd (applyClusterMerge sample_host (js ''a'') c t [js ''b''] history_db))"
    using history_merged [where h = sample_host and n = 0] by auto
  have none: "consolidate_kind sample_host se quiet_env k (0, history_db) = (Some 0, history_db)" if "k \<in> {Pitfall, Decision}" for k
    using that history_rows(2,3) by (auto simp: consolidate_kind_def findByIds_def)
  let ?ms = "[as_memory stale_row, as_memory newer_row]"
  have found: "findByIds sample_host (map r_id (consolidation_rows quiet_env Fact history_db)) history_db = Some ?ms"
    by (simp add: history_rows history_fields history_found)
  have "map (\<lambda>p. filter (\<lambda>m. r_project m = p) ?ms) (dedup (map r_project ?ms)) = [?ms]"
    by (simp add: as_memory_fields history_fields)
  then have "consolidate_kind sample_host se quiet_env Fact (0, history_db) =
      sweep (consolidate_project sample_host se quiet_env) [?ms] (0, history_db)"
    unfolding consolidate_kind_def snd_conv found by simp
  also have "\<dots> = (Some 1, snd (applyClusterMerge sample_host (js ''a'') c t [js ''b''] history_db))"
    by (simp add: consolidate_project_def history_clusters m)
  finally show thesis using that none by (simp add: runConsolidation_def ELIGIBLE_KINDS_def)
qed

text \<open>C23. A background merge can leave a fact without any active statement: the candidate query skips
  invalidated rows but not superseded ones, so a superseded statement, kept as history, can be chosen as the
  representative of its own successor, which is then invalidated into a row that no view shows.  Here one
  run over a store with one active statement leaves none.\<close>

theorem consolidation_hides_active:
  "\<exists>h se ue d d'. db_keyed d \<and> filter active (memories d) = [newer_row] \<and> runConsolidation h se ue d = (Some 1, d') \<and>
     length (memories d') = 2 \<and> filter active (memories d') = []"
proof -
  obtain c t where run: "runConsolidation sample_host sample_search quiet_env history_db =
    (Some 1, pruneOldCoOccurrences sample_host (snd (applyClusterMerge sample_host (js ''a'') c t [js ''b''] history_db)))"
    (is "_ = (_, ?d')") by (rule history_consolidated)
  have "memories ?d' = t_update (retired_row [js ''b'']) (\<lambda>r. revision_trigger sample_host (r\<lparr> r_invalidated := 1 \<rparr>))
      (t_update (has_id (js ''a'')) (\<lambda>r. revision_trigger sample_host (r\<lparr> r_confidence := Fin c, r_tags := Some t \<rparr>)) [stale_row, newer_row])"
    using merge_memories(2) [of history_db "[js ''b'']" sample_host "js ''a''" c t]
    by (simp add: pruneOldCoOccurrences_def Let_def history_db_def empty_db_def)
  then have "length (memories ?d') = 2" "filter active (memories ?d') = []"
    using ids_differ by (simp_all add: t_update_def retired_row_def revision_trigger_def active_def history_fields)
  moreover have "filter active (memories history_db) = [newer_row]" "db_keyed history_db"
    using ids_differ by (simp_all add: history_db_def active_def history_fields db_keyed_def empty_db_def t_keyed_def)
  ultimately show ?thesis using run by blast
qed

section \<open>Instances\<close>

text \<open>The same store with the older statement bound to a shared entity.\<close>

definition bound_db :: db where
  "bound_db = history_db\<lparr> entity_map := [\<lparr> e_entity_id = js ''e1'', e_local_id = js ''a'', e_project = js ''web'',
     e_state = Bound, e_version = 1, e_canonical_hash = [], e_projection_hash = [], e_inert = None, e_contributors = None,
     e_updated_at = [] \<rparr>] \<rparr>"

lemma bound_db_facts:
  "memories bound_db = [stale_row, newer_row]" "t_keyed r_id (memories bound_db)" "isRowSyncBound (js ''a'') bound_db"
  "row_of bound_db (js ''a'') = Some stale_row"
  using ids_differ by (simp_all add: bound_db_def history_db_def t_keyed_def history_fields isRowSyncBound_def t_get_def)

definition busy :: "(upkeep_env \<times> upkeep) list" where
  "busy = [(quiet_env, Surfaced (js ''a'')), (quiet_env, Boost (js ''a'') (1 / 10)), (quiet_env, Maintain None True),
     (quiet_env, Autonomous_Weaken (js ''b''))]"


lemma upkeep_makes_nothing_up_witness:
  "t_keyed r_id (memories (fold (upkeep_step sample_host sample_search) busy bound_db))"
  using upkeep_makes_nothing_up [OF bound_db_facts(2) refl] by blast

text \<open>Thirty days after a row was written, of which seven are grace.\<close>

definition later_env :: upkeep_env where
  "later_env = \<lparr> ue_now = 30 * MS_PER_DAY, ue_parse = (\<lambda>t. Some (if t = js ''2027'' then 30 * MS_PER_DAY else 0)),
     ue_iso = (\<lambda>t. js ''2027''), ue_exp = (\<lambda>x. 1 / 2), ue_back = (\<lambda>n. js ''2025''), ue_lower = js_lower \<rparr>"

lemma age_charged_once_witness:
  "\<exists>r' cs. row_of (decay_history sample_host [later_env] bound_db) (js ''a'') = Some r' \<and>
     fold (decay_by sample_host stale_row) cs (1 / 2) = conf r' \<and> sum_list (map snd cs) = 23"
proof -
  let ?d = "snd (applyConfidenceDecay sample_host later_env bound_db)"
  have h: "decay_history sample_host [later_env] bound_db = ?d" by (simp add: decay_history_def)
  have years: "js ''2026'' \<noteq> js ''2027''" by (simp add: js_def)
  have plain: "r_last_recalled stale_row = None" "r_last_decayed stale_row = None"
    by (simp_all add: stale_row_def bare_row_def sample_row_def)
  obtain r' where "r' \<in> set (memories ?d)" "spared stale_row r'"
    using bound.decay [where d = bound_db and h = sample_host and ue = later_env] bound_db_facts(1,3)
    by (auto simp: keeps_bound_def history_fields)
  moreover have "t_keyed r_id (memories ?d)"
    using made.decay [where d = bound_db and h = sample_host and ue = later_env] bound_db_facts(2) by (simp add: makes_nothing_up_def)
  ultimately have r': "row_of ?d (js ''a'') = Some r'"
    using t_get_keyed [of r_id "memories ?d" r'] spared_id [of stale_row r'] by (simp add: history_fields)
  with sweep_row [OF bound_db_facts(2) r'] bound_db_facts(4) have sw: "r' = swept sample_host later_env stale_row" by auto
  have refs: "decay_reference later_env stale_row = Some 0" "decay_start later_env stale_row = Some 0"
    using years by (simp_all add: decay_reference_def decay_start_def plain history_fields later_env_def)
  have "decay_delta later_env stale_row = Some 23"
    by (simp add: decay_delta_def refs) (simp add: effectiveAgeDays_def later_env_def MS_PER_DAY_def GRACE_PERIOD_DAYS_def)
  moreover have "decay_eligible sample_host stale_row"
    by (simp add: decay_eligible_def history_fields NON_DECAYING_KINDS_def CONFIDENCE_def sample_host_def)
  ultimately have "r_last_decayed r' = Some (js ''2027'')" "r_last_recalled r' = None" "r_created_at r' = js ''2026''"
    by (simp_all add: sw swept_def charge_def MIN_CHARGE_DAYS_def revision_trigger_def plain history_fields later_env_def)
  then have now: "charged_age later_env r' = Some 23" using years
    by (simp add: charged_age_def decay_reference_def decay_start_def later_env_def effectiveAgeDays_def MS_PER_DAY_def GRACE_PERIOD_DAYS_def js_def)
  have start: "charged_age later_env stale_row = Some 0"
    by (simp add: charged_age_def refs effectiveAgeDays_def GRACE_PERIOD_DAYS_def)
  have clock: "clock_ok (ue_parse later_env) later_env" by (simp add: clock_ok_def later_env_def js_def)
  show ?thesis
    using age_charged_once [OF bound_db_facts(2,4), where h = sample_host and ues = "[later_env]" and r' = r' and ?ue0.0 = later_env
        and parse = "ue_parse later_env" and a = 0] r' now start clock history_fields(13) by (auto simp: h)
qed

end
