(* ===== verification/Plans.thy ===== *)
theory Plans
  imports Lifecycle
begin

text \<open>
  Project plans: \<open>src/db/plan-repository.ts\<close> with the plan sweeps of \<open>src/db/maintenance-cleanup.ts\<close> and the
  input checks of \<open>src/utils/validation.ts\<close> it uses.

  \<^item> The three tables are lists in rowid order; \<open>pd_uuids\<close> counts the identifiers handed out.
  \<^item> Every operation answers beside the database it leaves, also when it throws: several statements run
    outside any transaction, and what they wrote stays.
  \<^item> \<open>t\<close> is the reading of \<open>now()\<close>.  Foreign keys are on: steps and decisions need their plan and are
    deleted with it.
\<close>

section \<open>Vocabulary and rows\<close>

datatype plan_status = Plan_Active | Plan_Completed | Plan_Abandoned
datatype step_status = Done | In_Progress | Pending | Blocked

record plan_row =
  pl_id :: jstr
  pl_project :: jstr
  pl_name :: jstr
  pl_status :: plan_status
  pl_created :: jstr
  pl_updated :: jstr

record step_row =
  sp_plan :: jstr
  sp_step :: int
  sp_description :: jstr
  sp_status :: step_status
  sp_depends :: "jstr option"
  sp_outcome :: "jstr option"
  sp_blockers :: "jstr option"
  sp_notes :: "jstr option"

record decision_row =
  dc_id :: jstr
  dc_plan :: jstr
  dc_step :: "int option"
  dc_chose :: jstr
  dc_why :: jstr
  dc_alternatives :: "jstr option"
  dc_permanent :: int
  dc_at :: jstr

record plan_db =
  pd_plans :: "plan_row list"
  pd_steps :: "step_row list"
  pd_decisions :: "decision_row list"
  pd_uuids :: nat

text \<open>The parsed forms.\<close>

record plan_item =
  ps_row :: step_row
  ps_depends :: json
  ps_notes :: json

record plan_decision =
  pdn_id :: jstr
  pdn_plan :: jstr
  pdn_step :: "int option"
  pdn_chose :: jstr
  pdn_why :: jstr
  pdn_alternatives :: json
  pdn_permanent :: bool
  pdn_at :: jstr

record plan =
  pn_row :: plan_row
  pn_steps :: "plan_item list"
  pn_decisions :: "plan_decision list"

datatype plan_warning =
    Too_Many_Steps nat | Incomplete_Dependencies int "json list" | Already_Claimed int
  | Nothing_To_Update | No_Such_Step | Note_Empty | Note_Too_Long nat

datatype plan_error = Empty_Plan | Bad_Column | Plan_Constraint

type_synonym 'a plan_result = "(plan_error + 'a) \<times> plan_db"

section \<open>Input checks\<close>

definition MAX_PLANS_PER_PROJECT :: nat where "MAX_PLANS_PER_PROJECT = 50"
definition MAX_STEPS_PER_PLAN :: nat where "MAX_STEPS_PER_PLAN = 15"
definition NOTE_MAX_CHARS :: nat where "NOTE_MAX_CHARS = 300"

text \<open>The warnings and, with no step at all, the error.\<close>

definition validateStepCount :: "nat \<Rightarrow> plan_warning list \<times> plan_error list" where
  "validateStepCount n = ((if MAX_STEPS_PER_PLAN < n then [Too_Many_Steps n] else []), (if n = 0 then [Empty_Plan] else []))"

definition validateNoteContent :: "jstr \<Rightarrow> plan_warning list" where
  "validateNoteContent note = (if trim note = [] then [Note_Empty] else []) @
     (if NOTE_MAX_CHARS < length note then [Note_Too_Long (length note)] else [])"

section \<open>Statements\<close>

definition update_plans :: "(plan_row \<Rightarrow> bool) \<Rightarrow> (plan_row \<Rightarrow> plan_row) \<Rightarrow> plan_db \<Rightarrow> plan_db" where
  "update_plans P f d = d\<lparr> pd_plans := t_update P f (pd_plans d) \<rparr>"

definition update_steps :: "(step_row \<Rightarrow> bool) \<Rightarrow> (step_row \<Rightarrow> step_row) \<Rightarrow> plan_db \<Rightarrow> plan_db" where
  "update_steps P f d = d\<lparr> pd_steps := t_update P f (pd_steps d) \<rparr>"

definition insert_plan :: "plan_row \<Rightarrow> plan_db \<Rightarrow> plan_db option" where
  "insert_plan p d = (if pl_id p \<in> pl_id ` set (pd_plans d) then None else Some (d\<lparr> pd_plans := pd_plans d @ [p] \<rparr>))"

definition step_key :: "step_row \<Rightarrow> jstr \<times> int" where
  "step_key s = (sp_plan s, sp_step s)"

definition insert_step :: "step_row \<Rightarrow> plan_db \<Rightarrow> plan_db option" where
  "insert_step s d = (if step_key s \<in> step_key ` set (pd_steps d) \<or> sp_plan s \<notin> pl_id ` set (pd_plans d) then None
     else Some (d\<lparr> pd_steps := pd_steps d @ [s] \<rparr>))"

definition insert_decision :: "decision_row \<Rightarrow> plan_db \<Rightarrow> plan_db option" where
  "insert_decision c d = (if dc_id c \<in> dc_id ` set (pd_decisions d) \<or> dc_plan c \<notin> pl_id ` set (pd_plans d) then None
     else Some (d\<lparr> pd_decisions := pd_decisions d @ [c] \<rparr>))"

text \<open>With the cascade.\<close>

definition delete_plans :: "(plan_row \<Rightarrow> bool) \<Rightarrow> plan_db \<Rightarrow> plan_db" where
  "delete_plans P d = (let gone = map pl_id (filter P (pd_plans d)) in
     d\<lparr> pd_plans := filter (\<lambda>p. \<not> P p) (pd_plans d), pd_steps := filter (\<lambda>s. sp_plan s \<notin> set gone) (pd_steps d),
        pd_decisions := filter (\<lambda>c. dc_plan c \<notin> set gone) (pd_decisions d) \<rparr>)"

definition new_id :: "host \<Rightarrow> plan_db \<Rightarrow> jstr \<times> plan_db" where
  "new_id h d = (uuid h (pd_uuids d), d\<lparr> pd_uuids := Suc (pd_uuids d) \<rparr>)"

section \<open>Reading\<close>

definition rowToStep :: "host \<Rightarrow> step_row \<Rightarrow> plan_item option" where
  "rowToStep h r = (case (parse_column h (JArr []) (sp_depends r), parse_column h (JArr []) (sp_notes r)) of
      (Some ds, Some ns) \<Rightarrow> Some \<lparr> ps_row = r, ps_depends = ds, ps_notes = ns \<rparr>
    | _ \<Rightarrow> None)"

definition rowToDecision :: "host \<Rightarrow> decision_row \<Rightarrow> plan_decision option" where
  "rowToDecision h r = map_option (\<lambda>as. \<lparr> pdn_id = dc_id r, pdn_plan = dc_plan r, pdn_step = dc_step r, pdn_chose = dc_chose r,
     pdn_why = dc_why r, pdn_alternatives = as, pdn_permanent = (dc_permanent r = 1), pdn_at = dc_at r \<rparr>)
     (parse_column h (JArr []) (dc_alternatives r))"

fun parse_rows :: "('a \<Rightarrow> 'b option) \<Rightarrow> 'a list \<Rightarrow> 'b list option" where
  "parse_rows f [] = Some []"
| "parse_rows f (x # xs) = (case f x of None \<Rightarrow> None | Some y \<Rightarrow> map_option ((#) y) (parse_rows f xs))"

definition getStep :: "host \<Rightarrow> jstr \<Rightarrow> int \<Rightarrow> plan_db \<Rightarrow> plan_item option option" where
  "getStep h p i d = (case find (\<lambda>s. step_key s = (p, i)) (pd_steps d) of
      None \<Rightarrow> Some None | Some r \<Rightarrow> map_option Some (rowToStep h r))"

definition steps_of :: "jstr \<Rightarrow> plan_db \<Rightarrow> step_row list" where
  "steps_of p d = sort_key sp_step (filter (\<lambda>s. sp_plan s = p) (pd_steps d))"

definition getSteps :: "host \<Rightarrow> jstr \<Rightarrow> plan_db \<Rightarrow> plan_item list option" where
  "getSteps h p d = parse_rows (rowToStep h) (steps_of p d)"

definition getDecisions :: "host \<Rightarrow> jstr \<Rightarrow> plan_db \<Rightarrow> plan_decision list option" where
  "getDecisions h p d = parse_rows (rowToDecision h)
     (sort_key (\<lambda>c. utf8_encode (dc_at c)) (filter (\<lambda>c. dc_plan c = p) (pd_decisions d)))"

definition buildPlan :: "host \<Rightarrow> plan_db \<Rightarrow> plan_row \<Rightarrow> plan option" where
  "buildPlan h d r = (case (getSteps h (pl_id r) d, getDecisions h (pl_id r) d) of
      (Some ss, Some cs) \<Rightarrow> Some \<lparr> pn_row = r, pn_steps = ss, pn_decisions = cs \<rparr>
    | _ \<Rightarrow> None)"

text \<open>The outer \<open>None\<close> is a thrown \<open>SyntaxError\<close> of a column, the inner one \<open>null\<close>.\<close>

definition getById :: "host \<Rightarrow> jstr \<Rightarrow> plan_db \<Rightarrow> plan option option" where
  "getById h i d = (case find (\<lambda>p. pl_id p = i) (pd_plans d) of
      None \<Rightarrow> Some None | Some r \<Rightarrow> map_option Some (buildPlan h d r))"

text \<open>\<open>ORDER BY updated_at DESC LIMIT 1\<close>\<close>

fun latest :: "plan_row list \<Rightarrow> plan_row option" where
  "latest [] = None"
| "latest (r # rs) = (case latest rs of None \<Rightarrow> Some r
     | Some q \<Rightarrow> if sql_less (pl_updated r) (pl_updated q) then Some q else Some r)"

definition active_in :: "jstr \<Rightarrow> plan_row \<Rightarrow> bool" where
  "active_in project r \<longleftrightarrow> pl_project r = project \<and> pl_status r = Plan_Active"

definition plan_getActive :: "host \<Rightarrow> jstr \<Rightarrow> plan_db \<Rightarrow> plan option option" where
  "plan_getActive h project d = (case latest (filter (active_in project) (pd_plans d)) of
      None \<Rightarrow> Some None | Some r \<Rightarrow> map_option Some (buildPlan h d r))"

datatype plan_filter = Full | Active_Steps | Current | Decisions_Only

definition filter_plan :: "plan_filter \<Rightarrow> plan \<Rightarrow> plan" where
  "filter_plan f p = (case f of
      Full \<Rightarrow> p
    | Active_Steps \<Rightarrow> p\<lparr> pn_steps := filter (\<lambda>s. sp_status (ps_row s) \<noteq> Done) (pn_steps p) \<rparr>
    | Current \<Rightarrow> p\<lparr> pn_steps :=
          (case find (\<lambda>s. sp_status (ps_row s) = In_Progress) (pn_steps p) of None \<Rightarrow> [] | Some s \<Rightarrow> [s]) @
          (case find (\<lambda>s. sp_status (ps_row s) = Pending) (pn_steps p) of None \<Rightarrow> [] | Some s \<Rightarrow> [s]),
        pn_decisions := drop (length (pn_decisions p) - 3) (pn_decisions p) \<rparr>
    | Decisions_Only \<Rightarrow> p\<lparr> pn_steps := [] \<rparr>)"

definition getFiltered :: "host \<Rightarrow> jstr \<Rightarrow> plan_filter \<Rightarrow> plan_db \<Rightarrow> plan option option" where
  "getFiltered h project f d = map_option (map_option (filter_plan f)) (plan_getActive h project d)"

text \<open>Active plans first, then the latest update first; the descending order is stable.\<close>

definition listByProject :: "host \<Rightarrow> jstr \<Rightarrow> plan_db \<Rightarrow> plan list option" where
  "listByProject h project d = parse_rows (buildPlan h d) (take MAX_PLANS_PER_PROJECT
     (sort_key (\<lambda>r. if pl_status r = Plan_Active then 0 else 1 :: nat)
       (rev (sort_key (\<lambda>r. utf8_encode (pl_updated r)) (rev (filter (\<lambda>r. pl_project r = project) (pd_plans d)))))))"

section \<open>Writing\<close>

definition touchPlan :: "jstr \<Rightarrow> jstr \<Rightarrow> plan_db \<Rightarrow> plan_db" where
  "touchPlan t i d = update_plans (\<lambda>p. pl_id p = i) (\<lambda>p. p\<lparr> pl_updated := t \<rparr>) d"

definition archiveActive :: "jstr \<Rightarrow> jstr \<Rightarrow> plan_db \<Rightarrow> plan_db" where
  "archiveActive t project d = update_plans (active_in project) (\<lambda>p. p\<lparr> pl_status := Plan_Abandoned, pl_updated := t \<rparr>) d"

record new_plan =
  np_project :: jstr
  np_name :: jstr
  np_steps :: "(jstr \<times> number list option) list"

definition depends_column :: "host \<Rightarrow> number list option \<Rightarrow> jstr option" where
  "depends_column h ds = map_option (\<lambda>ns. stringify (nums h) (JArr (map JNum ns))) ds"

definition new_step :: "host \<Rightarrow> jstr \<Rightarrow> int \<Rightarrow> jstr \<Rightarrow> number list option \<Rightarrow> step_row" where
  "new_step h p i description ds = \<lparr> sp_plan = p, sp_step = i, sp_description = sanitize description, sp_status = Pending,
     sp_depends = depends_column h ds, sp_outcome = None, sp_blockers = None, sp_notes = None \<rparr>"

fun insert_steps :: "host \<Rightarrow> jstr \<Rightarrow> int \<Rightarrow> (jstr \<times> number list option) list \<Rightarrow> plan_db \<Rightarrow> plan_db option" where
  "insert_steps h p i [] d = Some d"
| "insert_steps h p i ((description, ds) # rest) d = (case insert_step (new_step h p i description ds) d of
      None \<Rightarrow> None | Some d' \<Rightarrow> insert_steps h p (i + 1) rest d')"

text \<open>The transaction of \<open>create\<close>, and the read after it.\<close>

definition create_insert :: "host \<Rightarrow> jstr \<Rightarrow> new_plan \<Rightarrow> plan_db \<Rightarrow> (plan \<times> plan_warning list) plan_result" where
  "create_insert h t np d =
    (let (i, d1) = new_id h d;
         row = \<lparr> pl_id = i, pl_project = np_project np, pl_name = sanitize (np_name np), pl_status = Plan_Active,
           pl_created = t, pl_updated = t \<rparr>
     in (case Option.bind (insert_plan row d1) (insert_steps h i 1 (np_steps np)) of
          None \<Rightarrow> (Inl Plan_Constraint, d1)
        | Some d2 \<Rightarrow> (case getById h i d2 of
              Some (Some p) \<Rightarrow> (Inr (p, fst (validateStepCount (length (np_steps np)))), d2)
            | _ \<Rightarrow> (Inl Bad_Column, d2))))"

definition create_plan :: "host \<Rightarrow> jstr \<Rightarrow> jstr \<Rightarrow> new_plan \<Rightarrow> plan_db \<Rightarrow> (plan \<times> plan_warning list) plan_result" where
  "create_plan h t t' np d =
    (if snd (validateStepCount (length (np_steps np))) \<noteq> [] then (Inl Empty_Plan, d)
     else create_insert h t' np (archiveActive t (np_project np) d))"

record step_update =
  su_step :: int
  su_status :: "step_status option"
  su_outcome :: "jstr option"
  su_blockers :: "jstr option"

text \<open>\<open>depends_on.filter(...)\<close> on the parsed column; \<open>None\<close> is a thrown \<open>TypeError\<close>.\<close>

definition depends_list :: "json \<Rightarrow> json list option" where
  "depends_list v = (case v of JArr xs \<Rightarrow> Some xs | JNull \<Rightarrow> None | JStr s \<Rightarrow> if s = [] then Some [] else None | _ \<Rightarrow> Some [])"

definition unmet :: "plan_item list \<Rightarrow> json \<Rightarrow> bool" where
  "unmet steps dep \<longleftrightarrow> (case find (\<lambda>s. JNum (Fin (of_int (sp_step (ps_row s)))) = dep) steps of
      None \<Rightarrow> False | Some s \<Rightarrow> sp_status (ps_row s) \<noteq> Done)"

definition dependency_warnings :: "host \<Rightarrow> jstr \<Rightarrow> step_update \<Rightarrow> plan_db \<Rightarrow> plan_warning list option" where
  "dependency_warnings h p u d =
    (if su_status u \<noteq> Some In_Progress then Some []
     else (case getStep h p (su_step u) d of
         None \<Rightarrow> None
       | Some None \<Rightarrow> Some []
       | Some (Some s) \<Rightarrow> (case depends_list (ps_depends s) of
             None \<Rightarrow> None
           | Some [] \<Rightarrow> Some []
           | Some ds \<Rightarrow> (case getSteps h p d of
                 None \<Rightarrow> None
               | Some steps \<Rightarrow> (case filter (unmet steps) ds of
                     [] \<Rightarrow> Some []
                   | us \<Rightarrow> Some [Incomplete_Dependencies (su_step u) us])))))"

text \<open>The columns that are set, and the rows the guarded statement selects.\<close>

definition set_step :: "step_update \<Rightarrow> step_row \<Rightarrow> step_row" where
  "set_step u s = s\<lparr> sp_status := (case su_status u of None \<Rightarrow> sp_status s | Some q \<Rightarrow> q),
     sp_outcome := (case su_outcome u of None \<Rightarrow> sp_outcome s | Some x \<Rightarrow> Some (sanitize x)),
     sp_blockers := (case su_blockers u of None \<Rightarrow> sp_blockers s | Some x \<Rightarrow> Some (sanitize x)) \<rparr>"

definition selects_step :: "jstr \<Rightarrow> step_update \<Rightarrow> step_row \<Rightarrow> bool" where
  "selects_step p u s \<longleftrightarrow> step_key s = (p, su_step u) \<and> (su_status u = Some In_Progress \<longrightarrow> sp_status s = Pending)"

definition updateStep :: "host \<Rightarrow> jstr \<Rightarrow> jstr \<Rightarrow> step_update \<Rightarrow> plan_db \<Rightarrow> (bool \<times> plan_warning list) plan_result" where
  "updateStep h t p u d =
    (case dependency_warnings h p u d of
       None \<Rightarrow> (Inl Bad_Column, d)
     | Some ws \<Rightarrow>
         if su_status u = None \<and> su_outcome u = None \<and> su_blockers u = None then (Inr (False, [Nothing_To_Update]), d)
         else if t_count (selects_step p u) (pd_steps d) = 0 then
           (Inr (False, if su_status u = Some In_Progress then ws @ [Already_Claimed (su_step u)] else [No_Such_Step]), d)
         else (Inr (True, ws), touchPlan t p (update_steps (selects_step p u) (set_step u) d)))"

record decision_input =
  di_step :: "int option"
  di_chose :: jstr
  di_why :: jstr
  di_alternatives :: "jstr list option"
  di_permanent :: bool

definition decision_row_of :: "host \<Rightarrow> jstr \<Rightarrow> jstr \<Rightarrow> jstr \<Rightarrow> decision_input \<Rightarrow> decision_row" where
  "decision_row_of h t i p c = \<lparr> dc_id = i, dc_plan = p, dc_step = di_step c, dc_chose = sanitize (di_chose c),
     dc_why = sanitize (di_why c),
     dc_alternatives = map_option (\<lambda>as. stringify (nums h) (JArr (map (\<lambda>a. JStr (sanitize a)) as))) (di_alternatives c),
     dc_permanent = (if di_permanent c then 1 else 0), dc_at = t \<rparr>"

text \<open>The decision that is returned has the texts as they were given.\<close>

definition addDecision :: "host \<Rightarrow> jstr \<Rightarrow> jstr \<Rightarrow> decision_input \<Rightarrow> plan_db \<Rightarrow> plan_decision plan_result" where
  "addDecision h t p c d =
    (let (i, d1) = new_id h d in
     case insert_decision (decision_row_of h t i p c) d1 of
       None \<Rightarrow> (Inl Plan_Constraint, d1)
     | Some d2 \<Rightarrow> (Inr \<lparr> pdn_id = i, pdn_plan = p, pdn_step = di_step c, pdn_chose = di_chose c, pdn_why = di_why c,
           pdn_alternatives = JArr (map JStr (case di_alternatives c of None \<Rightarrow> [] | Some as \<Rightarrow> as)),
           pdn_permanent = di_permanent c, pdn_at = t \<rparr>, touchPlan t p d2))"

definition addNote :: "host \<Rightarrow> jstr \<Rightarrow> jstr \<Rightarrow> int \<Rightarrow> jstr \<Rightarrow> bool \<Rightarrow> plan_db \<Rightarrow> (bool \<times> plan_warning list) plan_result" where
  "addNote h t p i note replace d =
    (if validateNoteContent note \<noteq> [] then (Inr (False, validateNoteContent note), d)
     else (case getStep h p i d of
         None \<Rightarrow> (Inl Bad_Column, d)
       | Some None \<Rightarrow> (Inr (False, [No_Such_Step]), d)
       | Some (Some s) \<Rightarrow>
           (case (if replace then Some [] else spread (ps_notes s)) of
              None \<Rightarrow> (Inl Bad_Column, d)
            | Some before \<Rightarrow>
                (let notes = before @ [JObj [(js ''note'', JStr (sanitize note)), (js ''at'', JStr t)]] in
                 (Inr (True, []), touchPlan t p (update_steps (\<lambda>s. step_key s = (p, i))
                    (\<lambda>s. s\<lparr> sp_notes := Some (stringify (nums h) (JArr notes)) \<rparr>) d))))))"

text \<open>The answer has the description as it was given.\<close>

definition addStep :: "host \<Rightarrow> jstr \<Rightarrow> jstr \<Rightarrow> jstr \<Rightarrow> number list option \<Rightarrow> plan_db \<Rightarrow> (plan_item \<times> plan_warning list) plan_result" where
  "addStep h t p description ds d =
    (case getSteps h p d of
       None \<Rightarrow> (Inl Bad_Column, d)
     | Some steps \<Rightarrow>
         (let n = Suc (length steps); row = new_step h p (int n) description ds in
          case insert_step row d of
            None \<Rightarrow> (Inl Plan_Constraint, d)
          | Some d1 \<Rightarrow>
              (Inr (\<lparr> ps_row = row\<lparr> sp_description := description \<rparr>,
                 ps_depends = JArr (map JNum (case ds of None \<Rightarrow> [] | Some ns \<Rightarrow> ns)), ps_notes = JArr [] \<rparr>,
               fst (validateStepCount n)), touchPlan t p d1)))"

definition set_plan_status :: "jstr \<Rightarrow> plan_status \<Rightarrow> jstr \<Rightarrow> plan_db \<Rightarrow> plan_db" where
  "set_plan_status t q p d = update_plans (\<lambda>r. pl_id r = p) (\<lambda>r. r\<lparr> pl_status := q, pl_updated := t \<rparr>) d"

definition complete_plan :: "host \<Rightarrow> jstr \<Rightarrow> jstr \<Rightarrow> plan_db \<Rightarrow> (plan_decision list) plan_result" where
  "complete_plan h t p d = (let d1 = set_plan_status t Plan_Completed p d in
     (case getDecisions h p d1 of None \<Rightarrow> (Inl Bad_Column, d1) | Some cs \<Rightarrow> (Inr (filter pdn_permanent cs), d1)))"

definition abandon :: "jstr \<Rightarrow> jstr \<Rightarrow> plan_db \<Rightarrow> plan_db" where
  "abandon t p d = set_plan_status t Plan_Abandoned p d"

definition blockInProgressSteps :: "host \<Rightarrow> jstr \<Rightarrow> jstr \<Rightarrow> jstr \<Rightarrow> plan_db \<Rightarrow> nat plan_result" where
  "blockInProgressSteps h t project reason d =
    (case plan_getActive h project d of
       None \<Rightarrow> (Inl Bad_Column, d)
     | Some None \<Rightarrow> (Inr 0, d)
     | Some (Some p) \<Rightarrow>
         (let i = pl_id (pn_row p); P = (\<lambda>s. sp_plan s = i \<and> sp_status s = In_Progress); n = t_count P (pd_steps d);
              d1 = update_steps P (\<lambda>s. s\<lparr> sp_status := Blocked, sp_blockers := Some (sanitize reason) \<rparr>) d
          in (Inr n, if 0 < n then touchPlan t i d1 else d1)))"

section \<open>Sweeps\<close>

text \<open>The cutoffs are the ISO texts the code computes from its clock.\<close>

definition untouched :: "jstr \<Rightarrow> plan_db \<Rightarrow> plan_row \<Rightarrow> bool" where
  "untouched cutoff d r \<longleftrightarrow> pl_status r = Plan_Active \<and> sql_less (pl_updated r) cutoff \<and>
     \<not> list_ex (\<lambda>s. sp_plan s = pl_id r \<and> sp_status s \<noteq> Pending) (pd_steps d)"

definition archiveUntouchedPlans :: "jstr \<Rightarrow> jstr \<Rightarrow> plan_db \<Rightarrow> nat \<times> plan_db" where
  "archiveUntouchedPlans t cutoff d = (let stale = map pl_id (filter (untouched cutoff d) (pd_plans d)) in
     (length stale, fold (set_plan_status t Plan_Abandoned) stale d))"

definition cleanupArchivedPlans :: "jstr \<Rightarrow> plan_db \<Rightarrow> nat \<times> plan_db" where
  "cleanupArchivedPlans cutoff d = (let P = (\<lambda>r. pl_status r \<in> {Plan_Completed, Plan_Abandoned} \<and> sql_less (pl_updated r) cutoff) in
     (t_count P (pd_plans d), delete_plans P d))"

end
