(* ===== verification/Plan_Properties.thy ===== *)
theory Plan_Properties
  imports Plans
begin

text \<open>
  The properties of plans over arbitrary histories of operations and sweeps: numbered steps and one active
  plan per project, exclusive claims, what a created plan reads as, and the interleaving of two creations.
\<close>

section \<open>Histories\<close>

datatype plan_op =
    Create new_plan
  | Create_Insert new_plan
  | Archive_Active jstr
  | Update_Step jstr step_update
  | Add_Decision jstr decision_input
  | Add_Note jstr int jstr bool
  | Add_Step jstr jstr "number list option"
  | Complete_Plan jstr
  | Abandon_Plan jstr
  | Block_In_Progress jstr jstr
  | Archive_Untouched jstr
  | Cleanup_Archived jstr

text \<open>\<open>Create\<close> is a whole call; its two halves also stand alone, for processes that interleave.\<close>

fun plan_run :: "host \<Rightarrow> jstr \<times> plan_op \<Rightarrow> plan_db \<Rightarrow> plan_db" where
  "plan_run h (t, Create np) d = snd (create_plan h t t np d)"
| "plan_run h (t, Create_Insert np) d = snd (create_insert h t np d)"
| "plan_run h (t, Archive_Active q) d = archiveActive t q d"
| "plan_run h (t, Update_Step p u) d = snd (updateStep h t p u d)"
| "plan_run h (t, Add_Decision p c) d = snd (addDecision h t p c d)"
| "plan_run h (t, Add_Note p i n r) d = snd (addNote h t p i n r d)"
| "plan_run h (t, Add_Step p x ds) d = snd (addStep h t p x ds d)"
| "plan_run h (t, Complete_Plan p) d = snd (complete_plan h t p d)"
| "plan_run h (t, Abandon_Plan p) d = abandon t p d"
| "plan_run h (t, Block_In_Progress q r) d = snd (blockInProgressSteps h t q r d)"
| "plan_run h (t, Archive_Untouched c) d = snd (archiveUntouchedPlans t c d)"
| "plan_run h (t, Cleanup_Archived c) d = snd (cleanupArchivedPlans c d)"

definition empty_plans :: plan_db where
  "empty_plans = \<lparr> pd_plans = [], pd_steps = [], pd_decisions = [], pd_uuids = 0 \<rparr>"

section \<open>Statements\<close>

lemma plan_frames [simp]:
  "pd_steps (update_plans P f d) = pd_steps d" "pd_uuids (update_plans P f d) = pd_uuids d"
  "pd_plans (update_steps Q g d) = pd_plans d" "pd_uuids (update_steps Q g d) = pd_uuids d"
  "pd_decisions (update_plans P f d) = pd_decisions d" "pd_decisions (update_steps Q g d) = pd_decisions d"
  "pd_plans (update_plans P f d) = t_update P f (pd_plans d)" "pd_steps (update_steps Q g d) = t_update Q g (pd_steps d)"
  by (simp_all add: update_plans_def update_steps_def)

text \<open>The contract between the statements and facts about operations: an interface with one law per kind of
  statement.\<close>

locale plan_invariant =
  fixes I :: "host \<Rightarrow> plan_db \<Rightarrow> bool" and keeps :: "step_row \<Rightarrow> (step_row \<Rightarrow> step_row) \<Rightarrow> bool" and inserts :: "new_plan \<Rightarrow> bool"
  assumes touch: "I h d \<Longrightarrow> I h (touchPlan t p d)"
    and retire: "I h d \<Longrightarrow> I h (archiveActive t q d)"
    and finish: "I h d \<Longrightarrow> s \<noteq> Plan_Active \<Longrightarrow> I h (set_plan_status t s p d)"
    and steps: "I h d \<Longrightarrow> (\<And>r. step_key (f r) = step_key r) \<Longrightarrow> (\<And>r. P r \<Longrightarrow> keeps r f) \<Longrightarrow> I h (update_steps P f d)"
    and create: "I h d \<Longrightarrow> I h (snd (create_insert h t np (archiveActive t (np_project np) d)))"
    and create_half: "I h d \<Longrightarrow> inserts np \<Longrightarrow> I h (snd (create_insert h t np d))"
    and decision: "I h d \<Longrightarrow> I h (snd (new_id h d))" "I h d \<Longrightarrow> insert_decision c d = Some d' \<Longrightarrow> I h d'"
    and step: "I h d \<Longrightarrow> insert_step (new_step h p (int (Suc (length (steps_of p d)))) x ds) d = Some d' \<Longrightarrow> I h d'"
    and delete: "I h d \<Longrightarrow> I h (delete_plans Q d)"
    and noted: "keeps r (\<lambda>s. s\<lparr> sp_notes := n \<rparr>)"
    and stalled: "keeps r (\<lambda>s. s\<lparr> sp_status := Blocked, sp_blockers := b \<rparr>)"
begin

lemma update: "I h d \<Longrightarrow> (\<And>r. selects_step p u r \<Longrightarrow> keeps r (set_step u)) \<Longrightarrow> I h (snd (updateStep h t p u d))"
  by (auto simp: updateStep_def step_key_def set_step_def intro!: touch steps split: option.splits)

lemma noting: "I h d \<Longrightarrow> I h (snd (addNote h t p i n r d))"
  by (auto simp: addNote_def Let_def step_key_def noted intro!: touch steps split: option.splits)

lemma block: "I h d \<Longrightarrow> I h (snd (blockInProgressSteps h t q r d))"
  by (auto simp: blockInProgressSteps_def Let_def step_key_def stalled intro!: touch steps split: option.splits)

lemma decide: "I h d \<Longrightarrow> I h (snd (addDecision h t p c d))"
proof -
  assume i: "I h d"
  obtain k d1 where n: "new_id h d = (k, d1)" by fastforce
  have i1: "I h d1" using decision(1) [OF i] by (simp add: n)
  have "I h (touchPlan t p d2)" if "insert_decision (decision_row_of h t k p c) d1 = Some d2" for d2
    by (rule touch [OF decision(2) [OF i1 that]])
  then show ?thesis using i1 by (simp add: addDecision_def n split: option.split)
qed

lemma parse_rows_length: "parse_rows f xs = Some ys \<Longrightarrow> length ys = length xs"
  by (induction xs arbitrary: ys) (auto split: option.splits)

lemma extend: "I h d \<Longrightarrow> I h (snd (addStep h t p x ds d))"
proof -
  assume i: "I h d"
  have "I h (touchPlan t p d')" if "getSteps h p d = Some ss" "insert_step (new_step h p (int (Suc (length ss))) x ds) d = Some d'" for ss d'
  proof -
    from that(1) have "length ss = length (steps_of p d)" unfolding getSteps_def by (rule parse_rows_length)
    with that(2) show ?thesis by (intro touch step [OF i]) auto
  qed
  then show ?thesis using i by (auto simp: addStep_def Let_def split: option.splits)
qed

lemma archive: "I h d \<Longrightarrow> I h (snd (archiveUntouchedPlans t c d))"
proof -
  have "I h d \<Longrightarrow> I h (fold (set_plan_status t Plan_Abandoned) ps d)" for ps
    by (induction ps arbitrary: d) (auto intro: finish)
  then show "I h d \<Longrightarrow> I h (snd (archiveUntouchedPlans t c d))" by (simp add: archiveUntouchedPlans_def Let_def)
qed

lemma complete: "I h d \<Longrightarrow> I h (snd (complete_plan h t p d))"
  by (auto simp: complete_plan_def Let_def intro: finish split: option.splits)

text \<open>An operation is admitted when its step updates are kept and no half of a creation inserts what it must not.\<close>

definition admits :: "plan_op \<Rightarrow> bool" where
  "admits op \<longleftrightarrow> (case op of
      Update_Step p u \<Rightarrow> (\<forall>r. selects_step p u r \<longrightarrow> keeps r (set_step u))
    | Create_Insert np \<Rightarrow> inserts np | _ \<Rightarrow> True)"

lemma one_step: "I h d \<Longrightarrow> admits (snd op) \<Longrightarrow> I h (plan_run h op d)"
  by (cases "(h, op, d)" rule: plan_run.cases)
    (auto simp: admits_def create_plan_def cleanupArchivedPlans_def Let_def abandon_def
      intro: create create_half retire update decide noting extend complete finish block archive delete)

lemma history: "I h d \<Longrightarrow> (\<forall>op\<in>set ops. admits (snd op)) \<Longrightarrow> I h (fold (plan_run h) ops d)"
  by (induction ops arbitrary: d) (auto intro: one_step)

end

section \<open>What a creation inserts\<close>

fun new_rows :: "host \<Rightarrow> jstr \<Rightarrow> int \<Rightarrow> (jstr \<times> number list option) list \<Rightarrow> step_row list" where
  "new_rows h p i [] = []"
| "new_rows h p i ((x, ds) # rest) = new_step h p i x ds # new_rows h p (i + 1) rest"

lemma insert_steps_Some:
  "insert_steps h p i xs d = Some d' \<Longrightarrow> d' = d\<lparr> pd_steps := pd_steps d @ new_rows h p i xs \<rparr>"
proof (induction xs arbitrary: i d)
  case (Cons x xs)
  obtain c ds where x: "x = (c, ds)" by fastforce
  from Cons.prems obtain d1 where d1: "insert_step (new_step h p i c ds) d = Some d1" "insert_steps h p (i + 1) xs d1 = Some d'"
    by (auto simp: x split: option.splits)
  from d1(1) have "d1 = d\<lparr> pd_steps := pd_steps d @ [new_step h p i c ds] \<rparr>" by (auto simp: insert_step_def split: if_splits)
  with Cons.IH [OF d1(2)] show ?case by (simp add: x)
qed simp

lemma new_rows_plan: "s \<in> set (new_rows h p i xs) \<Longrightarrow> sp_plan s = p"
  by (induction xs arbitrary: i) (auto simp: new_step_def)

lemma new_rows_numbers: "map sp_step (new_rows h p i xs) = map (\<lambda>k. int k + i) [0..<length xs]"
proof (induction xs arbitrary: i)
  case (Cons x xs)
  have "map (\<lambda>k. int k + i) [0..<Suc n] = i # map (\<lambda>k. int k + (i + 1)) [0..<n]" for n
    by (induction n) simp_all
  from this [of "length xs"] show ?case using Cons by (cases x) (simp add: new_step_def)
qed simp

lemma new_rows_length [simp]: "length (new_rows h p i xs) = length xs"
  by (induction xs arbitrary: i) auto

definition created_row :: "host \<Rightarrow> jstr \<Rightarrow> new_plan \<Rightarrow> plan_db \<Rightarrow> plan_row" where
  "created_row h t np d = \<lparr> pl_id = uuid h (pd_uuids d), pl_project = np_project np, pl_name = sanitize (np_name np),
     pl_status = Plan_Active, pl_created = t, pl_updated = t \<rparr>"

definition created_db :: "host \<Rightarrow> jstr \<Rightarrow> new_plan \<Rightarrow> plan_db \<Rightarrow> plan_db" where
  "created_db h t np d = d\<lparr> pd_uuids := Suc (pd_uuids d), pd_plans := pd_plans d @ [created_row h t np d],
     pd_steps := pd_steps d @ new_rows h (uuid h (pd_uuids d)) 1 (np_steps np) \<rparr>"

lemma create_insert_cases:
  obtains "snd (create_insert h t np d) = d\<lparr> pd_uuids := Suc (pd_uuids d) \<rparr>"
  | "uuid h (pd_uuids d) \<notin> pl_id ` set (pd_plans d)" "snd (create_insert h t np d) = created_db h t np d"
proof (cases "Option.bind (insert_plan (created_row h t np d) (d\<lparr> pd_uuids := Suc (pd_uuids d) \<rparr>))
    (insert_steps h (uuid h (pd_uuids d)) 1 (np_steps np))")
  case None
  then show ?thesis using that(1) by (simp add: create_insert_def new_id_def Let_def created_row_def)
next
  case (Some d2)
  then have "uuid h (pd_uuids d) \<notin> pl_id ` set (pd_plans d)" "d2 = created_db h t np d"
    by (auto simp: insert_plan_def created_row_def created_db_def bind_eq_Some_conv dest!: insert_steps_Some split: if_splits)
  moreover have "snd (create_insert h t np d) = d2"
    using Some by (simp add: create_insert_def new_id_def Let_def created_row_def split: option.splits)
  ultimately show ?thesis using that(2) by simp
qed

section \<open>Numbered steps\<close>

abbreviation steps_in :: "jstr \<Rightarrow> step_row list \<Rightarrow> step_row list" where
  "steps_in p ss \<equiv> filter (\<lambda>s. sp_plan s = p) ss"

definition numbered :: "step_row list \<Rightarrow> bool" where
  "numbered ss \<longleftrightarrow> map sp_step ss = map (\<lambda>k. int k + 1) [0..<length ss]"

definition plans_ok :: "plan_db \<Rightarrow> bool" where
  "plans_ok d \<longleftrightarrow> t_keyed pl_id (pd_plans d) \<and> sp_plan ` set (pd_steps d) \<subseteq> pl_id ` set (pd_plans d) \<and>
     (\<forall>p. numbered (steps_in p (pd_steps d)))"

lemma update_keeps_key:
  assumes "\<And>r. key (f r) = key r"
  shows "map key (t_update P f rs) = map key rs" "key ` set (t_update P f rs) = key ` set rs"
proof -
  show m: "map key (t_update P f rs) = map key rs" using assms by (auto simp: t_update_def)
  show "key ` set (t_update P f rs) = key ` set rs" using arg_cong [OF m, of set] by simp
qed

lemma plans_ok_update_plans:
  assumes "plans_ok d" "\<And>r. pl_id (f r) = pl_id r"
  shows "plans_ok (update_plans P f d)"
  using assms(1) update_keeps_key [where key = pl_id, OF assms(2)] by (simp add: plans_ok_def t_keyed_def)

lemma steps_in_update:
  assumes "\<And>r. step_key (f r) = step_key r"
  shows "map sp_step (steps_in p (t_update P f ss)) = map sp_step (steps_in p ss)"
    "sp_plan ` set (t_update P f ss) = sp_plan ` set ss"
proof -
  have k: "sp_plan (f r) = sp_plan r" "sp_step (f r) = sp_step r" for r using assms [of r] by (simp_all add: step_key_def)
  show "map sp_step (steps_in p (t_update P f ss)) = map sp_step (steps_in p ss)"
    by (induction ss) (auto simp: t_update_def k)
  show "sp_plan ` set (t_update P f ss) = sp_plan ` set ss" by (rule update_keeps_key) (rule k)
qed

lemma numbered_cong: "map sp_step ss = map sp_step ss' \<Longrightarrow> numbered ss \<Longrightarrow> numbered ss'"
  by (metis length_map numbered_def)

lemma plans_ok_update_steps:
  assumes "plans_ok d" "\<And>r. step_key (f r) = step_key r"
  shows "plans_ok (update_steps P f d)"
  using assms(1) numbered_cong [OF steps_in_update(1) [OF assms(2), symmetric]] steps_in_update(2) [OF assms(2)]
  by (auto simp: plans_ok_def)

lemma plans_ok_created:
  assumes ok: "plans_ok d" and new: "uuid h (pd_uuids d) \<notin> pl_id ` set (pd_plans d)"
  shows "plans_ok (created_db h t np d)"
proof -
  let ?k = "uuid h (pd_uuids d)"
  let ?new = "new_rows h ?k 1 (np_steps np)"
  have none: "steps_in ?k (pd_steps d) = []" using ok new by (force simp: plans_ok_def filter_empty_conv)
  have all: "steps_in ?k ?new = ?new" and other: "p \<noteq> ?k \<Longrightarrow> steps_in p ?new = []" for p
    using new_rows_plan by (auto simp: filter_id_conv filter_empty_conv)
  have "numbered ?new" by (simp add: numbered_def new_rows_numbers)
  then have "numbered (steps_in p (pd_steps d @ ?new))" for p
    using ok none all other by (cases "p = ?k") (simp_all add: plans_ok_def)
  moreover have "sp_plan ` set ?new \<subseteq> {?k}" using new_rows_plan by auto
  ultimately show ?thesis using ok new by (auto simp: plans_ok_def created_db_def created_row_def t_keyed_def)
qed

lemma plans_ok_create: "plans_ok d \<Longrightarrow> plans_ok (snd (create_insert h t np d))"
  by (cases rule: create_insert_cases [of h t np d]) (simp_all add: plans_ok_created, simp add: plans_ok_def)

lemma plans_ok_step:
  assumes ok: "plans_ok d" and ins: "insert_step (new_step h p (int (Suc (length (steps_of p d)))) x ds) d = Some d'"
  shows "plans_ok d'"
proof -
  let ?s = "new_step h p (int (Suc (length (steps_of p d)))) x ds"
  from ins have p: "p \<in> pl_id ` set (pd_plans d)" and d': "d' = d\<lparr> pd_steps := pd_steps d @ [?s] \<rparr>"
    by (auto simp: insert_step_def new_step_def split: if_splits)
  have "numbered (steps_in q (pd_steps d @ [?s]))" for q
    using ok by (auto simp: plans_ok_def numbered_def new_step_def steps_of_def)
  with ok p d' show ?thesis by (auto simp: plans_ok_def new_step_def)
qed

lemma plans_ok_delete:
  assumes "plans_ok d"
  shows "plans_ok (delete_plans Q d)"
proof -
  let ?gone = "map pl_id (filter Q (pd_plans d))"
  have "steps_in p (filter (\<lambda>s. sp_plan s \<notin> set ?gone) ss) = (if p \<in> set ?gone then [] else steps_in p ss)" for p ss
    by (induction ss) auto
  moreover have "numbered []" by (simp add: numbered_def)
  moreover have "t_keyed pl_id (filter (\<lambda>p. \<not> Q p) (pd_plans d))" using assms by (simp add: plans_ok_def t_keyed_def distinct_map_filter)
  moreover have "sp_plan ` set (filter (\<lambda>s. sp_plan s \<notin> set ?gone) (pd_steps d)) \<subseteq> pl_id ` set (filter (\<lambda>p. \<not> Q p) (pd_plans d))"
  proof
    fix x
    assume "x \<in> sp_plan ` set (filter (\<lambda>s. sp_plan s \<notin> set ?gone) (pd_steps d))"
    then obtain s where s: "s \<in> set (pd_steps d)" "sp_plan s \<notin> set ?gone" "x = sp_plan s" by auto
    from s(1) assms have "sp_plan s \<in> pl_id ` set (pd_plans d)" unfolding plans_ok_def by blast
    then obtain q where "q \<in> set (pd_plans d)" "sp_plan s = pl_id q" by blast
    with s show "x \<in> pl_id ` set (filter (\<lambda>p. \<not> Q p) (pd_plans d))" by auto
  qed
  ultimately show ?thesis using assms by (simp add: plans_ok_def delete_plans_def Let_def)
qed

interpretation ok: plan_invariant "\<lambda>h. plans_ok" "\<lambda>r f. True" "\<lambda>np. True"
proof unfold_locales
  show "plans_ok d'" if "plans_ok d" "insert_step (new_step h p (int (Suc (length (steps_of p d)))) x ds) d = Some d'"
    for h d p x ds d' using that by (rule plans_ok_step)
  show "plans_ok (snd (create_insert h t np (archiveActive t (np_project np) d)))" if "plans_ok d" for h d t np
    using that by (intro plans_ok_create) (simp add: archiveActive_def plans_ok_update_plans)
qed (auto simp: touchPlan_def archiveActive_def set_plan_status_def new_id_def insert_decision_def plans_ok_delete plans_ok_create
    intro!: plans_ok_update_plans plans_ok_update_steps split: if_splits, simp_all add: plans_ok_def)

section \<open>One active plan\<close>

definition one_active :: "plan_db \<Rightarrow> bool" where
  "one_active d \<longleftrightarrow> (\<forall>q. length (filter (active_in q) (pd_plans d)) \<le> 1)"

lemma one_active_update:
  assumes "one_active d" "\<And>q r. active_in q (f r) \<Longrightarrow> active_in q r"
  shows "one_active (update_plans P f d)"
proof -
  have "length (filter (active_in q) (t_update P f ps)) \<le> length (filter (active_in q) ps)" for q ps
    using assms(2) [of q] by (induction ps) (auto simp: t_update_def)
  then show ?thesis using assms(1) unfolding one_active_def plan_frames by (meson le_trans)
qed

lemma one_active_frame: "pd_plans d' = pd_plans d \<Longrightarrow> one_active d \<Longrightarrow> one_active d'"
  by (simp add: one_active_def)

lemma active_archived: "filter (active_in q) (pd_plans (archiveActive t q d)) = []"
proof -
  have "filter (active_in q) (t_update (active_in q) (\<lambda>r. r\<lparr> pl_status := Plan_Abandoned, pl_updated := t \<rparr>) ps) = []" for ps
    by (induction ps) (simp_all add: t_update_def active_in_def)
  then show ?thesis by (simp add: archiveActive_def)
qed

lemma one_active_retire: "one_active d \<Longrightarrow> one_active (archiveActive t q d)"
  unfolding archiveActive_def by (erule one_active_update) (simp add: active_in_def)

lemma one_active_created:
  assumes "one_active d"
  shows "one_active (snd (create_insert h t np (archiveActive t (np_project np) d)))"
proof (cases rule: create_insert_cases [of h t np "archiveActive t (np_project np) d"])
  case 1
  then show ?thesis using one_active_retire [OF assms] by (simp add: one_active_def)
next
  case 2
  let ?d = "archiveActive t (np_project np) d"
  have "length (filter (active_in q) (pd_plans (created_db h t np ?d))) \<le> 1" for q
  proof (cases "q = np_project np")
    case True
    then show ?thesis using active_archived [of q t d] by (simp add: created_db_def)
  next
    case False
    then show ?thesis using one_active_retire [OF assms] by (simp add: created_db_def one_active_def active_in_def created_row_def)
  qed
  then show ?thesis unfolding 2 one_active_def by blast
qed

lemma one_active_delete: "one_active d \<Longrightarrow> one_active (delete_plans Q d)"
proof -
  have "length (filter P (filter R xs)) \<le> length (filter P xs)" for P R and xs :: "plan_row list" by (induction xs) auto
  moreover have "pd_plans (delete_plans Q d) = filter (\<lambda>p. \<not> Q p) (pd_plans d)" by (simp add: delete_plans_def Let_def)
  ultimately show "one_active d \<Longrightarrow> one_active (delete_plans Q d)"
    unfolding one_active_def by (metis le_trans)
qed

interpretation lone: plan_invariant "\<lambda>h. one_active" "\<lambda>r f. True" "\<lambda>np. False"
proof unfold_locales
  show "one_active (touchPlan t p d)" if "one_active d" for h :: host and t p d
    unfolding touchPlan_def using that by (rule one_active_update) (simp add: active_in_def)
  show "one_active (set_plan_status t s p d)" if "one_active d" "s \<noteq> Plan_Active" for h :: host and t s p d
    unfolding set_plan_status_def using that(1) by (rule one_active_update) (use that(2) in \<open>simp add: active_in_def\<close>)
  show "one_active (snd (new_id h d))" if "one_active d" for h d
    using that by (simp add: new_id_def one_active_def)
  show "one_active d'" if "one_active d" "insert_decision c d = Some d'" for h :: host and d c d'
    using that by (auto simp: insert_decision_def one_active_def split: if_splits)
  show "one_active d'" if "one_active d" "insert_step (new_step h p (int (Suc (length (steps_of p d)))) x ds) d = Some d'" for h d p x ds d'
    using that by (auto simp: insert_step_def one_active_def split: if_splits)
qed (simp_all add: one_active_retire one_active_created one_active_delete one_active_frame)


section \<open>Exclusive claims\<close>

definition claimed :: "jstr \<Rightarrow> int \<Rightarrow> host \<Rightarrow> plan_db \<Rightarrow> bool" where
  "claimed p i h d \<longleftrightarrow> plans_ok d \<and> (\<forall>n\<ge>pd_uuids d. uuid h n \<noteq> p) \<and>
     (\<forall>s\<in>set (pd_steps d). step_key s = (p, i) \<longrightarrow> sp_status s \<noteq> Pending) \<and>
     ((p, i) \<in> step_key ` set (pd_steps d) \<or> p \<notin> pl_id ` set (pd_plans d))"

definition not_reset :: "jstr \<Rightarrow> int \<Rightarrow> step_row \<Rightarrow> (step_row \<Rightarrow> step_row) \<Rightarrow> bool" where
  "not_reset p i r f \<longleftrightarrow> (step_key r = (p, i) \<and> sp_status r \<noteq> Pending \<longrightarrow> sp_status (f r) \<noteq> Pending)"

lemma claimed_update_plans:
  assumes "claimed p i h d" "\<And>r. pl_id (f r) = pl_id r"
  shows "claimed p i h (update_plans P f d)"
  using assms(1) plans_ok_update_plans [where f = f] update_keeps_key [where key = pl_id, OF assms(2)] assms(2)
  by (simp add: claimed_def)

lemma claimed_update_steps:
  assumes c: "claimed p i h d" and k: "\<And>r. step_key (f r) = step_key r" and "\<And>r. P r \<Longrightarrow> not_reset p i r f"
  shows "claimed p i h (update_steps P f d)"
proof -
  have "step_key ` set (t_update P f (pd_steps d)) = step_key ` set (pd_steps d)" by (rule update_keeps_key) (rule k)
  moreover have "\<forall>s\<in>set (t_update P f (pd_steps d)). step_key s = (p, i) \<longrightarrow> sp_status s \<noteq> Pending"
    using c assms(3) k by (auto simp: t_update_def claimed_def not_reset_def)
  ultimately show ?thesis using c k plans_ok_update_steps by (simp add: claimed_def)
qed

lemma claimed_create:
  assumes "claimed p i h d"
  shows "claimed p i h (snd (create_insert h t np d))"
proof (cases rule: create_insert_cases [of h t np d])
  case 1
  then show ?thesis using assms by (simp add: claimed_def plans_ok_def)
next
  case 2
  have "plans_ok (created_db h t np d)" using assms 2(1) by (simp add: claimed_def plans_ok_created)
  moreover have "uuid h (pd_uuids d) \<noteq> p" using assms by (simp add: claimed_def)
  moreover from this have "\<forall>s\<in>set (new_rows h (uuid h (pd_uuids d)) 1 (np_steps np)). step_key s \<noteq> (p, i)"
    using new_rows_plan by (fastforce simp: step_key_def)
  ultimately show ?thesis using assms unfolding 2 by (auto simp: claimed_def created_db_def created_row_def)
qed

lemma claimed_step:
  assumes c: "claimed p i h d" and ins: "insert_step (new_step h q (int (Suc (length (steps_of q d)))) x ds) d = Some d'"
  shows "claimed p i h d'"
proof -
  let ?s = "new_step h q (int (Suc (length (steps_of q d)))) x ds"
  from ins have d': "d' = d\<lparr> pd_steps := pd_steps d @ [?s] \<rparr>" and s: "step_key ?s \<notin> step_key ` set (pd_steps d)"
      "sp_plan ?s \<in> pl_id ` set (pd_plans d)"
    by (auto simp: insert_step_def split: if_splits)
  have "step_key ?s \<noteq> (p, i)"
  proof
    assume e: "step_key ?s = (p, i)"
    then have "sp_plan ?s = p" by (simp add: step_key_def)
    with e s c show False by (auto simp: claimed_def)
  qed
  then show ?thesis using c plans_ok_step [OF _ ins] by (auto simp: claimed_def d')
qed

lemma claimed_delete:
  assumes "claimed p i h d"
  shows "claimed p i h (delete_plans Q d)"
proof -
  let ?d = "delete_plans Q d"
  have "(p, i) \<in> step_key ` set (pd_steps ?d) \<or> p \<notin> pl_id ` set (pd_plans ?d)"
  proof (cases "p \<in> pl_id ` set (filter Q (pd_plans d))")
    case True
    then obtain r where r: "r \<in> set (pd_plans d)" "Q r" "pl_id r = p" by auto
    have inj: "inj_on pl_id (set (pd_plans d))" using assms by (simp add: claimed_def plans_ok_def t_keyed_def distinct_map)
    have "p \<notin> pl_id ` set (pd_plans ?d)"
    proof
      assume "p \<in> pl_id ` set (pd_plans ?d)"
      then obtain r' where r': "r' \<in> set (pd_plans d)" "\<not> Q r'" "pl_id r' = p" by (auto simp: delete_plans_def Let_def)
      from inj_onD [OF inj _ r'(1) r(1)] r'(3) r(3) have "r' = r" by simp
      with r' r show False by simp
    qed
    then show ?thesis by (rule disjI2)
  next
    case False
    from assms have "(p, i) \<in> step_key ` set (pd_steps d) \<or> p \<notin> pl_id ` set (pd_plans d)" by (simp add: claimed_def)
    then show ?thesis
    proof
      assume "(p, i) \<in> step_key ` set (pd_steps d)"
      then obtain s where s: "s \<in> set (pd_steps d)" "step_key s = (p, i)" by auto
      then have "sp_plan s = p" by (simp add: step_key_def)
      with s(1) False have "s \<in> set (pd_steps ?d)" by (auto simp: delete_plans_def Let_def)
      with s(2) show ?thesis by (metis image_eqI)
    next
      assume "p \<notin> pl_id ` set (pd_plans d)"
      then show ?thesis by (auto simp: delete_plans_def Let_def)
    qed
  qed
  then show ?thesis using assms plans_ok_delete [of d Q] by (simp add: claimed_def) (simp add: delete_plans_def Let_def)
qed

lemma claimed_frame:
  "claimed p i h d \<Longrightarrow> pd_plans d' = pd_plans d \<Longrightarrow> pd_steps d' = pd_steps d \<Longrightarrow> pd_uuids d \<le> pd_uuids d' \<Longrightarrow> claimed p i h d'"
  by (simp add: claimed_def plans_ok_def)

interpretation claim: plan_invariant "claimed p i" "not_reset p i" "\<lambda>np. True" for p i
proof unfold_locales
  show "claimed p i h (snd (new_id h d))" if "claimed p i h d" for h d
    using that by (rule claimed_frame) (simp_all add: new_id_def)
  show "claimed p i h d'" if "claimed p i h d" "insert_decision c d = Some d'" for h d c d'
    using that(1) by (rule claimed_frame) (use that(2) in \<open>auto simp: insert_decision_def split: if_splits\<close>)
  show "claimed p i h (snd (create_insert h t np (archiveActive t (np_project np) d)))" if "claimed p i h d" for h t np d
    unfolding archiveActive_def by (rule claimed_create [OF claimed_update_plans [OF that]]) simp
qed (auto simp: touchPlan_def archiveActive_def set_plan_status_def not_reset_def
    intro: claimed_update_plans claimed_update_steps claimed_create claimed_step claimed_delete)

definition resets :: "jstr \<Rightarrow> int \<Rightarrow> plan_op \<Rightarrow> bool" where
  "resets p i op \<longleftrightarrow> (\<exists>u. op = Update_Step p u \<and> su_step u = i \<and> su_status u = Some Pending)"

lemma claim_admits: "\<not> resets p i op \<Longrightarrow> claim.admits p i op"
  by (auto simp: claim.admits_def resets_def not_reset_def selects_step_def set_step_def split: plan_op.splits option.splits)

lemma successful_claim:
  assumes "plans_ok d" "\<forall>n\<ge>pd_uuids d. uuid h n \<noteq> p" "updateStep h t p u d = (Inr (True, ws), d1)"
    and u: "su_status u = Some In_Progress" "su_step u = i"
  shows "claimed p i h d1"
proof -
  from assms(3) u have n: "t_count (selects_step p u) (pd_steps d) \<noteq> 0"
    and d1: "d1 = touchPlan t p (update_steps (selects_step p u) (set_step u) d)"
    by (auto simp: updateStep_def split: option.splits if_splits)
  have key: "step_key (set_step u r) = step_key r" for r by (simp add: step_key_def set_step_def)
  from n obtain s where s: "s \<in> set (pd_steps d)" "step_key s = (p, i)"
    using u(2) by (auto simp: t_count_def filter_empty_conv selects_step_def)
  let ?d = "update_steps (selects_step p u) (set_step u) d"
  have "plans_ok ?d" using assms(1) key by (rule plans_ok_update_steps)
  moreover have "sp_status r \<noteq> Pending" if r: "r \<in> set (pd_steps ?d)" "step_key r = (p, i)" for r
  proof -
    from r(1) obtain x where x: "r = (if selects_step p u x then set_step u x else x)"
      by (simp only: plan_frames t_update_def set_map image_iff) blast
    then have "step_key x = (p, i)" using r(2) key by (cases "selects_step p u x") simp_all
    then show ?thesis using x u by (cases "selects_step p u x") (simp_all add: selects_step_def set_step_def)
  qed
  moreover have "step_key ` set (pd_steps ?d) = step_key ` set (pd_steps d)"
    unfolding plan_frames by (rule update_keeps_key) (rule key)
  with s have "(p, i) \<in> step_key ` set (pd_steps ?d)" by (metis image_eqI)
  ultimately have "claimed p i h ?d" using assms(2) by (simp add: claimed_def)
  then show ?thesis unfolding d1 by (rule claim.touch)
qed

text \<open>C20. A step is claimed by one worker at a time: once a move of a step to in progress has succeeded, no later
  claim of the same step succeeds, whatever operations, creations and sweeps run in between (also halves
  of creations of other processes), until somebody sets the step back to pending.\<close>

theorem claims_exclusive:
  assumes "plans_ok d" "\<forall>n\<ge>pd_uuids d. uuid h n \<noteq> p"
    and "updateStep h t p u d = (Inr (True, ws), d1)" "su_status u = Some In_Progress"
    and "\<forall>op\<in>set ops. \<not> resets p (su_step u) (snd op)"
    and "su_status u' = Some In_Progress" "su_step u' = su_step u"
  shows "fst (updateStep h t' p u' (fold (plan_run h) ops d1)) \<noteq> Inr (True, ws')"
proof -
  have "claimed p (su_step u) h d1" using successful_claim [OF assms(1-4) refl] .
  then have "claimed p (su_step u) h (fold (plan_run h) ops d1)"
    by (rule claim.history) (use assms(5) claim_admits in blast)
  then have "t_count (selects_step p u') (pd_steps (fold (plan_run h) ops d1)) = 0"
    using assms(6,7) by (auto simp: claimed_def t_count_def filter_empty_conv selects_step_def)
  then show ?thesis using assms(6) by (simp add: updateStep_def split: option.split)
qed

section \<open>Creating and reading\<close>

definition deps_ok :: "host \<Rightarrow> number list option \<Rightarrow> bool" where
  "deps_ok h ds \<longleftrightarrow> (case ds of None \<Rightarrow> True | Some ns \<Rightarrow> list_all (num_ok (nums h)) ns)"

definition deps_json :: "number list option \<Rightarrow> json" where
  "deps_json ds = JArr (map JNum (case ds of None \<Rightarrow> [] | Some ns \<Rightarrow> ns))"

lemma parse_depends: "deps_ok h ds \<Longrightarrow> parse_column h (JArr []) (depends_column h ds) = Some (deps_json ds)"
proof (cases ds)
  case (Some ns)
  assume "deps_ok h ds"
  then have "json_ok (nums h) (JArr (map JNum ns))" by (simp add: deps_ok_def Some list_all_iff)
  then have "json_parse (nums h) (stringify (nums h) (JArr (map JNum ns))) = Some (JArr (map JNum ns))" by (rule json_parse_stringify)
  then show ?thesis by (simp add: parse_column_def depends_column_def deps_json_def Some)
qed (simp add: parse_column_def depends_column_def deps_json_def)

fun new_steps :: "host \<Rightarrow> jstr \<Rightarrow> int \<Rightarrow> (jstr \<times> number list option) list \<Rightarrow> plan_item list" where
  "new_steps h p i [] = []"
| "new_steps h p i ((x, ds) # rest) =
    \<lparr> ps_row = new_step h p i x ds, ps_depends = deps_json ds, ps_notes = JArr [] \<rparr> # new_steps h p (i + 1) rest"

lemma map_new_rows:
  "list_all (\<lambda>x. deps_ok h (snd x)) xs \<Longrightarrow> parse_rows (rowToStep h) (new_rows h p i xs) = Some (new_steps h p i xs)"
proof (induction xs arbitrary: i)
  case (Cons x xs)
  then show ?case
    by (cases x) (simp add: rowToStep_def parse_depends new_step_def, simp add: parse_column_def)
qed simp

lemma new_rows_sorted: "sort_key sp_step (new_rows h p i xs) = new_rows h p i xs"
proof -
  have "sorted (map sp_step (new_rows h p i xs))" unfolding new_rows_numbers by (simp add: sorted_iff_nth_mono)
  then show ?thesis by (rule sort_key_id_if_sorted)
qed

lemma latest_member: "latest rs = Some r \<Longrightarrow> r \<in> set rs"
  by (induction rs arbitrary: r) (auto split: option.splits if_splits)

lemma active_elsewhere:
  "q \<noteq> q' \<Longrightarrow> filter (active_in q) (pd_plans (archiveActive t q' d)) = filter (active_in q) (pd_plans d)"
proof -
  assume "q \<noteq> q'"
  then have "filter (active_in q) (t_update (active_in q') (\<lambda>r. r\<lparr> pl_status := Plan_Abandoned, pl_updated := t \<rparr>) ps) =
      filter (active_in q) ps" for ps
    by (induction ps) (auto simp: t_update_def active_in_def)
  then show ?thesis by (simp add: archiveActive_def)
qed

lemma archive_frame [simp]:
  "pd_steps (archiveActive t q d) = pd_steps d" "pd_decisions (archiveActive t q d) = pd_decisions d"
  "pd_uuids (archiveActive t q d) = pd_uuids d" "pl_id ` set (pd_plans (archiveActive t q d)) = pl_id ` set (pd_plans d)"
  by (simp_all add: archiveActive_def update_keeps_key)

lemma insert_steps_fresh:
  assumes "p \<in> pl_id ` set (pd_plans d)" "\<forall>s\<in>set (pd_steps d). sp_plan s = p \<longrightarrow> sp_step s < i"
  shows "insert_steps h p i xs d = Some (d\<lparr> pd_steps := pd_steps d @ new_rows h p i xs \<rparr>)"
  using assms
proof (induction xs arbitrary: i d)
  case (Cons x xs)
  obtain c ds where x: "x = (c, ds)" by fastforce
  let ?d = "d\<lparr> pd_steps := pd_steps d @ [new_step h p i c ds] \<rparr>"
  have "insert_step (new_step h p i c ds) d = Some ?d" using Cons.prems by (auto simp: insert_step_def step_key_def new_step_def)
  moreover have "insert_steps h p (i + 1) xs ?d = Some (?d\<lparr> pd_steps := pd_steps ?d @ new_rows h p (i + 1) xs \<rparr>)"
    by (rule Cons.IH) (use Cons.prems in \<open>auto simp: new_step_def\<close>)
  ultimately show ?case by (simp add: x)
qed simp

definition created_plan :: "host \<Rightarrow> jstr \<Rightarrow> new_plan \<Rightarrow> plan_db \<Rightarrow> plan" where
  "created_plan h t np d = \<lparr> pn_row = created_row h t np d,
     pn_steps = new_steps h (uuid h (pd_uuids d)) 1 (np_steps np), pn_decisions = [] \<rparr>"

lemma create_insert_fresh:
  assumes ok: "plans_ok d" and new: "uuid h (pd_uuids d) \<notin> pl_id ` set (pd_plans d)" "uuid h (pd_uuids d) \<notin> dc_plan ` set (pd_decisions d)"
    and deps: "list_all (\<lambda>x. deps_ok h (snd x)) (np_steps np)"
  shows "create_insert h t np d = (Inr (created_plan h t np d, fst (validateStepCount (length (np_steps np)))), created_db h t np d)"
    and "buildPlan h (created_db h t np d) (created_row h t np d) = Some (created_plan h t np d)"
proof -
  let ?k = "uuid h (pd_uuids d)"
  have owned: "sp_plan s \<noteq> ?k" if "s \<in> set (pd_steps d)" for s using ok new(1) that unfolding plans_ok_def by force
  then have "steps_in ?k (pd_steps d) = []" by (simp add: filter_empty_conv)
  moreover have "steps_in ?k (new_rows h ?k 1 (np_steps np)) = new_rows h ?k 1 (np_steps np)"
    using new_rows_plan by (auto simp: filter_id_conv)
  ultimately have "getSteps h ?k (created_db h t np d) = Some (new_steps h ?k 1 (np_steps np))"
    using map_new_rows [OF deps] by (simp add: getSteps_def steps_of_def created_db_def new_rows_sorted)
  moreover have "filter (\<lambda>c. dc_plan c = ?k) (pd_decisions d) = []" using new(2) by (simp add: filter_empty_conv) (metis image_eqI)
  then have "getDecisions h ?k (created_db h t np d) = Some []" by (simp add: getDecisions_def created_db_def)
  ultimately show build: "buildPlan h (created_db h t np d) (created_row h t np d) = Some (created_plan h t np d)"
    by (simp add: buildPlan_def created_plan_def created_row_def)
  have "insert_plan (created_row h t np d) (d\<lparr> pd_uuids := Suc (pd_uuids d) \<rparr>) =
      Some (d\<lparr> pd_uuids := Suc (pd_uuids d), pd_plans := pd_plans d @ [created_row h t np d] \<rparr>)"
    using new(1) by (simp add: insert_plan_def created_row_def)
  moreover have "insert_steps h ?k 1 (np_steps np) (d\<lparr> pd_uuids := Suc (pd_uuids d), pd_plans := pd_plans d @ [created_row h t np d] \<rparr>) =
      Some (created_db h t np d)"
    using owned by (subst insert_steps_fresh) (auto simp: created_db_def created_row_def)
  moreover have "find (\<lambda>q. pl_id q = ?k) (pd_plans (created_db h t np d)) = Some (created_row h t np d)"
  proof -
    have "find (\<lambda>q. pl_id q = ?k) (xs @ [created_row h t np d]) = Some (created_row h t np d)" if "?k \<notin> pl_id ` set xs" for xs
      using that by (induction xs) (auto simp: created_row_def)
    then show ?thesis using new(1) by (simp add: created_db_def)
  qed
  ultimately show "create_insert h t np d = (Inr (created_plan h t np d, fst (validateStepCount (length (np_steps np)))), created_db h t np d)"
    using build by (simp add: create_insert_def new_id_def Let_def created_row_def [symmetric] getById_def)
qed

lemma build_other:
  assumes "pl_id r \<noteq> uuid h (pd_uuids d)"
  shows "buildPlan h (created_db h t np d) r = buildPlan h d r"
proof -
  have "steps_in (pl_id r) (new_rows h (uuid h (pd_uuids d)) 1 (np_steps np)) = []"
    using new_rows_plan assms by (fastforce simp: filter_empty_conv)
  then show ?thesis by (simp add: buildPlan_def getSteps_def steps_of_def getDecisions_def created_db_def)
qed

lemma build_archived: "buildPlan h (archiveActive t q d) r = buildPlan h d r"
  by (simp add: buildPlan_def getSteps_def steps_of_def getDecisions_def)


section \<open>Two processes\<close>

text \<open>A host whose identifiers are distinct, and plans of one step.\<close>

definition plan_host :: host where
  "plan_host = sample_host\<lparr> uuid := (\<lambda>n. replicate (Suc n) 97) \<rparr>"

definition one_step_plan :: "jstr \<Rightarrow> new_plan" where
  "one_step_plan name = \<lparr> np_project = js ''web'', np_name = name, np_steps = [(js ''ship'', None)] \<rparr>"

lemma plan_host_uuid: "uuid plan_host n = replicate (Suc n) 97"
  by (simp add: plan_host_def)

lemma empty_plans_ok: "plans_ok empty_plans"
  by (simp add: plans_ok_def empty_plans_def t_keyed_def numbered_def)

lemma one_step_deps: "list_all (\<lambda>x. deps_ok h (snd x)) (np_steps (one_step_plan name))"
  by (simp add: one_step_plan_def deps_ok_def)

lemma one_step_created: "snd (create_insert plan_host t (one_step_plan n) empty_plans) = created_db plan_host t (one_step_plan n) empty_plans"
  using create_insert_fresh(1) [OF empty_plans_ok _ _ one_step_deps [of plan_host n], where t = t] by (simp add: empty_plans_def)


section \<open>Instances\<close>



definition claim_first :: step_update where
  "claim_first = \<lparr> su_step = 1, su_status = Some In_Progress, su_outcome = None, su_blockers = None \<rparr>"

lemma claims_exclusive_witness:
  "\<exists>d d1. updateStep plan_host (js ''2026'') [97] claim_first d = (Inr (True, []), d1) \<and>
     fst (updateStep plan_host (js ''2027'') [97] claim_first
       (fold (plan_run plan_host) [(js ''2026'', Block_In_Progress (js ''web'') (js ''lunch''))] d1)) \<noteq> Inr (True, [])"
proof -
  let ?d = "created_db plan_host (js ''2026'') (one_step_plan (js ''one'')) empty_plans"
  have steps: "pd_steps ?d = [new_step plan_host [97] 1 (js ''ship'') None]"
    by (simp add: created_db_def empty_plans_def one_step_plan_def plan_host_uuid)
  have "dependency_warnings plan_host [97] claim_first ?d = Some []"
    by (simp add: dependency_warnings_def getStep_def steps step_key_def claim_first_def)
      (simp add: rowToStep_def parse_depends deps_ok_def new_step_def parse_column_def depends_column_def depends_list_def)
  then obtain d1 where d1: "updateStep plan_host (js ''2026'') [97] claim_first ?d = (Inr (True, []), d1)"
    by (simp add: updateStep_def claim_first_def steps t_count_def selects_step_def step_key_def) (simp add: new_step_def)
  have "plans_ok ?d" using plans_ok_created [OF empty_plans_ok] by (simp add: empty_plans_def)
  moreover have "\<forall>n\<ge>pd_uuids ?d. uuid plan_host n \<noteq> [97]" by (auto simp: created_db_def empty_plans_def plan_host_uuid)
  ultimately have "fst (updateStep plan_host (js ''2027'') [97] claim_first
       (fold (plan_run plan_host) [(js ''2026'', Block_In_Progress (js ''web'') (js ''lunch''))] d1)) \<noteq> Inr (True, [])"
    by (rule claims_exclusive [OF _ _ d1]) (simp_all add: claim_first_def resets_def)
  with d1 show ?thesis by blast
qed

end
