(* ===== verification/Node_Paths.thy ===== *)
theory Node_Paths
  imports Prelude
begin

text \<open>
  The POSIX half of \<open>node:path\<close>, as the program uses it: \<open>normalize\<close>, \<open>resolve\<close>, \<open>relative\<close>, \<open>isAbsolute\<close> and
  \<open>dirname\<close>.  A path is a string; its segments are the pieces between slashes.  The working directory of the
  process is an argument.
\<close>

section \<open>Definitions\<close>

definition dot :: jstr where "dot = [46]"
definition dotdot :: jstr where "dotdot = [46, 46]"
definition slash :: jstr where "slash = [47]"

text \<open>The segments that remain; above the root there is nothing, above a relative start there is \<open>..\<close>.  The stack
  has the last segment first.\<close>

fun walk :: "bool \<Rightarrow> jstr list \<Rightarrow> jstr list \<Rightarrow> jstr list" where
  "walk rel st [] = rev st"
| "walk rel st (s # ss) =
    (if s = [] \<or> s = dot then walk rel st ss
     else if s = dotdot then (case st of
         [] \<Rightarrow> walk rel (if rel then [dotdot] else []) ss
       | t # ts \<Rightarrow> if t = dotdot then walk rel (dotdot # st) ss else walk rel ts ss)
     else walk rel (s # st) ss)"

definition path_isAbsolute :: "jstr \<Rightarrow> bool" where
  "path_isAbsolute p \<longleftrightarrow> p \<noteq> [] \<and> hd p = 47"

definition path_normalize :: "jstr \<Rightarrow> jstr" where
  "path_normalize p =
    (if p = [] then dot
     else let absolute = path_isAbsolute p; trailing = last p = 47;
              body = join slash (walk (\<not> absolute) [] (split_on 47 p))
       in if body = [] then (if absolute then slash else if trailing then dot @ slash else dot)
          else (if absolute then slash else []) @ body @ (if trailing then slash else []))"

text \<open>The segments of an absolute path, and the absolute path of clean segments.\<close>

definition path_segments :: "jstr \<Rightarrow> jstr list" where
  "path_segments p = walk False [] (split_on 47 p)"

definition of_segments :: "jstr list \<Rightarrow> jstr" where
  "of_segments ss = slash @ join slash ss"

text \<open>Arguments are read from the last absolute one on; without any, from the working directory.\<close>

definition path_resolve :: "jstr \<Rightarrow> jstr list \<Rightarrow> jstr" where
  "path_resolve cwd ps = of_segments (path_segments (fold (\<lambda>p acc.
     if p = [] then acc else if path_isAbsolute p then p else acc @ slash @ p) ps cwd))"

fun drop_common :: "'a list \<Rightarrow> 'a list \<Rightarrow> 'a list \<times> 'a list" where
  "drop_common (a # as) (b # bs) = (if a = b then drop_common as bs else (a # as, b # bs))"
| "drop_common as bs = (as, bs)"

definition path_relative :: "jstr \<Rightarrow> jstr \<Rightarrow> jstr \<Rightarrow> jstr" where
  "path_relative cwd a b =
    (case drop_common (path_segments (path_resolve cwd [a])) (path_segments (path_resolve cwd [b])) of
       (up, down) \<Rightarrow> join slash (map (\<lambda>_. dotdot) up @ down))"

definition path_dirname :: "jstr \<Rightarrow> jstr" where
  "path_dirname p =
    (if p = [] then dot
     else let rooted = hd p = 47; q = rev (dropWhile (\<lambda>u. u \<noteq> 47) (dropWhile (\<lambda>u. u = 47) (rev (tl p))))
       in if q = [] then (if rooted then slash else dot)
          else if rooted \<and> length q = 1 then slash @ slash
          else take (length q) p)"

section \<open>Clean segments\<close>

definition clean :: "jstr \<Rightarrow> bool" where
  "clean s \<longleftrightarrow> s \<noteq> [] \<and> s \<noteq> dot \<and> s \<noteq> dotdot \<and> 47 \<notin> set s"

lemma walk_clean:
  assumes "list_all clean st" "\<And>s. s \<in> set ss \<Longrightarrow> 47 \<notin> set s"
  shows "list_all clean (walk False st ss)"
  using assms
proof (induction "False" st ss rule: walk.induct)
  case (2 st s ss)
  then show ?case by (cases st) (auto simp: clean_def)
qed (simp add: list_all_iff)

lemma segments_clean: "list_all clean (path_segments p)"
  unfolding path_segments_def by (rule walk_clean) (auto dest: split_on_sep_free)

lemma walk_id: "list_all clean ss \<Longrightarrow> walk rel st ss = rev st @ ss"
  by (induction ss arbitrary: st) (auto simp: clean_def)

lemma segments_of: "list_all clean ss \<Longrightarrow> path_segments (of_segments ss) = ss"
proof -
  assume c: "list_all clean ss"
  have "walk False [] (split_on 47 (of_segments ss)) = ss"
  proof (cases ss)
    case Nil
    then show ?thesis by (simp add: of_segments_def slash_def)
  next
    case (Cons a as)
    then have "split_on 47 (join [47] ss) = ss" using c by (intro split_on_join) (auto simp: list_all_iff clean_def)
    then show ?thesis using walk_id [OF c, of False "[]"] by (simp add: of_segments_def slash_def)
  qed
  then show ?thesis by (simp add: path_segments_def)
qed

lemma resolve_segments:
  "path_segments (path_resolve cwd ps) = path_segments (fold (\<lambda>p acc.
     if p = [] then acc else if path_isAbsolute p then p else acc @ slash @ p) ps cwd)"
  unfolding path_resolve_def by (rule segments_of [OF segments_clean])

lemma of_segments_inj: "list_all clean ss \<Longrightarrow> list_all clean ts \<Longrightarrow> of_segments ss = of_segments ts \<Longrightarrow> ss = ts"
  using segments_of by metis

lemma drop_common_prefix: "fst (drop_common as bs) = [] \<longleftrightarrow> (\<exists>r. bs = as @ r)"
  by (induction as bs rule: drop_common.induct) auto


lemma drop_common_snd: "fst (drop_common as bs) = [] \<Longrightarrow> bs = as @ snd (drop_common as bs)"
  by (induction as bs rule: drop_common.induct) (auto split: if_splits)

lemma drop_common_parts: "\<exists>c. as = c @ fst (drop_common as bs) \<and> bs = c @ snd (drop_common as bs)"
proof (induction as bs rule: drop_common.induct)
  case (1 a as b bs)
  show ?case
  proof (cases "a = b")
    case True
    with 1 obtain c where "as = c @ fst (drop_common as bs) \<and> bs = c @ snd (drop_common as bs)" by blast
    then have "a # as = (a # c) @ fst (drop_common (a # as) (b # bs)) \<and> b # bs = (a # c) @ snd (drop_common (a # as) (b # bs))"
      using True by simp
    then show ?thesis by blast
  qed simp
qed simp_all

section \<open>Walking on\<close>

lemma clean_hd: "clean s \<Longrightarrow> hd s \<noteq> 47"
  by (cases s) (auto simp: clean_def)

lemma join_clean_hd: "list_all clean ss \<Longrightarrow> ss \<noteq> [] \<Longrightarrow> join p ss \<noteq> [] \<and> hd (join p ss) \<noteq> 47"
proof (cases ss)
  case (Cons s t)
  moreover assume "list_all clean ss"
  ultimately have "hd s \<noteq> 47" "s \<noteq> []" using clean_hd by (auto simp: clean_def)
  then show ?thesis using Cons by (simp add: join_Cons)
qed simp

lemma walk_subset: "set (walk False st ss) \<subseteq> set st \<union> set ss"
proof (induction "False" st ss rule: walk.induct)
  case (2 st s ss)
  then show ?case by (cases st) auto
qed simp

lemma walk_append: "walk False st (xs @ ys) = walk False (rev (walk False st xs)) ys"
proof (induction "False" st xs rule: walk.induct)
  case (2 st s ss)
  then show ?case by (cases st) auto
qed simp

lemma walk_plain: "dotdot \<notin> set ss \<Longrightarrow> walk rel st ss = rev st @ filter (\<lambda>s. s \<noteq> [] \<and> s \<noteq> dot) ss"
  by (induction ss arbitrary: st) auto

lemma split_on_slash: "split_on c (a @ c # b) = split_on c a @ split_on c b"
proof (induction a)
  case (Cons u a)
  obtain x xs where "split_on c a = x # xs" by (cases "split_on c a") auto
  with Cons show ?case by auto
qed simp

lemma segments_append:
  "dotdot \<notin> set (split_on 47 b) \<Longrightarrow>
    path_segments (a @ slash @ b) = path_segments a @ filter (\<lambda>s. s \<noteq> [] \<and> s \<noteq> dot) (split_on 47 b)"
  by (simp add: path_segments_def slash_def split_on_slash walk_append walk_plain)

lemma normalize_clean:
  assumes "list_all clean ss" "ss \<noteq> []"
  shows "path_normalize (join slash ss) = join slash ss"
proof -
  have split: "split_on 47 (join slash ss) = ss"
    unfolding slash_def by (rule split_on_join) (use assms in \<open>auto simp: list_all_iff clean_def\<close>)
  have ne: "join slash ss \<noteq> []" "hd (join slash ss) \<noteq> 47" using join_clean_hd [OF assms] by auto
  have l: "last (join slash ss) \<noteq> 47"
  proof -
    have "ss \<noteq> [] \<Longrightarrow> list_all clean ss \<Longrightarrow> last (join slash ss) = last (last ss)" for ss
    proof (induction ss)
      case (Cons a ss)
      then have "ss \<noteq> [] \<Longrightarrow> join slash ss \<noteq> []" using join_clean_hd by auto
      then show ?case using Cons by (auto simp: join_Cons)
    qed simp
    moreover have "clean (last ss)" using assms by (simp add: list_all_iff)
    ultimately show ?thesis using assms by (metis clean_def last_in_set)
  qed
  have "join slash ss = dot \<Longrightarrow> False" using split assms by (auto simp: dot_def clean_def)
  then show ?thesis using ne l walk_id [OF assms(1), of True "[]"]
    by (simp add: path_normalize_def path_isAbsolute_def split)
qed

section \<open>Leaving a directory\<close>

text \<open>The test the program puts on a relative path: does it leave the directory it starts from?\<close>

definition leaves_root :: "jstr \<Rightarrow> bool" where
  "leaves_root child \<longleftrightarrow> child = dotdot \<or> starts_with (dotdot @ slash) child \<or> path_isAbsolute child"

lemma leaves_join: "list_all clean down \<Longrightarrow> leaves_root (join slash (map (\<lambda>_. dotdot) up @ down)) \<longleftrightarrow> up \<noteq> []"
proof (cases up)
  case (Cons u us)
  moreover have "starts_with (dotdot @ [47]) (dotdot @ 47 # t)" for t by (simp add: dotdot_def)
  ultimately show ?thesis by (auto simp: leaves_root_def join_Cons slash_def)
next
  case Nil
  assume c: "list_all clean down"
  have "\<not> leaves_root (join slash down)"
  proof (cases down)
    case Nil
    then show ?thesis by (simp add: leaves_root_def dotdot_def slash_def path_isAbsolute_def starts_with_def)
  next
    case (Cons d ds)
    with c have d: "clean d" by simp
    have "\<not> path_isAbsolute (join slash down)" using join_clean_hd [OF c] Cons by (simp add: path_isAbsolute_def)
    moreover have "join slash down \<noteq> dotdot"
    proof
      assume "join slash down = dotdot"
      then have "split_on 47 (join slash down) = [dotdot]" by (simp add: dotdot_def)
      moreover have "split_on 47 (join slash down) = down"
        unfolding slash_def by (rule split_on_join) (use c Cons in \<open>auto simp: list_all_iff clean_def\<close>)
      ultimately show False using Cons d by (simp add: clean_def)
    qed
    moreover have "\<not> starts_with (dotdot @ slash) (join slash down)"
    proof
      assume "starts_with (dotdot @ slash) (join slash down)"
      then obtain t where t: "join slash down = dotdot @ 47 # t" by (auto simp: starts_with_iff slash_def)
      have "split_on 47 (dotdot @ 47 # t) = dotdot # split_on 47 t" by (rule split_on_append) (simp add: dotdot_def)
      moreover have "split_on 47 (join slash down) = down"
        unfolding slash_def by (rule split_on_join) (use c Cons in \<open>auto simp: list_all_iff clean_def\<close>)
      ultimately show False using Cons d t by (simp add: clean_def)
    qed
    ultimately show ?thesis by (simp add: leaves_root_def)
  qed
  then show ?thesis using Nil by simp
qed

lemma of_segments_absolute [simp]: "path_isAbsolute (of_segments ss)" "of_segments ss \<noteq> []"
  by (simp_all add: of_segments_def path_isAbsolute_def slash_def)

lemma resolve_absolute [simp]: "path_isAbsolute (path_resolve wd ps)" "path_resolve wd ps \<noteq> []"
  by (simp_all add: path_resolve_def)

lemma resolve_again [simp]: "path_resolve wd [path_resolve wd [a]] = path_resolve wd [a]"
  by (simp add: path_resolve_def segments_of segments_clean)

text \<open>Being below a directory, in terms of segments.\<close>

definition below :: "jstr \<Rightarrow> jstr \<Rightarrow> jstr \<Rightarrow> bool" where
  "below wd a b \<longleftrightarrow> take (length (path_segments (path_resolve wd [a]))) (path_segments (path_resolve wd [b])) =
     path_segments (path_resolve wd [a])"

lemma below_iff: "below wd a b \<longleftrightarrow> (\<exists>r. path_segments (path_resolve wd [b]) = path_segments (path_resolve wd [a]) @ r)"
  unfolding below_def by (metis append_eq_conv_conj append_take_drop_id)

lemma relative_parts:
  "\<exists>(up :: jstr list) down. path_relative wd a b = join slash (map (\<lambda>_. dotdot) up @ down) \<and> list_all clean down \<and>
     (up = [] \<longrightarrow> path_segments (path_resolve wd [b]) = path_segments (path_resolve wd [a]) @ down) \<and>
     (up = [] \<longleftrightarrow> below wd a b)"
proof -
  let ?A = "path_segments (path_resolve wd [a])" and ?B = "path_segments (path_resolve wd [b])"
  obtain up down where d: "drop_common ?A ?B = (up, down)" by force
  from drop_common_parts [of ?A ?B] obtain c where "?B = c @ down" using d by auto
  then have "list_all clean down" using segments_clean [of "path_resolve wd [b]"] by simp
  moreover have "up = [] \<longrightarrow> ?B = ?A @ down" using drop_common_snd [of ?A ?B] d by simp
  moreover have "up = [] \<longleftrightarrow> below wd a b" using drop_common_prefix [of ?A ?B] d by (simp add: below_iff)
  moreover have "path_relative wd a b = join slash (map (\<lambda>_. dotdot) up @ down)" by (simp add: path_relative_def d)
  ultimately show ?thesis by blast
qed

lemma leaves_relative: "leaves_root (path_relative wd a b) \<longleftrightarrow> \<not> below wd a b"
  using relative_parts [of wd a b] leaves_join by metis

lemma relative_below:
  assumes "\<not> leaves_root (path_relative wd a b)"
  obtains down where "path_relative wd a b = join slash down" "list_all clean down"
    "path_segments (path_resolve wd [b]) = path_segments (path_resolve wd [a]) @ down"
proof -
  obtain up :: "jstr list" and down where d: "path_relative wd a b = join slash (map (\<lambda>_. dotdot) up @ down)" "list_all clean down"
      "up = [] \<longrightarrow> path_segments (path_resolve wd [b]) = path_segments (path_resolve wd [a]) @ down" "up = [] \<longleftrightarrow> below wd a b"
    using relative_parts [of wd a b] by blast
  then have "up = []" using assms leaves_relative by blast
  then show thesis using that d by simp
qed

end
