(* ===== verification/Command_Match.thy ===== *)
theory Command_Match
  imports Node_Paths Text_Tokens
begin

text \<open>
  Recognizing the command of a gate: \<open>src/governance/command-match.ts\<close>.

  The tokenizer keeps the token under construction and a flag that one was started; here this is one
  option, because the token is empty while the flag is off.  Strings are UTF-16 units, as in the code.
\<close>

section \<open>Tokenizing\<close>

definition MAX_SHELL_COMMAND_CHARS :: nat where "MAX_SHELL_COMMAND_CHARS = 65536"
definition MAX_OBSERVED_ARGV_ITEMS :: nat where "MAX_OBSERVED_ARGV_ITEMS = 256"

datatype token_error =
    Unusable_Command | Newline_Control | Expansion | Malformed_Escape | Unsupported_Syntax nat
  | Malformed_Quoting | Empty_Command

datatype quoting = Unquoted | Single_Quoted | Double_Quoted

definition UNSUPPORTED_UNQUOTED :: "nat list" where
  "UNSUPPORTED_UNQUOTED = js '';|&<>()$`#*?[]{}!~''"

definition finishToken :: "jstr option \<Rightarrow> jstr list \<Rightarrow> jstr list" where
  "finishToken cur argv = (case cur of None \<Rightarrow> argv | Some t \<Rightarrow> argv @ [t])"

definition text_of :: "jstr option \<Rightarrow> jstr" where
  "text_of cur = (case cur of None \<Rightarrow> [] | Some t \<Rightarrow> t)"

definition put :: "jstr option \<Rightarrow> nat \<Rightarrow> jstr option" where
  "put cur u = Some (text_of cur @ [u])"

definition line_break :: "nat \<Rightarrow> bool" where
  "line_break u \<longleftrightarrow> u = 10 \<or> u = 13"

definition double_special :: "nat \<Rightarrow> bool" where
  "double_special u \<longleftrightarrow> u = 36 \<or> u = 96 \<or> u = 34 \<or> u = 92"

fun scan_command :: "quoting \<Rightarrow> jstr option \<Rightarrow> jstr list \<Rightarrow> jstr \<Rightarrow> token_error + jstr list" where
  "scan_command q cur argv [] =
    (if q \<noteq> Unquoted then Inl Malformed_Quoting
     else if finishToken cur argv = [] then Inl Empty_Command else Inr (finishToken cur argv))"
| "scan_command q cur argv (c # s) =
    (if line_break c then Inl Newline_Control
     else (case q of
         Single_Quoted \<Rightarrow> if c = 39 then scan_command Unquoted cur argv s else scan_command Single_Quoted (put cur c) argv s
       | Double_Quoted \<Rightarrow>
           if c = 34 then scan_command Unquoted cur argv s
           else if c = 36 \<or> c = 96 then Inl Expansion
           else if c = 92 then (case s of
               [] \<Rightarrow> Inl Malformed_Escape
             | e # s' \<Rightarrow> if line_break e then Inl Malformed_Escape
                 else if double_special e then scan_command Double_Quoted (put cur e) argv s'
                 else scan_command Double_Quoted (put cur 92) argv s)
           else scan_command Double_Quoted (put cur c) argv s
       | Unquoted \<Rightarrow>
           if is_space c then scan_command Unquoted None (finishToken cur argv) s
           else if c = 39 then scan_command Single_Quoted (Some (text_of cur)) argv s
           else if c = 34 then scan_command Double_Quoted (Some (text_of cur)) argv s
           else if c = 92 then (case s of
               [] \<Rightarrow> Inl Malformed_Escape
             | e # s' \<Rightarrow> if line_break e then Inl Malformed_Escape else scan_command Unquoted (put cur e) argv s')
           else if c \<in> set UNSUPPORTED_UNQUOTED then Inl (Unsupported_Syntax c)
           else scan_command Unquoted (put cur c) argv s))"

definition tokenizeSimpleCommand :: "jstr \<Rightarrow> token_error + jstr list" where
  "tokenizeSimpleCommand command =
    (if command = [] \<or> MAX_SHELL_COMMAND_CHARS < length command \<or> 0 \<in> set command then Inl Unusable_Command
     else scan_command Unquoted None [] command)"

section \<open>Matching\<close>

record command_form =
  fm_argv :: "jstr list"
  fm_cwd :: jstr

datatype gate_parser = Node_Test | Exit_Only

record gate =
  gt_form :: command_form
  gt_parser :: gate_parser
  gt_timeout :: int
  gt_skip_max :: int
  gt_require_reasons :: bool
  gt_aliases :: "command_form list"
  gt_env_names :: "jstr list"

text \<open>An environment has own properties, whose values may be \<open>undefined\<close>.\<close>

type_synonym environment = "(jstr \<times> jstr option) list"

record observed_command =
  oc_command :: "jstr option"
  oc_argv :: "jstr list option"
  oc_cwd :: jstr
  oc_environment :: "environment option"

record match_context =
  mc_root :: jstr
  mc_environment :: "environment option"

datatype mismatch = Invalid_Command | Argv_Mismatch | Cwd_Mismatch | Env_Mismatch

text \<open>\<open>None\<close> is the primary form, \<open>Some i\<close> the alias \<open>i\<close>.\<close>

record command_match =
  cm_alias :: "nat option"
  cm_argv :: "jstr list"
  cm_cwd :: jstr

definition observedArgv :: "observed_command \<Rightarrow> jstr list option" where
  "observedArgv oc = (case oc_argv oc of
      Some argv \<Rightarrow> if argv = [] \<or> MAX_OBSERVED_ARGV_ITEMS < length argv \<or> list_ex (\<lambda>x. 0 \<in> set x) argv then None else Some argv
    | None \<Rightarrow> (case oc_command oc of
          None \<Rightarrow> None
        | Some c \<Rightarrow> (case tokenizeSimpleCommand c of Inl _ \<Rightarrow> None | Inr argv \<Rightarrow> Some argv)))"

text \<open>\<open>wd\<close> is the working directory of the process.\<close>

definition normalizedCwd :: "jstr \<Rightarrow> jstr \<Rightarrow> jstr \<Rightarrow> jstr option" where
  "normalizedCwd wd projectRoot cwd =
    (if cwd = [] \<or> 0 \<in> set cwd then None
     else let root = path_resolve wd [projectRoot];
              candidate = (if path_isAbsolute cwd then path_resolve wd [cwd] else path_resolve wd [root, cwd])
       in if leaves_root (path_relative wd root candidate) then None else Some candidate)"

definition environmentMatches :: "jstr list \<Rightarrow> environment option \<Rightarrow> environment option \<Rightarrow> bool" where
  "environmentMatches names observed expected \<longleftrightarrow> names = [] \<or>
     (case (observed, expected) of
        (Some obs, Some ex) \<Rightarrow> list_all (\<lambda>n. map_of obs n \<noteq> None \<and> map_of ex n \<noteq> None \<and> map_of obs n = map_of ex n) names
      | _ \<Rightarrow> False)"

text \<open>The loop over the forms, with \<open>sawArgv\<close> and \<open>sawCwd\<close>.\<close>

fun match_forms ::
  "jstr \<Rightarrow> match_context \<Rightarrow> observed_command \<Rightarrow> jstr list \<Rightarrow> jstr \<Rightarrow> jstr list \<Rightarrow> bool \<times> bool \<Rightarrow>
   (command_form \<times> nat option) list \<Rightarrow> mismatch + command_match" where
  "match_forms wd mc oc argv cwd names (sawArgv, sawCwd) [] =
    Inl (if \<not> sawArgv then Argv_Mismatch else if \<not> sawCwd then Cwd_Mismatch else Env_Mismatch)"
| "match_forms wd mc oc argv cwd names (sawArgv, sawCwd) ((f, i) # rest) =
    (if fm_argv f \<noteq> argv then match_forms wd mc oc argv cwd names (sawArgv, sawCwd) rest
     else if normalizedCwd wd (mc_root mc) (fm_cwd f) \<noteq> Some cwd then match_forms wd mc oc argv cwd names (True, sawCwd) rest
     else if \<not> environmentMatches names (oc_environment oc) (mc_environment mc)
       then match_forms wd mc oc argv cwd names (True, True) rest
     else Inr \<lparr> cm_alias = i, cm_argv = argv, cm_cwd = cwd \<rparr>)"

definition gate_forms :: "gate \<Rightarrow> (command_form \<times> nat option) list" where
  "gate_forms g = (gt_form g, None) # zip (gt_aliases g) (map Some [0..<length (gt_aliases g)])"

definition matchGateCommand :: "jstr \<Rightarrow> observed_command \<Rightarrow> gate \<Rightarrow> match_context \<Rightarrow> mismatch + command_match" where
  "matchGateCommand wd oc g mc =
    (case (observedArgv oc, normalizedCwd wd (mc_root mc) (oc_cwd oc)) of
       (Some argv, Some cwd) \<Rightarrow> match_forms wd mc oc argv cwd (gt_env_names g) (False, False) (gate_forms g)
     | _ \<Rightarrow> Inl Invalid_Command)"

section \<open>A grammar of simple commands\<close>

text \<open>How a word may be spelled: plain units, escaped units, and quoted parts.\<close>

datatype double_piece = D_Plain nat | D_Escaped nat | D_Backslash nat

datatype piece = P_Plain nat | P_Escaped nat | P_Single jstr | P_Double "double_piece list"

fun d_text :: "double_piece \<Rightarrow> jstr" where
  "d_text (D_Plain u) = [u]" | "d_text (D_Escaped u) = [92, u]" | "d_text (D_Backslash u) = [92, u]"

fun d_value :: "double_piece \<Rightarrow> jstr" where
  "d_value (D_Plain u) = [u]" | "d_value (D_Escaped u) = [u]" | "d_value (D_Backslash u) = [92, u]"

fun d_ok :: "double_piece \<Rightarrow> bool" where
  "d_ok (D_Plain u) \<longleftrightarrow> \<not> line_break u \<and> \<not> double_special u"
| "d_ok (D_Escaped u) \<longleftrightarrow> double_special u"
| "d_ok (D_Backslash u) \<longleftrightarrow> \<not> line_break u \<and> \<not> double_special u"

fun p_text :: "piece \<Rightarrow> jstr" where
  "p_text (P_Plain u) = [u]" | "p_text (P_Escaped u) = [92, u]"
| "p_text (P_Single s) = 39 # s @ [39]" | "p_text (P_Double ds) = 34 # concat (map d_text ds) @ [34]"

fun p_value :: "piece \<Rightarrow> jstr" where
  "p_value (P_Plain u) = [u]" | "p_value (P_Escaped u) = [u]"
| "p_value (P_Single s) = s" | "p_value (P_Double ds) = concat (map d_value ds)"

definition plain_unit :: "nat \<Rightarrow> bool" where
  "plain_unit u \<longleftrightarrow> \<not> is_space u \<and> \<not> line_break u \<and> u \<notin> {39, 34, 92} \<and> u \<notin> set UNSUPPORTED_UNQUOTED"

fun p_ok :: "piece \<Rightarrow> bool" where
  "p_ok (P_Plain u) \<longleftrightarrow> plain_unit u"
| "p_ok (P_Escaped u) \<longleftrightarrow> \<not> line_break u"
| "p_ok (P_Single s) \<longleftrightarrow> list_all (\<lambda>u. \<not> line_break u \<and> u \<noteq> 39) s"
| "p_ok (P_Double ds) \<longleftrightarrow> list_all d_ok ds"

abbreviation word_text :: "piece list \<Rightarrow> jstr" where "word_text ps \<equiv> concat (map p_text ps)"
abbreviation word_value :: "piece list \<Rightarrow> jstr" where "word_value ps \<equiv> concat (map p_value ps)"

definition blank :: "nat \<Rightarrow> bool" where
  "blank u \<longleftrightarrow> is_space u \<and> \<not> line_break u"

text \<open>A command spells its words: blanks, words that end at a blank or at the end, and nothing else.\<close>

inductive spells :: "jstr \<Rightarrow> jstr list \<Rightarrow> bool" where
  spells_end: "list_all blank s \<Longrightarrow> spells s []"
| spells_word: "spells rest vs \<Longrightarrow> list_all blank gap \<Longrightarrow> ps \<noteq> [] \<Longrightarrow> list_all p_ok ps \<Longrightarrow> (rest = [] \<or> blank (hd rest)) \<Longrightarrow>
    spells (gap @ word_text ps @ rest) (word_value ps # vs)"

inductive_cases spells_none: "spells s []"
inductive_cases spells_some: "spells s (v # vs)"

end
