(* ===== verification/Command_Match_Properties.thy ===== *)
theory Command_Match_Properties
  imports Command_Match
begin

text \<open>
  The tokenizer accepts exactly the commands of the grammar and yields the words they spell; what a
  matched gate tells about the observed command; and the white space on which tokenizer and shell differ.
\<close>

section \<open>Spelled commands are accepted\<close>

lemma scan_blank: "blank c \<Longrightarrow> scan_command Unquoted cur argv (c # s) = scan_command Unquoted None (finishToken cur argv) s"
  by (simp add: blank_def)

lemma scan_blanks: "list_all blank gap \<Longrightarrow> scan_command Unquoted None argv (gap @ s) = scan_command Unquoted None argv s"
  by (induction gap) (simp_all add: scan_blank finishToken_def del: scan_command.simps(2))

lemma scan_single:
  "list_all (\<lambda>u. \<not> line_break u \<and> u \<noteq> 39) x \<Longrightarrow>
    scan_command Single_Quoted (Some t) argv (x @ 39 # s) = scan_command Unquoted (Some (t @ x)) argv s"
  by (induction x arbitrary: t) (simp_all add: put_def text_of_def line_break_def)

lemma scan_double:
  "list_all d_ok ds \<Longrightarrow> scan_command Double_Quoted (Some t) argv (concat (map d_text ds) @ 34 # s) =
    scan_command Unquoted (Some (t @ concat (map d_value ds))) argv s"
proof (induction ds arbitrary: t)
  case (Cons d ds)
  then show ?case by (cases d) (auto simp: put_def text_of_def line_break_def double_special_def)
qed (simp add: line_break_def)

lemma scan_piece:
  assumes "p_ok p"
  shows "scan_command Unquoted cur argv (p_text p @ s) = scan_command Unquoted (Some (text_of cur @ p_value p)) argv s"
proof (cases p)
  case (P_Plain u)
  then show ?thesis using assms by (auto simp: plain_unit_def put_def)
next
  case (P_Escaped u)
  then show ?thesis using assms by (auto simp: put_def line_break_def is_space_def)
next
  case (P_Single x)
  then show ?thesis using assms scan_single [of x "text_of cur"] by (simp add: line_break_def is_space_def)
next
  case (P_Double ds)
  then show ?thesis using assms scan_double [of ds "text_of cur"] by (simp add: line_break_def is_space_def)
qed

lemma scan_word:
  "list_all p_ok ps \<Longrightarrow> scan_command Unquoted (Some t) argv (word_text ps @ s) =
    scan_command Unquoted (Some (t @ word_value ps)) argv s"
  by (induction ps arbitrary: t) (simp_all add: scan_piece text_of_def del: scan_command.simps(2))

lemma scan_finished:
  assumes "rest = [] \<or> blank (hd rest)"
  shows "scan_command Unquoted (Some v) argv rest = scan_command Unquoted None (argv @ [v]) rest"
proof (cases rest)
  case (Cons c s)
  then show ?thesis using assms scan_blank [of c "Some v" argv s] scan_blank [of c None "argv @ [v]" s]
    by (simp add: finishToken_def del: scan_command.simps(2))
qed (simp add: finishToken_def)

lemma spells_scanned:
  "spells s vs \<Longrightarrow> scan_command Unquoted None argv s = (if argv @ vs = [] then Inl Empty_Command else Inr (argv @ vs))"
proof (induction arbitrary: argv rule: spells.induct)
  case (spells_end s)
  then show ?case using scan_blanks [of s argv "[]"] by (simp add: finishToken_def)
next
  case (spells_word rest vs gap ps)
  obtain p ps' where ps: "ps = p # ps'" using spells_word.hyps by (cases ps) auto
  have "scan_command Unquoted None argv (gap @ word_text ps @ rest) = scan_command Unquoted (Some (word_value ps)) argv rest"
    using spells_word.hyps scan_word [of ps' "p_value p" argv rest]
    by (simp add: scan_blanks ps scan_piece text_of_def del: scan_command.simps(2))
  also have "\<dots> = scan_command Unquoted None (argv @ [word_value ps]) rest" using spells_word.hyps by (intro scan_finished) simp
  finally show ?case using spells_word.IH by simp
qed

section \<open>Accepted commands are spelled\<close>

definition started :: "jstr list \<Rightarrow> jstr \<Rightarrow> jstr \<Rightarrow> jstr list \<Rightarrow> bool" where
  "started argv t s r \<longleftrightarrow> (\<exists>ps rest vs. s = word_text ps @ rest \<and> list_all p_ok ps \<and> (rest = [] \<or> blank (hd rest)) \<and>
     spells rest vs \<and> r = argv @ (t @ word_value ps) # vs)"

definition reads :: "quoting \<Rightarrow> jstr option \<Rightarrow> jstr list \<Rightarrow> jstr \<Rightarrow> jstr list \<Rightarrow> bool" where
  "reads q cur argv s r \<longleftrightarrow> (case q of
      Unquoted \<Rightarrow> (case cur of None \<Rightarrow> \<exists>vs. r = argv @ vs \<and> spells s vs | Some t \<Rightarrow> started argv t s r)
    | Single_Quoted \<Rightarrow> \<exists>x s'. s = x @ 39 # s' \<and> list_all (\<lambda>u. \<not> line_break u \<and> u \<noteq> 39) x \<and> started argv (text_of cur @ x) s' r
    | Double_Quoted \<Rightarrow> \<exists>ds s'. s = concat (map d_text ds) @ 34 # s' \<and> list_all d_ok ds \<and>
        started argv (text_of cur @ concat (map d_value ds)) s' r)"

lemma spells_blank:
  assumes "spells s vs" "blank c"
  shows "spells (c # s) vs"
  using assms(1)
proof cases
  case spells_end
  with assms(2) show ?thesis by (auto intro: spells.spells_end)
next
  case (spells_word rest vs gap ps)
  then show ?thesis using assms(2) spells.spells_word [of rest vs "c # gap" ps] by simp
qed

lemma reads_piece:
  assumes "p_ok p" "started argv (text_of cur @ p_value p) s r"
  shows "reads Unquoted cur argv (p_text p @ s) r"
proof -
  from assms(2) obtain ps rest vs where s: "s = word_text ps @ rest" "list_all p_ok ps" "rest = [] \<or> blank (hd rest)"
      "spells rest vs" "r = argv @ ((text_of cur @ p_value p) @ word_value ps) # vs"
    unfolding started_def by blast
  show ?thesis
  proof (cases cur)
    case None
    have "spells ([] @ word_text (p # ps) @ rest) (word_value (p # ps) # vs)"
      by (rule spells.spells_word) (use s assms(1) in simp_all)
    then show ?thesis using s None by (auto simp: reads_def text_of_def)
  next
    case (Some t)
    then have "p_text p @ s = word_text (p # ps) @ rest \<and> list_all p_ok (p # ps) \<and> (rest = [] \<or> blank (hd rest)) \<and>
        spells rest vs \<and> r = argv @ (t @ word_value (p # ps)) # vs" using s assms(1) by (simp add: text_of_def)
    then show ?thesis unfolding reads_def started_def quoting.case Some option.case by blast
  qed
qed

lemma reads_blank:
  assumes "blank c" "reads Unquoted None (finishToken cur argv) s r"
  shows "reads Unquoted cur argv (c # s) r"
proof (cases cur)
  case None
  then show ?thesis using assms by (auto simp: reads_def finishToken_def intro: spells_blank)
next
  case (Some t)
  from assms(2) obtain vs where "r = argv @ t # vs" "spells s vs" by (auto simp: reads_def finishToken_def Some)
  then have "c # s = word_text [] @ c # s \<and> list_all p_ok [] \<and> (c # s = [] \<or> blank (hd (c # s))) \<and>
      spells (c # s) vs \<and> r = argv @ (t @ word_value []) # vs" using assms(1) by (simp add: spells_blank)
  then show ?thesis unfolding reads_def started_def quoting.case Some option.case by blast
qed

lemma reads_quoted:
  "reads Single_Quoted (Some (text_of cur)) argv s r \<Longrightarrow> reads Unquoted cur argv (39 # s) r"
  "reads Double_Quoted (Some (text_of cur)) argv s r \<Longrightarrow> reads Unquoted cur argv (34 # s) r"
proof -
  assume "reads Single_Quoted (Some (text_of cur)) argv s r"
  then obtain x s' where "s = x @ 39 # s'" "list_all (\<lambda>u. \<not> line_break u \<and> u \<noteq> 39) x" "started argv (text_of cur @ x) s' r"
    by (auto simp: reads_def text_of_def)
  then show "reads Unquoted cur argv (39 # s) r" using reads_piece [of "P_Single x" argv cur s' r] by simp
next
  assume "reads Double_Quoted (Some (text_of cur)) argv s r"
  then obtain ds s' where "s = concat (map d_text ds) @ 34 # s'" "list_all d_ok ds"
      "started argv (text_of cur @ concat (map d_value ds)) s' r"
    by (auto simp: reads_def text_of_def)
  then show "reads Unquoted cur argv (34 # s) r" using reads_piece [of "P_Double ds" argv cur s' r] by simp
qed

lemma reads_single:
  "\<not> line_break c \<Longrightarrow> c \<noteq> 39 \<Longrightarrow> reads Single_Quoted (put cur c) argv s r \<Longrightarrow> reads Single_Quoted cur argv (c # s) r"
proof -
  assume c: "\<not> line_break c" "c \<noteq> 39" and "reads Single_Quoted (put cur c) argv s r"
  then obtain x s' where "s = x @ 39 # s'" "list_all (\<lambda>u. \<not> line_break u \<and> u \<noteq> 39) x" "started argv (text_of cur @ c # x) s' r"
    by (auto simp: reads_def put_def text_of_def)
  then have "c # s = (c # x) @ 39 # s' \<and> list_all (\<lambda>u. \<not> line_break u \<and> u \<noteq> 39) (c # x) \<and>
      started argv (text_of cur @ c # x) s' r" using c by simp
  then show ?thesis unfolding reads_def quoting.case by blast
qed

lemma reads_double:
  assumes "d_ok d" "reads Double_Quoted (Some (text_of cur @ d_value d)) argv s r"
  shows "reads Double_Quoted cur argv (d_text d @ s) r"
proof -
  from assms(2) obtain ds s' where "s = concat (map d_text ds) @ 34 # s'" "list_all d_ok ds"
      "started argv (text_of cur @ d_value d @ concat (map d_value ds)) s' r"
    by (auto simp: reads_def text_of_def)
  then have "d_text d @ s = concat (map d_text (d # ds)) @ 34 # s' \<and> list_all d_ok (d # ds) \<and>
      started argv (text_of cur @ concat (map d_value (d # ds))) s' r" using assms(1) by simp
  then show ?thesis unfolding reads_def quoting.case by blast
qed

lemma reads_end: "cur = None \<longrightarrow> argv \<noteq> [] \<Longrightarrow> reads Unquoted cur argv [] (finishToken cur argv)"
  by (cases cur) (auto simp: reads_def finishToken_def started_def intro!: spells.spells_end exI [of _ "[]"])

lemma started_reads: "reads Unquoted (Some t) argv s r \<longleftrightarrow> started argv t s r"
  by (simp add: reads_def)

lemma reads_closed:
  "started argv t s r \<Longrightarrow> reads Single_Quoted (Some t) argv (39 # s) r"
  "started argv t s r \<Longrightarrow> reads Double_Quoted (Some t) argv (34 # s) r"
proof -
  assume "started argv t s r"
  then have "39 # s = [] @ 39 # s \<and> list_all (\<lambda>u. \<not> line_break u \<and> u \<noteq> 39) [] \<and> started argv (text_of (Some t) @ []) s r"
    by (simp add: text_of_def)
  then show "reads Single_Quoted (Some t) argv (39 # s) r" unfolding reads_def quoting.case by blast
next
  assume "started argv t s r"
  then have "34 # s = concat (map d_text []) @ 34 # s \<and> list_all d_ok [] \<and>
      started argv (text_of (Some t) @ concat (map d_value [])) s r"
    by (simp add: text_of_def)
  then show "reads Double_Quoted (Some t) argv (34 # s) r" unfolding reads_def quoting.case by blast
qed

lemma double_unit:
  assumes "\<not> line_break e" "\<not> double_special e"
  shows "scan_command Double_Quoted cur argv (e # s) = scan_command Double_Quoted (put cur e) argv s"
  using assms by (simp add: double_special_def)

lemma scanned_reads:
  "scan_command q cur argv s = Inr r \<Longrightarrow> q = Unquoted \<or> cur \<noteq> None \<Longrightarrow> reads q cur argv s r"
proof (induction s arbitrary: q cur argv r rule: length_induct)
  case (1 s)
  have IH: "reads q' cur' argv' t r'"
    if "length t < length s" "scan_command q' cur' argv' t = Inr r'" "q' = Unquoted \<or> cur' \<noteq> None" for q' cur' argv' t r'
    using 1 that by blast
  show ?case
  proof (cases s)
    case Nil
    with "1.prems"(1) have "q = Unquoted" "r = finishToken cur argv" "finishToken cur argv \<noteq> []" by (simp_all split: if_splits)
    moreover from this have "cur = None \<longrightarrow> argv \<noteq> []" by (auto simp: finishToken_def)
    ultimately show ?thesis using reads_end [of cur argv] Nil by simp
  next
    case (Cons c s')
    have nl: "\<not> line_break c" using "1.prems"(1) Cons by (auto split: if_splits)
    have shorter: "length s' < length s" by (simp add: Cons)
    show ?thesis
    proof (cases q)
      case Single_Quoted
      then obtain t where t: "cur = Some t" using "1.prems"(2) by auto
      show ?thesis
      proof (cases "c = 39")
        case True
        then have "reads Unquoted cur argv s' r" using IH [OF shorter] "1.prems"(1) Cons Single_Quoted nl by simp
        then show ?thesis using reads_closed(1) True Cons Single_Quoted t by (simp add: started_reads)
      next
        case False
        then have "reads Single_Quoted (put cur c) argv s' r"
          using IH [OF shorter] "1.prems"(1) Cons Single_Quoted nl by (simp add: put_def)
        then show ?thesis using reads_single nl False Cons Single_Quoted by simp
      qed
    next
      case Double_Quoted
      then obtain t where t: "cur = Some t" using "1.prems"(2) by auto
      consider (close) "c = 34" | (escape) "c = 92" | (plain) "\<not> double_special c"
        using "1.prems"(1) Cons Double_Quoted nl by (auto simp: double_special_def split: if_splits)
      then show ?thesis
      proof cases
        case close
        then have "reads Unquoted cur argv s' r" using IH [OF shorter] "1.prems"(1) Cons Double_Quoted nl by simp
        then show ?thesis using reads_closed(2) close Cons Double_Quoted t by (simp add: started_reads)
      next
        case escape
        then obtain e s'' where e: "s' = e # s''" "\<not> line_break e"
          using "1.prems"(1) Cons Double_Quoted nl by (cases s') (auto split: if_splits)
        have shorter': "length s'' < length s" by (simp add: Cons e)
        show ?thesis
        proof (cases "double_special e")
          case True
          then have "reads Double_Quoted (put cur e) argv s'' r"
            using IH [OF shorter'] "1.prems"(1) Cons Double_Quoted nl e escape by (simp add: put_def)
          then show ?thesis using reads_double [of "D_Escaped e" cur argv s'' r] True Cons e escape Double_Quoted
            by (simp add: put_def)
        next
          case False
          then have "scan_command Double_Quoted (put cur 92) argv (e # s'') = Inr r"
            using "1.prems"(1) Cons Double_Quoted nl e escape by simp
          then have "scan_command Double_Quoted (put (put cur 92) e) argv s'' = Inr r" by (simp only: double_unit [OF e(2) False])
          then have "reads Double_Quoted (put (put cur 92) e) argv s'' r" using IH [OF shorter'] by (simp add: put_def)
          then show ?thesis using reads_double [of "D_Backslash e" cur argv s'' r] False Cons e escape Double_Quoted
            by (simp add: put_def text_of_def)
        qed
      next
        case plain
        then have "scan_command Double_Quoted (put cur c) argv s' = Inr r"
          using "1.prems"(1) Cons Double_Quoted double_unit [OF nl plain] by metis
        then have "reads Double_Quoted (put cur c) argv s' r" using IH [OF shorter] by (simp add: put_def)
        then show ?thesis using reads_double [of "D_Plain c" cur argv s' r] plain nl Cons Double_Quoted by (simp add: put_def)
      qed
    next
      case Unquoted
      consider (space) "is_space c" | (single) "\<not> is_space c" "c = 39" | (double) "\<not> is_space c" "c = 34"
        | (escape) "\<not> is_space c" "c = 92" | (plain) "plain_unit c"
        using "1.prems"(1) Cons Unquoted nl by (auto simp: plain_unit_def split: if_splits)
      then show ?thesis
      proof cases
        case space
        then have "reads Unquoted None (finishToken cur argv) s' r" using IH [OF shorter] "1.prems"(1) Cons Unquoted nl by simp
        then show ?thesis using reads_blank [of c] space nl Cons Unquoted by (simp add: blank_def)
      next
        case single
        then have "reads Single_Quoted (Some (text_of cur)) argv s' r"
          using IH [OF shorter] "1.prems"(1) Cons Unquoted nl by simp
        then show ?thesis using reads_quoted(1) single Cons Unquoted by simp
      next
        case double
        then have "reads Double_Quoted (Some (text_of cur)) argv s' r"
          using IH [OF shorter] "1.prems"(1) Cons Unquoted nl by simp
        then show ?thesis using reads_quoted(2) double Cons Unquoted by simp
      next
        case escape
        then obtain e s'' where e: "s' = e # s''" "\<not> line_break e"
          using "1.prems"(1) Cons Unquoted nl by (cases s') (auto split: if_splits)
        then have "reads Unquoted (put cur e) argv s'' r"
          using IH [of s''] "1.prems"(1) Cons Unquoted nl escape by simp
        then show ?thesis using reads_piece [of "P_Escaped e" argv cur s'' r] e Cons escape Unquoted
          by (simp add: put_def started_reads)
      next
        case plain
        then have "reads Unquoted (put cur c) argv s' r"
          using IH [OF shorter] "1.prems"(1) Cons Unquoted nl by (simp add: plain_unit_def)
        then show ?thesis using reads_piece [of "P_Plain c" argv cur s' r] plain Cons Unquoted by (simp add: put_def started_reads)
      qed
    qed
  qed
qed

lemma tokenizer_accepts:
  assumes "tokenizeSimpleCommand s = Inr argv"
  shows "argv \<noteq> [] \<and> length s \<le> MAX_SHELL_COMMAND_CHARS \<and> 0 \<notin> set s \<and> spells s argv"
proof -
  from assms have usable: "length s \<le> MAX_SHELL_COMMAND_CHARS" "0 \<notin> set s" and run: "scan_command Unquoted None [] s = Inr argv"
    by (auto simp: tokenizeSimpleCommand_def split: if_splits)
  have sp: "spells s argv" using scanned_reads [OF run] by (simp add: reads_def)
  then have "argv \<noteq> []" using run spells_scanned [OF sp, of "[]"] by auto
  then show ?thesis using usable sp by simp
qed

text \<open>C0. The tokenizer of \<open>command-match.ts\<close> accepts exactly the usable strings (at most 65536 units, no NUL) that the
  grammar of simple commands derives with at least one word, and it returns exactly the words they spell: nothing
  outside the grammar (an operator, an expansion, a glob, an open quote, a trailing backslash) is accepted, and every
  way of quoting a word gives that word.\<close>

theorem tokenizer_is_grammar:
  "tokenizeSimpleCommand s = Inr argv \<longleftrightarrow>
    argv \<noteq> [] \<and> length s \<le> MAX_SHELL_COMMAND_CHARS \<and> 0 \<notin> set s \<and> spells s argv"
proof
  assume "tokenizeSimpleCommand s = Inr argv"
  then show "argv \<noteq> [] \<and> length s \<le> MAX_SHELL_COMMAND_CHARS \<and> 0 \<notin> set s \<and> spells s argv" by (rule tokenizer_accepts)
next
  assume a: "argv \<noteq> [] \<and> length s \<le> MAX_SHELL_COMMAND_CHARS \<and> 0 \<notin> set s \<and> spells s argv"
  then have "scan_command Unquoted None [] s = Inr argv" using spells_scanned [of s argv "[]"] by simp
  moreover from this have "s \<noteq> []" by (auto simp: finishToken_def)
  ultimately show "tokenizeSimpleCommand s = Inr argv" using a by (simp add: tokenizeSimpleCommand_def)
qed

section \<open>What a match tells\<close>

lemma normalized_below: "normalizedCwd wd dir cwd = Some c \<Longrightarrow> below wd dir c"
proof -
  assume "normalizedCwd wd dir cwd = Some c"
  then have "\<not> leaves_root (path_relative wd (path_resolve wd [dir]) c)"
    by (auto simp: normalizedCwd_def Let_def split: if_splits)
  then have "below wd (path_resolve wd [dir]) c" by (simp add: leaves_relative)
  then show ?thesis by (simp add: below_def resolve_again)
qed

text \<open>A form answers for the command: words, directory and environment.\<close>

definition answers :: "jstr \<Rightarrow> match_context \<Rightarrow> observed_command \<Rightarrow> jstr list \<Rightarrow> jstr \<Rightarrow> jstr list \<Rightarrow> command_form \<Rightarrow> bool" where
  "answers wd mc oc argv cwd names f \<longleftrightarrow> fm_argv f = argv \<and> normalizedCwd wd (mc_root mc) (fm_cwd f) = Some cwd \<and>
     environmentMatches names (oc_environment oc) (mc_environment mc)"

lemma match_forms_Inr:
  "match_forms wd mc oc argv cwd names saw fs = Inr m \<longleftrightarrow>
    (\<exists>f. find (\<lambda>(f, i). answers wd mc oc argv cwd names f) fs = Some (f, cm_alias m)) \<and> cm_argv m = argv \<and> cm_cwd m = cwd"
proof (induction fs arbitrary: saw)
  case Nil
  show ?case by (cases saw) simp
next
  case (Cons x fs)
  obtain f i where x: "x = (f, i)" by force
  obtain a b where saw: "saw = (a, b)" by force
  show ?case
  proof (cases "answers wd mc oc argv cwd names f")
    case True
    then show ?thesis by (cases m) (auto simp: x saw answers_def)
  next
    case False
    then obtain saw' where "match_forms wd mc oc argv cwd names saw (x # fs) = match_forms wd mc oc argv cwd names saw' fs"
      unfolding answers_def x saw match_forms.simps by metis
    then show ?thesis unfolding Cons.IH [of saw', symmetric] by (simp add: x False Cons.IH)
  qed
qed

lemma matchGateCommand_Inr:
  assumes "matchGateCommand wd oc g mc = Inr m"
  shows "observedArgv oc = Some (cm_argv m) \<and> normalizedCwd wd (mc_root mc) (oc_cwd oc) = Some (cm_cwd m) \<and>
    (\<exists>f. find (\<lambda>(f, i). answers wd mc oc (cm_argv m) (cm_cwd m) (gt_env_names g) f) (gate_forms g) = Some (f, cm_alias m))"
proof -
  from assms obtain argv cwd where oc: "observedArgv oc = Some argv" "normalizedCwd wd (mc_root mc) (oc_cwd oc) = Some cwd"
    unfolding matchGateCommand_def by (auto split: option.splits)
  with assms have "match_forms wd mc oc argv cwd (gt_env_names g) (False, False) (gate_forms g) = Inr m"
    by (simp add: matchGateCommand_def)
  then show ?thesis using oc unfolding match_forms_Inr by simp
qed

lemma find_holds: "find P xs = Some x \<Longrightarrow> P x \<and> x \<in> set xs"
  by (induction xs) (auto split: if_splits)

text \<open>C0. A command text that is matched to a gate is a simple command that spells, word for word, the argument vector
  of the gate's own form or of one of its aliases; it ran in the directory of that form, which lies in the project root;
  and every environment name of the gate had the expected value.\<close>

theorem matched_command_is_the_gates:
  assumes "matchGateCommand wd oc g mc = Inr m" and "oc_argv oc = None"
  shows "\<exists>s f. oc_command oc = Some s \<and> spells s (fm_argv f) \<and> (f, cm_alias m) \<in> set (gate_forms g) \<and> cm_argv m = fm_argv f \<and>
    normalizedCwd wd (mc_root mc) (oc_cwd oc) = Some (cm_cwd m) \<and>
    normalizedCwd wd (mc_root mc) (fm_cwd f) = Some (cm_cwd m) \<and> below wd (mc_root mc) (cm_cwd m) \<and>
    environmentMatches (gt_env_names g) (oc_environment oc) (mc_environment mc)"
proof -
  from matchGateCommand_Inr [OF assms(1)] obtain f where f:
      "observedArgv oc = Some (cm_argv m)" "normalizedCwd wd (mc_root mc) (oc_cwd oc) = Some (cm_cwd m)"
      "find (\<lambda>(f, i). answers wd mc oc (cm_argv m) (cm_cwd m) (gt_env_names g) f) (gate_forms g) = Some (f, cm_alias m)"
    by blast
  from f(1) assms(2) obtain s where s: "oc_command oc = Some s" "tokenizeSimpleCommand s = Inr (cm_argv m)"
    by (auto simp: observedArgv_def split: option.splits sum.splits)
  have "spells s (cm_argv m)" using tokenizer_accepts [OF s(2)] by simp
  moreover have "answers wd mc oc (cm_argv m) (cm_cwd m) (gt_env_names g) f \<and> (f, cm_alias m) \<in> set (gate_forms g)"
    using find_holds [OF f(3)] by simp
  ultimately show ?thesis using s(1) f(2) normalized_below [OF f(2)] unfolding answers_def by metis
qed

definition sample_gate :: gate where
  "sample_gate = \<lparr> gt_form = \<lparr> fm_argv = [js ''npm'', js ''test''], fm_cwd = js ''.'' \<rparr>, gt_parser = Node_Test, gt_timeout = 60000,
     gt_skip_max = 0, gt_require_reasons = False,
     gt_aliases = [\<lparr> fm_argv = [js ''node'', js ''--test'', js ''a b''], fm_cwd = js ''pkg'' \<rparr>], gt_env_names = [js ''CI''] \<rparr>"

definition sample_context :: match_context where
  "sample_context = \<lparr> mc_root = js ''/repo'', mc_environment = Some [(js ''CI'', Some (js ''1''))] \<rparr>"

definition sample_observed :: observed_command where
  "sample_observed = \<lparr> oc_command = Some (js ''node  --te'' @ [39] @ js ''st'' @ [39] @ js '' a'' @ [92, 32] @ js ''b''),
     oc_argv = None, oc_cwd = js ''/repo/x/../pkg/'', oc_environment = Some [(js ''CI'', Some (js ''1'')), (js ''HOME'', None)] \<rparr>"

definition sample_match :: command_match where
  "sample_match = \<lparr> cm_alias = Some 0, cm_argv = [js ''node'', js ''--test'', js ''a b''], cm_cwd = js ''/repo/pkg'' \<rparr>"

lemmas path_eval = path_isAbsolute_def path_segments_def path_resolve_def path_relative_def of_segments_def dot_def dotdot_def
  slash_def leaves_root_def normalizedCwd_def Let_def starts_with_def

lemmas match_eval = path_eval matchGateCommand_def observedArgv_def tokenizeSimpleCommand_def MAX_SHELL_COMMAND_CHARS_def
  line_break_def is_space_def UNSUPPORTED_UNQUOTED_def finishToken_def put_def text_of_def double_special_def gate_forms_def
  environmentMatches_def

lemma sample_matched: "matchGateCommand (js ''/tmp'') sample_observed sample_gate sample_context = Inr sample_match"
  by (simp add: sample_observed_def sample_gate_def sample_context_def sample_match_def match_eval js_def upt_rec)

theorem matched_command_is_the_gates_witness:
  "oc_argv sample_observed = None \<and> (\<exists>s f. oc_command sample_observed = Some s \<and> spells s (fm_argv f) \<and>
    (f, Some 0) \<in> set (gate_forms sample_gate) \<and> fm_argv f = [js ''node'', js ''--test'', js ''a b''])"
proof -
  have none: "oc_argv sample_observed = None" by (simp add: sample_observed_def)
  show ?thesis using matched_command_is_the_gates [OF sample_matched none] none by (auto simp: sample_match_def)
qed

section \<open>White space the shell does not know\<close>

text \<open>\<open>/\s/\<close> knows more white space than a shell: a no-break space separates words here, while a shell keeps it in the word.
  So a command that runs a program of another name is matched to the gate.\<close>

lemma no_break_space_splits: "tokenizeSimpleCommand (js ''npm'' @ [160] @ js ''test'') = Inr [js ''npm'', js ''test'']"
  by (simp add: match_eval js_def)

end
