(* ===== verification/Mutation_Classifier.thy ===== *)
theory Mutation_Classifier
  imports Command_Match_Properties Json
begin

text \<open>
  What an observed event may have changed: \<open>src/governance/mutation-classifier.ts\<close>, with the events of
  \<open>src/governance/types.ts\<close>.  The class \<open>none\<close> is claimed only for read-only commands, \<open>scoped\<close> comes with the
  changed paths relative to the project root, and everything else is \<open>unknown\<close>.
\<close>

section \<open>Events\<close>

datatype capture_status = Cap_Complete | Cap_Failed | Cap_Incomplete | Cap_Adapter_Error

datatype tool_outcome = Out_Success | Out_Failure | Out_Unknown_Failure

datatype mutation_class = Mut_None | Mut_Scoped | Mut_Unknown

record command_input =
  ci_shell :: "jstr option"
  ci_argv :: "jstr list option"

record tool_event =
  te_cwd :: jstr
  te_capture :: capture_status
  te_tool :: jstr
  te_input :: "(jstr \<times> json) list"
  te_command :: "command_input option"
  te_outcome :: tool_outcome

datatype adapted_event = Adapter_Error | File_Changed (fc_cwd: jstr) (fc_path: jstr) | Tool tool_event

record mutation =
  mu_class :: mutation_class
  mu_paths :: "jstr list"
  mu_allowlist :: "nat option"
  mu_reason :: jstr

section \<open>Classification\<close>

definition READ_ONLY_COMMAND_ALLOWLIST_VERSION :: nat where "READ_ONLY_COMMAND_ALLOWLIST_VERSION = 1"

definition READ_ONLY_COMMANDS_V1 :: "jstr list list" where
  "READ_ONLY_COMMANDS_V1 = map (map js)
    [[''pwd''], [''git'', ''status''], [''git'', ''status'', ''--short''], [''git'', ''diff'', ''--quiet''],
     [''git'', ''diff'', ''--cached'', ''--quiet''], [''git'', ''rev-parse'', ''--is-inside-work-tree''],
     [''git'', ''status'', ''--porcelain=v2'', ''-z'', ''--untracked-files=all'']]"

definition commandArgv :: "command_input option \<Rightarrow> jstr list option" where
  "commandArgv command = (case command of
      None \<Rightarrow> None
    | Some ci \<Rightarrow> (case ci_argv ci of
          Some argv \<Rightarrow> Some argv
        | None \<Rightarrow> (case ci_shell ci of
              None \<Rightarrow> None
            | Some s \<Rightarrow> (case tokenizeSimpleCommand s of Inl _ \<Rightarrow> None | Inr argv \<Rightarrow> Some argv))))"

text \<open>\<open>path.replaceAll('\\', '/')\<close> and the drive letter of \<open>/^[A-Za-z]:/\<close>.\<close>

definition slashed :: "jstr \<Rightarrow> jstr" where
  "slashed p = map (\<lambda>u. if u = 92 then 47 else u) p"

fun drive_letter :: "jstr \<Rightarrow> bool" where
  "drive_letter (a # b # _) \<longleftrightarrow> (is_lower a \<or> is_upper a) \<and> b = 58"
| "drive_letter _ \<longleftrightarrow> False"

definition normalizedTarget :: "jstr \<Rightarrow> jstr \<Rightarrow> jstr \<Rightarrow> jstr option" where
  "normalizedTarget wd root_dir target =
    (if target = [] \<or> 0 \<in> set target \<or> drive_letter target then None
     else let slashPath = slashed target
       in if dotdot \<in> set (split_on 47 slashPath) then None
          else let canonicalRoot = path_resolve wd [root_dir];
                   absolute = (if path_isAbsolute slashPath then path_resolve wd [slashPath]
                     else path_resolve wd [canonicalRoot, slashPath]);
                   child = path_relative wd canonicalRoot absolute
            in if child = [] \<or> leaves_root child then None else Some (path_normalize (slashed child)))"

definition file_path_of :: "json \<Rightarrow> jstr option" where
  "file_path_of j = (case j of JObj kvs \<Rightarrow> (case obj_get (js ''file_path'') kvs of Some (JStr s) \<Rightarrow> Some s | _ \<Rightarrow> None) | _ \<Rightarrow> None)"

definition editTargets :: "jstr \<Rightarrow> (jstr \<times> json) list \<Rightarrow> jstr list option" where
  "editTargets toolName toolInput =
    (let own = file_path_of (JObj toolInput);
         more = (if toolName = js ''MultiEdit''
           then (case obj_get (js ''edits'') toolInput of Some (JArr es) \<Rightarrow> List.map_filter file_path_of es | _ \<Rightarrow> []) else []);
         rawTargets = (case own of Some s \<Rightarrow> s # more | None \<Rightarrow> more)
     in if own = None \<and> toolName \<noteq> js ''MultiEdit'' then None
        else if rawTargets = [] then None else Some (dedup rawTargets))"

definition unknown_mutation :: "string \<Rightarrow> nat option \<Rightarrow> mutation" where
  "unknown_mutation reason version = \<lparr> mu_class = Mut_Unknown, mu_paths = [], mu_allowlist = version, mu_reason = js reason \<rparr>"

definition edit_tool :: "jstr \<Rightarrow> bool" where
  "edit_tool t \<longleftrightarrow> t = js ''Write'' \<or> t = js ''Edit'' \<or> t = js ''MultiEdit''"

definition classifyMutation :: "jstr \<Rightarrow> adapted_event \<Rightarrow> mutation" where
  "classifyMutation wd event =
    (case event of
       Adapter_Error \<Rightarrow> unknown_mutation ''adapter_error'' None
     | File_Changed cwd filePath \<Rightarrow> (case normalizedTarget wd cwd filePath of
           None \<Rightarrow> unknown_mutation ''invalid FileChanged path'' None
         | Some p \<Rightarrow> \<lparr> mu_class = Mut_Scoped, mu_paths = [p], mu_allowlist = None, mu_reason = js ''FileChanged'' \<rparr>)
     | Tool te \<Rightarrow>
         if te_capture te \<noteq> Cap_Complete then unknown_mutation ''incomplete tool event'' None
         else if edit_tool (te_tool te) then
           (if te_outcome te \<noteq> Out_Success then unknown_mutation ''edit tool did not complete successfully'' None
            else (case editTargets (te_tool te) (te_input te) of
                None \<Rightarrow> unknown_mutation ''edit tool target is missing'' None
              | Some rawTargets \<Rightarrow> let normalized = map (normalizedTarget wd (te_cwd te)) rawTargets
                  in if None \<in> set normalized then unknown_mutation ''edit tool target is invalid'' None
                     else \<lparr> mu_class = Mut_Scoped, mu_paths = sort (dedup (map the normalized)), mu_allowlist = None,
                            mu_reason = js ''successful edit tool'' \<rparr>))
         else if te_tool te = js ''Bash'' then
           (if te_outcome te \<noteq> Out_Success then unknown_mutation ''failed Bash may have mutated'' None
            else (case commandArgv (te_command te) of
                None \<Rightarrow> unknown_mutation ''Bash command is not one simple command'' (Some READ_ONLY_COMMAND_ALLOWLIST_VERSION)
              | Some argv \<Rightarrow>
                  if argv \<in> set READ_ONLY_COMMANDS_V1
                  then \<lparr> mu_class = Mut_None, mu_paths = [], mu_allowlist = Some READ_ONLY_COMMAND_ALLOWLIST_VERSION,
                         mu_reason = js ''exact read-only command'' \<rparr>
                  else unknown_mutation ''Bash command is not on the exact read-only allowlist''
                    (Some READ_ONLY_COMMAND_ALLOWLIST_VERSION)))
         else unknown_mutation ''unknown tool'' None)"

section \<open>Reported paths\<close>

lemma slashed_no_backslash: "92 \<notin> set (slashed p)"
  by (auto simp: slashed_def)

lemma slashed_id: "92 \<notin> set p \<Longrightarrow> slashed p = p"
  unfolding slashed_def by (rule map_idI) auto

text \<open>A path of the project: clean segments, and where it lies below the root.\<close>

definition path_below :: "jstr \<Rightarrow> jstr \<Rightarrow> jstr \<Rightarrow> jstr \<Rightarrow> bool" where
  "path_below wd dir target p \<longleftrightarrow> (\<exists>ss. ss \<noteq> [] \<and> list_all clean ss \<and> p = join slash ss \<and>
     path_segments (path_resolve wd [path_resolve wd [dir], slashed target]) = path_segments (path_resolve wd [dir]) @ ss)"

lemma normalizedTarget_below:
  assumes "normalizedTarget wd dir target = Some p"
  shows "path_below wd dir target p"
proof -
  let ?t = "slashed target" and ?R = "path_resolve wd [dir]"
  let ?C = "path_resolve wd [?R, ?t]"
  from assms have t: "target \<noteq> []" "dotdot \<notin> set (split_on 47 ?t)"
    by (auto simp: normalizedTarget_def Let_def split: if_splits)
  then have ne: "?t \<noteq> []" by (simp add: slashed_def)
  have same: "(if path_isAbsolute ?t then path_resolve wd [?t] else ?C) = ?C"
    using ne by (simp add: path_resolve_def)
  from assms same have rel: "\<not> leaves_root (path_relative wd ?R ?C)" "path_relative wd ?R ?C \<noteq> []"
      "p = path_normalize (slashed (path_relative wd ?R ?C))"
    by (auto simp: normalizedTarget_def Let_def split: if_splits)
  from relative_below [OF rel(1)] obtain down where d: "path_relative wd ?R ?C = join slash down" "list_all clean down"
      "path_segments ?C = path_segments ?R @ down"
    by (auto simp: path_resolve_def segments_of segments_clean)
  have down_ne: "down \<noteq> []" using rel(2) d(1) by auto
  have "\<forall>s\<in>set down. 92 \<notin> set s"
  proof (cases "path_isAbsolute ?t")
    case True
    then have "path_segments ?C = path_segments ?t" using ne by (simp add: resolve_segments)
    then have "set down \<subseteq> set (split_on 47 ?t)" using d(3) walk_subset [of "[]" "split_on 47 ?t"]
      by (auto simp: path_segments_def)
    then show ?thesis using set_split_on slashed_no_backslash by fastforce
  next
    case False
    then have "path_segments ?C = path_segments (?R @ slash @ ?t)" using ne by (simp add: resolve_segments)
    also have "\<dots> = path_segments ?R @ filter (\<lambda>s. s \<noteq> [] \<and> s \<noteq> dot) (split_on 47 ?t)"
      using segments_append [OF t(2)] by simp
    finally have "set down \<subseteq> set (split_on 47 ?t)" using d(3) by auto
    then show ?thesis using set_split_on slashed_no_backslash by fastforce
  qed
  then have "92 \<notin> set (join slash down)" using set_join [of slash down] by (auto simp: slash_def)
  then have "p = join slash down" using rel(3) d by (simp add: slashed_id normalize_clean down_ne)
  then show ?thesis unfolding path_below_def using down_ne d by blast
qed

section \<open>The class never understates\<close>

definition event_targets :: "adapted_event \<Rightarrow> (jstr \<times> jstr list) option" where
  "event_targets event = (case event of
      Adapter_Error \<Rightarrow> None
    | File_Changed cwd p \<Rightarrow> Some (cwd, [p])
    | Tool te \<Rightarrow> map_option (Pair (te_cwd te)) (editTargets (te_tool te) (te_input te)))"

lemma scoped_paths:
  assumes "None \<notin> set (map (normalizedTarget wd dir) ts)"
  shows "(\<forall>t\<in>set ts. \<exists>p\<in>set (map the (map (normalizedTarget wd dir) ts)). path_below wd dir t p) \<and>
    (\<forall>p\<in>set (map the (map (normalizedTarget wd dir) ts)). \<exists>t\<in>set ts. path_below wd dir t p)"
proof -
  have "path_below wd dir t (the (normalizedTarget wd dir t))" if "t \<in> set ts" for t
  proof -
    have "normalizedTarget wd dir t \<noteq> None" using assms that by (metis image_eqI list.set_map)
    then obtain p where "normalizedTarget wd dir t = Some p" by blast
    then show ?thesis using normalizedTarget_below by simp
  qed
  then show ?thesis by (simp only: list.set_map image_iff bex_simps ball_simps) blast
qed

lemma class_none:
  assumes "mu_class (classifyMutation wd event) = Mut_None"
  shows "\<exists>te argv. event = Tool te \<and> te_capture te = Cap_Complete \<and> te_outcome te = Out_Success \<and> te_tool te = js ''Bash'' \<and>
    commandArgv (te_command te) = Some argv \<and> argv \<in> set READ_ONLY_COMMANDS_V1"
  using assms
  by (auto simp: classifyMutation_def unknown_mutation_def Let_def split: adapted_event.splits option.splits if_splits)

lemma class_scoped:
  assumes "mu_class (classifyMutation wd event) = Mut_Scoped"
  shows "\<exists>dir ts. event_targets event = Some (dir, ts) \<and> ts \<noteq> [] \<and> None \<notin> set (map (normalizedTarget wd dir) ts) \<and>
    mu_paths (classifyMutation wd event) = sort (dedup (map the (map (normalizedTarget wd dir) ts)))"
proof (cases event)
  case Adapter_Error
  then show ?thesis using assms by (simp add: classifyMutation_def unknown_mutation_def)
next
  case (File_Changed cwd path)
  then obtain p where "normalizedTarget wd cwd path = Some p"
    using assms by (auto simp: classifyMutation_def unknown_mutation_def split: option.splits)
  then show ?thesis by (simp add: File_Changed classifyMutation_def event_targets_def)
next
  case (Tool te)
  then obtain ts where ts: "editTargets (te_tool te) (te_input te) = Some ts" "te_capture te = Cap_Complete"
      "edit_tool (te_tool te)" "te_outcome te = Out_Success" "None \<notin> set (map (normalizedTarget wd (te_cwd te)) ts)"
    using assms by (auto simp: classifyMutation_def unknown_mutation_def Let_def split: option.splits if_splits)
  moreover from ts(1) have "ts \<noteq> []" by (auto simp: editTargets_def Let_def split: if_splits)
  ultimately show ?thesis by (simp add: Tool event_targets_def classifyMutation_def Let_def)
qed

lemma read_only_text:
  assumes "commandArgv command = Some argv"
  shows "\<exists>ci. command = Some ci \<and> (ci_argv ci = Some argv \<or> ci_argv ci = None \<and> (\<exists>s. ci_shell ci = Some s \<and> spells s argv))"
  using assms tokenizer_accepts unfolding commandArgv_def by (auto split: option.splits sum.splits)

text \<open>C0. The mutation classifier never understates a change.  It calls an event harmless only when it is a completely
  captured, successful shell command that is word for word on the read-only list (and, as a text, spells it); it calls
  an event scoped only with a sorted list of clean relative paths in which every target of the event occurs, resolved
  below the project directory, and nothing else.  Everything else is of unknown effect.\<close>

theorem mutation_never_understated:
  "(mu_class (classifyMutation wd event) = Mut_None \<longrightarrow> (\<exists>te ci argv. event = Tool te \<and> te_capture te = Cap_Complete \<and>
      te_outcome te = Out_Success \<and> te_tool te = js ''Bash'' \<and> te_command te = Some ci \<and> argv \<in> set READ_ONLY_COMMANDS_V1 \<and>
      (ci_argv ci = Some argv \<or> ci_argv ci = None \<and> (\<exists>s. ci_shell ci = Some s \<and> spells s argv)))) \<and>
   (mu_class (classifyMutation wd event) = Mut_Scoped \<longrightarrow> (\<exists>dir ts. event_targets event = Some (dir, ts) \<and> ts \<noteq> [] \<and>
      sorted (mu_paths (classifyMutation wd event)) \<and> distinct (mu_paths (classifyMutation wd event)) \<and>
      (\<forall>t\<in>set ts. \<exists>p\<in>set (mu_paths (classifyMutation wd event)). path_below wd dir t p) \<and>
      (\<forall>p\<in>set (mu_paths (classifyMutation wd event)). \<exists>t\<in>set ts. path_below wd dir t p)))"
proof (intro conjI impI)
  assume "mu_class (classifyMutation wd event) = Mut_None"
  from class_none [OF this] obtain te argv where te: "event = Tool te" "te_capture te = Cap_Complete"
      "te_outcome te = Out_Success" "te_tool te = js ''Bash''" "commandArgv (te_command te) = Some argv"
      "argv \<in> set READ_ONLY_COMMANDS_V1" by blast
  with read_only_text [OF te(5)] show "\<exists>te ci argv. event = Tool te \<and> te_capture te = Cap_Complete \<and>
      te_outcome te = Out_Success \<and> te_tool te = js ''Bash'' \<and> te_command te = Some ci \<and> argv \<in> set READ_ONLY_COMMANDS_V1 \<and>
      (ci_argv ci = Some argv \<or> ci_argv ci = None \<and> (\<exists>s. ci_shell ci = Some s \<and> spells s argv))" by blast
next
  let ?ps = "mu_paths (classifyMutation wd event)"
  assume "mu_class (classifyMutation wd event) = Mut_Scoped"
  from class_scoped [OF this] obtain dir ts where ts: "event_targets event = Some (dir, ts)" "ts \<noteq> []"
      "None \<notin> set (map (normalizedTarget wd dir) ts)" "?ps = sort (dedup (map the (map (normalizedTarget wd dir) ts)))" by blast
  have "set ?ps = set (map the (map (normalizedTarget wd dir) ts))" unfolding ts(4) by simp
  moreover have "sorted ?ps \<and> distinct ?ps" unfolding ts(4) by simp
  ultimately show "\<exists>dir ts. event_targets event = Some (dir, ts) \<and> ts \<noteq> [] \<and> sorted ?ps \<and> distinct ?ps \<and>
      (\<forall>t\<in>set ts. \<exists>p\<in>set ?ps. path_below wd dir t p) \<and> (\<forall>p\<in>set ?ps. \<exists>t\<in>set ts. path_below wd dir t p)"
    using scoped_paths [OF ts(3)] ts(1,2) by metis
qed

definition sample_edit :: adapted_event where
  "sample_edit = Tool \<lparr> te_cwd = js ''/repo'', te_capture = Cap_Complete, te_tool = js ''MultiEdit'',
     te_input = [(js ''file_path'', JStr (js ''src//b.ts'')), (js ''edits'', JArr [JObj [(js ''file_path'', JStr (js ''/repo/./a.ts''))], JNull])],
     te_command = None, te_outcome = Out_Success \<rparr>"

lemma sample_edit_class:
  "mu_class (classifyMutation (js ''/'') sample_edit) = Mut_Scoped \<and>
    mu_paths (classifyMutation (js ''/'') sample_edit) = [js ''a.ts'', js ''src/b.ts'']"
  by (simp add: sample_edit_def classifyMutation_def edit_tool_def editTargets_def file_path_of_def normalizedTarget_def
      slashed_def path_normalize_def path_eval js_def List.map_filter_def)

theorem mutation_never_understated_witness:
  "mu_class (classifyMutation (js ''/'') sample_edit) = Mut_Scoped \<and>
    (\<exists>p\<in>set (mu_paths (classifyMutation (js ''/'') sample_edit)). path_below (js ''/'') (js ''/repo'') (js ''/repo/./a.ts'') p)"
proof -
  have e: "event_targets sample_edit = Some (js ''/repo'', [js ''src//b.ts'', js ''/repo/./a.ts''])"
    by (simp add: sample_edit_def event_targets_def editTargets_def file_path_of_def js_def List.map_filter_def)
  obtain dir ts where d: "event_targets sample_edit = Some (dir, ts)"
      "\<forall>t\<in>set ts. \<exists>p\<in>set (mu_paths (classifyMutation (js ''/'') sample_edit)). path_below (js ''/'') dir t p"
    using mutation_never_understated [of "js ''/''" sample_edit] sample_edit_class by blast
  have "dir = js ''/repo''" "js ''/repo/./a.ts'' \<in> set ts" using d(1) unfolding e by auto
  then show ?thesis using d(2) sample_edit_class by blast
qed

end
