(* ===== verification/Evidence_Selector.thy ===== *)
theory Evidence_Selector
  imports Mutation_Classifier Regex
begin

text \<open>
  Which gates a change requires and what counts as evidence for them: \<open>src/governance/evidence-selector.ts\<close>.
  Globs are compiled to regular expressions of theory \<open>Regex\<close>, which match code points.
\<close>

section \<open>Globs\<close>

definition normalizePattern :: "jstr \<Rightarrow> jstr" where
  "normalizePattern path =
    (let n = path_normalize (slashed path); stripped = (if starts_with (dot @ slash) n then drop 2 n else n)
     in if stripped = [] then dot else stripped)"

text \<open>The code points of a string, as the flag \<open>u\<close> reads it.\<close>

fun points :: "jstr \<Rightarrow> nat list" where
  "points (u # v # s) =
    (if is_high u \<and> is_low v then (65536 + (u - 55296) * 1024 + (v - 56320)) # points s else u # points (v # s))"
| "points s = s"

abbreviation dot_class :: "nat \<Rightarrow> bool" where "dot_class u \<equiv> \<not> is_line_terminator u"
abbreviation no_slash :: "nat \<Rightarrow> bool" where "no_slash u \<equiv> u \<noteq> 47"

fun glob_parts :: "nat list \<Rightarrow> regex list" where
  "glob_parts [] = []"
| "glob_parts (u # s) =
    (if u = 42 then (case s of
         v # t \<Rightarrow> if v = 42 then (case t of
               w # t' \<Rightarrow> if w = 47 then Opt (Cat (Many 0 dot_class) (Unit 47)) # glob_parts t' else Many 0 dot_class # glob_parts t
             | [] \<Rightarrow> [Many 0 dot_class])
           else Many 0 no_slash # glob_parts s
       | [] \<Rightarrow> [Many 0 no_slash])
     else if u = 63 then Cls no_slash # glob_parts s
     else Unit u # glob_parts s)"

definition globRegex :: "jstr \<Rightarrow> regex" where
  "globRegex pattern = cats (glob_parts (points pattern))"

text \<open>\<open>/[\[\]{}]/\<close>: what the globs do not support.\<close>

definition widened :: "jstr \<Rightarrow> bool" where
  "widened pattern \<longleftrightarrow> list_ex (\<lambda>u. u = 91 \<or> u = 93 \<or> u = 123 \<or> u = 125) pattern"

definition pathMatchesPatterns :: "jstr \<Rightarrow> jstr list \<Rightarrow> bool" where
  "pathMatchesPatterns path patterns =
    (let normalized = map normalizePattern patterns
     in normalized = [] \<or> list_ex widened normalized \<or>
        list_ex (\<lambda>pattern. re_full (globRegex pattern) (points (normalizePattern path))) normalized)"

section \<open>Requirements\<close>

record evidence_rule =
  er_id :: jstr
  er_revision :: int
  er_gates :: "jstr list"
  er_paths :: "jstr list"
  er_watermark :: int

record path_rule =
  pr_paths :: "jstr list"
  pr_require :: "jstr list"

record evidence_event =
  ee_seq :: int
  ee_mutation_seq :: int
  ee_class :: mutation_class
  ee_paths :: "jstr list"

record requirements =
  rq_rules :: "evidence_rule list"
  rq_gates :: "jstr list"
  rq_paths :: "(jstr \<times> jstr list) list"
  rq_watermarks :: "(jstr \<times> int) list"
  rq_changed :: "jstr list"
  rq_unknown :: bool

definition mutationIntersects :: "evidence_event \<Rightarrow> jstr list \<Rightarrow> bool" where
  "mutationIntersects event relevantPaths =
    (case ee_class event of
       Mut_Unknown \<Rightarrow> True
     | Mut_None \<Rightarrow> False
     | Mut_Scoped \<Rightarrow> list_ex (\<lambda>p. pathMatchesPatterns p relevantPaths) (ee_paths event))"

definition star_star :: jstr where "star_star = js ''**''"

definition changed_paths :: "evidence_event list \<Rightarrow> jstr list" where
  "changed_paths evs = sort (dedup (concat (map (\<lambda>e. map normalizePattern (ee_paths e)) (filter (\<lambda>e. ee_class e = Mut_Scoped) evs))))"

definition unknown_among :: "evidence_event list \<Rightarrow> bool" where
  "unknown_among evs = list_ex (\<lambda>e. ee_class e = Mut_Unknown) evs"

definition applicable_rules :: "evidence_rule list \<Rightarrow> evidence_event list \<Rightarrow> evidence_rule list" where
  "applicable_rules rules evs = filter (\<lambda>r. unknown_among evs \<or> er_paths r = [] \<or>
     list_ex (\<lambda>p. pathMatchesPatterns p (er_paths r)) (changed_paths evs)) rules"

definition selected_path_rules :: "path_rule list \<Rightarrow> evidence_event list \<Rightarrow> path_rule list" where
  "selected_path_rules prs evs =
    (if unknown_among evs then filter (\<lambda>r. list_ex (\<lambda>p. normalizePattern p = star_star) (pr_paths r)) prs
     else filter (\<lambda>r. list_ex (\<lambda>p. pathMatchesPatterns p (pr_paths r)) (changed_paths evs)) prs)"

definition required_gates :: "evidence_rule list \<Rightarrow> path_rule list \<Rightarrow> evidence_event list \<Rightarrow> jstr list" where
  "required_gates rules prs evs = sort (dedup (concat (map pr_require (selected_path_rules prs evs)) @
     concat (map er_gates (applicable_rules rules evs))))"

definition relevant_paths :: "evidence_rule list \<Rightarrow> path_rule list \<Rightarrow> evidence_event list \<Rightarrow> jstr \<Rightarrow> jstr list" where
  "relevant_paths rules prs evs gate =
    (let paths = concat (map (\<lambda>r. map normalizePattern (pr_paths r)) (filter (\<lambda>r. gate \<in> set (pr_require r)) prs)) @
           concat (map (\<lambda>r. if er_paths r = [] then [star_star] else map normalizePattern (er_paths r))
             (filter (\<lambda>r. gate \<in> set (er_gates r)) (applicable_rules rules evs)))
     in sort (dedup (if paths = [] then [star_star] else paths)))"

definition gate_watermark :: "evidence_rule list \<Rightarrow> evidence_event list \<Rightarrow> int" where
  "gate_watermark rules evs = fold (\<lambda>r m. max m (er_watermark r)) (applicable_rules rules evs) 0"

definition selectEvidenceRequirements :: "evidence_rule list \<Rightarrow> path_rule list \<Rightarrow> evidence_event list \<Rightarrow> requirements" where
  "selectEvidenceRequirements rules prs evs =
    (let gates = required_gates rules prs evs
     in \<lparr> rq_rules = sort_key er_id (sort_key er_revision (applicable_rules rules evs)), rq_gates = gates,
          rq_paths = map (\<lambda>g. (g, relevant_paths rules prs evs g)) gates,
          rq_watermarks = map (\<lambda>g. (g, gate_watermark rules evs)) gates,
          rq_changed = changed_paths evs, rq_unknown = unknown_among evs \<rparr>)"

section \<open>Evidence\<close>

record gate_run =
  gr_gate :: jstr
  gr_seq :: int
  gr_mutation_seq :: int
  gr_config :: jstr
  gr_parser :: jstr
  gr_parser_version :: int
  gr_total :: "int option"
  gr_pass :: "int option"
  gr_fail :: "int option"
  gr_skip :: "int option"
  gr_reasons_complete :: "bool option"
  gr_digest :: "jstr option"
  gr_digest_version :: "int option"
  gr_paths_sha :: "jstr option"
  gr_capture :: capture_status

record evidence_policy =
  ep_parser :: gate_parser
  ep_skip_max :: int
  ep_require_reasons :: bool

datatype gate_state = Fresh_Pass | Missing | Non_Pass | Stale_Mutation | Stale_Digest | Self_Error

datatype gate_reason =
    R_Fresh_Pass | R_No_Eligible_Run | R_Capture_Incomplete | R_Recorded_Non_Pass | R_Unsupported_Parser_Version
  | R_Impossible_Counts | R_Digest_Version_Requires_Rerun | R_Digest_Unavailable | R_Relevant_Paths_Mismatch
  | R_Later_Unknown_Mutation | R_Later_Scoped_Mutation | R_Worktree_Digest_Changed

record classified =
  cl_state :: gate_state
  cl_reason :: gate_reason
  cl_seq :: "int option"
  cl_invalidating :: "int option"

record worktree_digest =
  wd_complete :: bool
  wd_digest :: "jstr option"
  wd_version :: int
  wd_paths_sha :: jstr
  wd_reason :: "jstr option"

definition NODE_TEST_PARSER_VERSION :: int where "NODE_TEST_PARSER_VERSION = 1"
definition EXIT_ONLY_PARSER_VERSION :: int where "EXIT_ONLY_PARSER_VERSION = 1"
definition WORKTREE_DIGEST_V2_VERSION :: int where "WORKTREE_DIGEST_V2_VERSION = 2"

definition parser_name :: "gate_parser \<Rightarrow> jstr" where
  "parser_name p = (case p of Node_Test \<Rightarrow> js ''node-test'' | Exit_Only \<Rightarrow> js ''exit-only'')"

definition selectLatestEligibleGateRun :: "jstr \<Rightarrow> jstr \<Rightarrow> int \<Rightarrow> gate_run list \<Rightarrow> gate_run option" where
  "selectLatestEligibleGateRun gateId configSha256 watermark rs =
    (case sort_key (\<lambda>r. - gr_seq r) (filter (\<lambda>r. gr_gate r = gateId \<and> gr_config r = configSha256 \<and> watermark < gr_seq r) rs) of
       [] \<Rightarrow> None | r # _ \<Rightarrow> Some r)"

definition validCount :: "int option \<Rightarrow> bool" where
  "validCount v = (case v of None \<Rightarrow> False | Some n \<Rightarrow> 0 \<le> n \<and> n \<le> 9007199254740991)"

definition verdict_of :: "gate_state \<Rightarrow> gate_reason \<Rightarrow> gate_run \<Rightarrow> classified" where
  "verdict_of st reason run = \<lparr> cl_state = st, cl_reason = reason, cl_seq = Some (gr_seq run), cl_invalidating = None \<rparr>"

definition impossible_counts :: "gate_run \<Rightarrow> bool" where
  "impossible_counts run \<longleftrightarrow> \<not> validCount (gr_total run) \<or> \<not> validCount (gr_pass run) \<or> \<not> validCount (gr_fail run) \<or>
     \<not> validCount (gr_skip run) \<or> the (gr_total run) < the (gr_pass run) + the (gr_fail run) + the (gr_skip run)"

definition policy_broken :: "gate_run \<Rightarrow> evidence_policy \<Rightarrow> bool" where
  "policy_broken run policy \<longleftrightarrow> the (gr_total run) = 0 \<or> the (gr_fail run) \<noteq> 0 \<or> ep_skip_max policy < the (gr_skip run) \<or>
     ep_require_reasons policy \<and> 0 < the (gr_skip run) \<and> gr_reasons_complete run \<noteq> Some True"

definition parserState :: "gate_run \<Rightarrow> evidence_policy \<Rightarrow> classified option" where
  "parserState run policy =
    (if gr_parser run \<noteq> parser_name (ep_parser policy) \<or>
        gr_parser_version run \<noteq> (case ep_parser policy of Node_Test \<Rightarrow> NODE_TEST_PARSER_VERSION | Exit_Only \<Rightarrow> EXIT_ONLY_PARSER_VERSION)
     then Some (verdict_of Self_Error R_Unsupported_Parser_Version run)
     else if gr_capture run = Cap_Failed then Some (verdict_of Non_Pass R_Recorded_Non_Pass run)
     else if gr_capture run \<noteq> Cap_Complete then Some (verdict_of Missing R_Capture_Incomplete run)
     else (case ep_parser policy of
         Node_Test \<Rightarrow>
           if impossible_counts run then Some (verdict_of Self_Error R_Impossible_Counts run)
           else if policy_broken run policy then Some (verdict_of Non_Pass R_Recorded_Non_Pass run)
           else None
       | Exit_Only \<Rightarrow>
           if gr_total run \<noteq> None \<or> gr_pass run \<noteq> None \<or> gr_fail run \<noteq> None \<or> gr_skip run \<noteq> None
           then Some (verdict_of Self_Error R_Impossible_Counts run) else None))"

definition classifyGateEvidence ::
  "gate_run option \<Rightarrow> evidence_policy \<Rightarrow> jstr list \<Rightarrow> evidence_event list \<Rightarrow> worktree_digest option \<Rightarrow> classified" where
  "classifyGateEvidence run_opt policy relevantPaths laterEvents currentDigest =
    (case run_opt of
       None \<Rightarrow> \<lparr> cl_state = Missing, cl_reason = R_No_Eligible_Run, cl_seq = None, cl_invalidating = None \<rparr>
     | Some run \<Rightarrow> (case parserState run policy of
           Some c \<Rightarrow> c
         | None \<Rightarrow>
             if gr_digest_version run \<noteq> Some WORKTREE_DIGEST_V2_VERSION then verdict_of Missing R_Digest_Version_Requires_Rerun run
             else (case (gr_digest run, currentDigest) of
                 (Some digest, Some cur) \<Rightarrow>
                   if \<not> wd_complete cur \<or> wd_digest cur = None then verdict_of Self_Error R_Digest_Unavailable run
                   else if gr_paths_sha run \<noteq> Some (wd_paths_sha cur) then verdict_of Missing R_Relevant_Paths_Mismatch run
                   else (case find (\<lambda>e. mutationIntersects e relevantPaths)
                         (sort_key ee_seq (filter (\<lambda>e. gr_seq run < ee_seq e) laterEvents)) of
                       Some e \<Rightarrow>
                         (if ee_class e = Mut_Unknown then (verdict_of Stale_Mutation R_Later_Unknown_Mutation run) \<lparr> cl_invalidating := Some (ee_seq e) \<rparr>
                          else (verdict_of Stale_Mutation R_Later_Scoped_Mutation run) \<lparr> cl_invalidating := Some (ee_seq e) \<rparr>)
                     | None \<Rightarrow> if Some digest \<noteq> wd_digest cur then verdict_of Stale_Digest R_Worktree_Digest_Changed run
                         else verdict_of Fresh_Pass R_Fresh_Pass run)
               | _ \<Rightarrow> verdict_of Self_Error R_Digest_Unavailable run)))"

end
