(* ===== verification/Evidence_Facts.thy ===== *)
theory Evidence_Facts
  imports Evidence_Selector
begin

text \<open>
  Facts about evidence: normalizing a pattern twice changes nothing, the relevant paths of a gate cover the paths of
  the rules that require it, and what a fresh pass of a gate means.
\<close>

section \<open>Normal patterns\<close>

definition normal :: "bool \<Rightarrow> jstr list \<Rightarrow> bool" where
  "normal rel ss \<longleftrightarrow> (\<exists>k cs. ss = replicate k dotdot @ cs \<and> list_all clean cs \<and> (rel \<or> k = 0))"

lemma not_clean_dotdot: "\<not> clean dotdot"
  by (simp add: clean_def)

lemma normal_snoc: "normal rel ss \<Longrightarrow> clean s \<Longrightarrow> normal rel (ss @ [s])"
  unfolding normal_def
proof (elim exE conjE)
  fix k cs
  assume "ss = replicate k dotdot @ cs" "list_all clean cs" "rel \<or> k = 0" "clean s"
  then have "ss @ [s] = replicate k dotdot @ (cs @ [s]) \<and> list_all clean (cs @ [s]) \<and> (rel \<or> k = 0)" by simp
  then show "\<exists>k cs. ss @ [s] = replicate k dotdot @ cs \<and> list_all clean cs \<and> (rel \<or> k = 0)" by blast
qed

lemma normal_pop:
  assumes "normal rel (ss @ [t])"
  shows "t = dotdot \<Longrightarrow> normal rel (ss @ [t, dotdot])" and "t \<noteq> dotdot \<Longrightarrow> normal rel ss"
proof -
  from assms obtain k cs where n: "ss @ [t] = replicate k dotdot @ cs" "list_all clean cs" "rel \<or> k = 0"
    unfolding normal_def by blast
  show "t = dotdot \<Longrightarrow> normal rel (ss @ [t, dotdot])"
  proof -
    assume t: "t = dotdot"
    have "cs = []"
    proof (rule ccontr)
      assume "cs \<noteq> []"
      then have "last cs = t" using n(1) by (metis last_appendR last_snoc)
      then show False using n(2) t \<open>cs \<noteq> []\<close> not_clean_dotdot by (metis last_in_set list_all_iff)
    qed
    then have ss: "ss @ [t] = replicate k dotdot" "k \<noteq> 0" using n(1) by (cases k; simp)+
    have "ss @ [t, dotdot] = (ss @ [t]) @ [dotdot]" by simp
    also have "\<dots> = replicate (Suc k) dotdot" unfolding ss by (simp add: replicate_append_same)
    finally have "ss @ [t, dotdot] = replicate (Suc k) dotdot @ [] \<and> list_all clean [] \<and> (rel \<or> Suc k = 0)" using n(3) ss by simp
    then show ?thesis unfolding normal_def by blast
  qed
  show "normal rel ss" if t: "t \<noteq> dotdot"
  proof (cases cs rule: rev_cases)
    case Nil
    then have "t \<in> set (replicate k dotdot)" using n(1) by (metis append_Nil2 in_set_conv_decomp)
    then show ?thesis using t by simp
  next
    case (snoc cs' c)
    then have "ss = replicate k dotdot @ cs' \<and> list_all clean cs' \<and> (rel \<or> k = 0)" using n by simp
    then show ?thesis unfolding normal_def by blast
  qed
qed

lemma walk_normal:
  assumes "normal rel (rev st)" "\<And>s. s \<in> set ss \<Longrightarrow> 47 \<notin> set s"
  shows "normal rel (walk rel st ss)"
  using assms
proof (induction rel st ss rule: walk.induct)
  case (2 rel st s ss)
  consider (skip) "s = [] \<or> s = dot" | (up) "s = dotdot" | (push) "clean s" using "2.prems"(2) by (auto simp: clean_def)
  then show ?case
  proof cases
    case skip
    then show ?thesis using 2 by (auto simp: dot_def dotdot_def)
  next
    case up
    then have ne: "\<not> (s = [] \<or> s = dot)" by (simp add: dot_def dotdot_def)
    show ?thesis
    proof (cases st)
      case Nil
      have "normal rel (rev (if rel then [dotdot] else []))"
        unfolding normal_def by (rule exI [of _ "if rel then 1 else 0"], rule exI [of _ "[]"]) simp
      then show ?thesis using "2.IH"(2) [OF ne up Nil] "2.prems"(2) ne up Nil by simp
    next
      case (Cons t ts)
      then have n: "normal rel (rev ts @ [t])" using "2.prems"(1) by simp
      show ?thesis
      proof (cases "t = dotdot")
        case True
        then show ?thesis using "2.IH"(3) [OF ne up Cons True] normal_pop(1) [OF n True] "2.prems"(2) ne up Cons by simp
      next
        case False
        then show ?thesis using "2.IH"(4) [OF ne up Cons False] normal_pop(2) [OF n False] "2.prems"(2) ne up Cons by simp
      qed
    qed
  next
    case push
    then have ne: "\<not> (s = [] \<or> s = dot)" "s \<noteq> dotdot" by (auto simp: clean_def)
    then show ?thesis using "2.IH"(5) [OF ne] normal_snoc [OF "2.prems"(1) push] "2.prems"(2) by simp
  qed
qed simp

lemma walk_dotdots: "list_all (\<lambda>s. s = dotdot) st \<Longrightarrow> walk True st (replicate k dotdot @ ss) = walk True (replicate k dotdot @ st) ss"
proof (induction k arbitrary: st)
  case (Suc k)
  have "walk True st (dotdot # replicate k dotdot @ ss) = walk True (dotdot # st) (replicate k dotdot @ ss)"
    using Suc.prems by (cases st) (auto simp: dot_def dotdot_def)
  also have "\<dots> = walk True (replicate k dotdot @ dotdot # st) ss" using Suc by simp
  finally show ?case by (simp add: replicate_app_Cons_same)
qed simp

lemma walk_of_normal:
  assumes "normal rel ss"
  shows "walk rel [] ss = ss"
proof -
  from assms obtain k cs where n: "ss = replicate k dotdot @ cs" "list_all clean cs" "rel \<or> k = 0"
    unfolding normal_def by blast
  show ?thesis
  proof (cases rel)
    case True
    then show ?thesis using n walk_dotdots [of "[]" k cs] walk_id [OF n(2)] by simp
  next
    case False
    then show ?thesis using n walk_id [OF n(2)] by simp
  qed
qed

lemma walk_trailing: "walk rel st (ss @ [[]]) = walk rel st ss"
proof (cases rel)
  case True
  then have rel: "rel = True" by simp
  show ?thesis unfolding rel by (induction ss arbitrary: st) (simp_all split: list.split)
next
  case False
  then have rel: "rel = False" by simp
  show ?thesis unfolding rel by (induction ss arbitrary: st) (simp_all split: list.split)
qed

lemma normal_pieces:
  assumes "normal rel ss" "s \<in> set ss"
  shows "s \<noteq> [] \<and> 47 \<notin> set s \<and> s \<noteq> dot"
proof -
  from assms have "s = dotdot \<or> clean s" unfolding normal_def by (auto simp: list_all_iff)
  then show ?thesis by (auto simp: clean_def dotdot_def dot_def)
qed

lemma join_pieces_ends:
  assumes "ss \<noteq> []" "\<And>s. s \<in> set ss \<Longrightarrow> s \<noteq> [] \<and> 47 \<notin> set s"
  shows "join slash ss \<noteq> [] \<and> hd (join slash ss) \<noteq> 47 \<and> last (join slash ss) \<noteq> 47"
  using assms
proof (induction ss)
  case (Cons s ss)
  then have s: "s \<noteq> []" "hd s \<noteq> 47" "last s \<noteq> 47" by (metis hd_in_set last_in_set list.set_intros(1))+
  show ?case
  proof (cases "ss = []")
    case False
    then have "join slash ss \<noteq> [] \<and> last (join slash ss) \<noteq> 47" using Cons by simp
    then show ?thesis using s False by (simp add: join_Cons)
  qed (use s in simp)
qed simp

definition path_text :: "bool \<Rightarrow> jstr list \<Rightarrow> bool \<Rightarrow> jstr" where
  "path_text absolute ss trailing = (if absolute then slash else []) @ join slash ss @ (if trailing then slash else [])"

lemma normalize_path_text:
  assumes n: "normal (\<not> absolute) ss" and ne: "ss \<noteq> []"
  shows "path_normalize (path_text absolute ss trailing) = path_text absolute ss trailing"
proof -
  let ?p = "path_text absolute ss trailing"
  have j: "join slash ss \<noteq> []" "hd (join slash ss) \<noteq> 47" "last (join slash ss) \<noteq> 47"
    using join_pieces_ends [OF ne] normal_pieces [OF n] by auto
  have split: "split_on 47 (join slash ss) = ss"
    unfolding slash_def by (rule split_on_join [OF ne]) (use normal_pieces [OF n] in auto)
  have pieces: "split_on 47 ?p = (if absolute then [[]] else []) @ ss @ (if trailing then [[]] else [])"
    using split_on_slash [of 47 "join slash ss" "[]"] by (simp add: path_text_def slash_def split [unfolded slash_def])
  have "walk (\<not> absolute) [] (split_on 47 ?p) = ss"
    unfolding pieces using walk_of_normal [OF n] walk_trailing by auto
  moreover have "path_isAbsolute ?p = absolute" "last ?p = 47 \<longleftrightarrow> trailing" "?p \<noteq> []"
    using j by (auto simp: path_text_def path_isAbsolute_def slash_def)
  ultimately show ?thesis using j by (simp add: path_normalize_def Let_def) (simp add: path_text_def)
qed

text \<open>Every normalized path is \<open>.\<close>, \<open>./\<close>, \<open>/\<close> or the text of a normal list.\<close>

lemma normalize_shape:
  "path_normalize p \<in> {dot, dot @ slash, slash} \<or>
    (\<exists>a ss t. path_normalize p = path_text a ss t \<and> normal (\<not> a) ss \<and> ss \<noteq> [])"
proof (cases "p = []")
  case False
  let ?a = "path_isAbsolute p" let ?ss = "walk (\<not> ?a) [] (split_on 47 p)"
  have "normal (\<not> ?a) (rev [])" unfolding normal_def by (rule exI [of _ 0], rule exI [of _ "[]"]) simp
  then have n: "normal (\<not> ?a) ?ss" by (rule walk_normal) (auto dest: split_on_sep_free)
  show ?thesis
  proof (cases "?ss = []")
    case True
    then show ?thesis using False by (simp add: path_normalize_def Let_def)
  next
    case ne: False
    then have "join slash ?ss \<noteq> []" using join_pieces_ends [OF ne] normal_pieces [OF n] by auto
    then have "path_normalize p = path_text ?a ?ss (last p = 47)" using False by (simp add: path_normalize_def Let_def path_text_def)
    then show ?thesis using n ne by blast
  qed
qed (simp add: path_normalize_def)

lemma normalize_short [simp]:
  "path_normalize dot = dot" "path_normalize (dot @ slash) = dot @ slash" "path_normalize slash = slash"
  by (simp_all add: path_normalize_def path_isAbsolute_def dot_def slash_def)

lemma normalize_fixed: "path_normalize (path_normalize p) = path_normalize p"
  using normalize_shape [of p]
proof
  assume "path_normalize p \<in> {dot, dot @ slash, slash}"
  then have "path_normalize p = dot \<or> path_normalize p = dot @ slash \<or> path_normalize p = slash" by simp
  then show ?thesis by (elim disjE) (simp_all only: normalize_short)
next
  assume "\<exists>a ss t. path_normalize p = path_text a ss t \<and> normal (\<not> a) ss \<and> ss \<noteq> []"
  then obtain a ss t where "path_normalize p = path_text a ss t" "normal (\<not> a) ss" "ss \<noteq> []" by blast
  then show ?thesis using normalize_path_text by metis
qed

lemma set_walk: "s \<in> set (walk rel st ss) \<Longrightarrow> s \<in> set st \<or> s \<in> set ss \<or> s = dotdot"
proof (induction rel st ss rule: walk.induct)
  case (2 rel st s' ss)
  then show ?case by (cases st) (auto split: if_splits)
qed simp

lemma set_normalize: "set (path_normalize p) \<subseteq> set p \<union> {46, 47}"
proof -
  have "\<And>s. s \<in> set (walk rel [] (split_on 47 p)) \<Longrightarrow> set s \<subseteq> set p \<union> {46}" for rel
    using set_walk set_split_on by (fastforce simp: dotdot_def)
  then have "set (join slash (walk rel [] (split_on 47 p))) \<subseteq> set p \<union> {46, 47}" for rel
    using set_join [of slash] by (fastforce simp: slash_def)
  then show ?thesis by (auto simp: path_normalize_def Let_def dot_def slash_def)
qed

lemma path_text_not_here: "normal (\<not> a) ss \<Longrightarrow> ss \<noteq> [] \<Longrightarrow> \<not> starts_with (dot @ slash) (path_text a ss t) \<and> path_text a ss t \<noteq> []"
proof -
  assume n: "normal (\<not> a) ss" and ne: "ss \<noteq> []"
  obtain s ss' where ss: "ss = s # ss'" using ne by (cases ss) auto
  have s: "s \<noteq> []" "47 \<notin> set s" "s \<noteq> dot" using normal_pieces [OF n] ss by auto
  then obtain u s' where u: "s = u # s'" by (cases s) auto
  have "u = 46 \<Longrightarrow> s' \<noteq> [] \<and> hd s' \<noteq> 47" using s u by (auto simp: dot_def) (metis hd_in_set)
  then show ?thesis using u ss by (cases a; cases s') (auto simp: path_text_def dot_def slash_def join_Cons)
qed

lemma normalizePattern_fixed [simp]: "normalizePattern (normalizePattern p) = normalizePattern p"
proof -
  let ?n = "path_normalize (slashed p)"
  have nb: "92 \<notin> set ?n" using set_normalize [of "slashed p"] slashed_no_backslash by auto
  from normalize_shape [of "slashed p"] show ?thesis
  proof
    assume "?n \<in> {dot, dot @ slash, slash}"
    then have "normalizePattern p = dot \<or> normalizePattern p = slash"
      by (auto simp: normalizePattern_def Let_def dot_def slash_def starts_with_def)
    moreover have "slashed dot = dot" "slashed slash = slash" by (simp_all add: slashed_def dot_def slash_def)
    then have "normalizePattern dot = dot" "normalizePattern slash = slash"
      by (simp_all add: normalizePattern_def) (simp_all add: dot_def slash_def starts_with_def)
    ultimately show ?thesis by (elim disjE) simp_all
  next
    assume "\<exists>a ss t. ?n = path_text a ss t \<and> normal (\<not> a) ss \<and> ss \<noteq> []"
    then have "\<not> starts_with (dot @ slash) ?n" "?n \<noteq> []" using path_text_not_here by metis+
    then have "normalizePattern p = ?n" by (simp add: normalizePattern_def Let_def)
    moreover from this have "normalizePattern ?n = ?n"
      using nb normalize_fixed [of "slashed p"] \<open>\<not> starts_with _ _\<close> \<open>?n \<noteq> []\<close>
      by (simp add: normalizePattern_def Let_def slashed_id)
    ultimately show ?thesis by simp
  qed
qed

section \<open>Coverage\<close>

lemma matches_more:
  assumes "pathMatchesPatterns p ps" "ps \<noteq> []" "set (map normalizePattern ps) \<subseteq> set (map normalizePattern qs)"
  shows "pathMatchesPatterns p qs"
proof -
  have "list_ex P (map normalizePattern ps) \<Longrightarrow> list_ex P (map normalizePattern qs)" for P
    using assms(3) unfolding list_ex_iff by blast
  then show ?thesis using assms(1,2) unfolding pathMatchesPatterns_def Let_def by (metis map_is_Nil_conv)
qed

lemma set_points: "u \<in> set (points s) \<Longrightarrow> u \<in> set s \<or> 65536 \<le> u"
  by (induction s rule: points.induct) (auto split: if_splits)

lemma star_star_eval: "normalizePattern star_star = star_star" "globRegex star_star = Many 0 dot_class"
  by (simp_all add: star_star_def js_def normalizePattern_def slashed_def path_normalize_def path_isAbsolute_def slash_def dot_def
      dotdot_def starts_with_def globRegex_def is_high_def)

lemma dot_star_matches: "list_all dot_class t \<Longrightarrow> re_full (Many 0 dot_class) t"
proof -
  assume t: "list_all dot_class t"
  let ?c = "(if t = [] then False else is_word_unit (last t), [] :: jstr)"
  have "spans (Many 0 dot_class) (False, t) ?c" using t by (auto simp: between_def intro!: exI [of _ t])
  moreover have "spans Eot ?c ?c" by simp
  ultimately have "spans (Cat (Many 0 dot_class) Eot) (False, t) ?c" unfolding spans.simps(3) by blast
  then show ?thesis unfolding re_full_def runs_Nil_iff by blast
qed

lemma points_plain: "list_all dot_class s \<Longrightarrow> list_all dot_class (points s)"
  using set_points [of _ s] by (fastforce simp: list_all_iff is_line_terminator_def)

lemma set_normalizePattern: "set (normalizePattern p) \<subseteq> set p \<union> {46, 47}"
proof -
  let ?n = "path_normalize (slashed p)"
  have "set (slashed p) \<subseteq> set p \<union> {47}" by (auto simp: slashed_def)
  then have n: "set ?n \<subseteq> set p \<union> {46, 47}" using set_normalize [of "slashed p"] by blast
  have d: "set (drop 2 ?n) \<subseteq> set ?n" by (rule set_drop_subset)
  consider "normalizePattern p = ?n" | "normalizePattern p = drop 2 ?n" | "normalizePattern p = dot"
    unfolding normalizePattern_def Let_def by metis
  then show ?thesis
  proof cases
    case 2
    show ?thesis unfolding 2 using d n by (rule subset_trans)
  next
    case 1
    show ?thesis unfolding 1 by (rule n)
  qed (simp add: dot_def)
qed

lemma normalize_plain: "list_all dot_class p \<Longrightarrow> list_all dot_class (normalizePattern p)"
proof -
  assume "list_all dot_class p"
  moreover have "dot_class 46" "dot_class 47" by (simp_all add: is_line_terminator_def)
  ultimately have "\<forall>u\<in>set p \<union> {46, 47}. dot_class u" unfolding list_all_iff by blast
  then show ?thesis unfolding list_all_iff using set_normalizePattern [of p] by blast
qed

lemma star_star_matches:
  assumes "star_star \<in> set qs" "list_all dot_class p"
  shows "pathMatchesPatterns p qs"
proof -
  have "re_full (globRegex star_star) (points (normalizePattern p))"
    unfolding star_star_eval by (intro dot_star_matches points_plain normalize_plain assms(2))
  moreover have "star_star \<in> set (map normalizePattern qs)" using assms(1) star_star_eval(1) by (metis image_eqI list.set_map)
  ultimately show ?thesis unfolding pathMatchesPatterns_def Let_def list_ex_iff by blast
qed

lemma applicable_gate_required: "r \<in> set (applicable_rules rules evs) \<Longrightarrow> g \<in> set (er_gates r) \<Longrightarrow> g \<in> set (required_gates rules prs evs)"
  unfolding required_gates_def by auto

lemma concat_map_upper: "x \<in> set xs \<Longrightarrow> set (f x) \<subseteq> set (concat (map f xs))"
  by auto

lemma in_relevant:
  assumes "r \<in> set (applicable_rules rules evs)" "g \<in> set (er_gates r)"
  shows "set (if er_paths r = [] then [star_star] else map normalizePattern (er_paths r)) \<subseteq> set (relevant_paths rules prs evs g)"
proof -
  have r: "r \<in> set (filter (\<lambda>r. g \<in> set (er_gates r)) (applicable_rules rules evs))" using assms by simp
  let ?own = "\<lambda>r. if er_paths r = [] then [star_star] else map normalizePattern (er_paths r)"
  let ?paths = "concat (map (\<lambda>r. map normalizePattern (pr_paths r)) (filter (\<lambda>r. g \<in> set (pr_require r)) prs)) @
      concat (map ?own (filter (\<lambda>r. g \<in> set (er_gates r)) (applicable_rules rules evs)))"
  have "set (?own r) \<subseteq> set (concat (map ?own (filter (\<lambda>r. g \<in> set (er_gates r)) (applicable_rules rules evs))))"
    by (rule concat_map_upper [OF r, of ?own])
  then have sub: "set (?own r) \<subseteq> set ?paths" unfolding set_append by (rule le_supI2)
  have "set (?own r) \<noteq> {}" by simp
  then have ne: "?paths \<noteq> []" using sub by (intro notI) (simp only: list.set(1) subset_empty)
  show ?thesis unfolding relevant_paths_def Let_def if_not_P [OF ne] set_sort set_dedup by (rule sub)
qed

text \<open>A change that touches an applicable rule touches every gate the rule requires.\<close>

lemma relevant_covers:
  assumes "r \<in> set (applicable_rules rules evs)" "g \<in> set (er_gates r)" "pathMatchesPatterns p (er_paths r)"
    and "er_paths r \<noteq> [] \<or> list_all dot_class p"
  shows "pathMatchesPatterns p (relevant_paths rules prs evs g)"
proof (cases "er_paths r = []")
  case True
  then show ?thesis using in_relevant [OF assms(1,2), of prs] assms(4) star_star_matches by simp
next
  case False
  then have "set (map normalizePattern (er_paths r)) \<subseteq> set (relevant_paths rules prs evs g)"
    using in_relevant [OF assms(1,2), of prs] by simp
  then have "normalizePattern ` set (map normalizePattern (er_paths r)) \<subseteq> normalizePattern ` set (relevant_paths rules prs evs g)"
    by (rule image_mono)
  then have "set (map normalizePattern (er_paths r)) \<subseteq> set (map normalizePattern (relevant_paths rules prs evs g))"
    by (simp add: image_image)
  then show ?thesis using matches_more [OF assms(3) False] by blast
qed

lemma fold_max_bound: "m \<le> fold (\<lambda>r m. max m (f r)) rs m \<and> (\<forall>r\<in>set rs. f r \<le> fold (\<lambda>r m. max m (f r)) rs (m :: int))"
proof (induction rs arbitrary: m)
  case (Cons r rs)
  have "max m (f r) \<le> fold (\<lambda>r m. max m (f r)) rs (max m (f r))" using Cons.IH [of "max m (f r)"] by blast
  then show ?case using Cons.IH [of "max m (f r)"] by auto
qed simp

lemma watermark_bound: "r \<in> set (applicable_rules rules evs) \<Longrightarrow> er_watermark r \<le> gate_watermark rules evs"
  using fold_max_bound [of 0 er_watermark "applicable_rules rules evs"] by (simp add: gate_watermark_def)

section \<open>Fresh evidence\<close>

lemma latest_run:
  assumes "selectLatestEligibleGateRun g cfg w rs = Some run"
  shows "run \<in> set rs \<and> gr_gate run = g \<and> gr_config run = cfg \<and> w < gr_seq run \<and>
    (\<forall>r\<in>set rs. gr_gate r = g \<and> gr_config r = cfg \<and> w < gr_seq r \<longrightarrow> gr_seq r \<le> gr_seq run)"
proof -
  let ?ok = "filter (\<lambda>r. gr_gate r = g \<and> gr_config r = cfg \<and> w < gr_seq r) rs"
  obtain rest where s: "sort_key (\<lambda>r. - gr_seq r) ?ok = run # rest"
    using assms by (auto simp: selectLatestEligibleGateRun_def split: list.splits)
  then have in_ok: "set (run # rest) = set ?ok" by (simp only: s [symmetric] set_sort)
  have "sorted (map (\<lambda>r. - gr_seq r) (run # rest))" by (simp only: s [symmetric] sorted_sort_key)
  then have top: "\<forall>r\<in>set (run # rest). gr_seq r \<le> gr_seq run" by simp
  have mem: "run \<in> set ?ok" unfolding in_ok [symmetric] by simp
  show ?thesis
  proof (intro conjI ballI impI)
    fix r
    assume "r \<in> set rs" "gr_gate r = g \<and> gr_config r = cfg \<and> w < gr_seq r"
    then have "r \<in> set ?ok" by simp
    then show "gr_seq r \<le> gr_seq run" using in_ok top by blast
  qed (use mem in simp_all)
qed

lemma state_verdict [simp]: "cl_state (verdict_of st r run) = st"
  by (simp add: verdict_of_def)

definition passed :: "gate_run \<Rightarrow> evidence_policy \<Rightarrow> bool" where
  "passed run policy \<longleftrightarrow> gr_parser run = parser_name (ep_parser policy) \<and> gr_parser_version run = 1 \<and> gr_capture run = Cap_Complete \<and>
     (ep_parser policy = Node_Test \<longrightarrow> (\<exists>t p s. gr_total run = Some t \<and> gr_pass run = Some p \<and> gr_fail run = Some 0 \<and> gr_skip run = Some s \<and>
        0 < t \<and> 0 \<le> p \<and> 0 \<le> s \<and> p + s \<le> t \<and> s \<le> ep_skip_max policy \<and>
        (ep_require_reasons policy \<and> 0 < s \<longrightarrow> gr_reasons_complete run = Some True)))"

lemma parserState_None:
  assumes "parserState run policy = None"
  shows "passed run policy"
proof (cases "ep_parser policy")
  case Exit_Only
  then show ?thesis using assms by (auto simp: parserState_def passed_def EXIT_ONLY_PARSER_VERSION_def split: if_splits)
next
  case Node_Test
  then have a: "gr_parser run = parser_name (ep_parser policy)" "gr_parser_version run = 1" "gr_capture run = Cap_Complete"
      "\<not> impossible_counts run" "\<not> policy_broken run policy"
    using assms by (auto simp: parserState_def NODE_TEST_PARSER_VERSION_def split: if_splits)
  from a(4) obtain t p f s where c: "gr_total run = Some t" "gr_pass run = Some p" "gr_fail run = Some f" "gr_skip run = Some s"
    unfolding impossible_counts_def validCount_def by fastforce
  then have "0 \<le> t" "0 \<le> p" "0 \<le> f" "0 \<le> s" "p + f + s \<le> t" using a(4) by (simp_all add: impossible_counts_def validCount_def)
  with c have c: "gr_total run = Some t" "gr_pass run = Some p" "gr_fail run = Some f" "gr_skip run = Some s"
      "0 \<le> t" "0 \<le> p" "0 \<le> f" "0 \<le> s" "p + f + s \<le> t" by simp_all
  then show ?thesis using a by (auto simp: passed_def policy_broken_def)
qed

lemma find_None_iff: "find P xs = None \<longleftrightarrow> (\<forall>x\<in>set xs. \<not> P x)"
  by (induction xs) auto

lemma classify_fresh:
  assumes "cl_state (classifyGateEvidence run_opt policy rel evs cur_opt) = Fresh_Pass"
  shows "\<exists>run digest cur. run_opt = Some run \<and> passed run policy \<and> cur_opt = Some cur \<and> wd_complete cur \<and>
    gr_digest run = Some digest \<and> wd_digest cur = Some digest \<and> gr_paths_sha run = Some (wd_paths_sha cur) \<and>
    gr_digest_version run = Some WORKTREE_DIGEST_V2_VERSION \<and>
    (\<forall>e\<in>set evs. gr_seq run < ee_seq e \<longrightarrow> \<not> mutationIntersects e rel)"
proof -
  have no_parser: "cl_state c \<noteq> Fresh_Pass" if "parserState run policy = Some c" for run c
    using that by (auto simp: parserState_def split: if_splits gate_parser.splits)
  obtain run where run: "run_opt = Some run" using assms by (cases run_opt) (auto simp: classifyGateEvidence_def)
  have p: "parserState run policy = None"
  proof (cases "parserState run policy")
    case (Some c)
    then show ?thesis using assms no_parser [OF Some] by (simp add: classifyGateEvidence_def run)
  qed
  have v: "gr_digest_version run = Some WORKTREE_DIGEST_V2_VERSION"
    using assms by (auto simp: classifyGateEvidence_def run p split: if_splits)
  obtain digest cur where d: "gr_digest run = Some digest" "cur_opt = Some cur"
    using assms by (auto simp: classifyGateEvidence_def run p v split: option.splits)
  have c: "wd_complete cur" "wd_digest cur \<noteq> None" "gr_paths_sha run = Some (wd_paths_sha cur)"
    using assms by (auto simp: classifyGateEvidence_def run p v d split: if_splits)
  let ?later = "sort_key ee_seq (filter (\<lambda>e. gr_seq run < ee_seq e) evs)"
  have f: "find (\<lambda>e. mutationIntersects e rel) ?later = None"
    using assms c by (auto simp: classifyGateEvidence_def run p v d split: option.splits if_splits)
  then have "\<forall>e\<in>set evs. gr_seq run < ee_seq e \<longrightarrow> \<not> mutationIntersects e rel" by (simp add: find_None_iff)
  moreover have "wd_digest cur = Some digest"
    using assms c f by (auto simp: classifyGateEvidence_def run p v d split: if_splits)
  ultimately show ?thesis using run p parserState_None v d c by blast
qed

end
