(* ===== verification/Governance_Verdict.thy ===== *)
theory Governance_Verdict
  imports Evidence_Facts
begin

text \<open>
  From a snapshot of the recorded evidence to a verdict: \<open>src/governance/capability-status.ts\<close>,
  \<open>effective-mode.ts\<close>, \<open>verdict-types.ts\<close>, \<open>shadow-evaluator-support.ts\<close>, the pure half of
  \<open>shadow-evaluator-runtime.ts\<close> and \<open>evaluateAttempt\<close> of \<open>shadow-evaluator.ts\<close>.  The clock is the argument
  \<open>ae_late\<close>, which says at which stage the deadline has passed; the worktree digest is the argument \<open>ae_capture\<close>.
\<close>

section \<open>Vocabulary\<close>

datatype intent = Advise | Warn_Intent | Block_Intent

datatype shadow_result = Res_Pass | Res_Missing | Res_Non_Pass | Res_Stale | Res_Degraded | Res_Not_Applicable | Res_Self_Error

datatype cap_reason =
    Unsupported_Client | Missing_Post_Tool_Use | Missing_Post_Tool_Failure | Missing_File_Changed | Missing_Stop
  | Async_Only_Stop | Blocking_Unavailable | Stale_Heartbeat | Missing_Settings_Source

datatype shadow_fault =
    Invalid_Stop_Identity | Invalid_Project_Root | F_Unsupported_Client | Config_Missing | Config_Invalid | Config_Oversized
  | Config_Path_Escape | Database_Unavailable | Database_Busy | Schema_Unavailable | Rule_Malformed | Evidence_Malformed
  | Unsupported_Adapter_Version | Unsupported_Parser_Version | Unsupported_Digest_Version | Unsupported_Payload_Version
  | Impossible_Result_Counts | Digest_Unavailable | Digest_Bound_Exceeded | Digest_Race | Deadline_Exceeded
  | Concurrent_Mutation | Serialization_Bound_Exceeded | Audit_Write_Failed | Unexpected_Error

datatype verdict_reason =
    V_Fault shadow_fault | V_Capability cap_reason | Gate_Self_Error | No_Active_Pre_Exit_Rule | Empty_Requirement_Set
  | Gate_Non_Pass | Gate_Stale | Gate_Missing | All_Required_Gates_Fresh

section \<open>Capabilities\<close>

datatype observation = Observed | Unsupported | Not_Observed | Available | Unavailable | Current | Stale

record capability_row =
  cr_client :: jstr
  cr_version :: "jstr option"
  cr_post :: "bool option"
  cr_failure :: "bool option"
  cr_file :: "bool option"
  cr_structured :: "bool option"
  cr_stop :: "bool option"
  cr_blocking :: "bool option"
  cr_adapter :: int
  cr_settings :: "jstr option"
  cr_session :: "jstr option"
  cr_heartbeat :: "jstr option"
  cr_probe :: "jstr option"

record capability_status =
  cs_supported :: bool
  cs_degraded :: bool
  cs_reasons :: "cap_reason list"
  cs_structured :: observation
  cs_settings :: observation
  cs_heartbeat :: observation

definition REASON_PRIORITY :: "cap_reason list" where
  "REASON_PRIORITY = [Unsupported_Client, Stale_Heartbeat, Missing_Post_Tool_Use, Missing_Post_Tool_Failure, Missing_File_Changed,
     Missing_Stop, Async_Only_Stop, Blocking_Unavailable, Missing_Settings_Source]"

definition HEARTBEAT_MAX_AGE_MS :: int where "HEARTBEAT_MAX_AGE_MS = 1800000"
definition HEARTBEAT_FUTURE_SKEW_MS :: int where "HEARTBEAT_FUTURE_SKEW_MS = 60000"

definition observe_flag :: "bool option \<Rightarrow> observation" where
  "observe_flag v = (case v of Some True \<Rightarrow> Observed | Some False \<Rightarrow> Unsupported | None \<Rightarrow> Not_Observed)"

text \<open>\<open>date_ms\<close> is \<open>Date.parse\<close>, \<open>None\<close> where it answers NaN.\<close>

definition currentHeartbeat :: "(jstr \<Rightarrow> int option) \<Rightarrow> capability_row option \<Rightarrow> jstr \<Rightarrow> int \<Rightarrow> bool \<Rightarrow> bool" where
  "currentHeartbeat date_ms row sessionId nowMs stopObserved \<longleftrightarrow> stopObserved \<or>
     (case row of None \<Rightarrow> False
      | Some cr \<Rightarrow> cr_session cr = Some sessionId \<and> (case cr_heartbeat cr of None \<Rightarrow> False
          | Some t \<Rightarrow> (case date_ms t of None \<Rightarrow> False
              | Some beat \<Rightarrow> - HEARTBEAT_FUTURE_SKEW_MS \<le> nowMs - beat \<and> nowMs - beat \<le> HEARTBEAT_MAX_AGE_MS)))"

definition flag :: "(capability_row \<Rightarrow> bool option) \<Rightarrow> capability_row option \<Rightarrow> bool option" where
  "flag f row = (case row of None \<Rightarrow> None | Some cr \<Rightarrow> f cr)"

definition resolveCapabilityStatus ::
  "(jstr \<Rightarrow> int option) \<Rightarrow> capability_row option \<Rightarrow> jstr \<Rightarrow> jstr \<Rightarrow> int \<Rightarrow> bool \<Rightarrow> capability_status" where
  "resolveCapabilityStatus date_ms row clientName sessionId nowMs currentStopObserved =
    (let supported = (clientName = js ''claude-code'' \<and> (case row of None \<Rightarrow> True | Some cr \<Rightarrow> cr_client cr = js ''claude-code''));
         beat = currentHeartbeat date_ms row sessionId nowMs currentStopObserved;
         stopObserved = (currentStopObserved \<or> flag cr_stop row = Some True);
         holds = (\<lambda>reason. case reason of
             Unsupported_Client \<Rightarrow> \<not> supported
           | Stale_Heartbeat \<Rightarrow> \<not> beat
           | Missing_Post_Tool_Use \<Rightarrow> flag cr_post row \<noteq> Some True
           | Missing_Post_Tool_Failure \<Rightarrow> flag cr_failure row \<noteq> Some True
           | Missing_File_Changed \<Rightarrow> flag cr_file row \<noteq> Some True
           | Missing_Stop \<Rightarrow> \<not> stopObserved
           | Async_Only_Stop \<Rightarrow> stopObserved \<and> flag cr_blocking row = Some False
           | Blocking_Unavailable \<Rightarrow> flag cr_blocking row \<noteq> Some True
           | Missing_Settings_Source \<Rightarrow> (case row of None \<Rightarrow> False | Some cr \<Rightarrow> cr_probe cr = Some (js ''settings-source-missing'')));
         ordered = filter holds REASON_PRIORITY
     in \<lparr> cs_supported = supported, cs_degraded = (ordered \<noteq> []), cs_reasons = ordered,
          cs_structured = observe_flag (flag cr_structured row),
          cs_settings = (case row of None \<Rightarrow> Not_Observed | Some cr \<Rightarrow> if cr_settings cr = None then Not_Observed else Observed),
          cs_heartbeat = (if beat then Current else (case row of None \<Rightarrow> Not_Observed
            | Some cr \<Rightarrow> if cr_heartbeat cr = None then Not_Observed else Stale)) \<rparr>)"

section \<open>Effective mode\<close>

datatype effective_mode = Advisory | Warn_Mode

datatype mode_reason =
    Intent_Advisory | Config_Unavailable | Capability_Degraded | Structured_Output_Unavailable | Settings_Source_Unavailable
  | Evaluator_Fault | Block_Clamped_To_Warn | Stop_Hook_Active_Non_Controlling

record mode_resolution =
  mr_intent :: intent
  mr_mode :: effective_mode
  mr_clamped :: bool
  mr_degraded :: bool
  mr_reasons :: "mode_reason list"
  mr_cap_reasons :: "cap_reason list"
  mr_fault :: "shadow_fault option"
  mr_stop_active :: bool

definition resolveEffectiveMode ::
  "intent \<Rightarrow> bool \<Rightarrow> capability_status \<Rightarrow> shadow_fault option \<Rightarrow> bool \<Rightarrow> mode_resolution" where
  "resolveEffectiveMode i configValid cs fault stopHookActive =
    (let eligible = (i \<noteq> Advise \<and> configValid \<and> \<not> cs_degraded cs \<and> fault = None \<and>
           cs_structured cs = Observed \<and> cs_settings cs = Observed)
     in \<lparr> mr_intent = i, mr_mode = (if eligible then Warn_Mode else Advisory),
          mr_clamped = (eligible \<and> i = Block_Intent), mr_degraded = (\<not> eligible \<and> i \<noteq> Advise),
          mr_reasons = concat [if i = Advise then [Intent_Advisory] else [],
            if \<not> configValid then [Config_Unavailable] else [],
            if cs_degraded cs then [Capability_Degraded] else [],
            if cs_structured cs \<noteq> Observed then [Structured_Output_Unavailable] else [],
            if cs_settings cs \<noteq> Observed then [Settings_Source_Unavailable] else [],
            if fault \<noteq> None then [Evaluator_Fault] else [],
            if eligible \<and> i = Block_Intent then [Block_Clamped_To_Warn] else [],
            if eligible \<and> stopHookActive then [Stop_Hook_Active_Non_Controlling] else []],
          mr_cap_reasons = cs_reasons cs, mr_fault = fault, mr_stop_active = stopHookActive \<rparr>)"

section \<open>Precedence\<close>

definition resolveShadowPrecedence ::
  "nat \<Rightarrow> nat \<Rightarrow> gate_state list \<Rightarrow> cap_reason list \<Rightarrow> shadow_fault option \<Rightarrow> shadow_result \<times> verdict_reason" where
  "resolveShadowPrecedence rules required states caps fault =
    (case fault of Some f \<Rightarrow> (Res_Self_Error, V_Fault f)
     | None \<Rightarrow>
       if Self_Error \<in> set states then (Res_Self_Error, Gate_Self_Error)
       else if required < length states then (Res_Self_Error, V_Fault Evidence_Malformed)
       else if rules = 0 then (Res_Not_Applicable, No_Active_Pre_Exit_Rule)
       else (case caps of c # _ \<Rightarrow> (Res_Degraded, V_Capability c)
         | [] \<Rightarrow>
           if Non_Pass \<in> set states then (Res_Non_Pass, Gate_Non_Pass)
           else if Stale_Mutation \<in> set states \<or> Stale_Digest \<in> set states then (Res_Stale, Gate_Stale)
           else if required = 0 then (Res_Missing, Empty_Requirement_Set)
           else if Missing \<in> set states \<or> length states < required then (Res_Missing, Gate_Missing)
           else if length states = required \<and> list_all (\<lambda>s. s = Fresh_Pass) states then (Res_Pass, All_Required_Gates_Fresh)
           else (Res_Self_Error, V_Fault Evidence_Malformed)))"

section \<open>One evaluation\<close>

record rule_snapshot =
  sr_memory :: jstr
  sr_id :: jstr
  sr_revision :: int
  sr_level :: intent
  sr_gates :: "jstr list"
  sr_paths :: "jstr list"
  sr_watermark :: "(int \<times> int) option"

record snapshot =
  sn_sequence :: "int \<times> int"
  sn_rules :: "rule_snapshot list"
  sn_events :: "evidence_event list"
  sn_runs :: "gate_run list"
  sn_capability :: "capability_row option"

record loaded_config =
  gc_sha :: jstr
  gc_level :: intent
  gc_gates :: "(jstr \<times> gate) list"
  gc_path_rules :: "path_rule list"

datatype stage = St_Digest jstr | St_Classification jstr | St_Selection | St_Capability | St_Precedence

record attempt_env =
  ae_late :: "stage \<Rightarrow> bool"
  ae_capture :: "jstr list \<Rightarrow> worktree_digest"
  ae_date_ms :: "jstr \<Rightarrow> int option"
  ae_now :: int
  ae_client :: jstr
  ae_session :: jstr
  ae_stop_active :: bool

datatype verdict_mode = Shadow | Warned

text \<open>\<open>at_effective\<close> is \<open>None\<close> where the code says \<open>shadow\<close>.\<close>

record attempt =
  at_intent :: intent
  at_mode :: verdict_mode
  at_effective :: "effective_mode option"
  at_result :: shadow_result
  at_reason :: verdict_reason
  at_caps :: "cap_reason list"
  at_fault :: "shadow_fault option"
  at_gates :: "(jstr \<times> classified) list"
  at_required :: "jstr list"
  at_sequence :: "int \<times> int"

definition check_deadline :: "attempt_env \<Rightarrow> stage \<Rightarrow> shadow_fault + unit" where
  "check_deadline ae st = ensure (\<not> ae_late ae st) Deadline_Exceeded"

definition evidence_rule_of :: "rule_snapshot \<Rightarrow> evidence_rule" where
  "evidence_rule_of r = \<lparr> er_id = sr_id r, er_revision = sr_revision r, er_gates = sr_gates r, er_paths = sr_paths r,
     er_watermark = (case sr_watermark r of None \<Rightarrow> 0 | Some (e, _) \<Rightarrow> e) \<rparr>"

definition selectShadowRequirements :: "snapshot \<Rightarrow> loaded_config \<Rightarrow> requirements" where
  "selectShadowRequirements sn cfg = selectEvidenceRequirements (map evidence_rule_of (sn_rules sn)) (gc_path_rules cfg) (sn_events sn)"

definition intent_order :: "intent \<Rightarrow> int" where
  "intent_order i = (case i of Advise \<Rightarrow> 0 | Warn_Intent \<Rightarrow> 1 | Block_Intent \<Rightarrow> 2)"

definition rule_key :: "jstr \<Rightarrow> int \<Rightarrow> jstr" where
  "rule_key i revision = i @ js '':'' @ show_int revision"

definition resolveShadowIntent :: "snapshot option \<Rightarrow> requirements option \<Rightarrow> loaded_config option \<Rightarrow> intent" where
  "resolveShadowIntent sn rq cfg =
    (let default = (case cfg of None \<Rightarrow> Advise | Some c \<Rightarrow> gc_level c)
     in case (sn, rq) of
          (Some s, Some q) \<Rightarrow>
            if rq_rules q = [] then default
            else (let applicable = set (map (\<lambda>r. rule_key (er_id r) (er_revision r)) (rq_rules q));
                      levels = map sr_level (filter (\<lambda>r. rule_key (sr_id r) (sr_revision r) \<in> applicable) (sn_rules s))
                  in (case sort_key (\<lambda>i. - intent_order i) levels of [] \<Rightarrow> default | l # _ \<Rightarrow> l))
        | _ \<Rightarrow> default)"

definition digestFault :: "worktree_digest \<Rightarrow> shadow_fault option" where
  "digestFault d =
    (if wd_complete d then (if wd_version d = WORKTREE_DIGEST_V2_VERSION then None else Some Unsupported_Digest_Version)
     else (let reason = (case wd_reason d of None \<Rightarrow> [] | Some r \<Rightarrow> r)
       in if has_sub (js ''deadline exceeded'') reason then Some Deadline_Exceeded
          else if has_sub (js ''changed during both'') reason then Some Digest_Race
          else if has_sub (js ''bound'') reason \<or> has_sub (js ''exceeds'') reason then Some Digest_Bound_Exceeded
          else Some Digest_Unavailable))"

definition fault_of_reason :: "gate_reason \<Rightarrow> shadow_fault option" where
  "fault_of_reason r = (case r of
      R_Unsupported_Parser_Version \<Rightarrow> Some Unsupported_Parser_Version
    | R_Impossible_Counts \<Rightarrow> Some Impossible_Result_Counts
    | R_Digest_Unavailable \<Rightarrow> Some Digest_Unavailable
    | _ \<Rightarrow> None)"

definition classifiedFault :: "(jstr \<times> classified) list \<Rightarrow> shadow_fault option" where
  "classifiedFault gates =
    (case find (\<lambda>(g, c). cl_state c = Self_Error \<and> fault_of_reason (cl_reason c) \<noteq> None) gates of
       None \<Rightarrow> None | Some (g, c) \<Rightarrow> fault_of_reason (cl_reason c))"

definition CLAUDE_ADAPTER_VERSION :: int where "CLAUDE_ADAPTER_VERSION = 1"

definition assertSupportedAdapter :: "snapshot \<Rightarrow> shadow_fault + unit" where
  "assertSupportedAdapter sn = (case sn_capability sn of None \<Rightarrow> Inr ()
     | Some cr \<Rightarrow> ensure (cr_adapter cr = CLAUDE_ADAPTER_VERSION) Unsupported_Adapter_Version)"

definition policy_of :: "gate \<Rightarrow> evidence_policy" where
  "policy_of g = \<lparr> ep_parser = gt_parser g, ep_skip_max = gt_skip_max g, ep_require_reasons = gt_require_reasons g \<rparr>"

text \<open>The body of the loop over the required gates.\<close>

definition evaluate_gate ::
  "attempt_env \<Rightarrow> loaded_config \<Rightarrow> snapshot \<Rightarrow> requirements \<Rightarrow> jstr \<Rightarrow> (jstr \<times> classified) list \<Rightarrow>
   shadow_fault + (jstr \<times> classified) list" where
  "evaluate_gate ae cfg sn rq gateId gates =
    (case map_of (gc_gates cfg) gateId of
       None \<Rightarrow> Inl Config_Invalid
     | Some g \<Rightarrow>
         let relevantPaths = (case map_of (rq_paths rq) gateId of None \<Rightarrow> [star_star] | Some ps \<Rightarrow> ps)
         in bindE (check_deadline ae (St_Digest gateId)) (\<lambda>_.
            let digest = ae_capture ae relevantPaths
            in case digestFault digest of
                 Some f \<Rightarrow> Inl f
               | None \<Rightarrow> bindE (check_deadline ae (St_Classification gateId)) (\<lambda>_.
                   let run = selectLatestEligibleGateRun gateId (gc_sha cfg)
                         (case map_of (rq_watermarks rq) gateId of None \<Rightarrow> 0 | Some w \<Rightarrow> w) (sn_runs sn)
                   in Inr (gates @ [(gateId, classifyGateEvidence run (policy_of g) relevantPaths (sn_events sn) (Some digest))]))))"

definition evaluateAttempt :: "attempt_env \<Rightarrow> loaded_config \<Rightarrow> snapshot \<Rightarrow> shadow_fault + attempt" where
  "evaluateAttempt ae cfg sn =
    bindE (check_deadline ae St_Selection) (\<lambda>_.
    let rq = selectShadowRequirements sn cfg
    in bindE (if rq_rules rq = [] then Inr [] else foldE (evaluate_gate ae cfg sn rq) (rq_gates rq) []) (\<lambda>gates.
       bindE (check_deadline ae St_Capability) (\<lambda>_.
       bindE (assertSupportedAdapter sn) (\<lambda>_.
       let cap = resolveCapabilityStatus (ae_date_ms ae) (sn_capability sn) (ae_client ae) (ae_session ae) (ae_now ae) True
       in bindE (check_deadline ae St_Precedence) (\<lambda>_.
          let fault = classifiedFault gates;
              prec = resolveShadowPrecedence (length (rq_rules rq)) (length (rq_gates rq)) (map (cl_state \<circ> snd) gates) (cs_reasons cap) None;
              i = resolveShadowIntent (Some sn) (Some rq) (Some cfg);
              effective = resolveEffectiveMode i True cap fault (ae_stop_active ae)
          in Inr \<lparr> at_intent = i, at_mode = (if i = Advise then Shadow else Warned),
                   at_effective = (if i = Advise then None else Some (mr_mode effective)), at_result = fst prec, at_reason = snd prec,
                   at_caps = cs_reasons cap, at_fault = fault, at_gates = gates, at_required = rq_gates rq,
                   at_sequence = sn_sequence sn \<rparr>)))))"

section \<open>What a pass means\<close>

lemma precedence_pass:
  assumes "fst (resolveShadowPrecedence rules required states caps fault) = Res_Pass"
  shows "0 < rules \<and> 0 < required \<and> length states = required \<and> caps = [] \<and> (\<forall>s\<in>set states. s = Fresh_Pass)"
  using assms unfolding resolveShadowPrecedence_def by (auto simp: list_all_iff split: option.splits list.splits if_splits)

definition gate_evidence ::
  "attempt_env \<Rightarrow> loaded_config \<Rightarrow> snapshot \<Rightarrow> requirements \<Rightarrow> jstr \<Rightarrow> classified \<Rightarrow> bool" where
  "gate_evidence ae cfg sn rq g c \<longleftrightarrow> (\<exists>gate ps w. map_of (gc_gates cfg) g = Some gate \<and>
     ps = (case map_of (rq_paths rq) g of None \<Rightarrow> [star_star] | Some ps \<Rightarrow> ps) \<and>
     w = (case map_of (rq_watermarks rq) g of None \<Rightarrow> 0 | Some w \<Rightarrow> w) \<and>
     c = classifyGateEvidence (selectLatestEligibleGateRun g (gc_sha cfg) w (sn_runs sn)) (policy_of gate) ps (sn_events sn)
       (Some (ae_capture ae ps)))"

lemma evaluate_gate_Inr:
  assumes "evaluate_gate ae cfg sn rq g acc = Inr out"
  shows "\<exists>c. out = acc @ [(g, c)] \<and> gate_evidence ae cfg sn rq g c"
proof -
  obtain gate where g: "map_of (gc_gates cfg) g = Some gate"
    using assms by (cases "map_of (gc_gates cfg) g") (auto simp: evaluate_gate_def)
  let ?ps = "case map_of (rq_paths rq) g of None \<Rightarrow> [star_star] | Some ps \<Rightarrow> ps"
  have "digestFault (ae_capture ae ?ps) = None"
    using assms by (auto simp: evaluate_gate_def g Let_def bindE_Inr_iff split: option.splits)
  then have "out = acc @ [(g, classifyGateEvidence (selectLatestEligibleGateRun g (gc_sha cfg)
      (case map_of (rq_watermarks rq) g of None \<Rightarrow> 0 | Some w \<Rightarrow> w) (sn_runs sn)) (policy_of gate) ?ps (sn_events sn)
      (Some (ae_capture ae ?ps)))]"
    using assms by (simp add: evaluate_gate_def g Let_def bindE_Inr_iff)
  then show ?thesis unfolding gate_evidence_def using g by blast
qed

lemma evaluate_gates:
  "foldE (evaluate_gate ae cfg sn rq) gs acc = Inr out \<Longrightarrow>
    \<exists>cs. out = acc @ cs \<and> map fst cs = gs \<and> (\<forall>x\<in>set cs. gate_evidence ae cfg sn rq (fst x) (snd x))"
proof (induction gs arbitrary: acc)
  case (Cons g gs)
  then obtain mid where mid: "evaluate_gate ae cfg sn rq g acc = Inr mid" "foldE (evaluate_gate ae cfg sn rq) gs mid = Inr out"
    by (auto simp: bindE_Inr_iff)
  from evaluate_gate_Inr [OF mid(1)] obtain c where c: "mid = acc @ [(g, c)]" "gate_evidence ae cfg sn rq g c" by blast
  from Cons.IH [OF mid(2)] obtain cs where "out = mid @ cs" "map fst cs = gs" "\<forall>x\<in>set cs. gate_evidence ae cfg sn rq (fst x) (snd x)"
    by blast
  then have "out = acc @ (g, c) # cs \<and> map fst ((g, c) # cs) = g # gs \<and>
      (\<forall>x\<in>set ((g, c) # cs). gate_evidence ae cfg sn rq (fst x) (snd x))" using c by simp
  then show ?case by (rule exI [of _ "(g, c) # cs"])
qed simp

lemma attempt_Inr:
  assumes "evaluateAttempt ae cfg sn = Inr a"
  shows "at_required a = rq_gates (selectShadowRequirements sn cfg) \<and> at_sequence a = sn_sequence sn \<and>
    (rq_rules (selectShadowRequirements sn cfg) \<noteq> [] \<longrightarrow>
      foldE (evaluate_gate ae cfg sn (selectShadowRequirements sn cfg)) (at_required a) [] = Inr (at_gates a)) \<and>
    (at_result a, at_reason a) = resolveShadowPrecedence (length (rq_rules (selectShadowRequirements sn cfg)))
      (length (at_required a)) (map (cl_state \<circ> snd) (at_gates a)) (at_caps a) None"
  using assms unfolding evaluateAttempt_def Let_def bindE_Inr_iff
  by - (elim exE conjE, drule sum.inject(2) [THEN iffD1], hypsubst, simp, intro impI, simp)

lemma selection_parts:
  "rq_gates (selectEvidenceRequirements rules prs evs) = required_gates rules prs evs"
  "set (rq_rules (selectEvidenceRequirements rules prs evs)) = set (applicable_rules rules evs)"
  "g \<in> set (required_gates rules prs evs) \<Longrightarrow>
    map_of (rq_paths (selectEvidenceRequirements rules prs evs)) g = Some (relevant_paths rules prs evs g)"
  "g \<in> set (required_gates rules prs evs) \<Longrightarrow>
    map_of (rq_watermarks (selectEvidenceRequirements rules prs evs)) g = Some (gate_watermark rules evs)"
  by (simp_all add: selectEvidenceRequirements_def Let_def map_of_map_restrict)

text \<open>Evidence that a gate was satisfied: a recorded run of the gate under this configuration that passed, taken after the rule
  was first seen, with the worktree unchanged since and no later event that touches a path of the rule.\<close>

definition satisfied_for :: "attempt_env \<Rightarrow> loaded_config \<Rightarrow> snapshot \<Rightarrow> evidence_rule \<Rightarrow> jstr \<Rightarrow> bool" where
  "satisfied_for ae cfg sn r g \<longleftrightarrow> (\<exists>gate run ps digest. map_of (gc_gates cfg) g = Some gate \<and> run \<in> set (sn_runs sn) \<and>
     gr_gate run = g \<and> gr_config run = gc_sha cfg \<and> er_watermark r < gr_seq run \<and> passed run (policy_of gate) \<and>
     gr_digest run = Some digest \<and> wd_digest (ae_capture ae ps) = Some digest \<and> gr_paths_sha run = Some (wd_paths_sha (ae_capture ae ps)) \<and>
     (\<forall>e\<in>set (sn_events sn). gr_seq run < ee_seq e \<longrightarrow> ee_class e \<noteq> Mut_Unknown \<and>
        (ee_class e = Mut_Scoped \<longrightarrow> (\<forall>p\<in>set (ee_paths e). pathMatchesPatterns p (er_paths r) \<longrightarrow>
           er_paths r = [] \<and> \<not> list_all dot_class p))))"

lemma fresh_satisfies:
  assumes r: "r \<in> set (applicable_rules rules evs)" and g: "g \<in> set (er_gates r)"
    and sel: "rules = map evidence_rule_of (sn_rules sn)" "evs = sn_events sn"
    and ev: "gate_evidence ae cfg sn (selectShadowRequirements sn cfg) g c" and fresh: "cl_state c = Fresh_Pass"
  shows "satisfied_for ae cfg sn r g"
proof -
  let ?prs = "gc_path_rules cfg" and ?ps = "relevant_paths rules (gc_path_rules cfg) evs g"
  have req: "g \<in> set (required_gates rules ?prs evs)" by (rule applicable_gate_required [OF r g])
  have rq: "selectShadowRequirements sn cfg = selectEvidenceRequirements rules ?prs evs"
    by (simp add: selectShadowRequirements_def sel)
  from ev [unfolded gate_evidence_def rq selection_parts(3,4) [OF req] option.case] obtain gate where
      gate: "map_of (gc_gates cfg) g = Some gate" and
      c: "c = classifyGateEvidence (selectLatestEligibleGateRun g (gc_sha cfg) (gate_watermark rules evs) (sn_runs sn))
        (policy_of gate) ?ps (sn_events sn) (Some (ae_capture ae ?ps))" by blast
  from classify_fresh [OF fresh [unfolded c]] obtain run digest where
      run: "selectLatestEligibleGateRun g (gc_sha cfg) (gate_watermark rules evs) (sn_runs sn) = Some run" "passed run (policy_of gate)"
      "gr_digest run = Some digest" "wd_digest (ae_capture ae ?ps) = Some digest" "gr_paths_sha run = Some (wd_paths_sha (ae_capture ae ?ps))"
      "\<forall>e\<in>set (sn_events sn). gr_seq run < ee_seq e \<longrightarrow> \<not> mutationIntersects e ?ps" by auto
  have later: "ee_class e \<noteq> Mut_Unknown \<and> (ee_class e = Mut_Scoped \<longrightarrow> (\<forall>p\<in>set (ee_paths e). pathMatchesPatterns p (er_paths r) \<longrightarrow>
      er_paths r = [] \<and> \<not> list_all dot_class p))" if e: "e \<in> set (sn_events sn)" "gr_seq run < ee_seq e" for e
  proof -
    have no: "\<not> mutationIntersects e ?ps" using run(6) e by blast
    then have "ee_class e \<noteq> Mut_Unknown" by (auto simp: mutationIntersects_def)
    moreover have "\<not> pathMatchesPatterns p ?ps" if "ee_class e = Mut_Scoped" "p \<in> set (ee_paths e)" for p
      using no that by (auto simp: mutationIntersects_def list_ex_iff)
    ultimately show ?thesis using relevant_covers [OF r g] by blast
  qed
  have "er_watermark r < gr_seq run" "run \<in> set (sn_runs sn)" "gr_gate run = g" "gr_config run = gc_sha cfg"
    using latest_run [OF run(1)] watermark_bound [OF r] by auto
  then show ?thesis unfolding satisfied_for_def using gate run(2-5) later by blast
qed

lemma pass_satisfies:
  assumes "evaluateAttempt ae cfg sn = Inr a" and "at_result a = Res_Pass"
  shows "at_required a \<noteq> [] \<and> at_caps a = [] \<and> applicable_rules (map evidence_rule_of (sn_rules sn)) (sn_events sn) \<noteq> [] \<and>
    (\<forall>r\<in>set (applicable_rules (map evidence_rule_of (sn_rules sn)) (sn_events sn)). \<forall>g\<in>set (er_gates r).
       g \<in> set (at_required a) \<and> satisfied_for ae cfg sn r g)"
proof -
  let ?rq = "selectShadowRequirements sn cfg" and ?rules = "map evidence_rule_of (sn_rules sn)"
  note a = attempt_Inr [OF assms(1)]
  have "fst (resolveShadowPrecedence (length (rq_rules ?rq)) (length (at_required a)) (map (cl_state \<circ> snd) (at_gates a)) (at_caps a) None) = Res_Pass"
    using a assms(2) by (metis fst_conv)
  from precedence_pass [OF this] have p: "rq_rules ?rq \<noteq> []" "at_required a \<noteq> []" "at_caps a = []"
      "\<forall>x\<in>set (at_gates a). cl_state (snd x) = Fresh_Pass" by auto
  from a p(1) have "foldE (evaluate_gate ae cfg sn ?rq) (at_required a) [] = Inr (at_gates a)" by blast
  from evaluate_gates [OF this] have gs: "map fst (at_gates a) = at_required a"
      "\<forall>x\<in>set (at_gates a). gate_evidence ae cfg sn ?rq (fst x) (snd x)" by auto
  have app: "set (rq_rules ?rq) = set (applicable_rules ?rules (sn_events sn))"
    by (simp add: selectShadowRequirements_def selection_parts(2))
  have req: "at_required a = required_gates ?rules (gc_path_rules cfg) (sn_events sn)"
    using a by (simp add: selectShadowRequirements_def selection_parts(1))
  have "g \<in> set (at_required a) \<and> satisfied_for ae cfg sn r g"
    if r: "r \<in> set (applicable_rules ?rules (sn_events sn))" and g: "g \<in> set (er_gates r)" for r g
  proof
    show "g \<in> set (at_required a)" unfolding req by (rule applicable_gate_required [OF r g])
    then have "g \<in> fst ` set (at_gates a)" using gs(1) by (metis list.set_map)
    then obtain x where x: "x \<in> set (at_gates a)" "fst x = g" by blast
    show "satisfied_for ae cfg sn r g"
      by (rule fresh_satisfies [OF r g refl refl, of ae cfg "snd x"]) (use x gs(2) p(4) in auto)
  qed
  moreover have "applicable_rules ?rules (sn_events sn) \<noteq> []" using p(1) app by force
  ultimately show ?thesis using p by blast
qed

text \<open>C0. An evaluation answers pass only when a rule applies, gates are required, no capability is missing, and every gate of
  every applicable rule is satisfied: there is a recorded passing run of it under this configuration, newer than the first
  sight of the rule, with the worktree digest it was recorded with, and no later event of the session is of unknown effect
  or touches a path the rule names.\<close>

theorem pass_means_fresh:
  assumes "evaluateAttempt ae cfg sn = Inr a" and "at_result a = Res_Pass"
  shows "at_required a \<noteq> [] \<and> at_caps a = [] \<and> applicable_rules (map evidence_rule_of (sn_rules sn)) (sn_events sn) \<noteq> [] \<and>
    (\<forall>r\<in>set (applicable_rules (map evidence_rule_of (sn_rules sn)) (sn_events sn)). \<forall>g\<in>set (er_gates r).
       g \<in> set (at_required a) \<and> satisfied_for ae cfg sn r g)"
  by (rule pass_satisfies [OF assms])

definition sample_rule :: rule_snapshot where
  "sample_rule = \<lparr> sr_memory = js ''m1'', sr_id = js ''tests'', sr_revision = 1, sr_level = Warn_Intent, sr_gates = [js ''unit''],
     sr_paths = [js ''src/**''], sr_watermark = Some (3, 3) \<rparr>"

definition sample_run :: gate_run where
  "sample_run = \<lparr> gr_gate = js ''unit'', gr_seq = 4, gr_mutation_seq = 3, gr_config = js ''c0ffee'', gr_parser = js ''node-test'',
     gr_parser_version = 1, gr_total = Some 3, gr_pass = Some 3, gr_fail = Some 0, gr_skip = Some 0, gr_reasons_complete = Some True,
     gr_digest = Some (js ''d1''), gr_digest_version = Some 2, gr_paths_sha = Some (js ''s1''), gr_capture = Cap_Complete \<rparr>"

definition sample_capability :: capability_row where
  "sample_capability = \<lparr> cr_client = js ''claude-code'', cr_version = None, cr_post = Some True, cr_failure = Some True,
     cr_file = Some True, cr_structured = Some True, cr_stop = Some True, cr_blocking = Some True, cr_adapter = 1,
     cr_settings = Some (js ''claude-settings:governance-gate''), cr_session = Some (js ''s''), cr_heartbeat = Some (js ''t''),
     cr_probe = Some (js ''hook-observation'') \<rparr>"

definition sample_snapshot :: snapshot where
  "sample_snapshot = \<lparr> sn_sequence = (4, 3), sn_rules = [sample_rule],
     sn_events = [\<lparr> ee_seq = 1, ee_mutation_seq = 1, ee_class = Mut_Scoped, ee_paths = [js ''src/a.ts''] \<rparr>,
       \<lparr> ee_seq = 2, ee_mutation_seq = 2, ee_class = Mut_Unknown, ee_paths = [] \<rparr>,
       \<lparr> ee_seq = 3, ee_mutation_seq = 3, ee_class = Mut_Scoped, ee_paths = [js ''src/a.ts''] \<rparr>,
       \<lparr> ee_seq = 4, ee_mutation_seq = 3, ee_class = Mut_None, ee_paths = [] \<rparr>],
     sn_runs = [sample_run], sn_capability = Some sample_capability \<rparr>"

definition sample_config :: loaded_config where
  "sample_config = \<lparr> gc_sha = js ''c0ffee'', gc_level = Advise, gc_gates = [(js ''unit'', sample_gate)],
     gc_path_rules = [\<lparr> pr_paths = [js ''src/**''], pr_require = [js ''unit''] \<rparr>] \<rparr>"

definition sample_attempt_env :: attempt_env where
  "sample_attempt_env = \<lparr> ae_late = (\<lambda>_. False),
     ae_capture = (\<lambda>ps. \<lparr> wd_complete = True, wd_digest = Some (js ''d1''), wd_version = 2, wd_paths_sha = js ''s1'', wd_reason = None \<rparr>),
     ae_date_ms = (\<lambda>_. None), ae_now = 0, ae_client = js ''claude-code'', ae_session = js ''s'', ae_stop_active = False \<rparr>"

lemmas glob_eval = normalizePattern_def slashed_def path_normalize_def path_isAbsolute_def slash_def dot_def dotdot_def
  starts_with_def globRegex_def pathMatchesPatterns_def widened_def re_full_def Unit_def is_high_def is_line_terminator_def

lemmas evidence_eval = changed_paths_def unknown_among_def applicable_rules_def selected_path_rules_def required_gates_def
  relevant_paths_def gate_watermark_def selectEvidenceRequirements_def star_star_def mutationIntersects_def
  selectLatestEligibleGateRun_def classifyGateEvidence_def parserState_def impossible_counts_def policy_broken_def
  validCount_def verdict_of_def parser_name_def NODE_TEST_PARSER_VERSION_def EXIT_ONLY_PARSER_VERSION_def
  WORKTREE_DIGEST_V2_VERSION_def

lemma sample_src: "pathMatchesPatterns (js ''src/a.ts'') [js ''src/**'']" "normalizePattern (js ''src/a.ts'') = js ''src/a.ts''"
  "normalizePattern (js ''src/**'') = js ''src/**''"
  by (simp_all add: glob_eval js_def)

lemma sample_requirements:
  "selectShadowRequirements sample_snapshot sample_config = \<lparr> rq_rules = [evidence_rule_of sample_rule], rq_gates = [js ''unit''],
     rq_paths = [(js ''unit'', [js ''src/**''])], rq_watermarks = [(js ''unit'', 3)], rq_changed = [js ''src/a.ts''],
     rq_unknown = True \<rparr>"
  by (simp add: selectShadowRequirements_def sample_snapshot_def sample_config_def evidence_eval sample_src evidence_rule_of_def
      sample_rule_def Let_def)

lemma sample_gate_fresh:
  "classifyGateEvidence (selectLatestEligibleGateRun (js ''unit'') (js ''c0ffee'') 3 [sample_run]) (policy_of sample_gate) ps
    (sn_events sample_snapshot) (Some (ae_capture sample_attempt_env ps)) = verdict_of Fresh_Pass R_Fresh_Pass sample_run"
  by (simp add: sample_run_def sample_snapshot_def sample_attempt_env_def sample_gate_def policy_of_def evidence_eval)

lemma sample_attempt:
  "\<exists>a. evaluateAttempt sample_attempt_env sample_config sample_snapshot = Inr a \<and> at_result a = Res_Pass"
proof -
  have late: "check_deadline sample_attempt_env st = Inr ()" for st by (simp add: check_deadline_def sample_attempt_env_def)
  have gate: "evaluate_gate sample_attempt_env sample_config sample_snapshot (selectShadowRequirements sample_snapshot sample_config)
      (js ''unit'') [] = Inr [(js ''unit'', verdict_of Fresh_Pass R_Fresh_Pass sample_run)]"
    unfolding evaluate_gate_def late sample_requirements using sample_gate_fresh [of "[js ''src/**'']"]
    by (simp add: sample_config_def Let_def sample_attempt_env_def sample_snapshot_def digestFault_def WORKTREE_DIGEST_V2_VERSION_def)
  have adapter: "assertSupportedAdapter sample_snapshot = Inr ()"
    by (simp add: assertSupportedAdapter_def sample_snapshot_def sample_capability_def CLAUDE_ADAPTER_VERSION_def)
  have caps: "cs_reasons (resolveCapabilityStatus (ae_date_ms sample_attempt_env) (sn_capability sample_snapshot)
      (ae_client sample_attempt_env) (ae_session sample_attempt_env) (ae_now sample_attempt_env) True) = []"
    by (simp add: resolveCapabilityStatus_def sample_snapshot_def sample_attempt_env_def sample_capability_def REASON_PRIORITY_def
        currentHeartbeat_def flag_def Let_def)
  show ?thesis
    unfolding evaluateAttempt_def late bindE.simps Let_def adapter caps
    by (simp add: sample_requirements gate [unfolded sample_requirements] resolveShadowPrecedence_def verdict_of_def)
qed

theorem pass_means_fresh_witness:
  "\<exists>a r. evaluateAttempt sample_attempt_env sample_config sample_snapshot = Inr a \<and> at_result a = Res_Pass \<and>
    r \<in> set (applicable_rules (map evidence_rule_of (sn_rules sample_snapshot)) (sn_events sample_snapshot)) \<and>
    satisfied_for sample_attempt_env sample_config sample_snapshot r (js ''unit'')"
proof -
  obtain a where a: "evaluateAttempt sample_attempt_env sample_config sample_snapshot = Inr a" "at_result a = Res_Pass"
    using sample_attempt by blast
  have r: "evidence_rule_of sample_rule \<in> set (applicable_rules (map evidence_rule_of (sn_rules sample_snapshot)) (sn_events sample_snapshot))"
    using sample_requirements selection_parts(2) unfolding selectShadowRequirements_def
    by (metis list.set_intros(1) requirements.select_convs(1))
  moreover have "js ''unit'' \<in> set (er_gates (evidence_rule_of sample_rule))" by (simp add: evidence_rule_of_def sample_rule_def)
  ultimately show ?thesis using pass_means_fresh [OF a] a by blast
qed

end
