(* ===== verification/Governance_Store.thy ===== *)
theory Governance_Store
  imports Governance_Verdict Memory_Rows Tables
begin

text \<open>
  The tables of governance and the transactions on them: \<open>src/governance/recorder-store.ts\<close>,
  \<open>shadow-snapshot-store.ts\<close>, \<open>shadow-verdict-store.ts\<close>, \<open>governance-warning-audit.ts\<close>, \<open>governance-client-observation.ts\<close>, the evidence half of
  \<open>repository-cleanup.ts\<close>, and the schema of \<open>src/db/governance-schema.ts\<close>.  Columns that no decision reads (the
  command text and its hashes, durations, diagnostics) are left out.  The active \<open>pre_exit\<close> rules, which live in the
  table of memories, are the field \<open>gv_rules\<close>.
\<close>

section \<open>Rows\<close>

datatype hook_event = Post_Tool_Use | Post_Tool_Use_Failure | Hook_File_Changed

record event_insert =
  gi_project :: jstr
  gi_session :: jstr
  gi_client :: jstr
  gi_version :: "jstr option"
  gi_installation :: jstr
  gi_hook :: hook_event
  gi_tool_use :: "jstr option"
  gi_fingerprint :: "jstr option"
  gi_received :: jstr
  gi_class :: mutation_class
  gi_paths :: "jstr list"
  gi_adapter :: int
  gi_capture :: capture_status
  gi_reason :: "jstr option"
  gi_structured :: "bool option"

record event_row = event_insert +
  ge_seq :: int
  ge_mutation_seq :: int

record run_row =
  rw_project :: jstr
  rw_session :: jstr
  rw_created :: jstr
  rw_run :: gate_run

datatype audit_entry =
    Recorder_Incident jstr "jstr option" "int option" jstr
  | Rule_Watermark jstr jstr int int int
  | Stop_Verdict jstr attempt
  | Warning_Emitted jstr jstr
  | Warning_Suppressed jstr jstr
  | Retention_Run nat nat

record audit_row =
  au_id :: int
  au_project :: jstr
  au_entry :: audit_entry

record client_row =
  cl_project :: jstr
  cl_installation :: jstr
  cl_row :: capability_row

record gov_store =
  gv_events :: "event_row list"
  gv_next_event :: int
  gv_runs :: "run_row list"
  gv_audit :: "audit_row list"
  gv_next_audit :: int
  gv_meta :: "(jstr \<times> int) list"
  gv_clients :: "client_row list"
  gv_rules :: "(jstr \<times> rule_snapshot) list"

datatype gov_error = Retention_Out_Of_Range | Constraint_Failed | Shadow shadow_fault

section \<open>Recording\<close>

definition dedupedEvent :: "event_insert \<Rightarrow> gov_store \<Rightarrow> event_row option" where
  "dedupedEvent ev gs =
    (case (case gi_tool_use ev of
         None \<Rightarrow> None
       | Some t \<Rightarrow> find (\<lambda>e. gi_client e = gi_client ev \<and> gi_session e = gi_session ev \<and> gi_tool_use e = Some t \<and> gi_hook e = gi_hook ev)
           (gv_events gs)) of
       Some e \<Rightarrow> Some e
     | None \<Rightarrow>
         if gi_hook ev = Hook_File_Changed \<and> gi_fingerprint ev \<noteq> None
         then find (\<lambda>e. gi_client e = gi_client ev \<and> gi_session e = gi_session ev \<and> gi_hook e = Hook_File_Changed \<and>
           gi_fingerprint e = gi_fingerprint ev) (gv_events gs)
         else None)"

definition isCorrelatedMutation :: "event_insert \<Rightarrow> gov_store \<Rightarrow> bool" where
  "isCorrelatedMutation ev gs \<longleftrightarrow> gi_tool_use ev \<noteq> None \<and> gi_class ev = Mut_Scoped \<and>
     list_ex (\<lambda>e. gi_project e = gi_project ev \<and> gi_client e = gi_client ev \<and> gi_session e = gi_session ev \<and>
       gi_tool_use e = gi_tool_use ev \<and> gi_hook e \<noteq> gi_hook ev \<and> gi_class e = Mut_Scoped \<and>
       sort (gi_paths e) = sort (gi_paths ev)) (gv_events gs)"

definition mutationSequenceKey :: "host \<Rightarrow> jstr \<Rightarrow> jstr" where
  "mutationSequenceKey h project = js ''governance_mutation_seq:'' @ sha256 h (utf8_encode project)"

definition retentionKey :: "host \<Rightarrow> jstr \<Rightarrow> jstr" where
  "retentionKey h project = js ''governance_evidence_days:'' @ sha256 h (utf8_encode project)"

definition of_project :: "jstr \<Rightarrow> gov_store \<Rightarrow> event_row list" where
  "of_project project gs = filter (\<lambda>e. gi_project e = project) (gv_events gs)"

definition max_of :: "(event_row \<Rightarrow> int) \<Rightarrow> event_row list \<Rightarrow> int" where
  "max_of f es = fold (\<lambda>e m. max m (f e)) es 0"

definition currentMutationSequence :: "host \<Rightarrow> jstr \<Rightarrow> gov_store \<Rightarrow> int" where
  "currentMutationSequence h project gs =
    (case map_of (gv_meta gs) (mutationSequenceKey h project) of
       Some n \<Rightarrow> n
     | None \<Rightarrow> max_of ge_mutation_seq (of_project project gs))"

definition put_meta :: "jstr \<Rightarrow> int \<Rightarrow> gov_store \<Rightarrow> gov_store" where
  "put_meta k v gs = gs\<lparr> gv_meta := t_put fst (k, v) (gv_meta gs) \<rparr>"

definition evidenceDaysOutOfRange :: "int \<Rightarrow> bool" where
  "evidenceDaysOutOfRange days \<longleftrightarrow> days < 1 \<or> 30 < days"

definition persistEvidenceDays :: "host \<Rightarrow> jstr \<Rightarrow> int \<Rightarrow> gov_store \<Rightarrow> gov_error + gov_store" where
  "persistEvidenceDays h project days gs =
    (if evidenceDaysOutOfRange days then Inl Retention_Out_Of_Range else Inr (put_meta (retentionKey h project) days gs))"

definition persistedEvidenceDays :: "host \<Rightarrow> jstr \<Rightarrow> gov_store \<Rightarrow> int option" where
  "persistedEvidenceDays h project gs =
    (case map_of (gv_meta gs) (retentionKey h project) of
       Some n \<Rightarrow> if 1 \<le> n \<and> n \<le> 30 then Some n else None
     | None \<Rightarrow> None)"

text \<open>\<open>COALESCE(excluded.x, old.x)\<close>.\<close>

definition coalesce :: "'a option \<Rightarrow> 'a option \<Rightarrow> 'a option" where
  "coalesce new old = (case new of None \<Rightarrow> old | Some _ \<Rightarrow> new)"

definition find_client :: "jstr \<Rightarrow> jstr \<Rightarrow> gov_store \<Rightarrow> client_row option" where
  "find_client project installation gs = find (\<lambda>c. cl_project c = project \<and> cl_installation c = installation) (gv_clients gs)"

definition empty_capability :: "jstr \<Rightarrow> capability_row" where
  "empty_capability client = \<lparr> cr_client = client, cr_version = None, cr_post = None, cr_failure = None, cr_file = None,
     cr_structured = None, cr_stop = None, cr_blocking = None, cr_adapter = 1, cr_settings = None, cr_session = None,
     cr_heartbeat = None, cr_probe = None \<rparr>"

definition upsert_client :: "jstr \<Rightarrow> jstr \<Rightarrow> jstr \<Rightarrow> (capability_row \<Rightarrow> capability_row) \<Rightarrow> gov_store \<Rightarrow> gov_store" where
  "upsert_client project installation client f gs =
    (let old = (case find_client project installation gs of None \<Rightarrow> empty_capability client | Some c \<Rightarrow> cl_row c)
     in gs\<lparr> gv_clients := t_put (\<lambda>c. (cl_project c, cl_installation c))
          \<lparr> cl_project = project, cl_installation = installation, cl_row = f old \<rparr> (gv_clients gs) \<rparr>)"

definition hook_observation :: jstr where "hook_observation = js ''hook-observation''"

definition updateClientState :: "event_insert \<Rightarrow> gov_store \<Rightarrow> gov_store" where
  "updateClientState ev gs = upsert_client (gi_project ev) (gi_installation ev) (gi_client ev) (\<lambda>cr. cr\<lparr>
     cr_client := gi_client ev, cr_version := coalesce (gi_version ev) (cr_version cr),
     cr_post := coalesce (if gi_hook ev = Post_Tool_Use then Some True else None) (cr_post cr),
     cr_failure := coalesce (if gi_hook ev = Post_Tool_Use_Failure then Some True else None) (cr_failure cr),
     cr_file := coalesce (if gi_hook ev = Hook_File_Changed then Some True else None) (cr_file cr),
     cr_structured := coalesce (gi_structured ev) (cr_structured cr),
     cr_adapter := gi_adapter ev, cr_session := Some (gi_session ev), cr_heartbeat := Some (gi_received ev),
     cr_probe := Some hook_observation \<rparr>) gs"

definition observeStop :: "jstr \<Rightarrow> jstr \<Rightarrow> jstr \<Rightarrow> jstr option \<Rightarrow> int \<Rightarrow> jstr \<Rightarrow> jstr \<Rightarrow> gov_store \<Rightarrow> gov_store" where
  "observeStop project installation client version adapter sessionId occurredAt gs =
    upsert_client project installation client (\<lambda>cr. cr\<lparr> cr_client := client, cr_version := coalesce version (cr_version cr),
      cr_stop := coalesce (Some True) (cr_stop cr), cr_adapter := adapter, cr_session := Some sessionId,
      cr_heartbeat := Some occurredAt, cr_probe := Some hook_observation \<rparr>) gs"

text \<open>\<open>governance-client-observation.ts\<close>: what a request on the synchronous route proves, and what an unpaired asynchronous
  Stop takes back.\<close>

definition GOVERNANCE_SETTINGS_SOURCE :: jstr where "GOVERNANCE_SETTINGS_SOURCE = js ''claude-settings:governance-gate''"
definition ASYNC_PAIR_MAX_AGE_MS :: int where "ASYNC_PAIR_MAX_AGE_MS = 5000"
definition gate_observation :: jstr where "gate_observation = js ''governance-gate-observation''"

definition observeGovernanceGate :: "jstr \<Rightarrow> jstr \<Rightarrow> jstr \<Rightarrow> jstr option \<Rightarrow> jstr \<Rightarrow> jstr \<Rightarrow> gov_store \<Rightarrow> gov_store" where
  "observeGovernanceGate project installation client version sessionId occurredAt gs =
    upsert_client project installation client (\<lambda>cr. cr\<lparr> cr_client := client, cr_version := coalesce version (cr_version cr),
      cr_structured := Some True, cr_stop := Some True, cr_blocking := Some True, cr_adapter := CLAUDE_ADAPTER_VERSION,
      cr_settings := Some GOVERNANCE_SETTINGS_SOURCE, cr_session := Some sessionId, cr_heartbeat := Some occurredAt,
      cr_probe := Some gate_observation \<rparr>) gs"

definition reconcileAsyncStop :: "(jstr \<Rightarrow> int option) \<Rightarrow> jstr \<Rightarrow> jstr \<Rightarrow> jstr \<Rightarrow> jstr \<Rightarrow> gov_store \<Rightarrow> gov_store" where
  "reconcileAsyncStop date_ms project installation sessionId occurredAt gs =
    (case find_client project installation gs of
       None \<Rightarrow> gs
     | Some c \<Rightarrow>
         let cr = cl_row c;
             age = (case (cr_heartbeat cr, date_ms occurredAt) of
               (Some t, Some now) \<Rightarrow> map_option (\<lambda>beat. now - beat) (date_ms t) | _ \<Rightarrow> None);
             paired = (cr_probe cr = Some gate_observation \<and> cr_session cr = Some sessionId \<and>
               (case age of None \<Rightarrow> False | Some a \<Rightarrow> 0 \<le> a \<and> a \<le> ASYNC_PAIR_MAX_AGE_MS))
         in if cr_settings cr \<noteq> Some GOVERNANCE_SETTINGS_SOURCE \<and> cr_blocking cr \<noteq> Some True then gs
            else if paired then gs
            else gs\<lparr> gv_clients := t_update (\<lambda>x. cl_project x = project \<and> cl_installation x = installation)
                   (\<lambda>x. x\<lparr> cl_row := (cl_row x)\<lparr> cr_structured := Some False, cr_blocking := Some False, cr_settings := None,
                     cr_probe := Some (js ''governance-gate-not-observed'') \<rparr> \<rparr>) (gv_clients gs) \<rparr>)"

definition add_audit :: "jstr \<Rightarrow> audit_entry \<Rightarrow> gov_store \<Rightarrow> gov_store" where
  "add_audit project entry gs = gs\<lparr>
     gv_audit := gv_audit gs @ [\<lparr> au_id = gv_next_audit gs, au_project = project, au_entry = entry \<rparr>],
     gv_next_audit := gv_next_audit gs + 1 \<rparr>"

datatype record_status = Recorded | Deduplicated

record record_result =
  rr_status :: record_status
  rr_seq :: int
  rr_mutation_seq :: int
  rr_runs :: nat

definition gate_incidents :: "event_insert \<Rightarrow> int \<Rightarrow> (gate_run \<times> jstr option) list \<Rightarrow> gov_store \<Rightarrow> gov_store" where
  "gate_incidents ev seq grs gs = fold (\<lambda>(r, reason) s. case reason of None \<Rightarrow> s
     | Some x \<Rightarrow> add_audit (gi_project ev) (Recorder_Incident (gi_session ev) (Some (gr_gate r)) (Some seq) x) s) grs gs"

definition capture_text :: "capture_status \<Rightarrow> jstr" where
  "capture_text c = (case c of Cap_Complete \<Rightarrow> js ''complete'' | Cap_Failed \<Rightarrow> js ''failed'' | Cap_Incomplete \<Rightarrow> js ''incomplete''
     | Cap_Adapter_Error \<Rightarrow> js ''adapter_error'')"

definition capture_incident :: "event_insert \<Rightarrow> int \<Rightarrow> gov_store \<Rightarrow> gov_store" where
  "capture_incident ev seq gs =
    (if gi_capture ev = Cap_Incomplete \<or> gi_capture ev = Cap_Adapter_Error
     then add_audit (gi_project ev) (Recorder_Incident (gi_session ev) None (Some seq)
       (case gi_reason ev of None \<Rightarrow> capture_text (gi_capture ev) | Some r \<Rightarrow> r)) gs
     else gs)"

definition increments :: "event_insert \<Rightarrow> gov_store \<Rightarrow> bool" where
  "increments ev gs \<longleftrightarrow> gi_class ev \<noteq> Mut_None \<and> \<not> isCorrelatedMutation ev gs"

definition insert_event :: "event_insert \<Rightarrow> int \<Rightarrow> (gate_run \<times> jstr option) list \<Rightarrow> gov_store \<Rightarrow> gov_store" where
  "insert_event ev mutationSeq grs gs = gs\<lparr>
     gv_events := gv_events gs @ [event_insert.extend ev \<lparr> ge_seq = gv_next_event gs, ge_mutation_seq = mutationSeq \<rparr>],
     gv_next_event := gv_next_event gs + 1,
     gv_runs := gv_runs gs @ map (\<lambda>(r, _). \<lparr> rw_project = gi_project ev, rw_session = gi_session ev, rw_created = gi_received ev,
       rw_run = r\<lparr> gr_seq := gv_next_event gs, gr_mutation_seq := mutationSeq \<rparr> \<rparr>) grs \<rparr>"

definition recordToolEvent ::
  "host \<Rightarrow> event_insert \<Rightarrow> (gate_run \<times> jstr option) list \<Rightarrow> int \<Rightarrow> gov_store \<Rightarrow> gov_error + record_result \<times> gov_store" where
  "recordToolEvent h ev grs days gs =
    (case dedupedEvent ev gs of
       Some e \<Rightarrow> bindE (persistEvidenceDays h (gi_project ev) days gs) (\<lambda>s1.
         Inr (\<lparr> rr_status = Deduplicated, rr_seq = ge_seq e, rr_mutation_seq = ge_mutation_seq e, rr_runs = 0 \<rparr>, updateClientState ev s1))
     | None \<Rightarrow>
         let inc = increments ev gs;
             mutationSeq = currentMutationSequence h (gi_project ev) gs + (if inc then 1 else 0);
             s1 = (if inc then put_meta (mutationSequenceKey h (gi_project ev)) mutationSeq gs else gs)
         in bindE (persistEvidenceDays h (gi_project ev) days s1) (\<lambda>s2.
            bindE (ensure (distinct (map (gr_gate \<circ> fst) grs)) Constraint_Failed) (\<lambda>_.
            let eventSeq = gv_next_event s2;
                s3 = capture_incident ev eventSeq (gate_incidents ev eventSeq grs (insert_event ev mutationSeq grs s2))
            in Inr (\<lparr> rr_status = Recorded, rr_seq = eventSeq, rr_mutation_seq = mutationSeq, rr_runs = length grs \<rparr>,
                    updateClientState ev s3))))"

section \<open>Snapshots and watermarks\<close>

definition shadowSequence :: "host \<Rightarrow> jstr \<Rightarrow> gov_store \<Rightarrow> int \<times> int" where
  "shadowSequence h project gs = (max_of ge_seq (of_project project gs), currentMutationSequence h project gs)"

definition active_rules :: "jstr \<Rightarrow> gov_store \<Rightarrow> rule_snapshot list" where
  "active_rules project gs = map snd (filter (\<lambda>(p, r). p = project) (gv_rules gs))"

text \<open>The watermark rows whose linked memory is an active rule of the project: rule, revision, memory and sequence.\<close>

definition watermark_rows :: "jstr \<Rightarrow> gov_store \<Rightarrow> (jstr \<times> int \<times> int \<times> int) list" where
  "watermark_rows project gs = List.map_filter (\<lambda>a. if au_project a \<noteq> project then None else
     (case au_entry a of
        Rule_Watermark rule memory revision e m \<Rightarrow>
          if memory \<in> set (map sr_memory (active_rules project gs)) then Some (rule, revision, e, m) else None
      | _ \<Rightarrow> None)) (gv_audit gs)"

definition matching_watermarks :: "rule_snapshot \<Rightarrow> (jstr \<times> int \<times> int \<times> int) list \<Rightarrow> (int \<times> int) list" where
  "matching_watermarks r ws = List.map_filter (\<lambda>(i, revision, em). if i = sr_id r \<and> revision = sr_revision r then Some em else None) ws"

definition MAX_ACTIVE_RULES :: nat where "MAX_ACTIVE_RULES = 64"
definition MAX_SESSION_EVENTS :: nat where "MAX_SESSION_EVENTS = 4096"
definition MAX_CANDIDATE_RUNS :: nat where "MAX_CANDIDATE_RUNS = 2048"

fun rule_with_watermark :: "(jstr \<times> int \<times> int \<times> int) list \<Rightarrow> rule_snapshot \<Rightarrow> rule_snapshot list \<Rightarrow> shadow_fault + rule_snapshot list" where
  "rule_with_watermark ws r acc =
    (case matching_watermarks r ws of
       [] \<Rightarrow> Inr (acc @ [r\<lparr> sr_watermark := None \<rparr>])
     | [w] \<Rightarrow> Inr (acc @ [r\<lparr> sr_watermark := Some w \<rparr>])
     | _ \<Rightarrow> Inl Evidence_Malformed)"

definition evidence_event_of :: "event_row \<Rightarrow> evidence_event" where
  "evidence_event_of e = \<lparr> ee_seq = ge_seq e, ee_mutation_seq = ge_mutation_seq e, ee_class = gi_class e, ee_paths = gi_paths e \<rparr>"

definition session_events :: "jstr \<Rightarrow> jstr \<Rightarrow> gov_store \<Rightarrow> evidence_event list" where
  "session_events project sessionId gs =
    map evidence_event_of (sort_key ge_seq (filter (\<lambda>e. gi_project e = project \<and> gi_session e = sessionId) (gv_events gs)))"

definition session_runs :: "jstr \<Rightarrow> jstr \<Rightarrow> jstr \<Rightarrow> gov_store \<Rightarrow> gate_run list" where
  "session_runs project sessionId configSha gs =
    sort_key (\<lambda>r. - gr_seq r) (sort_key gr_gate (map rw_run
      (filter (\<lambda>r. rw_project r = project \<and> rw_session r = sessionId \<and> gr_config (rw_run r) = configSha) (gv_runs gs))))"

definition readShadowSnapshot :: "host \<Rightarrow> jstr \<Rightarrow> jstr \<Rightarrow> jstr \<Rightarrow> jstr \<Rightarrow> gov_store \<Rightarrow> shadow_fault + snapshot" where
  "readShadowSnapshot h project sessionId installation configSha gs =
    bindE (ensure (length (active_rules project gs) \<le> MAX_ACTIVE_RULES) Serialization_Bound_Exceeded) (\<lambda>_.
    bindE (ensure (length (watermark_rows project gs) \<le> 2 * MAX_ACTIVE_RULES) Serialization_Bound_Exceeded) (\<lambda>_.
    bindE (foldE (rule_with_watermark (watermark_rows project gs)) (active_rules project gs) []) (\<lambda>rules.
    bindE (ensure (length (session_events project sessionId gs) \<le> MAX_SESSION_EVENTS) Serialization_Bound_Exceeded) (\<lambda>_.
    bindE (ensure (length (session_runs project sessionId configSha gs) \<le> MAX_CANDIDATE_RUNS) Serialization_Bound_Exceeded) (\<lambda>_.
      Inr \<lparr> sn_sequence = shadowSequence h project gs, sn_rules = rules, sn_events = session_events project sessionId gs,
            sn_runs = session_runs project sessionId configSha gs,
            sn_capability = map_option cl_row (find_client project installation gs) \<rparr>)))))"

text \<open>One rule of \<open>ensureShadowRuleWatermarks\<close>: the state is the store and the flag \<open>requiresRefresh\<close>.\<close>

definition ensure_watermark ::
  "(jstr \<times> int \<times> int \<times> int) list \<Rightarrow> jstr \<Rightarrow> int \<times> int \<Rightarrow> rule_snapshot \<Rightarrow> gov_store \<times> bool \<Rightarrow> shadow_fault + gov_store \<times> bool" where
  "ensure_watermark existing project sq r st =
    (case matching_watermarks r existing of
       [] \<Rightarrow>
         if list_ex (\<lambda>a. sr_memory a = sr_memory r \<and> sr_id a = sr_id r \<and> sr_revision a = sr_revision r) (active_rules project (fst st))
         then Inr (add_audit project (Rule_Watermark (sr_id r) (sr_memory r) (sr_revision r) (fst sq) (snd sq)) (fst st), True)
         else Inr (fst st, True)
     | [_] \<Rightarrow> Inr st
     | _ \<Rightarrow> Inl Evidence_Malformed)"

definition ensureShadowRuleWatermarks :: "host \<Rightarrow> jstr \<Rightarrow> rule_snapshot list \<Rightarrow> gov_store \<Rightarrow> shadow_fault + gov_store \<times> bool" where
  "ensureShadowRuleWatermarks h project rules gs =
    bindE (ensure (length rules \<le> MAX_ACTIVE_RULES) Serialization_Bound_Exceeded) (\<lambda>_.
    bindE (ensure (distinct (map (\<lambda>r. rule_key (sr_id r) (sr_revision r)) rules) \<and> list_all (\<lambda>r. 1 \<le> sr_revision r) rules) Rule_Malformed) (\<lambda>_.
    bindE (ensure (length (watermark_rows project gs) \<le> 2 * MAX_ACTIVE_RULES) Serialization_Bound_Exceeded) (\<lambda>_.
      foldE (ensure_watermark (watermark_rows project gs) project (shadowSequence h project gs)) rules (gs, False))))"

section \<open>Verdicts and warnings\<close>

datatype persistence = Persisted int | Retry | Persist_Error shadow_fault

text \<open>\<open>ok\<close> is the answer of \<open>validatedVerdictPayload\<close>, the bounds of the stored text.\<close>

definition persistShadowStopVerdict ::
  "host \<Rightarrow> (attempt \<Rightarrow> bool) \<Rightarrow> jstr \<Rightarrow> jstr \<Rightarrow> attempt \<Rightarrow> nat \<Rightarrow> gov_store \<Rightarrow> persistence \<times> gov_store" where
  "persistShadowStopVerdict h ok project sessionId a retryCount gs =
    (if \<not> ok a then (Persist_Error Serialization_Bound_Exceeded, gs)
     else if shadowSequence h project gs \<noteq> at_sequence a
       then (if retryCount = 0 then Retry else Persist_Error Concurrent_Mutation, gs)
     else (Persisted (gv_next_audit gs), add_audit project (Stop_Verdict sessionId a) gs))"

definition WARNING_MAX_PER_SESSION :: nat where "WARNING_MAX_PER_SESSION = 5"

datatype warning_decision = Emit | Suppress_Duplicate | Suppress_Ceiling

definition emitted :: "jstr \<Rightarrow> jstr \<Rightarrow> gov_store \<Rightarrow> jstr list" where
  "emitted project sessionId gs = List.map_filter (\<lambda>a. if au_project a \<noteq> project then None else
     (case au_entry a of Warning_Emitted s f \<Rightarrow> if s = sessionId then Some f else None | _ \<Rightarrow> None)) (gv_audit gs)"

definition decideWarningEmission :: "jstr \<Rightarrow> jstr list \<Rightarrow> warning_decision" where
  "decideWarningEmission fingerprint emissions =
    (if fingerprint \<in> set emissions then Suppress_Duplicate
     else if WARNING_MAX_PER_SESSION \<le> length emissions then Suppress_Ceiling
     else Emit)"

text \<open>The history is read with \<open>LIMIT 6\<close>.\<close>

definition commitWarning :: "jstr \<Rightarrow> jstr \<Rightarrow> jstr \<Rightarrow> gov_store \<Rightarrow> warning_decision \<times> gov_store" where
  "commitWarning project sessionId fingerprint gs =
    (let decision = decideWarningEmission fingerprint (take 6 (emitted project sessionId gs))
     in (decision, add_audit project (if decision = Emit then Warning_Emitted sessionId fingerprint
           else Warning_Suppressed sessionId fingerprint) gs))"

datatype warn_disposition = Silent | Visible_Unresolved | Visible_Override

definition resolveWarnDisposition :: "effective_mode \<Rightarrow> shadow_result \<Rightarrow> bool \<Rightarrow> warn_disposition" where
  "resolveWarnDisposition mode result overrideValid =
    (if mode \<noteq> Warn_Mode then Silent
     else if overrideValid then Visible_Override
     else if result = Res_Missing \<or> result = Res_Non_Pass \<or> result = Res_Stale then Visible_Unresolved else Silent)"

section \<open>Retention\<close>

text \<open>\<open>cutoff days\<close> is the time so many days ago.  An event stays while a run or an audit row names it.\<close>

definition linked_event :: "audit_entry \<Rightarrow> int option" where
  "linked_event a = (case a of
      Recorder_Incident _ _ e _ \<Rightarrow> e
    | Stop_Verdict _ v \<Rightarrow> (case at_gates v of [(g, c)] \<Rightarrow> if at_required v = [g] then cl_seq c else None | _ \<Rightarrow> None)
    | _ \<Rightarrow> None)"

definition cleanup_project :: "jstr \<Rightarrow> jstr \<Rightarrow> gov_store \<Rightarrow> gov_store" where
  "cleanup_project project cutoff gs =
    (let old_run = (\<lambda>r. rw_project r = project \<and> utf8_encode (rw_created r) < utf8_encode cutoff);
         runs' = filter (\<lambda>r. \<not> old_run r) (gv_runs gs);
         old_event = (\<lambda>e. gi_project e = project \<and> utf8_encode (gi_received e) < utf8_encode cutoff \<and> ge_seq e \<notin> set (map (gr_seq \<circ> rw_run) runs') \<and>
           Some (ge_seq e) \<notin> set (map (linked_event \<circ> au_entry) (gv_audit gs)));
         s1 = gs\<lparr> gv_runs := runs', gv_events := filter (\<lambda>e. \<not> old_event e) (gv_events gs) \<rparr>;
         n = length (filter old_run (gv_runs gs)); m = length (filter old_event (gv_events gs))
     in if 0 < n \<or> 0 < m then add_audit project (Retention_Run n m) s1 else s1)"

definition cleanupEvidence :: "host \<Rightarrow> (int \<Rightarrow> jstr) \<Rightarrow> (jstr \<Rightarrow> int option) \<Rightarrow> int \<Rightarrow> gov_store \<Rightarrow> gov_error + gov_store" where
  "cleanupEvidence h cutoff projectDays defaultDays gs =
    (if evidenceDaysOutOfRange defaultDays then Inl Retention_Out_Of_Range
     else foldE (\<lambda>project s.
         let days = (case projectDays project of Some d \<Rightarrow> d | None \<Rightarrow> (case persistedEvidenceDays h project s of Some d \<Rightarrow> d | None \<Rightarrow> defaultDays))
         in if evidenceDaysOutOfRange days then Inl Retention_Out_Of_Range else Inr (cleanup_project project (cutoff days) s))
       (dedup (map gi_project (gv_events gs) @ map rw_project (gv_runs gs))) gs)"

end
