(* ===== verification/Spec2Isabelle.thy ===== *)
theory Spec2Isabelle
  imports Round_Trip Materializer_Facts Entity_Map Apply_Samples
    Journal_Consumer Sync_Eligibility Free_Form_Store Command_Properties Upkeep_Samples Plan_Properties Governance_Store
begin

text \<open>
  A verification development of Waykeep's memory store (TypeScript, under \<open>src/\<close>).

  \<^bold>\<open>The program.\<close>  Waykeep keeps memories (facts, pitfalls, decisions, \<dots>) of coding assistants in one
  SQLite database.  Memories enter through the \<^emph>\<open>write gateway\<close>, which merges near duplicates and lets a
  newer claim supersede an older one; an assistant reads and edits them as virtual files through the
  \<^emph>\<open>memory tool\<close>; a background worker replicates the shareable ones between machines: the
  \<^emph>\<open>journal\<close> lists what changed here, \<^emph>\<open>eligibility\<close> decides what may leave, and \<^emph>\<open>sync apply\<close> brings in the
  batches of others.  The parts share the database: every operation here takes the record \<open>db\<close> of
  theory \<open>Store\<close> and returns it changed, an error is the value \<open>Inl e\<close> of a sum, and a transaction that
  throws leaves the database it started from.

  \<^bold>\<open>Where is what.\<close>
  \<^item> Foundations: \<open>Prelude\<close> (JavaScript strings as lists of UTF-16 units, errors, \<open>foldE\<close> for loops whose
    body may throw), \<open>Tables\<close> (the locale \<open>keyed_store\<close>: what a primary key gives, interpreted on SQL
    tables and on JavaScript maps), \<open>Vocabulary\<close> (\<open>packages/contract/src/vocabulary.ts\<close>), \<open>Json\<close> and
    \<open>Utf8_Base64\<close> (the standard library the code relies on), \<open>Regex\<close> (a backtracking matcher for
    JavaScript's expressions), \<open>Memory_Rows\<close> (rows and objects of \<open>db/memory-repository/types.ts\<close>,
    \<open>reads.ts\<close>), \<open>Store\<close> (\<open>db/schema.ts\<close>: one record with the rows of every table, the revision
    trigger, INSERT and UPDATE).
  \<^item> Memory tool: \<open>Memory_Paths\<close> (\<open>packages/contract/src/memory-paths.ts\<close>, the router), \<open>Block_Parser\<close>,
    \<open>Materializer\<close> with \<open>Materializer_Facts\<close>, \<open>Render_Cache\<close>, \<open>View_Renderer\<close>, \<open>Free_Form_Store\<close>,
    \<open>Tool_Errors\<close>, \<open>Cas_Edits\<close> (\<open>cas.ts\<close>, \<open>record-updater.ts\<close>, \<open>gateway-planner.ts\<close>) and
    \<open>Command_Handlers\<close> (\<open>command-handlers.ts\<close>, \<open>listings.ts\<close>, \<open>sdk-adapter.ts\<close>), with
    \<open>Command_Facts\<close> and \<open>Command_Properties\<close>; all of \<open>src/memory-tool/\<close>.
  \<^item> Write gateway: \<open>Text_Cleaning\<close> (\<open>utils/validation.ts\<close>), \<open>Text_Tokens\<close> (\<open>utils/similarity.ts\<close>,
    \<open>utils/fts.ts\<close>), \<open>Claims\<close> and \<open>Truth_Apply\<close> (\<open>db/memory-repository/truth.ts\<close>), \<open>Writes\<close>
    (\<open>writes.ts\<close>) with \<open>Writes_Facts\<close> and \<open>Write_Properties\<close>.
  \<^item> Replication: \<open>Journal\<close> and \<open>Journal_Consumer\<close> (\<open>db/memory-repository/journal.ts\<close>,
    \<open>db/sync-apply/journal-consumer.ts\<close>), \<open>Sync_Eligibility\<close>, and \<open>db/sync-apply/\<close> as \<open>Projection\<close>,
    \<open>Sync_Validator\<close>, \<open>Entity_Map\<close>, \<open>Upsert_Apply\<close>, \<open>Apply\<close>, with \<open>Apply_Facts\<close>, \<open>Apply_Events\<close>,
    \<open>Apply_Properties\<close>, \<open>Project_Boundary\<close> and \<open>Apply_Samples\<close>.
  \<^item> Export: \<open>Round_Trip\<close> (\<open>packages/contract/src/round-trip.ts\<close>).

  \<^bold>\<open>What the lemmas show.\<close>  Every fact about a sequence of operations is proved once as a relation between
  the database before and after and composed: the locales \<open>apply_relation\<close> and \<open>batch_relation\<close> of
  \<open>Apply_Facts\<close> are the contract between the statements of the store and the event handlers, with five
  interpretations (unique bindings, untouched journal and files, logs that only grow, counted writes,
  kept counters); \<open>sound_edit\<close> of \<open>Command_Facts\<close> (in scope, keyed, journaled) and \<open>leaves\<close> do the same
  for the memory tool; \<open>conflict_effect\<close> and \<open>merged_row\<close> describe all the gateway may do to a row.
  The round trips rest on the parser lemmas of \<open>Json\<close>, \<open>Round_Trip\<close> and \<open>Materializer_Facts\<close>.

  \<^bold>\<open>Parameters.\<close>  What is not the program's own code is a field of the records \<open>host\<close>
  (\<open>Memory_Rows\<close>: number printing and reading, rounding, SHA-256, SQLite's clock and \<open>julianday\<close>,
  the random ids, the secret scrubber, \<open>toFixed\<close>), \<open>search_env\<close> (\<open>Writes\<close>: the full-text index, the
  embedding model's name and the cosine of two stored vectors) and \<open>tool_env\<close> (\<open>Command_Handlers\<close>: the
  plans and the cache's clock).  A property that needs a law of one of them states it: \<open>fts_ok\<close> (the index
  answers rows of the table), \<open>mono (fl h)\<close> (rounding is monotone); the witnesses instantiate them.

  \<^bold>\<open>Loops and fuel.\<close>  Loops are recursion on their data or have a termination proof by a measure.  Fuel
  occurs in the JSON parser, one unit per nested call, where the length of the text is enough for every
  text the printer makes (\<open>json_parse_stringify\<close>), and in the regular-expression matcher, where the
  length of the subject is enough because a repetition that consumes nothing stops.

  \<^bold>\<open>Not modelled.\<close>  Process and terminal code, sockets, the editor hooks, importers, the daemon, host
  adapters, governance and the packaging of exports; of the database the tables of sessions, plans,
  reminders and telemetry.  Numbers are rationals with the rounding function \<open>fl\<close> of the host, so no claim
  here is about the digits of a double.  SQLite promises no order without ORDER BY; the model reads such
  queries in rowid order, and the properties that could depend on it are stated for every order.

  \<^bold>\<open>Plan.\<close>  Next: the feedback and decay of confidence (\<open>feedback.ts\<close>, \<open>decay.ts\<close>), the plan repository,
  the retrieval queries (\<open>search.ts\<close>, \<open>briefing.ts\<close>), import and export of stores (\<open>portability.ts\<close>), and
  governance.
\<close>

end
